(* ===== verification/Prelude.thy ===== *)
theory Prelude
  imports Complex_Main "HOL-Library.AList" "HOL-Library.Multiset"
begin

text \<open>
  The prelude of the data-seller development: the result type of code that throws, the
  JavaScript containers the components share (\<open>new Set\<close> over an array, the insertion-ordered
  \<open>Map\<close>, a stable \<open>Array.prototype.sort\<close>), decimal rendering of integers and the string
  helpers of the standard library that the source calls.  Nothing here models a file of the
  repository; every component theory imports it.

  Strings.  A JavaScript string is modelled by the byte sequence of its UTF-8 form, a
  \<open>char list\<close>.  Every string operation the modelled code performs (equality, splitting at ASCII
  delimiters, concatenation, prefix tests, ASCII trimming) commutes with UTF-8, and the UTF-8
  encoder of \<open>TextEncoder\<close> / \<open>Buffer.from(s, "utf8")\<close> becomes the identity.
\<close>

named_theorems res_simps \<open>equations of the result type\<close>
named_theorems map_simps \<open>equations of the insertion-ordered map\<close>
named_theorems inv_intros \<open>preservation lemmas of component invariants\<close>

section \<open>Code that throws\<close>

text \<open>\<open>Inl\<close> is the exception, \<open>Inr\<close> the normal result.\<close>

type_synonym ('e, 'a) res = "'e + 'a"

definition res_bind :: "('e, 'a) res \<Rightarrow> ('a \<Rightarrow> ('e, 'b) res) \<Rightarrow> ('e, 'b) res" where
  "res_bind r f = (case r of Inl e \<Rightarrow> Inl e | Inr x \<Rightarrow> f x)"

definition require :: "bool \<Rightarrow> 'e \<Rightarrow> ('e, unit) res" where
  "require b e = (if b then Inr () else Inl e)"

fun res_map_list :: "('a \<Rightarrow> ('e, 'b) res) \<Rightarrow> 'a list \<Rightarrow> ('e, 'b list) res" where
  "res_map_list f [] = Inr []"
| "res_map_list f (x # xs) =
     res_bind (f x) (\<lambda>y. res_bind (res_map_list f xs) (\<lambda>ys. Inr (y # ys)))"

lemma res_bind_simps [simp, res_simps]:
  "res_bind (Inl e) f = Inl e"
  "res_bind (Inr x) f = f x"
  by (simp_all add: res_bind_def)

lemma res_bind_Inr_iff [res_simps]:
  "res_bind r f = Inr y \<longleftrightarrow> (\<exists>x. r = Inr x \<and> f x = Inr y)"
  by (cases r) auto

lemma require_Inr_iff [simp, res_simps]: "require b e = Inr u \<longleftrightarrow> b"
  by (simp add: require_def)

lemma require_Inl_iff [simp, res_simps]: "require b e = Inl e' \<longleftrightarrow> \<not> b \<and> e' = e"
  by (auto simp: require_def)

lemma require_True [simp]: "require True e = Inr ()"
  by (simp add: require_def)

lemma require_False [simp]: "require False e = Inl e"
  by (simp add: require_def)

lemma res_bind_cong [fundef_cong]:
  "r = r' \<Longrightarrow> (\<And>x. r' = Inr x \<Longrightarrow> f x = f' x) \<Longrightarrow> res_bind r f = res_bind r' f'"
  by (cases r') auto

lemma res_map_list_Inr_iff:
  "res_map_list f xs = Inr ys \<longleftrightarrow> list_all2 (\<lambda>x y. f x = Inr y) xs ys"
proof (induction xs arbitrary: ys)
  case Nil
  then show ?case by auto
next
  case (Cons x xs)
  then show ?case by (cases ys) (auto simp: res_bind_Inr_iff)
qed

lemma res_map_list_cong [fundef_cong]:
  "xs = ys \<Longrightarrow> (\<And>x. x \<in> set ys \<Longrightarrow> f x = g x) \<Longrightarrow> res_map_list f xs = res_map_list g ys"
  by (induction xs arbitrary: ys) (auto intro!: res_bind_cong)

lemma res_map_list_total:
  "(\<And>x. x \<in> set xs \<Longrightarrow> \<exists>y. f x = Inr y) \<Longrightarrow> \<exists>ys. res_map_list f xs = Inr ys"
  by (induction xs) fastforce+

section \<open>\<open>new Set(xs)\<close>: the distinct elements in order of first occurrence\<close>

fun js_set_of :: "'a list \<Rightarrow> 'a list" where
  "js_set_of [] = []"
| "js_set_of (x # xs) = x # js_set_of (filter (\<lambda>y. y \<noteq> x) xs)"

lemma set_js_set_of [simp]: "set (js_set_of xs) = set xs"
  by (induction xs rule: js_set_of.induct) auto

lemma distinct_js_set_of [simp]: "distinct (js_set_of xs)"
  by (induction xs rule: js_set_of.induct) auto

lemma js_set_of_distinct: "distinct xs \<Longrightarrow> js_set_of xs = xs"
proof (induction xs)
  case Nil
  then show ?case by simp
next
  case (Cons x xs)
  from Cons.prems have "filter (\<lambda>y. y \<noteq> x) xs = xs"
    by (auto simp: filter_id_conv)
  with Cons show ?case by simp
qed

text \<open>\<open>set.add(x)\<close>.\<close>

definition set_add :: "'a \<Rightarrow> 'a list \<Rightarrow> 'a list" where
  "set_add x xs = (if x \<in> set xs then xs else xs @ [x])"

lemma js_set_of_snoc: "js_set_of (xs @ [x]) = set_add x (js_set_of xs)"
  by (induction xs rule: js_set_of.induct) (auto simp: set_add_def)

lemma js_set_of_idem [simp]: "js_set_of (js_set_of xs) = js_set_of xs"
  by (rule js_set_of_distinct) simp

lemma js_set_of_Nil_iff [simp]: "js_set_of xs = [] \<longleftrightarrow> xs = []"
  by (cases xs) auto

section \<open>\<open>Array.prototype.sort\<close>: a stable sort by a comparison\<close>

text \<open>
  \<open>sort_by le xs\<close> is the stable sort by the total preorder \<open>le\<close> (\<open>le x y\<close> when the
  comparator does not answer a positive number).
\<close>

fun insert_by :: "('a \<Rightarrow> 'a \<Rightarrow> bool) \<Rightarrow> 'a \<Rightarrow> 'a list \<Rightarrow> 'a list" where
  "insert_by le x [] = [x]"
| "insert_by le x (y # ys) = (if le x y then x # y # ys else y # insert_by le x ys)"

fun sort_by :: "('a \<Rightarrow> 'a \<Rightarrow> bool) \<Rightarrow> 'a list \<Rightarrow> 'a list" where
  "sort_by le [] = []"
| "sort_by le (x # xs) = insert_by le x (sort_by le xs)"

lemma set_insert_by [simp]: "set (insert_by le x ys) = insert x (set ys)"
  by (induction ys) auto

lemma set_sort_by [simp]: "set (sort_by le xs) = set xs"
  by (induction xs) auto

lemma length_insert_by [simp]: "length (insert_by le x ys) = Suc (length ys)"
  by (induction ys) auto

lemma length_sort_by [simp]: "length (sort_by le xs) = length xs"
  by (induction xs) auto

lemma mset_insert_by [simp]: "mset (insert_by le x ys) = add_mset x (mset ys)"
  by (induction ys) auto

lemma mset_sort_by [simp]: "mset (sort_by le xs) = mset xs"
  by (induction xs) auto

lemma distinct_insert_by [simp]: "distinct (insert_by le x ys) \<longleftrightarrow> x \<notin> set ys \<and> distinct ys"
  by (induction ys) auto

lemma distinct_sort_by [simp]: "distinct (sort_by le xs) = distinct xs"
  by (induction xs) auto

lemma sorted_insert_by:
  assumes total: "\<And>a b. le a b \<or> le b a" and trans: "\<And>a b c. le a b \<Longrightarrow> le b c \<Longrightarrow> le a c"
  shows "sorted_wrt le ys \<Longrightarrow> sorted_wrt le (insert_by le x ys)"
proof (induction ys)
  case Nil
  then show ?case by simp
next
  case (Cons y ys)
  show ?case
  proof (cases "le x y")
    case True
    with Cons.prems show ?thesis by (auto intro: trans)
  next
    case False
    with total have "le y x" by blast
    with Cons False show ?thesis by auto
  qed
qed

lemma sorted_sort_by:
  assumes "\<And>a b. le a b \<or> le b a" and "\<And>a b c. le a b \<Longrightarrow> le b c \<Longrightarrow> le a c"
  shows "sorted_wrt le (sort_by le xs)"
proof (induction xs)
  case Nil
  then show ?case by simp
next
  case (Cons x xs)
  show ?case
    unfolding sort_by.simps by (rule sorted_insert_by[OF assms Cons.IH])
qed

text \<open>A list sorted by an antisymmetric order is determined by its elements.\<close>

lemma sorted_wrt_mset_unique:
  assumes antisym: "\<And>a b. le a b \<Longrightarrow> le b a \<Longrightarrow> a = b"
  shows "sorted_wrt le xs \<Longrightarrow> sorted_wrt le ys \<Longrightarrow> mset xs = mset ys \<Longrightarrow> xs = ys"
proof (induction xs arbitrary: ys)
  case Nil
  then show ?case by simp
next
  case (Cons x xs)
  then obtain y ys' where ys: "ys = y # ys'"
    by (cases ys) auto
  have "x = y"
  proof (rule ccontr)
    assume ne: "x \<noteq> y"
    from Cons.prems(3) ys have "set (x # xs) = set (y # ys')"
      by (metis set_mset_mset)
    with ne have "y \<in> set xs" "x \<in> set ys'"
      by auto
    with Cons.prems(1,2) ys have "le x y" "le y x" by auto
    with antisym ne show False by blast
  qed
  with Cons ys show ?case by auto
qed

section \<open>The insertion-ordered \<open>Map\<close>\<close>

text \<open>
  A JavaScript \<open>Map\<close> iterates in insertion order; setting a present key keeps its place,
  deleting and setting again moves it to the end.
\<close>

type_synonym ('k, 'v) jsmap = "('k \<times> 'v) list"

definition map_get :: "('k, 'v) jsmap \<Rightarrow> 'k \<Rightarrow> 'v option" where
  "map_get m k = map_of m k"

definition map_set :: "'k \<Rightarrow> 'v \<Rightarrow> ('k, 'v) jsmap \<Rightarrow> ('k, 'v) jsmap" where
  "map_set k v m = AList.update k v m"

definition map_delete :: "'k \<Rightarrow> ('k, 'v) jsmap \<Rightarrow> ('k, 'v) jsmap" where
  "map_delete k m = AList.delete k m"

definition map_keys :: "('k, 'v) jsmap \<Rightarrow> 'k list" where
  "map_keys m = map fst m"

definition map_values :: "('k, 'v) jsmap \<Rightarrow> 'v list" where
  "map_values m = map snd m"

definition map_ok :: "('k, 'v) jsmap \<Rightarrow> bool" where
  "map_ok m \<longleftrightarrow> distinct (map fst m)"

lemma map_get_Nil [simp, map_simps]: "map_get [] k = None"
  by (simp add: map_get_def)

lemma map_get_set [map_simps]: "map_get (map_set k v m) k' = (if k' = k then Some v else map_get m k')"
  by (simp add: map_get_def map_set_def update_conv')

lemma map_get_delete [map_simps]:
  "map_get (map_delete k m) k' = (if k' = k then None else map_get m k')"
  by (simp add: map_get_def map_delete_def delete_conv')

lemma map_ok_Nil [simp, map_simps]: "map_ok []"
  by (simp add: map_ok_def)

lemma map_ok_set [simp, map_simps]: "map_ok m \<Longrightarrow> map_ok (map_set k v m)"
  by (simp add: map_ok_def map_set_def distinct_update)

lemma map_ok_delete [simp, map_simps]: "map_ok m \<Longrightarrow> map_ok (map_delete k m)"
  by (simp add: map_ok_def map_delete_def distinct_delete)

lemma set_map_keys: "set (map_keys m) = {k. map_get m k \<noteq> None}"
  by (force simp: map_keys_def map_get_def map_of_eq_None_iff)

lemma map_get_in_keys: "map_get m k = Some v \<Longrightarrow> k \<in> set (map_keys m)"
  by (simp add: set_map_keys)

lemma map_ok_entries: "map_ok m \<Longrightarrow> (k, v) \<in> set m \<longleftrightarrow> map_get m k = Some v"
  by (simp add: map_ok_def map_get_def)

lemma map_keys_delete [map_simps]: "map_keys (map_delete k m) = filter (\<lambda>k'. k' \<noteq> k) (map_keys m)"
  by (induction m) (auto simp: map_keys_def map_delete_def)

lemma map_keys_set [map_simps]:
  "map_keys (map_set k v m) = (if k \<in> set (map_keys m) then map_keys m else map_keys m @ [k])"
  by (induction m) (auto simp: map_keys_def map_set_def)

lemma length_map_keys [simp]: "length (map_keys m) = length m"
  by (simp add: map_keys_def)

lemma length_map_set [map_simps]:
  "length (map_set k v m) = (if map_get m k = None then Suc (length m) else length m)"
  using map_keys_set[of k v m] length_map_keys[of "map_set k v m"]
  by (simp add: set_map_keys split: if_splits)

lemma length_map_delete [map_simps]:
  assumes "map_ok m" and "map_get m k \<noteq> None"
  shows "Suc (length (map_delete k m)) = length m"
proof -
  have d: "distinct (map_keys m)" using assms(1) by (simp add: map_ok_def map_keys_def)
  have "k \<in> set (map_keys m)" using assms(2) by (simp add: set_map_keys)
  moreover have "filter (\<lambda>k'. k' \<noteq> k) (map_keys m) = removeAll k (map_keys m)"
    by (auto simp: removeAll_filter_not_eq intro!: filter_cong)
  ultimately have "length (filter (\<lambda>k'. k' \<noteq> k) (map_keys m)) = length (map_keys m) - 1"
    using d by (simp add: distinct_remove1_removeAll[symmetric] length_remove1)
  moreover have "length (map_keys m) > 0"
    using \<open>k \<in> set (map_keys m)\<close> by (cases "map_keys m") auto
  ultimately show ?thesis
    by (metis Suc_pred' length_map_keys map_keys_delete)
qed

section \<open>Strings\<close>

definition digit_char :: "nat \<Rightarrow> char" where
  "digit_char d = char_of (48 + d)"

fun string_of_nat :: "nat \<Rightarrow> string" where
  "string_of_nat n =
     (if n < 10 then [digit_char n] else string_of_nat (n div 10) @ [digit_char (n mod 10)])"

declare string_of_nat.simps [simp del]

definition string_of_int :: "int \<Rightarrow> string" where
  "string_of_int i = (if i < 0 then ''-'' @ string_of_nat (nat (- i)) else string_of_nat (nat i))"

definition is_digit :: "char \<Rightarrow> bool" where
  "is_digit c \<longleftrightarrow> 48 \<le> (of_char c :: nat) \<and> (of_char c :: nat) \<le> 57"

definition digit_val :: "char \<Rightarrow> nat" where
  "digit_val c = of_char c - 48"

definition nat_of_digits :: "string \<Rightarrow> nat" where
  "nat_of_digits s = foldl (\<lambda>n c. 10 * n + digit_val c) 0 s"

lemma of_char_digit: "d < 10 \<Longrightarrow> (of_char (digit_char d) :: nat) = 48 + d"
  by (simp add: digit_char_def)

lemma is_digit_digit_char [simp]: "d < 10 \<Longrightarrow> is_digit (digit_char d)"
  by (simp add: is_digit_def of_char_digit)

lemma digit_val_digit_char [simp]: "d < 10 \<Longrightarrow> digit_val (digit_char d) = d"
  by (simp add: digit_val_def of_char_digit)

lemma string_of_nat_digits: "c \<in> set (string_of_nat n) \<Longrightarrow> is_digit c"
proof (induction n rule: string_of_nat.induct)
  case (1 n)
  then show ?case
    by (subst (asm) (2) string_of_nat.simps) (auto split: if_splits)
qed

lemma string_of_nat_ne [simp]: "string_of_nat n \<noteq> []"
  by (subst string_of_nat.simps) simp

lemma nat_of_digits_string_of_nat [simp]: "nat_of_digits (string_of_nat n) = n"
proof (induction n rule: string_of_nat.induct)
  case (1 n)
  then show ?case
    by (subst string_of_nat.simps) (auto simp: nat_of_digits_def)
qed

lemma string_of_nat_inject [simp]: "string_of_nat m = string_of_nat n \<longleftrightarrow> m = n"
  by (metis nat_of_digits_string_of_nat)

lemma minus_not_digit [simp]: "\<not> is_digit (CHR ''-'')"
  by (simp add: is_digit_def)

lemma string_of_int_inject [simp]: "string_of_int i = string_of_int j \<longleftrightarrow> i = j"
proof
  assume eq: "string_of_int i = string_of_int j"
  have hd: "hd (string_of_nat n) \<noteq> CHR ''-''" for n
    by (metis list.set_sel(1) minus_not_digit string_of_nat_digits string_of_nat_ne)
  show "i = j"
  proof (cases "i < 0"; cases "j < 0")
    assume "i < 0" "j < 0"
    with eq show ?thesis by (simp add: string_of_int_def)
  next
    assume "i < 0" "\<not> j < 0"
    with eq have "CHR ''-'' # string_of_nat (nat (- i)) = string_of_nat (nat j)"
      by (simp add: string_of_int_def)
    with hd[of "nat j"] show ?thesis by (metis list.sel(1))
  next
    assume "\<not> i < 0" "j < 0"
    with eq have "string_of_nat (nat i) = CHR ''-'' # string_of_nat (nat (- j))"
      by (simp add: string_of_int_def)
    with hd[of "nat i"] show ?thesis by (metis list.sel(1))
  next
    assume "\<not> i < 0" "\<not> j < 0"
    with eq show ?thesis by (simp add: string_of_int_def)
  qed
qed simp

text \<open>The same over \<open>int\<close>, which evaluation keeps in binary.\<close>

function dec_string :: "int \<Rightarrow> string" where
  "dec_string i =
     (if i < 10 then [digit_char (nat i)] else dec_string (i div 10) @ [digit_char (nat (i mod 10))])"
  by pat_completeness auto

termination
  by (relation "measure nat") (auto simp: nat_div_distrib)

declare dec_string.simps [simp del]

lemma dec_string_of_nat: "dec_string (int n) = string_of_nat n"
proof (induction n rule: string_of_nat.induct)
  case (1 n)
  then show ?case
    by (subst dec_string.simps, subst string_of_nat.simps)
      (simp add: zdiv_int zmod_int nat_mod_distrib)
qed

lemma string_of_nat_code [code]: "string_of_nat n = dec_string (int n)"
  by (simp add: dec_string_of_nat)

lemma string_of_nat_nat [code_unfold]: "string_of_nat (nat i) = dec_string (if i < 0 then 0 else i)"
  using dec_string_of_nat[of "nat i"] dec_string_of_nat[of 0] by (cases "i < 0") simp_all

definition int_of_digits :: "string \<Rightarrow> int" where
  "int_of_digits s = foldl (\<lambda>n c. 10 * n + int (digit_val c)) 0 s"

lemma int_of_digits_eq: "int_of_digits s = int (nat_of_digits s)"
proof -
  have "foldl (\<lambda>n c. 10 * n + int (digit_val c)) (int k) s = int (foldl (\<lambda>n c. 10 * n + digit_val c) k s)" for k
  proof (induction s arbitrary: k)
    case (Cons c s)
    from Cons[of "10 * k + digit_val c"] show ?case by simp
  qed simp
  from this[of 0] show ?thesis by (simp add: int_of_digits_def nat_of_digits_def)
qed

text \<open>\<open>s.startsWith(p)\<close>, \<open>xs.join(sep)\<close>, \<open>s.split(c)\<close>, ASCII \<open>s.trim()\<close> and \<open>s.toLowerCase()\<close>.\<close>

definition starts_with :: "string \<Rightarrow> string \<Rightarrow> bool" where
  "starts_with p s \<longleftrightarrow> take (length p) s = p"

fun join_with :: "string \<Rightarrow> string list \<Rightarrow> string" where
  "join_with sep [] = []"
| "join_with sep [x] = x"
| "join_with sep (x # y # xs) = x @ sep @ join_with sep (y # xs)"

fun split_at_char :: "char \<Rightarrow> string \<Rightarrow> string list" where
  "split_at_char c [] = [[]]"
| "split_at_char c (x # xs) =
     (if x = c then [] # split_at_char c xs
      else (case split_at_char c xs of [] \<Rightarrow> [[x]] | f # fs \<Rightarrow> (x # f) # fs))"

definition is_ws :: "char \<Rightarrow> bool" where
  "is_ws c \<longleftrightarrow> (of_char c :: nat) \<in> {9, 10, 11, 12, 13, 32}"

definition js_trim :: "string \<Rightarrow> string" where
  "js_trim s = rev (dropWhile is_ws (rev (dropWhile is_ws s)))"

definition lower_char :: "char \<Rightarrow> char" where
  "lower_char c = (let n = of_char c :: nat in if 65 \<le> n \<and> n \<le> 90 then char_of (n + 32) else c)"

definition js_lower :: "string \<Rightarrow> string" where
  "js_lower s = map lower_char s"

text \<open>
  \<open>s.length\<close>: the UTF-16 code units of a string held as UTF-8 bytes; every byte but a continuation
  byte starts a character, and a four-byte character is two units.
\<close>

definition js_length :: "string \<Rightarrow> nat" where
  "js_length s =
     length (filter (\<lambda>c. \<not> (128 \<le> (of_char c :: nat) \<and> (of_char c :: nat) < 192)) s)
     + length (filter (\<lambda>c. 240 \<le> (of_char c :: nat)) s)"

definition pad_start :: "nat \<Rightarrow> char \<Rightarrow> string \<Rightarrow> string" where
  "pad_start n c s = replicate (n - length s) c @ s"

lemma split_at_char_ne [simp]: "split_at_char c s \<noteq> []"
  by (induction s) (auto split: list.splits)

lemma starts_with_append [simp]: "starts_with p (p @ s)"
  by (simp add: starts_with_def)

lemma starts_with_iff: "starts_with p s \<longleftrightarrow> (\<exists>r. s = p @ r)"
  by (auto simp: starts_with_def) (metis append_take_drop_id)

lemma lower_char_idem [simp]: "lower_char (lower_char c) = lower_char c"
  by (auto simp: lower_char_def Let_def of_char_eq_iff)

lemma js_lower_idem [simp]: "js_lower (js_lower s) = js_lower s"
  by (simp add: js_lower_def)

text \<open>The code-unit order of strings, the comparison \<open>a < b\<close> and the default sort.\<close>

fun str_le :: "string \<Rightarrow> string \<Rightarrow> bool" where
  "str_le [] ys = True"
| "str_le (x # xs) [] = False"
| "str_le (x # xs) (y # ys) =
     (if x = y then str_le xs ys else (of_char x :: nat) < of_char y)"

definition sort_strings :: "string list \<Rightarrow> string list" where
  "sort_strings = sort_by str_le"

lemma str_le_refl [simp]: "str_le s s"
  by (induction s) auto

lemma of_char_neq_less: "(x :: char) \<noteq> y \<Longrightarrow> (of_char x :: nat) < of_char y \<or> (of_char y :: nat) < of_char x"
  by (metis linorder_neqE_nat of_char_eq_iff)

lemma str_le_total: "str_le s t \<or> str_le t s"
  by (induction s t rule: str_le.induct) (auto dest: of_char_neq_less)

lemma str_le_antisym: "str_le s t \<Longrightarrow> str_le t s \<Longrightarrow> s = t"
  by (induction s t rule: str_le.induct) (auto split: if_splits elim: str_le.elims)

lemma str_le_trans: "str_le s t \<Longrightarrow> str_le t u \<Longrightarrow> str_le s u"
proof (induction s t arbitrary: u rule: str_le.induct)
  case (3 x xs y ys)
  then show ?case
    by (cases u) (auto split: if_splits)
qed auto

lemma sorted_sort_strings: "sorted_wrt str_le (sort_strings xs)"
  unfolding sort_strings_def by (rule sorted_sort_by) (auto simp: str_le_total intro: str_le_trans)

lemma mset_sort_strings [simp]: "mset (sort_strings xs) = mset xs"
  by (simp add: sort_strings_def)

lemma set_sort_strings [simp]: "set (sort_strings xs) = set xs"
  by (simp add: sort_strings_def)

lemma sort_strings_mset_cong: "mset xs = mset ys \<Longrightarrow> sort_strings xs = sort_strings ys"
  by (rule sorted_wrt_mset_unique[where le = str_le])
    (auto simp: sorted_sort_strings intro: str_le_antisym)

end
