(* ===== verification/JsNum.thy ===== *)
theory JsNum
  imports Prelude "HOL-Library.Log_Nat"
begin

text \<open>
  JavaScript numbers: IEEE-754 binary64 with round to nearest, ties to even, written out over the
  rationals.  \<open>fl\<close> rounds an exact rational to the double grid (53 bits, gradual underflow at
  \<open>2 ^ -1074\<close>), \<open>num_of\<close> adds the overflow to the infinities.  An engine figure whose magnitude
  is known to be far below \<open>2 ^ 1024\<close> (a percentage, a head count, a price in cents) is kept as
  the \<open>rat\<close> its double denotes and every arithmetic operation on it is rounded by \<open>fl\<close>; a number
  that arrives from outside is a \<open>jsnum\<close>.  \<open>-0\<close> is identified with \<open>0\<close>: the modelled code never
  divides by a zero nor calls \<open>Object.is\<close>.
\<close>

datatype jsnum = Fin rat | PosInf | NegInf | NaN

section \<open>Rounding to the double grid\<close>

definition pow2 :: "int \<Rightarrow> rat" where
  "pow2 e = (if 0 \<le> e then 2 ^ nat e else 1 / 2 ^ nat (- e))"

definition round_half_even :: "rat \<Rightarrow> int" where
  "round_half_even x =
     (let f = \<lfloor>x\<rfloor>; d = x - of_int f
      in if d < 1 / 2 then f else if 1 / 2 < d then f + 1 else if even f then f else f + 1)"

text \<open>\<open>ilog2 x\<close> is the exponent of the binade of a positive \<open>x\<close>: \<open>2 ^ ilog2 x \<le> x < 2 ^ (ilog2 x + 1)\<close>.\<close>

definition ilog2 :: "rat \<Rightarrow> int" where
  "ilog2 x =
     (let (p, q) = quotient_of x; e = bitlen p - bitlen q
      in if of_int q * pow2 e \<le> of_int p then e else e - 1)"

definition ulp_exp :: "rat \<Rightarrow> int" where
  "ulp_exp x = max (- 1074) (ilog2 \<bar>x\<bar> - 52)"

definition fl :: "rat \<Rightarrow> rat" where
  "fl x = (if x = 0 then 0 else of_int (round_half_even (x / pow2 (ulp_exp x))) * pow2 (ulp_exp x))"

definition num_of :: "rat \<Rightarrow> jsnum" where
  "num_of x = (let y = fl x in if pow2 1024 \<le> y then PosInf else if y \<le> - pow2 1024 then NegInf else Fin y)"

subsection \<open>Powers of two and the binade\<close>

lemma pow2_pos [simp]: "0 < pow2 e"
  by (simp add: pow2_def)

lemma pow2_nonneg [simp]: "0 \<le> pow2 e"
  by (simp add: less_imp_le)

lemma pow2_ne [simp]: "pow2 e \<noteq> 0"
  using pow2_pos[of e] by linarith

lemma pow2_0 [simp]: "pow2 0 = 1"
  by (simp add: pow2_def)

lemma pow2_Suc: "pow2 (e + 1) = 2 * pow2 e"
proof (cases "0 \<le> e")
  case True
  then have "nat (e + 1) = Suc (nat e)" by simp
  with True show ?thesis by (simp add: pow2_def)
next
  case False
  show ?thesis
  proof (cases "e = - 1")
    case True
    then show ?thesis by (simp add: pow2_def)
  next
    case False
    with \<open>\<not> 0 \<le> e\<close> have "nat (- e) = Suc (nat (- (e + 1)))" by simp
    with False \<open>\<not> 0 \<le> e\<close> show ?thesis by (simp add: pow2_def)
  qed
qed

lemma pow2_add_nat: "pow2 (e + int n) = pow2 e * 2 ^ n"
proof (induction n)
  case 0
  then show ?case by simp
next
  case (Suc n)
  have "e + int (Suc n) = e + int n + 1" by simp
  then show ?case by (simp only: pow2_Suc Suc) simp
qed

lemma pow2_add: "pow2 (a + b) = pow2 a * pow2 b"
proof (cases "0 \<le> b")
  case True
  then show ?thesis using pow2_add_nat[of a "nat b"] by (simp add: pow2_def)
next
  case False
  then have "pow2 a = pow2 (a + b) * 2 ^ nat (- b)"
    using pow2_add_nat[of "a + b" "nat (- b)"] by simp
  with False show ?thesis by (simp add: pow2_def)
qed

lemma pow2_diff: "pow2 (a - b) = pow2 a / pow2 b"
  using pow2_add[of "a - b" b] by simp

lemma pow2_mono: "a \<le> b \<Longrightarrow> pow2 a \<le> pow2 b"
  using pow2_add_nat[of a "nat (b - a)"] by simp

lemma pow2_strict_mono:
  assumes "a < b"
  shows "pow2 a < pow2 b"
proof -
  have "2 * pow2 a \<le> pow2 b" using pow2_mono[of "a + 1" b] assms by (simp add: pow2_Suc)
  with pow2_pos[of a] show ?thesis by linarith
qed

lemma pow2_less_iff [simp]: "pow2 a < pow2 b \<longleftrightarrow> a < b"
  by (metis linorder_not_less pow2_mono pow2_strict_mono)

lemma pow2_le_iff [simp]: "pow2 a \<le> pow2 b \<longleftrightarrow> a \<le> b"
  by (meson linorder_not_less pow2_mono pow2_strict_mono)

lemma pow2_nat: "0 \<le> e \<Longrightarrow> pow2 e = of_int (2 ^ nat e)"
  by (simp add: pow2_def)

lemma bitlen_rat_bounds:
  assumes "0 < p"
  shows "pow2 (bitlen p - 1) \<le> of_int p" and "of_int p < pow2 (bitlen p)"
proof -
  have b: "2 ^ nat (bitlen p - 1) \<le> p \<and> p < 2 ^ nat (bitlen p)"
    using assms by (rule bitlen_bounds)
  have "1 \<le> bitlen p"
    using assms bitlen_eq_zero_iff[of p] bitlen_nonneg[of p] by linarith
  with b show "pow2 (bitlen p - 1) \<le> of_int p" "of_int p < pow2 (bitlen p)"
    by (simp_all add: pow2_nat del: of_int_power)
qed

lemma ilog2_bounds:
  assumes "0 < x"
  shows "pow2 (ilog2 x) \<le> x" and "x < pow2 (ilog2 x + 1)"
proof -
  obtain p q where pq: "quotient_of x = (p, q)" by fastforce
  have q: "0 < q" using quotient_of_denom_pos[OF pq] .
  have x: "x = of_int p / of_int q" using quotient_of_div[OF pq] .
  have p: "0 < p" using assms q x by (simp add: zero_less_divide_iff)
  define e where "e = bitlen p - bitlen q"
  have up: "x < pow2 (e + 1)"
  proof -
    have "of_int p < pow2 (bitlen p)" using bitlen_rat_bounds(2)[OF p] .
    also have "\<dots> = pow2 (e + 1) * pow2 (bitlen q - 1)"
      by (simp add: e_def pow2_add[symmetric])
    also have "\<dots> \<le> pow2 (e + 1) * of_int q"
      using bitlen_rat_bounds(1)[OF q] by (intro mult_left_mono) auto
    finally show ?thesis using q x by (simp add: divide_less_eq)
  qed
  have lo: "pow2 (e - 1) \<le> x"
  proof -
    have "pow2 (e - 1) * of_int q \<le> pow2 (e - 1) * pow2 (bitlen q)"
      using bitlen_rat_bounds(2)[OF q] by (intro mult_left_mono) auto
    also have "\<dots> = pow2 (bitlen p - 1)"
      by (simp add: e_def pow2_add[symmetric])
    also have "\<dots> \<le> of_int p" using bitlen_rat_bounds(1)[OF p] .
    finally show ?thesis using q x by (simp add: le_divide_eq)
  qed
  have "of_int q * pow2 e \<le> of_int p \<longleftrightarrow> pow2 e \<le> x"
    using q x by (simp add: le_divide_eq mult.commute)
  then have il: "ilog2 x = (if pow2 e \<le> x then e else e - 1)"
    by (simp add: ilog2_def pq e_def)
  show "pow2 (ilog2 x) \<le> x" using il lo by (simp split: if_splits)
  show "x < pow2 (ilog2 x + 1)" using il up by (auto split: if_splits)
qed

lemma ilog2_unique:
  assumes "pow2 n \<le> x" and "x < pow2 (n + 1)"
  shows "ilog2 x = n"
proof -
  have x: "0 < x" using assms(1) pow2_pos[of n] by linarith
  have "pow2 n < pow2 (ilog2 x + 1)" using ilog2_bounds(2)[OF x] assms(1) by linarith
  moreover have "pow2 (ilog2 x) < pow2 (n + 1)" using ilog2_bounds(1)[OF x] assms(2) by linarith
  ultimately show ?thesis by simp
qed

lemma ilog2_le: "0 < x \<Longrightarrow> x < pow2 n \<Longrightarrow> ilog2 x < n"
  using ilog2_bounds(1)[of x] pow2_less_iff[of "ilog2 x" n] by linarith

subsection \<open>What rounding does\<close>

lemma round_half_even_of_int [simp]: "round_half_even (of_int k) = k"
  by (simp add: round_half_even_def)

lemma round_half_even_error: "\<bar>of_int (round_half_even x) - x\<bar> \<le> 1 / 2"
proof -
  define f where "f = \<lfloor>x\<rfloor>"
  have "of_int f \<le> x" "x < of_int f + 1" unfolding f_def by linarith+
  moreover have "of_int (f + 1) = of_int f + (1 :: rat)" by simp
  ultimately show ?thesis
    unfolding round_half_even_def Let_def f_def[symmetric]
    by (cases "x - of_int f < 1 / 2"; cases "1 / 2 < x - of_int f"; cases "even f")
      (simp_all only: if_True if_False abs_le_iff, linarith+)
qed

lemma fl_0 [simp]: "fl 0 = 0"
  by (simp add: fl_def)

lemma fl_abs_error: "\<bar>fl x - x\<bar> \<le> pow2 (ulp_exp x) / 2"
proof (cases "x = 0")
  case True
  then show ?thesis by simp
next
  case False
  let ?u = "pow2 (ulp_exp x)"
  have "fl x - x = (of_int (round_half_even (x / ?u)) - x / ?u) * ?u"
    using False by (simp add: fl_def left_diff_distrib)
  then have "\<bar>fl x - x\<bar> = \<bar>of_int (round_half_even (x / ?u)) - x / ?u\<bar> * ?u"
    by (simp add: abs_mult)
  also have "\<dots> \<le> 1 / 2 * ?u"
    by (intro mult_right_mono round_half_even_error) simp
  finally show ?thesis by simp
qed

lemma fl_rel_error:
  assumes "pow2 (- 1022) \<le> \<bar>x\<bar>"
  shows "\<bar>fl x - x\<bar> \<le> \<bar>x\<bar> / 2 ^ 53"
proof -
  have x: "0 < \<bar>x\<bar>" using assms pow2_pos[of "- 1022"] by linarith
  have "- 1022 \<le> ilog2 \<bar>x\<bar>"
  proof (rule ccontr)
    assume "\<not> ?thesis"
    then have "pow2 (ilog2 \<bar>x\<bar> + 1) \<le> pow2 (- 1022)" by simp
    with ilog2_bounds(2)[OF x] assms show False by linarith
  qed
  then have u: "ulp_exp x = ilog2 \<bar>x\<bar> - 52" by (simp add: ulp_exp_def)
  have "pow2 (ulp_exp x) = pow2 (ilog2 \<bar>x\<bar>) / 2 ^ 52"
    using pow2_diff[of "ilog2 \<bar>x\<bar>" 52] by (simp add: u pow2_def[of 52])
  also have "\<dots> \<le> \<bar>x\<bar> / 2 ^ 52"
    using ilog2_bounds(1)[OF x] by (intro divide_right_mono) auto
  finally have "pow2 (ulp_exp x) / 2 \<le> \<bar>x\<bar> / 2 ^ 53" by simp
  with fl_abs_error[of x] show ?thesis by linarith
qed

text \<open>A number with at most 53 significant bits on the grid is left alone.\<close>

lemma fl_exact:
  assumes m: "\<bar>m\<bar> \<le> 2 ^ 53" and e: "- 1074 \<le> e" and x: "x = of_int m * pow2 e"
  shows "fl x = x"
proof (cases "m = 0")
  case True
  then show ?thesis using x by simp
next
  case False
  let ?u = "ulp_exp x"
  have abs: "\<bar>x\<bar> = of_int \<bar>m\<bar> * pow2 e" by (simp add: x abs_mult)
  have x0: "0 < \<bar>x\<bar>" using False x by simp
  have ex: "\<exists>k. x = of_int k * pow2 ?u"
  proof (cases "\<bar>m\<bar> = 2 ^ 53")
    case True
    have "pow2 (e + 53) = 2 ^ 53 * pow2 e" by (simp add: pow2_add pow2_def[of 53] mult.commute)
    then have ax: "\<bar>x\<bar> = pow2 (e + 53)" using True abs by simp
    have "ilog2 \<bar>x\<bar> = e + 53"
      by (rule ilog2_unique) (simp_all add: ax)
    then have u: "?u = e + 1" using e by (simp add: ulp_exp_def)
    have "even m" using True by (metis abs_dvd_iff dvd_abs_iff dvd_power zero_less_numeral)
    then obtain k where "m = 2 * k" by (elim evenE)
    then have "x = of_int k * pow2 (e + 1)"
      using x by (simp add: pow2_Suc)
    then have "x = of_int k * pow2 ?u"
      unfolding u .
    then show ?thesis by blast
  next
    case False
    with m have "of_int \<bar>m\<bar> < (2 ^ 53 :: rat)"
      by (metis less_le of_int_less_iff of_int_numeral of_int_power)
    then have "\<bar>x\<bar> < 2 ^ 53 * pow2 e" using abs by simp
    also have "\<dots> = pow2 (e + 53)" by (simp add: pow2_add pow2_def[of 53])
    finally have "ilog2 \<bar>x\<bar> < e + 53" by (rule ilog2_le[OF x0])
    then have le: "?u \<le> e" using e by (simp add: ulp_exp_def)
    have "pow2 e = pow2 ?u * 2 ^ nat (e - ?u)"
      using le pow2_add_nat[of ?u "nat (e - ?u)"] by simp
    then have "of_int m * pow2 e = of_int (m * 2 ^ nat (e - ?u)) * pow2 ?u" by simp
    then have "x = of_int (m * 2 ^ nat (e - ?u)) * pow2 ?u"
      unfolding x[symmetric] .
    then show ?thesis by blast
  qed
  then obtain k where k: "x = of_int k * pow2 ?u" by blast
  have "x / pow2 ?u = of_int k" using k by (metis nonzero_mult_div_cancel_right pow2_ne)
  then show ?thesis using k x0 by (simp add: fl_def)
qed

lemma fl_of_int: "\<bar>k\<bar> \<le> 2 ^ 53 \<Longrightarrow> fl (of_int k) = of_int k"
  by (rule fl_exact[of k 0]) auto

lemma fl_of_nat: "n \<le> 2 ^ 53 \<Longrightarrow> fl (of_nat n) = of_nat n"
  using fl_of_int[of "int n"] by simp

lemma fl_numeral [simp]: "numeral n \<le> (2 ^ 53 :: nat) \<Longrightarrow> fl (numeral n) = numeral n"
  using fl_of_nat[of "numeral n"] by simp

lemma fl_half: "\<bar>k\<bar> \<le> 2 ^ 53 \<Longrightarrow> fl (of_int k / 2) = of_int k / 2"
  by (rule fl_exact[of k "- 1"]) (auto simp: pow2_def)


subsection \<open>The rounded operations\<close>

text \<open>Evaluation works on the numerator and denominator: one integer division per rounding.\<close>

definition ilog2_quot :: "int \<Rightarrow> int \<Rightarrow> int" where
  "ilog2_quot a q =
     (let e = bitlen a - bitlen q
      in if (if 0 \<le> e then q * 2 ^ nat e \<le> a else q \<le> a * 2 ^ nat (- e)) then e else e - 1)"

definition round_div :: "int \<Rightarrow> int \<Rightarrow> int" where
  "round_div n d =
     (let f = n div d; r = 2 * (n mod d)
      in if r < d then f else if d < r then f + 1 else if even f then f else f + 1)"

lemma ilog2_quotient:
  assumes "quotient_of x = (a, q)"
  shows "ilog2 x = ilog2_quot a q"
proof -
  have "of_int q * pow2 e \<le> of_int a \<longleftrightarrow> (if 0 \<le> e then q * 2 ^ nat e \<le> a else q \<le> a * 2 ^ nat (- e))" for e
  proof (cases "0 \<le> e")
    case True
    then have "of_int q * pow2 e = of_int (q * 2 ^ nat e)" by (simp add: pow2_def)
    with True show ?thesis by (simp only: of_int_le_iff if_True)
  next
    case False
    then have "of_int q * pow2 e = of_int q / of_int (2 ^ nat (- e))" by (simp add: pow2_def)
    moreover have "of_int q / of_int (2 ^ nat (- e)) \<le> (of_int a :: rat) \<longleftrightarrow> q \<le> a * 2 ^ nat (- e)"
    proof -
      have "(of_int q \<le> of_int a * (of_int (2 ^ nat (- e)) :: rat)) = (q \<le> a * 2 ^ nat (- e))"
        unfolding of_int_mult[symmetric] of_int_le_iff ..
      then show ?thesis by (simp add: pos_divide_le_eq)
    qed
    ultimately show ?thesis using False by simp
  qed
  then show ?thesis by (simp add: ilog2_def ilog2_quot_def assms Let_def)
qed

lemma round_half_even_div:
  assumes d: "0 < d"
  shows "round_half_even (of_int n / of_int d) = round_div n d"
proof -
  have f: "\<lfloor>of_int n / of_int d :: rat\<rfloor> = n div d" by (rule floor_divide_of_int_eq)
  have "of_int n = (of_int (n div d * d + n mod d) :: rat)" by simp
  also have "\<dots> = of_int (n div d) * of_int d + of_int (n mod d)" by (simp only: of_int_add of_int_mult)
  finally have r: "of_int n / of_int d - of_int (n div d) = (of_int (n mod d) / of_int d :: rat)"
    using d by (simp add: add_divide_distrib)
  have "(of_int (n mod d) / of_int d :: rat) < 1 / 2 \<longleftrightarrow> 2 * (n mod d) < d"
    using d by (simp add: pos_divide_less_eq flip: of_int_mult) linarith
  moreover have "1 / 2 < (of_int (n mod d) / of_int d :: rat) \<longleftrightarrow> d < 2 * (n mod d)"
    using d by (simp add: pos_less_divide_eq) linarith
  ultimately show ?thesis unfolding round_half_even_def round_div_def Let_def f r by simp
qed

lemma fl_code [code]:
  "fl x =
     (let (p, q) = quotient_of x
      in if p = 0 then 0
         else if q = 1 \<and> \<bar>p\<bar> \<le> 9007199254740992 then x
         else (let u = max (- 1074) (ilog2_quot \<bar>p\<bar> q - 52)
               in if 0 \<le> u then of_int (round_div p (q * 2 ^ nat u) * 2 ^ nat u)
                  else Fract (round_div (p * 2 ^ nat (- u)) q) (2 ^ nat (- u))))"
proof -
  obtain p q where pq: "quotient_of x = (p, q)" by fastforce
  have q: "0 < q" using quotient_of_denom_pos[OF pq] .
  have x: "x = of_int p / of_int q" using quotient_of_div[OF pq] .
  have "quotient_of \<bar>x\<bar> = (\<bar>p\<bar>, q)" using rat_abs_code[of x] pq by simp
  then have u: "ulp_exp x = max (- 1074) (ilog2_quot \<bar>p\<bar> q - 52)"
    by (simp add: ulp_exp_def ilog2_quotient)
  define v where "v = ulp_exp x"
  have x0: "x = 0 \<longleftrightarrow> p = 0" using x q by simp
  have r: "of_int (round_half_even (x / pow2 v)) * pow2 v =
      (if 0 \<le> v then of_int (round_div p (q * 2 ^ nat v) * 2 ^ nat v)
       else Fract (round_div (p * 2 ^ nat (- v)) q) (2 ^ nat (- v)))"
  proof (cases "0 \<le> v")
    case True
    then have "x / pow2 v = of_int p / of_int (q * 2 ^ nat v)" by (simp add: x pow2_def)
    moreover have "0 < q * 2 ^ nat v" using q by simp
    ultimately have "round_half_even (x / pow2 v) = round_div p (q * 2 ^ nat v)"
      by (simp only: round_half_even_div)
    with True show ?thesis by (simp add: pow2_def)
  next
    case False
    then have "x / pow2 v = of_int (p * 2 ^ nat (- v)) / of_int q" by (simp add: x pow2_def)
    then have "round_half_even (x / pow2 v) = round_div (p * 2 ^ nat (- v)) q"
      using q by (simp only: round_half_even_div)
    with False show ?thesis by (simp add: pow2_def Fract_of_int_quotient)
  qed
  show ?thesis
  proof (cases "q = 1 \<and> \<bar>p\<bar> \<le> 9007199254740992")
    case True
    with x fl_of_int[of p] have "fl x = x" by simp
    with True x pq show ?thesis by auto
  next
    case False
    have "fl x = (if p = 0 then 0 else of_int (round_half_even (x / pow2 v)) * pow2 v)"
      by (simp only: fl_def v_def x0)
    then show ?thesis
      unfolding pq Let_def prod.case u[symmetric] v_def[symmetric] r using False by (simp only: if_False)
  qed
qed

text \<open>Evaluation tests for a small number first: the limit of the range is a large power of two.\<close>

lemma num_of_code [code]:
  "num_of x =
     (let y = fl x
      in if \<bar>y\<bar> < 18446744073709551616 then Fin y
         else if pow2 1024 \<le> y then PosInf else if y \<le> - pow2 1024 then NegInf else Fin y)"
proof -
  have "(18446744073709551616 :: rat) \<le> pow2 1024" by (simp add: pow2_def)
  then show ?thesis by (auto simp: num_of_def Let_def abs_less_iff)
qed

definition fadd :: "rat \<Rightarrow> rat \<Rightarrow> rat" where "fadd x y = fl (x + y)"

definition fsub :: "rat \<Rightarrow> rat \<Rightarrow> rat" where "fsub x y = fl (x - y)"

definition fmul :: "rat \<Rightarrow> rat \<Rightarrow> rat" where "fmul x y = fl (x * y)"

definition fdiv :: "rat \<Rightarrow> rat \<Rightarrow> rat" where "fdiv x y = fl (x / y)"

lemma fmul_of_int: "\<bar>a * b\<bar> \<le> 2 ^ 53 \<Longrightarrow> fmul (of_int a) (of_int b) = of_int (a * b)"
  using fl_of_int[of "a * b"] by (simp add: fmul_def)

lemma fadd_of_int: "\<bar>a + b\<bar> \<le> 2 ^ 53 \<Longrightarrow> fadd (of_int a) (of_int b) = of_int (a + b)"
  using fl_of_int[of "a + b"] by (simp add: fadd_def)

text \<open>
  Half-up rounding of a quotient of integers.  The two roundings of \<open>a / d\<close> and of the addition
  of one half never carry the sum across an integer: below \<open>2 ^ 50\<close> the accumulated error is
  smaller than the distance \<open>1 / (2 d)\<close> to the next integer, and the tie itself is exact.
\<close>

lemma quotient_error:
  assumes a: "0 \<le> a" "a \<le> 2 ^ 50" and d: "0 < d" "d \<le> 2 ^ 50"
  defines "x \<equiv> of_int a / of_int d" and "r \<equiv> 1 / (of_int d :: rat)"
  shows "\<bar>fl (fl x + 1 / 2) - (x + 1 / 2)\<bar> < r / 2"
proof -
  have d0: "(0 :: rat) < of_int d" using d(1) by simp
  have r0: "0 < r" using d0 by (simp add: r_def)
  have x0: "0 \<le> x" using a(1) d0 by (simp add: x_def)
  have a': "of_int a \<le> (2 ^ 50 :: rat)"
    using a(2) by (metis of_int_le_iff of_int_numeral of_int_power)
  have d': "of_int d \<le> (2 ^ 50 :: rat)"
    using d(2) by (metis of_int_le_iff of_int_numeral of_int_power)
  have xe: "x / 2 ^ 53 \<le> r / 8"
    using a' d0 by (simp add: x_def r_def divide_simps)
  have he: "1 / 2 ^ 53 \<le> r / 8"
    using d' d0 by (simp add: r_def divide_simps)
  define t where "t = x / 2 ^ 53"
  define h where "h = (1 / 2 ^ 53 :: rat)"
  have t: "t \<le> r / 8" and h: "h \<le> r / 8" using xe he by (simp_all only: t_def h_def)
  have y: "\<bar>fl x - x\<bar> \<le> t"
  proof (cases "a = 0")
    case True
    then show ?thesis by (simp add: x_def t_def)
  next
    case False
    with a(1) have "1 \<le> a" by simp
    then have "(1 :: rat) \<le> of_int a" by simp
    then have "r \<le> x" using d0 by (simp add: x_def r_def divide_right_mono)
    moreover have "pow2 (- 1022) \<le> r"
    proof -
      have "pow2 (- 1022) \<le> pow2 (- 50)" by simp
      also have "\<dots> = 1 / 2 ^ 50" by (simp add: pow2_def)
      also have "\<dots> \<le> r" using d' d0 by (simp add: r_def divide_simps)
      finally show ?thesis .
    qed
    ultimately have "pow2 (- 1022) \<le> \<bar>x\<bar>" using x0 by linarith
    from fl_rel_error[OF this] x0 show ?thesis by (simp add: t_def)
  qed
  have "t \<le> x" using x0 by (simp add: t_def)
  with y have y0: "0 \<le> fl x" and y2: "fl x \<le> 2 * x" by (simp_all add: abs_le_iff)
  have "pow2 (- 1022) \<le> pow2 (- 1)" by simp
  also have "\<dots> = 1 / 2" by (simp add: pow2_def)
  also have "\<dots> \<le> \<bar>fl x + 1 / 2\<bar>" using y0 by simp
  finally have z: "\<bar>fl (fl x + 1 / 2) - (fl x + 1 / 2)\<bar> \<le> \<bar>fl x + 1 / 2\<bar> / 2 ^ 53"
    by (rule fl_rel_error)
  have "\<bar>fl x + 1 / 2\<bar> / 2 ^ 53 = fl x / 2 ^ 53 + h / 2"
    using y0 by (simp add: add_divide_distrib h_def)
  moreover have "fl x / 2 ^ 53 \<le> 2 * t"
    using divide_right_mono[OF y2, of "2 ^ 53"] by (simp add: t_def)
  ultimately have "\<bar>fl (fl x + 1 / 2) - (fl x + 1 / 2)\<bar> \<le> 2 * t + h / 2"
    using z by linarith
  with y have "\<bar>fl (fl x + 1 / 2) - (x + 1 / 2)\<bar> \<le> 2 * t + h / 2 + t" by linarith
  with t h r0 show ?thesis by linarith
qed

lemma floor_half_up_quotient:
  assumes a: "0 \<le> a" "a \<le> 2 ^ 50" and d: "0 < d" "d \<le> 2 ^ 50"
  shows "\<lfloor>fadd (fdiv (of_int a) (of_int d)) (1 / 2)\<rfloor> = (2 * a + d) div (2 * d)"
proof -
  define k where "k = (2 * a + d) div (2 * d)"
  define x where "x = (of_int a / of_int d :: rat)"
  define r where "r = (1 / of_int d :: rat)"
  have d0: "(0 :: rat) < of_int d" using d(1) by simp
  have dm: "2 * d * k + (2 * a + d) mod (2 * d) = 2 * a + d"
    unfolding k_def by (rule mult_div_mod_eq)
  have m: "0 \<le> (2 * a + d) mod (2 * d)" "(2 * a + d) mod (2 * d) < 2 * d"
    using d(1) by simp_all
  have lo: "2 * d * k \<le> 2 * a + d" using dm m(1) by linarith
  have hi: "2 * a + d + 1 \<le> 2 * d * (k + 1)" using dm m(2) by (simp add: distrib_left)
  have xr: "x + 1 / 2 = of_int (2 * a + d) * (r / 2)" using d0 by (simp add: x_def r_def field_simps)
  have dr: "of_int (2 * d) * (r / 2) = 1" using d0 by (simp add: r_def)
  have r0: "0 < r / 2" using d0 by (simp add: r_def)
  have hi': "x + 1 / 2 + r / 2 \<le> of_int k + 1"
  proof -
    have "x + 1 / 2 + r / 2 = of_int (2 * a + d + 1) * (r / 2)" by (simp add: xr algebra_simps)
    also have "\<dots> \<le> of_int (2 * d * (k + 1)) * (r / 2)"
      using hi r0 by (intro mult_right_mono) (auto simp del: of_int_add of_int_mult)
    also have "\<dots> = of_int (k + 1)" using dr by (simp add: mult.commute mult.left_commute)
    finally show ?thesis by simp
  qed
  have err: "\<bar>fl (fl x + 1 / 2) - (x + 1 / 2)\<bar> < r / 2"
    unfolding x_def r_def by (rule quotient_error[OF a d])
  have up: "fl (fl x + 1 / 2) < of_int k + 1" using err hi' by linarith
  have low: "of_int k \<le> fl (fl x + 1 / 2)"
  proof (cases "2 * d * k = 2 * a + d")
    case True
    have "of_int (2 * a + d) * (r / 2) = of_int k * (of_int (2 * d) * (r / 2))"
      unfolding True[symmetric] by simp
    with dr xr have "x + 1 / 2 = of_int k" by simp
    then have xk: "x = of_int (2 * k - 1) / 2" by simp
    have "k \<le> 2 * a + d" using lo d(1) by (smt (verit) a(1) mult_le_cancel_right1 zero_le_mult_iff)
    moreover have "0 \<le> k" using d(1) a(1) by (simp add: k_def pos_imp_zdiv_nonneg_iff)
    ultimately have k: "\<bar>2 * k - 1\<bar> \<le> 2 ^ 53" "\<bar>k\<bar> \<le> 2 ^ 53" using a d by auto
    have "fl x = x" unfolding xk by (rule fl_half[OF k(1)])
    then have "fl (fl x + 1 / 2) = fl (of_int k)" using \<open>x + 1 / 2 = of_int k\<close> by simp
    then show ?thesis using fl_of_int[OF k(2)] by simp
  next
    case False
    with lo have "2 * d * k + 1 \<le> 2 * a + d" by simp
    then have "of_int (2 * d * k + 1) * (r / 2) \<le> of_int (2 * a + d) * (r / 2)"
      using r0 by (intro mult_right_mono) (auto simp del: of_int_add of_int_mult)
    moreover have "of_int (2 * d * k + 1) * (r / 2) = of_int k * (of_int (2 * d) * (r / 2)) + r / 2"
      by (simp add: algebra_simps)
    ultimately have "of_int k + r / 2 \<le> x + 1 / 2"
      using dr xr by simp
    with err show ?thesis by linarith
  qed
  show ?thesis
    unfolding fadd_def fdiv_def x_def[symmetric] k_def[symmetric]
    using up low by (simp add: floor_eq_iff)
qed

end
