(* ===== verification/JsConv.thy ===== *)
theory JsConv
  imports JsNum
begin

text \<open>
  Conversions between numbers and text, as ECMA-262 defines them: \<open>Number(string)\<close>
  (StringToNumber), \<open>String(number)\<close> (Number::toString, the shortest digits that read back to the
  same double) and \<open>Number.prototype.toFixed\<close>.  White space is the ASCII white space.
\<close>

definition pow10 :: "int \<Rightarrow> rat" where
  "pow10 e = (if 0 \<le> e then 10 ^ nat e else 1 / 10 ^ nat (- e))"

section \<open>\<open>Number(s)\<close>\<close>

definition parse_exponent :: "string \<Rightarrow> int option" where
  "parse_exponent s =
     (case s of
        [] \<Rightarrow> Some 0
      | c # r \<Rightarrow>
          if c = CHR ''e'' \<or> c = CHR ''E'' then
            (let sgnd = (r \<noteq> [] \<and> (hd r = CHR ''-'' \<or> hd r = CHR ''+''));
                 neg = (r \<noteq> [] \<and> hd r = CHR ''-'');
                 ds = (if sgnd then tl r else r)
             in if ds \<noteq> [] \<and> list_all is_digit ds
                then Some (if neg then - int_of_digits ds else int_of_digits ds)
                else None)
          else None)"

definition parse_unsigned_decimal :: "string \<Rightarrow> rat option" where
  "parse_unsigned_decimal s =
     (let ip = takeWhile is_digit s; r = dropWhile is_digit s;
          dot = (r \<noteq> [] \<and> hd r = CHR ''.'');
          fp = (if dot then takeWhile is_digit (tl r) else []);
          r' = (if dot then dropWhile is_digit (tl r) else r)
      in if ip @ fp = [] then None
         else case parse_exponent r' of
                None \<Rightarrow> None
              | Some e \<Rightarrow> Some (of_int (int_of_digits (ip @ fp)) * pow10 (e - int (length fp))))"

definition hex_val :: "char \<Rightarrow> nat option" where
  "hex_val c =
     (let n = of_char c :: nat
      in if 48 \<le> n \<and> n \<le> 57 then Some (n - 48)
         else if 97 \<le> n \<and> n \<le> 102 then Some (n - 87)
         else if 65 \<le> n \<and> n \<le> 70 then Some (n - 55)
         else None)"

fun nat_of_radix :: "nat \<Rightarrow> nat \<Rightarrow> string \<Rightarrow> nat option" where
  "nat_of_radix b acc [] = Some acc"
| "nat_of_radix b acc (c # cs) =
     (case hex_val c of
        Some d \<Rightarrow> if d < b then nat_of_radix b (acc * b + d) cs else None
      | None \<Rightarrow> None)"

definition parse_radix :: "nat \<Rightarrow> string \<Rightarrow> jsnum" where
  "parse_radix b ds =
     (if ds = [] then NaN
      else case nat_of_radix b 0 ds of None \<Rightarrow> NaN | Some n \<Rightarrow> num_of (of_nat n))"

definition parse_signed_decimal :: "string \<Rightarrow> jsnum" where
  "parse_signed_decimal s =
     (let neg = starts_with ''-'' s;
          body = (if neg \<or> starts_with ''+'' s then tl s else s)
      in if body = ''Infinity'' then (if neg then NegInf else PosInf)
         else case parse_unsigned_decimal body of
                None \<Rightarrow> NaN
              | Some q \<Rightarrow> num_of (if neg then - q else q))"

definition js_parse_number :: "string \<Rightarrow> jsnum" where
  "js_parse_number str =
     (let s = js_trim str
      in if s = [] then Fin 0
         else if starts_with ''0x'' s \<or> starts_with ''0X'' s then parse_radix 16 (drop 2 s)
         else if starts_with ''0o'' s \<or> starts_with ''0O'' s then parse_radix 8 (drop 2 s)
         else if starts_with ''0b'' s \<or> starts_with ''0B'' s then parse_radix 2 (drop 2 s)
         else parse_signed_decimal s)"

section \<open>\<open>x.toFixed(f)\<close>\<close>

text \<open>The integer \<open>n\<close> with \<open>n / 10 ^ f\<close> nearest to \<open>x\<close>, the larger of two for a non-negative \<open>x\<close>.\<close>

definition to_fixed_int :: "nat \<Rightarrow> rat \<Rightarrow> int" where
  "to_fixed_int f x =
     (if x < 0 then - \<lfloor>- x * 10 ^ f + 1 / 2\<rfloor> else \<lfloor>x * 10 ^ f + 1 / 2\<rfloor>)"

definition to_fixed :: "nat \<Rightarrow> rat \<Rightarrow> string" where
  "to_fixed f x =
     (let m = pad_start (Suc f) (CHR ''0'') (string_of_nat (nat \<bar>to_fixed_int f x\<bar>));
          k = length m - f
      in (if x < 0 then ''-'' else '''') @ take k m @ (if f = 0 then '''' else ''.'' @ drop k m))"

text \<open>\<open>Number(x.toFixed(f))\<close>.\<close>

definition fixed_num :: "nat \<Rightarrow> rat \<Rightarrow> rat" where
  "fixed_num f x = fl (of_int (to_fixed_int f x) / 10 ^ f)"

lemma to_fixed_int_of_int [simp]: "to_fixed_int f (of_int k) = k * 10 ^ f"
proof -
  have e: "\<lfloor>of_int j * 10 ^ f + 1 / 2 :: rat\<rfloor> = j * 10 ^ f" for j :: int
  proof -
    have "(of_int j * 10 ^ f + 1 / 2 :: rat) = of_int (j * 10 ^ f) + 1 / 2" by simp
    then show ?thesis by (simp only: floor_add_int[symmetric] floor_eq_iff) simp
  qed
  show ?thesis using e[of k] e[of "- k"] by (simp add: to_fixed_int_def)
qed

section \<open>\<open>String(x)\<close>\<close>

definition ilog10 :: "rat \<Rightarrow> int" where
  "ilog10 x =
     (let (p, q) = quotient_of x;
          e = int (length (string_of_nat (nat p))) - int (length (string_of_nat (nat q)))
      in if of_int q * pow10 e \<le> of_int p then e else e - 1)"

text \<open>
  The shortest decimal digits of a positive double: the least \<open>k\<close> for which some \<open>k\<close>-digit \<open>s\<close>
  reads back, the nearer candidate first.  Seventeen digits always read back, so the fuel of
  seventeen steps is what the standard's definition needs; the answer is \<open>(s, n)\<close> with the
  value \<open>s * 10 ^ (n - k)\<close>.
\<close>

fun shortest_digits :: "nat \<Rightarrow> nat \<Rightarrow> rat \<Rightarrow> int \<Rightarrow> string \<times> int" where
  "shortest_digits 0 k x n = (string_of_nat (nat \<lfloor>x * pow10 (int k - n)\<rfloor>), n)"
| "shortest_digits (Suc fuel) k x n =
     (let y = x * pow10 (int k - n); lo = \<lfloor>y\<rfloor>; hi = lo + 1;
          back = (\<lambda>c. fl (of_int c * pow10 (n - int k)) = x);
          near = (if y - of_int lo \<le> of_int hi - y then [lo, hi] else [hi, lo])
      in case filter back near of
           c # _ \<Rightarrow> (if c = 10 ^ k then (''1'', n + 1) else (string_of_nat (nat c), n))
         | [] \<Rightarrow> shortest_digits fuel (Suc k) x n)"

definition format_digits :: "string \<Rightarrow> int \<Rightarrow> string" where
  "format_digits ds n =
     (let k = int (length ds)
      in if k \<le> n \<and> n \<le> 21 then ds @ replicate (nat (n - k)) (CHR ''0'')
         else if 0 < n \<and> n \<le> 21 then take (nat n) ds @ ''.'' @ drop (nat n) ds
         else if - 6 < n \<and> n \<le> 0 then ''0.'' @ replicate (nat (- n)) (CHR ''0'') @ ds
         else (let e = n - 1; es = (if e < 0 then ''-'' else ''+'') @ string_of_nat (nat \<bar>e\<bar>)
               in if k = 1 then ds @ ''e'' @ es else take 1 ds @ ''.'' @ drop 1 ds @ ''e'' @ es))"

definition num_string_pos :: "rat \<Rightarrow> string" where
  "num_string_pos x = (let (ds, n) = shortest_digits 17 1 x (ilog10 x + 1) in format_digits ds n)"

text \<open>An integer of at most 53 bits prints its decimal digits.\<close>

definition rat_is_int :: "rat \<Rightarrow> bool" where
  "rat_is_int x \<longleftrightarrow> of_int \<lfloor>x\<rfloor> = x"

definition num_to_string :: "jsnum \<Rightarrow> string" where
  "num_to_string v =
     (case v of
        NaN \<Rightarrow> ''NaN''
      | PosInf \<Rightarrow> ''Infinity''
      | NegInf \<Rightarrow> ''-Infinity''
      | Fin x \<Rightarrow>
          if rat_is_int x \<and> \<bar>x\<bar> \<le> 2 ^ 53 then string_of_int \<lfloor>x\<rfloor>
          else if x < 0 then ''-'' @ num_string_pos (- x) else num_string_pos x)"

lemma rat_is_int_of_int [simp]: "rat_is_int (of_int k)"
  by (simp add: rat_is_int_def)

lemma num_to_string_int: "\<bar>k\<bar> \<le> 2 ^ 53 \<Longrightarrow> num_to_string (Fin (of_int k)) = string_of_int k"
proof -
  assume "\<bar>k\<bar> \<le> 2 ^ 53"
  then have "\<bar>of_int k :: rat\<bar> \<le> 2 ^ 53"
    by (metis of_int_abs of_int_le_iff of_int_numeral of_int_power)
  then show ?thesis by (simp add: num_to_string_def)
qed

section \<open>Predicates of \<open>Number\<close>\<close>

definition num_is_finite :: "jsnum \<Rightarrow> bool" where
  "num_is_finite v = (case v of Fin _ \<Rightarrow> True | _ \<Rightarrow> False)"

definition num_is_integer :: "jsnum \<Rightarrow> bool" where
  "num_is_integer v = (case v of Fin x \<Rightarrow> rat_is_int x | _ \<Rightarrow> False)"

definition num_is_safe_integer :: "jsnum \<Rightarrow> bool" where
  "num_is_safe_integer v = (case v of Fin x \<Rightarrow> rat_is_int x \<and> \<bar>x\<bar> \<le> 2 ^ 53 - 1 | _ \<Rightarrow> False)"

fun num_lt :: "jsnum \<Rightarrow> jsnum \<Rightarrow> bool" where
  "num_lt (Fin x) (Fin y) = (x < y)"
| "num_lt (Fin x) PosInf = True"
| "num_lt NegInf (Fin y) = True"
| "num_lt NegInf PosInf = True"
| "num_lt _ _ = False"

lemma num_lt_irrefl [simp]: "\<not> num_lt a a"
  by (cases a) auto

lemma num_lt_trans: "num_lt a b \<Longrightarrow> num_lt b c \<Longrightarrow> num_lt a c"
  by (cases a; cases b; cases c) auto

lemma num_is_safe_integerE:
  assumes "num_is_safe_integer v"
  obtains k where "v = Fin (of_int k)" and "\<bar>k\<bar> < 2 ^ 53"
proof -
  from assms obtain x where x: "v = Fin x" "rat_is_int x" "\<bar>x\<bar> \<le> 2 ^ 53 - 1"
    by (auto simp: num_is_safe_integer_def split: jsnum.splits)
  then have fx: "x = of_int \<lfloor>x\<rfloor>" by (metis rat_is_int_def)
  have "\<bar>of_int \<lfloor>x\<rfloor> :: rat\<bar> \<le> of_int (2 ^ 53 - 1)" using x(3) fx by simp
  then have "\<bar>\<lfloor>x\<rfloor>\<bar> \<le> 2 ^ 53 - 1" by linarith
  then show ?thesis using that[of "\<lfloor>x\<rfloor>"] x(1) fx by simp
qed

end
