(* ===== verification/JsVal.thy ===== *)
theory JsVal
  imports JsConv
begin

text \<open>
  JavaScript values as the repository's code handles them: the untrusted JSON of a request, the
  objects it builds for hashing and signing, and the few operations it applies to a value of unknown
  type (member access, \<open>??\<close>, \<open>===\<close>, \<open>String\<close>, \<open>Number\<close>, truthiness, \<open>JSON.stringify\<close> and the
  \<open>JSON.parse(JSON.stringify(v))\<close> copy).  An object is the list of its own enumerable members in
  enumeration order.  \<open>JInst\<close> is an instance of a class (its prototype is neither
  \<open>Object.prototype\<close> nor null), \<open>JExotic\<close> a function, symbol or bigint, named by its
  \<open>typeof\<close>.  Two separately built objects are never \<open>===\<close>.
\<close>

datatype exotic = AFunction | ASymbol | ABigint

datatype jsval =
    JUndef
  | JNull
  | JBool bool
  | JNum jsnum
  | JStr string
  | JArr "jsval list"
  | JObj "(string \<times> jsval) list"
  | JInst string "(string \<times> jsval) list"
  | JExotic exotic

abbreviation JInt :: "int \<Rightarrow> jsval" where
  "JInt k \<equiv> JNum (Fin (of_int k))"

section \<open>Member access and coercions\<close>

definition getp :: "jsval \<Rightarrow> string \<Rightarrow> jsval" where
  "getp v k =
     (case v of
        JObj es \<Rightarrow> (case map_of es k of Some x \<Rightarrow> x | None \<Rightarrow> JUndef)
      | JInst _ es \<Rightarrow> (case map_of es k of Some x \<Rightarrow> x | None \<Rightarrow> JUndef)
      | JArr xs \<Rightarrow> if k = ''length'' then JInt (int (length xs)) else JUndef
      | JStr s \<Rightarrow> if k = ''length'' then JInt (int (js_length s)) else JUndef
      | _ \<Rightarrow> JUndef)"

definition nullish :: "jsval \<Rightarrow> bool" where
  "nullish v \<longleftrightarrow> v = JUndef \<or> v = JNull"

text \<open>\<open>v ?? d\<close>\<close>

definition coalesce :: "jsval \<Rightarrow> jsval \<Rightarrow> jsval" where
  "coalesce v d = (if nullish v then d else v)"

fun truthy :: "jsval \<Rightarrow> bool" where
  "truthy JUndef = False"
| "truthy JNull = False"
| "truthy (JBool b) = b"
| "truthy (JNum v) = (v \<noteq> Fin 0 \<and> v \<noteq> NaN)"
| "truthy (JStr s) = (s \<noteq> [])"
| "truthy _ = True"

fun strict_eq :: "jsval \<Rightarrow> jsval \<Rightarrow> bool" where
  "strict_eq JUndef JUndef = True"
| "strict_eq JNull JNull = True"
| "strict_eq (JBool a) (JBool b) = (a = b)"
| "strict_eq (JNum a) (JNum b) = (a = b \<and> a \<noteq> NaN)"
| "strict_eq (JStr a) (JStr b) = (a = b)"
| "strict_eq _ _ = False"

definition exotic_name :: "exotic \<Rightarrow> string" where
  "exotic_name e = (case e of AFunction \<Rightarrow> ''function'' | ASymbol \<Rightarrow> ''symbol'' | ABigint \<Rightarrow> ''bigint'')"

definition typeof :: "jsval \<Rightarrow> string" where
  "typeof v =
     (case v of
        JUndef \<Rightarrow> ''undefined''
      | JBool _ \<Rightarrow> ''boolean''
      | JNum _ \<Rightarrow> ''number''
      | JStr _ \<Rightarrow> ''string''
      | JExotic t \<Rightarrow> exotic_name t
      | _ \<Rightarrow> ''object'')"

text \<open>\<open>String(v)\<close>; an array joins its elements, a nullish element being empty.\<close>

fun js_string :: "jsval \<Rightarrow> string" where
  "js_string JUndef = ''undefined''"
| "js_string JNull = ''null''"
| "js_string (JBool b) = (if b then ''true'' else ''false'')"
| "js_string (JNum v) = num_to_string v"
| "js_string (JStr s) = s"
| "js_string (JArr xs) = join_with '','' (map (\<lambda>x. if nullish x then '''' else js_string x) xs)"
| "js_string (JObj _) = ''[object Object]''"
| "js_string (JInst _ _) = ''[object Object]''"
| "js_string (JExotic t) = exotic_name t"

text \<open>\<open>Number(v)\<close>\<close>

definition js_number :: "jsval \<Rightarrow> jsnum" where
  "js_number v =
     (case v of
        JUndef \<Rightarrow> NaN
      | JNull \<Rightarrow> Fin 0
      | JBool b \<Rightarrow> Fin (if b then 1 else 0)
      | JNum n \<Rightarrow> n
      | JExotic _ \<Rightarrow> NaN
      | _ \<Rightarrow> js_parse_number (js_string v))"

definition string_array :: "jsval \<Rightarrow> string list" where
  "string_array v =
     (case v of JArr xs \<Rightarrow> List.map_filter (\<lambda>x. case x of JStr s \<Rightarrow> Some s | _ \<Rightarrow> None) xs | _ \<Rightarrow> [])"

lemma getp_simps [simp]:
  "getp JUndef k = JUndef" "getp JNull k = JUndef" "getp (JBool b) k = JUndef"
  "getp (JNum n) k = JUndef" "getp (JExotic t) k = JUndef"
  "getp (JObj []) k = JUndef"
  "getp (JObj ((k', x) # es)) k = (if k = k' then x else getp (JObj es) k)"
  by (simp_all add: getp_def)

lemma nullish_simps [simp]:
  "nullish JUndef" "nullish JNull" "\<not> nullish (JBool b)" "\<not> nullish (JNum n)" "\<not> nullish (JStr s)"
  "\<not> nullish (JArr xs)" "\<not> nullish (JObj es)" "\<not> nullish (JInst c es)" "\<not> nullish (JExotic t)"
  by (simp_all add: nullish_def)

lemma coalesce_simps [simp]:
  "coalesce JUndef d = d" "coalesce JNull d = d" "\<not> nullish v \<Longrightarrow> coalesce v d = v"
  by (simp_all add: coalesce_def)

lemma strict_eq_imp_eq: "strict_eq a b \<Longrightarrow> a = b"
  by (induction a b rule: strict_eq.induct) auto

lemma strict_eq_JStr [simp]: "strict_eq v (JStr s) \<longleftrightarrow> v = JStr s"
  by (cases v) auto

lemma strict_eq_JStr_left [simp]: "strict_eq (JStr s) v \<longleftrightarrow> v = JStr s"
  by (cases v) auto

lemma truthy_not_nullish: "truthy v \<Longrightarrow> \<not> nullish v"
  by (cases v) auto

section \<open>JSON text\<close>

text \<open>\<open>JSON.stringify\<close> of a string: the two-character escapes and \<open>\u00xx\<close> below space.\<close>

definition hex_digit :: "nat \<Rightarrow> char" where
  "hex_digit d = (if d < 10 then char_of (48 + d) else char_of (87 + d))"

definition escape_char :: "char \<Rightarrow> string" where
  "escape_char c =
     (let n = of_char c :: nat
      in if n = 34 then [char_of (92 :: nat), c]
         else if n = 92 then [c, c]
         else if n = 8 then [char_of (92 :: nat), CHR ''b'']
         else if n = 12 then [char_of (92 :: nat), CHR ''f'']
         else if n = 10 then [char_of (92 :: nat), CHR ''n'']
         else if n = 13 then [char_of (92 :: nat), CHR ''r'']
         else if n = 9 then [char_of (92 :: nat), CHR ''t'']
         else if n < 32 then
           [char_of (92 :: nat), CHR ''u'', CHR ''0'', CHR ''0'', hex_digit (n div 16), hex_digit (n mod 16)]
         else [c])"

definition quote_char :: char where
  "quote_char = CHR 0x22"

lemma quote_char_neq [simp]:
  "quote_char \<noteq> CHR ''n''" "quote_char \<noteq> CHR ''t''" "quote_char \<noteq> CHR ''f''"
  "quote_char \<noteq> CHR ''[''" "quote_char \<noteq> CHR ''{''" "quote_char \<noteq> CHR '']''"
  "quote_char \<noteq> CHR ''}''" "quote_char \<noteq> CHR ''-''"
  by (simp_all add: quote_char_def)

lemmas quote_char_neq_sym [simp] = quote_char_neq[THEN not_sym]

lemma quote_char_not_digit [simp]: "\<not> is_digit quote_char"
  by (simp add: quote_char_def is_digit_def)

lemma of_char_quote_char [simp]: "(of_char quote_char :: nat) = 34"
  by (simp add: quote_char_def)

definition json_quote :: "string \<Rightarrow> string" where
  "json_quote s = quote_char # concat (map escape_char s) @ [quote_char]"

text \<open>\<open>JSON.stringify(v)\<close>; \<open>None\<close> is the answer \<open>undefined\<close>.\<close>

fun json_stringify :: "jsval \<Rightarrow> string option" where
  "json_stringify JUndef = None"
| "json_stringify JNull = Some ''null''"
| "json_stringify (JBool b) = Some (if b then ''true'' else ''false'')"
| "json_stringify (JNum v) = Some (if num_is_finite v then num_to_string v else ''null'')"
| "json_stringify (JStr s) = Some (json_quote s)"
| "json_stringify (JArr xs) =
     Some (''['' @ join_with '',''
       (map (\<lambda>x. case json_stringify x of Some t \<Rightarrow> t | None \<Rightarrow> ''null'') xs) @ '']'')"
| "json_stringify (JObj es) =
     Some (''{'' @ join_with '','' (concat (map (\<lambda>(k, x).
       case json_stringify x of Some t \<Rightarrow> [json_quote k @ '':'' @ t] | None \<Rightarrow> []) es)) @ ''}'')"
| "json_stringify (JInst _ es) =
     Some (''{'' @ join_with '','' (concat (map (\<lambda>(k, x).
       case json_stringify x of Some t \<Rightarrow> [json_quote k @ '':'' @ t] | None \<Rightarrow> []) es)) @ ''}'')"
| "json_stringify (JExotic _) = None"

text \<open>\<open>JSON.parse(JSON.stringify(v))\<close> of a value that has a JSON text.\<close>

fun json_copy :: "jsval \<Rightarrow> jsval" where
  "json_copy JUndef = JNull"
| "json_copy JNull = JNull"
| "json_copy (JBool b) = JBool b"
| "json_copy (JNum v) = (if num_is_finite v then JNum v else JNull)"
| "json_copy (JStr s) = JStr s"
| "json_copy (JArr xs) = JArr (map json_copy xs)"
| "json_copy (JObj es) =
     JObj (map (\<lambda>(k, x). (k, json_copy x)) (filter (\<lambda>(k, x). typeof x \<notin> {''undefined'', ''function'', ''symbol''}) es))"
| "json_copy (JInst _ es) =
     JObj (map (\<lambda>(k, x). (k, json_copy x)) (filter (\<lambda>(k, x). typeof x \<notin> {''undefined'', ''function'', ''symbol''}) es))"
| "json_copy (JExotic _) = JNull"

subsection \<open>The quoted form is a prefix code\<close>

text \<open>The reader that undoes one escape and the one that undoes a quoted string.\<close>

definition hex_digit_val :: "char \<Rightarrow> nat" where
  "hex_digit_val c = (let n = of_char c :: nat in if n < 58 then n - 48 else n - 87)"

definition unescape :: "string \<Rightarrow> (char \<times> string) option" where
  "unescape s =
     (case s of
        [] \<Rightarrow> None
      | b # r \<Rightarrow>
          if b = char_of (92 :: nat) then
            (case r of
               [] \<Rightarrow> None
             | c # r' \<Rightarrow>
                 if c = CHR ''u'' then Some (char_of (16 * hex_digit_val (r' ! 2) + hex_digit_val (r' ! 3)), drop 4 r')
                 else if c = CHR ''b'' then Some (char_of (8 :: nat), r')
                 else if c = CHR ''f'' then Some (char_of (12 :: nat), r')
                 else if c = CHR ''n'' then Some (char_of (10 :: nat), r')
                 else if c = CHR ''r'' then Some (char_of (13 :: nat), r')
                 else if c = CHR ''t'' then Some (char_of (9 :: nat), r')
                 else Some (c, r'))
          else Some (b, r))"

lemma hex_digit_val_hex_digit: "d < 16 \<Longrightarrow> hex_digit_val (hex_digit d) = d"
  by (simp add: hex_digit_val_def hex_digit_def take_bit_eq_mod)

lemma char_eq_char_of: "(of_char c :: nat) = n \<Longrightarrow> c = char_of n"
  by auto

lemma unescape_escape: "unescape (escape_char c @ r) = Some (c, r)"
proof -
  define n where "n = (of_char c :: nat)"
  have c: "c = char_of n" by (simp add: n_def)
  have n256: "n < 256" unfolding n_def by (rule nat_of_char_less_256)
  show ?thesis
  proof (cases "n < 32 \<and> n \<notin> {8, 9, 10, 12, 13}")
    case True
    have "n div 16 < 16" "n mod 16 < 16" using True by auto
    with True show ?thesis
      by (simp add: escape_char_def unescape_def n_def[symmetric] hex_digit_val_hex_digit c)
  next
    case False
    then consider "n = 34" | "n = 92" | "n = 8" | "n = 12" | "n = 10" | "n = 13" | "n = 9"
      | "32 \<le> n" "n \<noteq> 34" "n \<noteq> 92" by (auto simp: linorder_not_less)
    then show ?thesis
      by cases (simp_all add: escape_char_def unescape_def n_def[symmetric] c char_of_eq_iff take_bit_eq_mod n256)
  qed
qed

lemma escape_char_prefix: "escape_char c @ r = escape_char d @ r' \<Longrightarrow> c = d \<and> r = r'"
  by (metis option.inject prod.inject unescape_escape)

lemma escape_char_ne [simp]: "escape_char c \<noteq> []"
  by (auto simp: escape_char_def Let_def)

lemma backslash_not_quote [simp]: "char_of (92 :: nat) \<noteq> quote_char"
proof
  assume "char_of (92 :: nat) = quote_char"
  then have "(of_char (char_of (92 :: nat) :: char) :: nat) = of_char quote_char" by simp
  then show False by simp
qed

lemma hd_escape_char: "hd (escape_char c) \<noteq> quote_char"
  by (auto simp: escape_char_def Let_def)

lemma escaped_quote_ne: "escape_char c @ r \<noteq> quote_char # r'"
  by (metis escape_char_ne hd_append2 hd_escape_char list.sel(1))

lemma quoted_body_prefix:
  "concat (map escape_char s) @ quote_char # r = concat (map escape_char t) @ quote_char # r' \<Longrightarrow> s = t \<and> r = r'"
proof (induction s arbitrary: t)
  case Nil
  then show ?case
    by (cases t) (auto simp: escaped_quote_ne[symmetric])
next
  case (Cons c s)
  from Cons.prems obtain d t' where t: "t = d # t'"
    by (cases t) (auto simp: escaped_quote_ne)
  with Cons.prems have "escape_char c @ (concat (map escape_char s) @ quote_char # r) =
      escape_char d @ (concat (map escape_char t') @ quote_char # r')" by simp
  from escape_char_prefix[OF this] Cons.IH t show ?case by simp
qed

lemma json_quote_prefix: "json_quote s @ r = json_quote t @ r' \<Longrightarrow> s = t \<and> r = r'"
  by (rule quoted_body_prefix) (simp add: json_quote_def)

lemma json_quote_inject [simp]: "json_quote s = json_quote t \<longleftrightarrow> s = t"
  using json_quote_prefix[of s "[]" t "[]"] by auto

lemma hd_json_quote [simp]: "hd (json_quote s) = quote_char"
  by (simp add: json_quote_def)

lemma json_quote_ne [simp]: "json_quote s \<noteq> []"
  by (simp add: json_quote_def)

end
