(* ===== verification/Crypto.thy ===== *)
theory Crypto
  imports JsVal
begin

text \<open>
  The cryptographic and canonicalization primitives the code calls and does not define:
  \<open>node:crypto\<close>, \<open>@noble/curves\<close>, \<open>@noble/hashes\<close> and the \<open>canonicalize\<close> package.  They are one
  record of functions, a parameter of every definition that uses them.  Byte strings are
  \<open>string\<close>s (one \<open>char\<close> per byte).  What the development relies on is stated as the named
  predicates below, each of them documented behaviour of the packages: digests are 32 bytes,
  an uncompressed public key is 65 bytes, a signature is \<open>r || s\<close> (64 bytes) with a recovery bit
  0 or 1 and recovers to the key that made it.
\<close>

record crypto =
  sha256_digest :: "string \<Rightarrow> string"
  keccak_digest :: "string \<Rightarrow> string"
  canonicalize :: "jsval \<Rightarrow> string option"
  curve_pubkey :: "string \<Rightarrow> bool \<Rightarrow> string"
  curve_sign :: "string \<Rightarrow> string \<Rightarrow> string \<times> nat"
  curve_recover :: "string \<Rightarrow> nat \<Rightarrow> string \<Rightarrow> string option"

definition digests_ok :: "crypto \<Rightarrow> bool" where
  "digests_ok C \<longleftrightarrow>
     (\<forall>b. length (sha256_digest C b) = 32) \<and> (\<forall>b. length (keccak_digest C b) = 32)"

definition curve_ok :: "crypto \<Rightarrow> bool" where
  "curve_ok C \<longleftrightarrow>
     (\<forall>k. length (curve_pubkey C k False) = 65) \<and>
     (\<forall>k d. length (fst (curve_sign C k d)) = 64 \<and> snd (curve_sign C k d) < 2) \<and>
     (\<forall>k d. curve_recover C (fst (curve_sign C k d)) (snd (curve_sign C k d)) d
            = Some (curve_pubkey C k False))"

text \<open>
  A concrete instance, for the theorems that show a hypothesis can hold: the digest is the first
  32 bytes, padded, and a key signs by revealing itself.
\<close>

definition pad_to :: "nat \<Rightarrow> string \<Rightarrow> string" where
  "pad_to n b = take n (b @ replicate n (CHR 0x00))"

definition sample_crypto :: crypto where
  "sample_crypto = \<lparr>
     sha256_digest = pad_to 32, keccak_digest = pad_to 32, canonicalize = json_stringify,
     curve_pubkey = (\<lambda>k compressed. CHR 0x04 # pad_to 64 k),
     curve_sign = (\<lambda>k d. (pad_to 64 k, 0)),
     curve_recover = (\<lambda>s v d. Some (CHR 0x04 # s)) \<rparr>"

lemma sample_crypto_ok: "digests_ok sample_crypto" "curve_ok sample_crypto"
  by (auto simp: digests_ok_def curve_ok_def sample_crypto_def pad_to_def min_def)

section \<open>Hexadecimal text\<close>

text \<open>\<open>toHex\<close>, and the \<open>digest("hex")\<close> of \<open>node:crypto\<close>.\<close>

definition hex_byte :: "char \<Rightarrow> string" where
  "hex_byte c = [hex_digit ((of_char c :: nat) div 16), hex_digit ((of_char c :: nat) mod 16)]"

definition to_hex :: "string \<Rightarrow> string" where
  "to_hex b = concat (map hex_byte b)"

definition is_hex_char :: "char \<Rightarrow> bool" where
  "is_hex_char c \<longleftrightarrow> hex_val c \<noteq> None"

definition is_lower_hex_char :: "char \<Rightarrow> bool" where
  "is_lower_hex_char c \<longleftrightarrow>
     (let n = of_char c :: nat in (48 \<le> n \<and> n \<le> 57) \<or> (97 \<le> n \<and> n \<le> 102))"

lemma length_to_hex [simp]: "length (to_hex b) = 2 * length b"
  by (induction b) (simp_all add: to_hex_def hex_byte_def)

lemma to_hex_Nil [simp]: "to_hex [] = []"
  by (simp add: to_hex_def)

lemma to_hex_Cons: "to_hex (c # b) = hex_byte c @ to_hex b"
  by (simp add: to_hex_def)

lemma of_char_hex_digit: "d < 16 \<Longrightarrow> (of_char (hex_digit d) :: nat) = (if d < 10 then 48 + d else 87 + d)"
  by (simp add: hex_digit_def)

lemma hex_val_hex_digit [simp]: "d < 16 \<Longrightarrow> hex_val (hex_digit d) = Some d"
  by (simp add: hex_val_def Let_def of_char_hex_digit)

lemma hex_digit_inject: "a < 16 \<Longrightarrow> b < 16 \<Longrightarrow> hex_digit a = hex_digit b \<Longrightarrow> a = b"
  by (metis hex_val_hex_digit option.inject)

lemma is_lower_hex_digit [simp]: "d < 16 \<Longrightarrow> is_lower_hex_char (hex_digit d)"
  by (simp add: is_lower_hex_char_def Let_def of_char_hex_digit)

lemma is_lower_hex_imp_hex: "is_lower_hex_char c \<Longrightarrow> is_hex_char c"
  by (auto simp: is_lower_hex_char_def is_hex_char_def hex_val_def Let_def)

lemma nibbles_lt: "(of_char c :: nat) div 16 < 16" "(of_char c :: nat) mod 16 < 16"
  using nat_of_char_less_256[of c] by (simp_all add: less_mult_imp_div_less)

lemma to_hex_chars: "c \<in> set (to_hex b) \<Longrightarrow> is_lower_hex_char c"
  by (induction b) (auto simp: to_hex_Cons hex_byte_def nibbles_lt)

lemma hex_byte_inject: "hex_byte c = hex_byte d \<Longrightarrow> c = d"
proof -
  assume eq: "hex_byte c = hex_byte d"
  have "(of_char c :: nat) div 16 = (of_char d :: nat) div 16"
    using eq by (intro hex_digit_inject) (simp_all add: nibbles_lt hex_byte_def)
  moreover have "(of_char c :: nat) mod 16 = (of_char d :: nat) mod 16"
    using eq by (intro hex_digit_inject) (simp_all add: nibbles_lt hex_byte_def)
  ultimately have "(of_char c :: nat) = of_char d" by (metis div_mult_mod_eq)
  then show ?thesis by simp
qed

lemma to_hex_inject [simp]: "to_hex a = to_hex b \<longleftrightarrow> a = b"
proof
  show "to_hex a = to_hex b \<Longrightarrow> a = b"
  proof (induction a arbitrary: b)
    case Nil
    then show ?case by (cases b) (auto simp: to_hex_Cons hex_byte_def)
  next
    case (Cons c a)
    then obtain d b' where b: "b = d # b'"
      by (cases b) (auto simp: to_hex_Cons hex_byte_def)
    with Cons.prems have "hex_byte c = hex_byte d" "to_hex a = to_hex b'"
      by (auto simp: to_hex_Cons hex_byte_def)
    with Cons.IH b hex_byte_inject show ?case by blast
  qed
qed simp

text \<open>\<open>sha256:<hex>\<close> content references (\<open>sha256Ref\<close>, \<open>sha256Bytes\<close>).\<close>

definition sha256Ref :: "crypto \<Rightarrow> string \<Rightarrow> string" where
  "sha256Ref C b = ''sha256:'' @ to_hex (sha256_digest C b)"

definition keccak256 :: "crypto \<Rightarrow> string \<Rightarrow> string" where
  "keccak256 C b = keccak_digest C b"

lemma length_sha256Ref: "digests_ok C \<Longrightarrow> length (sha256Ref C b) = 71"
  by (simp add: sha256Ref_def digests_ok_def)

text \<open>
  Two byte strings with the same reference are the same bytes or a collision of the digest.
  Theorems about commitments are stated with this disjunction, so that no assumption on the
  digest is needed.
\<close>

definition collision :: "crypto \<Rightarrow> string \<Rightarrow> string \<Rightarrow> bool" where
  "collision C a b \<longleftrightarrow> a \<noteq> b \<and> sha256_digest C a = sha256_digest C b"

lemma sha256Ref_eq_cases: "sha256Ref C a = sha256Ref C b \<Longrightarrow> a = b \<or> collision C a b"
  by (auto simp: sha256Ref_def collision_def)

end
