(* ===== verification/Hash.thy ===== *)
theory Hash
  imports Crypto
begin

text \<open>
  \<open>engine/hash.ts\<close>: the engine's commitment hash, sha256 over a canonical JSON form with sorted
  keys that takes integers only.  The theorems show that the canonical form is a prefix code, so
  that the bytes that are hashed determine the value up to the order of members and members that
  are \<open>undefined\<close>, and that the hash does not see that order.
\<close>

datatype hash_error =
    NonFinite string
  | UnsafeNumber string jsnum
  | CanonicalizeUndefined string
  | NonPlainObject string string
  | UnsupportedType string string

definition entry_le :: "string \<times> 'a \<Rightarrow> string \<times> 'a \<Rightarrow> bool" where
  "entry_le a b = str_le (fst a) (fst b)"

definition defined_entries :: "(string \<times> jsval) list \<Rightarrow> (string \<times> jsval) list" where
  "defined_entries es = filter (\<lambda>(k, v). v \<noteq> JUndef) es"

definition sorted_entries :: "(string \<times> jsval) list \<Rightarrow> (string \<times> jsval) list" where
  "sorted_entries es = sort_by entry_le (defined_entries es)"

lemma sorted_entries_size: "(k, v) \<in> set (sorted_entries es) \<Longrightarrow> size v < Suc (size_list (size_prod (\<lambda>_. 0) size) es)"
  by (induction es) (auto simp: sorted_entries_def defined_entries_def split: if_splits)

lemma enumerate_size: "(i, v) \<in> set (enumerate n xs) \<Longrightarrow> size v < Suc (size_list size xs)"
  by (induction xs arbitrary: n) (fastforce simp: less_Suc_eq_le)+

function encode :: "jsval \<Rightarrow> string \<Rightarrow> (hash_error, string) res" where
  "encode JNull path = Inr ''null''"
| "encode (JStr s) path = Inr (json_quote s)"
| "encode (JBool b) path = Inr (if b then ''true'' else ''false'')"
| "encode (JNum v) path =
     (if \<not> num_is_finite v then Inl (NonFinite path)
      else if \<not> num_is_safe_integer v then Inl (UnsafeNumber path v)
      else Inr (num_to_string v))"
| "encode JUndef path = Inl (CanonicalizeUndefined path)"
| "encode (JArr xs) path =
     res_bind
       (res_map_list (\<lambda>(i, v). encode v (path @ ''['' @ string_of_nat i @ '']'')) (enumerate 0 xs))
       (\<lambda>ss. Inr (''['' @ join_with '','' ss @ '']''))"
| "encode (JInst c es) path = Inl (NonPlainObject path c)"
| "encode (JObj es) path =
     res_bind
       (res_map_list
          (\<lambda>(k, v). res_bind (encode v (path @ ''.'' @ k)) (\<lambda>s. Inr (json_quote k @ '':'' @ s)))
          (sorted_entries es))
       (\<lambda>ss. Inr (''{'' @ join_with '','' ss @ ''}''))"
| "encode (JExotic t) path = Inl (UnsupportedType (exotic_name t) path)"
  by pat_completeness auto

termination
  by (relation "measure (\<lambda>(v, p). size v)") (auto dest: enumerate_size sorted_entries_size)

definition sha256 :: "crypto \<Rightarrow> jsval \<Rightarrow> (hash_error, string) res" where
  "sha256 C v = res_bind (encode v ''$'') (\<lambda>s. Inr (sha256Ref C s))"

section \<open>The value a canonical form stands for\<close>

text \<open>\<open>canon\<close> drops the undefined members of every object and sorts the others by name.\<close>

function canon :: "jsval \<Rightarrow> jsval" where
  "canon (JArr xs) = JArr (map canon xs)"
| "canon (JObj es) = JObj (map (\<lambda>(k, v). (k, canon v)) (sorted_entries es))"
| "canon JUndef = JUndef"
| "canon JNull = JNull"
| "canon (JBool b) = JBool b"
| "canon (JNum v) = JNum v"
| "canon (JStr s) = JStr s"
| "canon (JInst c es) = JInst c es"
| "canon (JExotic t) = JExotic t"
  by pat_completeness auto

termination
  by (relation "measure size") (auto dest: sorted_entries_size simp: size_list_estimation' less_Suc_eq_le)

section \<open>The canonical form is a prefix code\<close>

text \<open>\<open>delim r\<close>: what follows an encoded value does not continue a number.\<close>

definition delim :: "string \<Rightarrow> bool" where
  "delim r \<longleftrightarrow> r = [] \<or> \<not> is_digit (hd r)"

definition enc :: "jsval \<Rightarrow> string \<Rightarrow> bool" where
  "enc v s \<longleftrightarrow> (\<exists>p. encode v p = Inr s)"

definition enc_entry :: "string \<times> jsval \<Rightarrow> string \<Rightarrow> bool" where
  "enc_entry e s \<longleftrightarrow> (\<exists>t. enc (snd e) t \<and> s = json_quote (fst e) @ '':'' @ t)"

fun comma_tail :: "string list \<Rightarrow> char \<Rightarrow> string \<Rightarrow> string" where
  "comma_tail [] c r = c # r"
| "comma_tail (s # ss) c r = CHR '','' # s @ comma_tail ss c r"

lemma join_comma_tail: "join_with '','' (s # ss) @ c # r = s @ comma_tail ss c r"
  by (induction ss arbitrary: s) auto

lemma delim_comma_tail: "\<not> is_digit c \<Longrightarrow> delim (comma_tail ss c r)"
  by (cases ss) (auto simp: delim_def is_digit_def)

text \<open>
  Items coded by a prefix code \<open>P\<close>, joined by commas and closed by \<open>c\<close>, form a prefix code:
  the shared step for arrays and objects.
\<close>

lemma comma_tail_prefix:
  assumes code: "\<And>x y s t r r'. x \<in> set xs \<Longrightarrow> P x s \<Longrightarrow> P y t \<Longrightarrow> delim r \<Longrightarrow> delim r' \<Longrightarrow>
      s @ r = t @ r' \<Longrightarrow> f x = f y \<and> r = r'"
    and c: "c \<noteq> CHR '',''" "\<not> is_digit c"
  shows "list_all2 P xs ss \<Longrightarrow> list_all2 P ys ts \<Longrightarrow> comma_tail ss c r = comma_tail ts c r' \<Longrightarrow>
    map f xs = map f ys \<and> r = r'"
  using code
proof (induction xs arbitrary: ss ys ts)
  case Nil
  from Nil.prems(1-3) c show ?case by (cases ts) (auto simp: list_all2_Cons2)
next
  case (Cons x xs)
  from Cons.prems(1) obtain s ss' where ss: "ss = s # ss'" "P x s" "list_all2 P xs ss'"
    by (auto simp: list_all2_Cons1)
  with Cons.prems(3) c(1) obtain t ts' where ts: "ts = t # ts'" by (cases ts) auto
  with Cons.prems(2) obtain y ys' where ys: "ys = y # ys'" "P y t" "list_all2 P ys' ts'"
    by (auto simp: list_all2_Cons2)
  have eq: "s @ comma_tail ss' c r = t @ comma_tail ts' c r'"
    using Cons.prems(3) ss(1) ts by simp
  have "f x = f y \<and> comma_tail ss' c r = comma_tail ts' c r'"
    by (rule Cons.prems(4)[OF _ ss(2) ys(2) delim_comma_tail delim_comma_tail eq]) (simp_all add: c)
  moreover from this have "map f xs = map f ys' \<and> r = r'"
    using Cons.IH[OF ss(3) ys(3) _ Cons.prems(4)] by simp
  ultimately show ?case by (simp add: ys)
qed

lemma joined_prefix:
  assumes code: "\<And>x y s t r r'. x \<in> set xs \<Longrightarrow> P x s \<Longrightarrow> P y t \<Longrightarrow> delim r \<Longrightarrow> delim r' \<Longrightarrow>
      s @ r = t @ r' \<Longrightarrow> f x = f y \<and> r = r'"
    and start: "\<And>x s. P x s \<Longrightarrow> s \<noteq> [] \<and> hd s \<noteq> c"
    and c: "c \<noteq> CHR '',''" "\<not> is_digit c"
    and xs: "list_all2 P xs ss" and ys: "list_all2 P ys ts"
    and eq: "join_with '','' ss @ c # r = join_with '','' ts @ c # r'"
  shows "map f xs = map f ys \<and> r = r'"
proof (cases ss; cases ts)
  assume "ss = []" "ts = []"
  with xs ys eq show ?thesis by simp
next
  fix t ts' assume a: "ss = []" "ts = t # ts'"
  with ys start obtain y where "P y t" by (auto simp: list_all2_Cons2)
  with start have "t \<noteq> []" "hd t \<noteq> c" by blast+
  with eq a show ?thesis by (metis append_Nil hd_append2 join_comma_tail join_with.simps(1) list.sel(1))
next
  fix s ss' assume a: "ss = s # ss'" "ts = []"
  with xs start obtain x where "P x s" by (auto simp: list_all2_Cons2)
  with start have "s \<noteq> []" "hd s \<noteq> c" by blast+
  with eq a show ?thesis by (metis append_Nil hd_append2 join_comma_tail join_with.simps(1) list.sel(1))
next
  fix s ss' t ts' assume a: "ss = s # ss'" "ts = t # ts'"
  with eq have "s @ comma_tail ss' c r = t @ comma_tail ts' c r'" by (simp only: join_comma_tail)
  then have "comma_tail ss c r = comma_tail ts c r'" by (simp add: a)
  from comma_tail_prefix[where P = P and f = f, OF _ c xs ys this] code show ?thesis by blast
qed

lemma number_prefix:
  assumes "delim r" "delim r'" and eq: "string_of_int i @ r = string_of_int j @ r'"
  shows "i = j \<and> r = r'"
proof -
  have digits: "takeWhile is_digit (string_of_nat n @ q) = string_of_nat n
      \<and> dropWhile is_digit (string_of_nat n @ q) = q" if "delim q" for n q
    using that string_of_nat_digits[of _ n]
    by (cases q) (auto simp: delim_def takeWhile_append dropWhile_append)
  have neg: "string_of_nat n @ q \<noteq> CHR ''-'' # q'" for n q q'
    by (metis append_eq_Cons_conv list.set_intros(1) minus_not_digit string_of_nat_digits string_of_nat_ne)
  show ?thesis
  proof (cases "i < 0"; cases "j < 0")
    assume n: "i < 0" "j < 0"
    with eq have "string_of_nat (nat (- i)) @ r = string_of_nat (nat (- j)) @ r'"
      by (simp add: string_of_int_def)
    with digits assms(1,2) have "nat (- i) = nat (- j)" "r = r'" by (metis string_of_nat_inject)+
    with n show ?thesis by simp
  next
    assume "i < 0" "\<not> j < 0"
    with eq show ?thesis by (simp add: string_of_int_def neg[THEN not_sym])
  next
    assume "\<not> i < 0" "j < 0"
    with eq show ?thesis by (simp add: string_of_int_def neg)
  next
    assume n: "\<not> i < 0" "\<not> j < 0"
    with eq have "string_of_nat (nat i) @ r = string_of_nat (nat j) @ r'"
      by (simp add: string_of_int_def)
    with digits assms(1,2) have "nat i = nat j" "r = r'" by (metis string_of_nat_inject)+
    with n show ?thesis by simp
  qed
qed


lemma res_map_list_enum:
  "res_map_list (\<lambda>(i, v). f i v) (enumerate n xs) = Inr ss \<Longrightarrow> list_all2 (\<lambda>v s. \<exists>i. f i v = Inr s) xs ss"
  by (induction xs arbitrary: n ss) (auto simp: res_bind_Inr_iff)

lemma enc_ArrD:
  assumes "enc (JArr xs) s"
  shows "\<exists>ss. list_all2 enc xs ss \<and> s = ''['' @ join_with '','' ss @ '']''"
proof -
  from assms obtain p ss where
    "res_map_list (\<lambda>(i, v). encode v (p @ ''['' @ string_of_nat i @ '']'')) (enumerate 0 xs) = Inr ss"
    and s: "s = ''['' @ join_with '','' ss @ '']''"
    by (auto simp: enc_def res_bind_Inr_iff)
  from res_map_list_enum[OF this(1)] have "list_all2 enc xs ss"
    by (rule list_all2_mono) (auto simp: enc_def)
  with s show ?thesis by blast
qed

lemma enc_ObjD:
  assumes "enc (JObj es) s"
  shows "\<exists>ss. list_all2 enc_entry (sorted_entries es) ss \<and> s = ''{'' @ join_with '','' ss @ ''}''"
  using assms
  by (fastforce simp: enc_def res_bind_Inr_iff res_map_list_Inr_iff enc_entry_def elim!: list_all2_mono)

lemma enc_simps [simp]:
  "enc JNull s \<longleftrightarrow> s = ''null''" "enc (JStr t) s \<longleftrightarrow> s = json_quote t"
  "enc (JBool b) s \<longleftrightarrow> s = (if b then ''true'' else ''false'')"
  "\<not> enc JUndef s" "\<not> enc (JInst c es) s" "\<not> enc (JExotic x) s"
  by (auto simp: enc_def)

lemma enc_NumD: "enc (JNum v) s \<Longrightarrow> \<exists>k. v = Fin (of_int k) \<and> s = string_of_int k"
  by (auto simp: enc_def num_to_string_int split: if_splits elim!: num_is_safe_integerE)

text \<open>The first character tells the kind of the value.\<close>

definition starts_number :: "char \<Rightarrow> bool" where
  "starts_number c \<longleftrightarrow> c = CHR ''-'' \<or> is_digit c"

lemma hd_string_of_int: "starts_number (hd (string_of_int k))"
  by (auto simp: starts_number_def string_of_int_def intro!: string_of_nat_digits[of _ "nat k"])

lemma string_of_int_ne [simp]: "string_of_int k \<noteq> []"
  by (simp add: string_of_int_def)

definition first_char :: "jsval \<Rightarrow> char \<Rightarrow> bool" where
  "first_char v c \<longleftrightarrow>
     (case v of
        JNull \<Rightarrow> c = CHR ''n''
      | JBool b \<Rightarrow> c = (if b then CHR ''t'' else CHR ''f'')
      | JNum _ \<Rightarrow> starts_number c
      | JStr _ \<Rightarrow> c = quote_char
      | JArr _ \<Rightarrow> c = CHR ''[''
      | JObj _ \<Rightarrow> c = CHR ''{''
      | _ \<Rightarrow> False)"

lemma enc_first: "enc v s \<Longrightarrow> s \<noteq> [] \<and> first_char v (hd s)"
  by (cases v) (auto simp: first_char_def hd_string_of_int dest!: enc_NumD enc_ArrD enc_ObjD)

lemma enc_not_close: "enc v s \<Longrightarrow> s \<noteq> [] \<and> hd s \<noteq> CHR '']''"
  using enc_first[of v s]
  by (auto simp: first_char_def starts_number_def is_digit_def
      split: jsval.splits if_splits)

lemma enc_entry_not_close: "enc_entry e s \<Longrightarrow> s \<noteq> [] \<and> hd s \<noteq> CHR ''}''"
  by (auto simp: enc_entry_def)

lemma first_char_kind:
  assumes "first_char v c" "first_char w c"
  shows "(\<exists>a b. v = JNum a \<and> w = JNum b) \<or> (\<exists>a b. v = JStr a \<and> w = JStr b) \<or>
    (\<exists>a b. v = JArr a \<and> w = JArr b) \<or> (\<exists>a b. v = JObj a \<and> w = JObj b) \<or>
    (v = w \<and> (v = JNull \<or> v = JBool True \<or> v = JBool False))"
  using assms
  by (auto simp: first_char_def starts_number_def is_digit_def
      split: jsval.splits if_splits)


lemma sorted_entries_subset: "set (sorted_entries es) \<subseteq> set es"
  by (auto simp: sorted_entries_def defined_entries_def)

theorem enc_prefix_code:
  "enc v s \<Longrightarrow> enc w t \<Longrightarrow> delim r \<Longrightarrow> delim r' \<Longrightarrow> s @ r = t @ r' \<Longrightarrow> canon v = canon w \<and> r = r'"
proof (induction v arbitrary: w s t r r')
  case (JNum a)
  obtain i where i: "a = Fin (of_int i)" "s = string_of_int i" using enc_NumD[OF JNum.prems(1)] by blast
  have "hd s = hd t"
    by (metis JNum.prems(1,2,5) enc_first hd_append2)
  with JNum.prems(1,2) obtain b where b: "w = JNum b"
    using first_char_kind[of "JNum a" "hd s" w] enc_first by fastforce
  with JNum.prems(2) obtain j where j: "b = Fin (of_int j)" "t = string_of_int j" using enc_NumD by blast
  from number_prefix[OF JNum.prems(3,4)] JNum.prems(5) i j b show ?case by fastforce
next
  case (JArr xs)
  have "hd s = hd t" by (metis JArr.prems(1,2,5) enc_first hd_append2)
  with JArr.prems(1,2) obtain ys where w: "w = JArr ys"
    using first_char_kind[of "JArr xs" "hd s" w] enc_first by fastforce
  obtain ss where ss: "list_all2 enc xs ss" "s = ''['' @ join_with '','' ss @ '']''"
    using enc_ArrD[OF JArr.prems(1)] by blast
  obtain ts where ts: "list_all2 enc ys ts" "t = ''['' @ join_with '','' ts @ '']''"
    using enc_ArrD JArr.prems(2) w by blast
  have eq: "join_with '','' ss @ CHR '']'' # r = join_with '','' ts @ CHR '']'' # r'"
    using JArr.prems(5) ss(2) ts(2) by simp
  have "map canon xs = map canon ys \<and> r = r'"
    by (rule joined_prefix[where P = enc, OF JArr.IH enc_not_close _ _ ss(1) ts(1) eq]) (simp_all add: is_digit_def)
  with w show ?case by simp
next
  case (JObj es)
  have "hd s = hd t" by (metis JObj.prems(1,2,5) enc_first hd_append2)
  with JObj.prems(1,2) obtain fs where w: "w = JObj fs"
    using first_char_kind[of "JObj es" "hd s" w] enc_first by fastforce
  obtain ss where ss: "list_all2 enc_entry (sorted_entries es) ss" "s = ''{'' @ join_with '','' ss @ ''}''"
    using enc_ObjD[OF JObj.prems(1)] by blast
  obtain ts where ts: "list_all2 enc_entry (sorted_entries fs) ts" "t = ''{'' @ join_with '','' ts @ ''}''"
    using enc_ObjD JObj.prems(2) w by blast
  have eq: "join_with '','' ss @ CHR ''}'' # r = join_with '','' ts @ CHR ''}'' # r'"
    using JObj.prems(5) ss(2) ts(2) by simp
  let ?f = "\<lambda>(k, v). (k, canon v)"
  have code: "?f x = ?f y \<and> q = q'"
    if x: "x \<in> set (sorted_entries es)" and "enc_entry x a" "enc_entry y b" "delim q" "delim q'" "a @ q = b @ q'"
    for x y a b q q'
  proof -
    from that obtain a' b' where ab: "enc (snd x) a'" "a = json_quote (fst x) @ '':'' @ a'"
      "enc (snd y) b'" "b = json_quote (fst y) @ '':'' @ b'"
      by (auto simp: enc_entry_def)
    with that(6) have "fst x = fst y \<and> a' @ q = b' @ q'"
      using json_quote_prefix[of "fst x" "'':'' @ a' @ q" "fst y" "'':'' @ b' @ q'"] by simp
    moreover have "x \<in> set es" using x sorted_entries_subset by blast
    ultimately show ?thesis
      using JObj.IH[of x "snd x" a' "snd y" b' q q'] ab that(4,5)
      by (cases x; cases y) auto
  qed
  from joined_prefix[where P = enc_entry and f = ?f, OF code enc_entry_not_close _ _ ss(1) ts(1) eq]
  have "map ?f (sorted_entries es) = map ?f (sorted_entries fs) \<and> r = r'" by (simp add: is_digit_def)
  with w show ?case by simp
next
  case (JStr a)
  have "hd s = hd t" by (metis JStr.prems(1,2,5) enc_first hd_append2)
  with JStr.prems(1,2) obtain b where w: "w = JStr b"
    using first_char_kind[of "JStr a" "hd s" w] enc_first by fastforce
  with JStr.prems json_quote_prefix[of a r b r'] show ?case by simp
next
  case JNull
  have "hd s = hd t" by (metis JNull.prems(1,2,5) enc_first hd_append2)
  with JNull.prems(1,2) have "w = JNull"
    using first_char_kind[of JNull "hd s" w] enc_first by fastforce
  with JNull.prems show ?case by simp
next
  case (JBool b)
  have "hd s = hd t" by (metis JBool.prems(1,2,5) enc_first hd_append2)
  with JBool.prems(1,2) have "w = JBool b"
    using first_char_kind[of "JBool b" "hd s" w] enc_first by fastforce
  with JBool.prems show ?case by simp
qed simp_all

section \<open>Member order and undefined members do not matter\<close>

lemma insert_by_sorted: "sorted_wrt le (x # xs) \<Longrightarrow> insert_by le x xs = x # xs"
  by (cases xs) auto

lemma sort_by_sorted: "sorted_wrt le xs \<Longrightarrow> sort_by le xs = xs"
proof (induction xs)
  case Nil
  then show ?case by simp
next
  case (Cons x xs)
  then have "sort_by le xs = xs" by simp
  then show ?case by (simp only: sort_by.simps insert_by_sorted[OF Cons.prems])
qed

lemma sorted_wrt_sorted_entries: "sorted_wrt entry_le (sorted_entries es)"
  unfolding sorted_entries_def
  by (rule sorted_sort_by) (auto simp: entry_le_def str_le_total intro: str_le_trans)

lemma canon_undef [simp]: "canon v = JUndef \<longleftrightarrow> v = JUndef"
  by (cases v) auto

lemma sorted_entries_canon:
  "sorted_entries (map (\<lambda>(k, v). (k, canon v)) (sorted_entries es)) = map (\<lambda>(k, v). (k, canon v)) (sorted_entries es)"
proof -
  let ?m = "map (\<lambda>(k, v). (k, canon v)) (sorted_entries es)"
  have "defined_entries ?m = ?m"
    by (auto simp: defined_entries_def filter_id_conv sorted_entries_def)
  moreover have "sorted_wrt entry_le ?m"
    using sorted_wrt_sorted_entries[of es]
    by (auto simp: sorted_wrt_map entry_le_def split_beta elim!: sorted_wrt_mono_rel[rotated])
  ultimately show ?thesis by (simp add: sorted_entries_def[of ?m] sort_by_sorted)
qed

lemma res_map_list_map: "res_map_list f (map g xs) = res_map_list (\<lambda>x. f (g x)) xs"
  by (induction xs) auto

lemma enumerate_map: "enumerate n (map f xs) = map (\<lambda>(i, x). (i, f x)) (enumerate n xs)"
  by (induction xs arbitrary: n) auto

lemma case_prod_map_entry:
  "(case (case e of (k, v) \<Rightarrow> (k, g v)) of (k, v) \<Rightarrow> h k v) = (case e of (k, v) \<Rightarrow> h k (g v))"
  by (cases e) simp

lemma encode_canon: "encode (canon v) p = encode v p"
proof (induction v p rule: encode.induct)
  case (6 xs path)
  have "res_map_list (\<lambda>(i, v). encode (canon v) (path @ ''['' @ string_of_nat i @ '']'')) (enumerate 0 xs)
      = res_map_list (\<lambda>(i, v). encode v (path @ ''['' @ string_of_nat i @ '']'')) (enumerate 0 xs)"
    by (rule res_map_list_cong) (use 6 in auto)
  then show ?case by (simp add: enumerate_map res_map_list_map split_def)
next
  case (8 es path)
  have "res_map_list (\<lambda>(k, v). res_bind (encode (canon v) (path @ ''.'' @ k)) (\<lambda>s. Inr (json_quote k @ '':'' @ s)))
        (sorted_entries es)
      = res_map_list (\<lambda>(k, v). res_bind (encode v (path @ ''.'' @ k)) (\<lambda>s. Inr (json_quote k @ '':'' @ s)))
        (sorted_entries es)"
    by (rule res_map_list_cong) (use 8 in auto)
  then show ?case
    unfolding canon.simps(2) encode.simps(8) sorted_entries_canon res_map_list_map case_prod_map_entry
    by (simp only: )
qed simp_all

lemma encode_path:
  "encode v p = Inr s \<Longrightarrow> encode v q = Inr s"
proof (induction v p arbitrary: q s rule: encode.induct)
  case (6 xs path)
  let ?f = "\<lambda>p (i, v). encode v (p @ ''['' @ string_of_nat i @ '']'')"
  from 6(2) obtain ss where ss: "res_map_list (?f path) (enumerate 0 xs) = Inr ss"
    and s: "s = ''['' @ join_with '','' ss @ '']''" by (auto simp: res_bind_Inr_iff)
  have "list_all2 (\<lambda>x s. ?f q x = Inr s) (enumerate 0 xs) ss"
    using ss unfolding res_map_list_Inr_iff
  proof (rule list.rel_mono_strong)
    fix x t assume x: "x \<in> set (enumerate 0 xs)" and t: "?f path x = Inr t"
    obtain i v where iv: "x = (i, v)" by (cases x)
    with t have u: "encode v (path @ ''['' @ string_of_nat i @ '']'') = Inr t" by simp
    from 6(1)[OF x[unfolded iv] refl u, of "q @ ''['' @ string_of_nat i @ '']''"] iv
    show "?f q x = Inr t" by simp
  qed
  then have "res_map_list (?f q) (enumerate 0 xs) = Inr ss" by (simp only: res_map_list_Inr_iff)
  with s show ?case by simp
next
  case (8 es path)
  let ?f = "\<lambda>p (k, v). res_bind (encode v (p @ ''.'' @ k)) (\<lambda>s. Inr (json_quote k @ '':'' @ s))"
  from 8(2) obtain ss where ss: "res_map_list (?f path) (sorted_entries es) = Inr ss"
    and s: "s = ''{'' @ join_with '','' ss @ ''}''" by (auto simp: res_bind_Inr_iff)
  have "list_all2 (\<lambda>x s. ?f q x = Inr s) (sorted_entries es) ss"
    using ss unfolding res_map_list_Inr_iff
  proof (rule list.rel_mono_strong)
    fix x t assume x: "x \<in> set (sorted_entries es)" and t: "?f path x = Inr t"
    obtain k v where kv: "x = (k, v)" by (cases x)
    with t obtain u where u: "encode v (path @ ''.'' @ k) = Inr u" "t = json_quote k @ '':'' @ u"
      by (auto simp: res_bind_Inr_iff)
    from 8(1)[OF x[unfolded kv] refl u(1), of "q @ ''.'' @ k"] u(2) kv show "?f q x = Inr t" by simp
  qed
  then have "res_map_list (?f q) (sorted_entries es) = Inr ss" by (simp only: res_map_list_Inr_iff)
  with s show ?case by simp
qed (simp_all split: if_splits)

lemma encode_eq_canon:
  assumes "encode v p = Inr s" and "encode w q = Inr t"
  shows "s = t \<longleftrightarrow> canon v = canon w"
proof
  assume "s = t"
  with enc_prefix_code[of v s w t "[]" "[]"] assms show "canon v = canon w"
    by (auto simp: enc_def delim_def)
next
  assume c: "canon v = canon w"
  have "encode v q = Inr s" using assms(1) by (rule encode_path)
  moreover have "encode v q = encode w q" by (metis c encode_canon)
  ultimately show "s = t" using assms(2) by simp
qed

section \<open>What can be hashed\<close>

text \<open>
  The specification of the integers-only rule: null, booleans, strings and safe integers, arrays
  of those, and plain objects whose members, the undefined ones aside, are of those.
\<close>

fun hashable :: "jsval \<Rightarrow> bool" where
  "hashable JNull = True"
| "hashable (JBool b) = True"
| "hashable (JStr s) = True"
| "hashable (JNum v) = num_is_safe_integer v"
| "hashable (JArr xs) = list_all hashable xs"
| "hashable (JObj es) = list_all (\<lambda>(k, v). v = JUndef \<or> hashable v) es"
| "hashable _ = False"

lemma safe_integer_finite [simp]: "num_is_safe_integer v \<Longrightarrow> num_is_finite v"
  by (auto elim!: num_is_safe_integerE simp: num_is_finite_def)

lemma res_map_list_ok_iff:
  "(\<exists>ys. res_map_list f xs = Inr ys) \<longleftrightarrow> (\<forall>x\<in>set xs. \<exists>y. f x = Inr y)"
proof (induction xs)
  case (Cons x xs)
  then show ?case by (cases "f x") (auto simp: res_bind_Inr_iff)
qed simp

lemma set_sorted_entries: "set (sorted_entries es) = {e \<in> set es. snd e \<noteq> JUndef}"
  by (auto simp: sorted_entries_def defined_entries_def)

lemma ok_bind_Inr: "(\<exists>s. res_bind r (\<lambda>x. Inr (g x)) = Inr s) \<longleftrightarrow> (\<exists>x. r = Inr x)"
  by (auto simp: res_bind_Inr_iff)

lemma encode_hashable: "(\<exists>s. encode v p = Inr s) \<longleftrightarrow> hashable v"
proof (induction v p rule: encode.induct)
  case (6 xs path)
  have "(\<exists>s. encode (JArr xs) path = Inr s) \<longleftrightarrow> (\<forall>x\<in>set (enumerate 0 xs). hashable (snd x))"
    unfolding encode.simps ok_bind_Inr res_map_list_ok_iff using 6 by fastforce
  also have "\<dots> \<longleftrightarrow> (\<forall>x\<in>set (map snd (enumerate 0 xs)). hashable x)"
    by (simp only: set_map ball_simps)
  also have "\<dots> \<longleftrightarrow> hashable (JArr xs)" by (simp add: list_all_iff)
  finally show ?case .
next
  case (8 es path)
  have "(\<exists>s. encode (JObj es) path = Inr s) \<longleftrightarrow> (\<forall>e\<in>set (sorted_entries es). hashable (snd e))"
    unfolding encode.simps ok_bind_Inr res_map_list_ok_iff split_def using 8 by fastforce
  also have "\<dots> \<longleftrightarrow> hashable (JObj es)"
    by (auto simp: list_all_iff set_sorted_entries)
  finally show ?case .
qed auto

section \<open>Objects with distinct names\<close>

lemma map_of_reconstruct: "distinct (map fst xs) \<Longrightarrow> xs = map (\<lambda>k. (k, the (map_of xs k))) (map fst xs)"
proof -
  assume d: "distinct (map fst xs)"
  have "map (\<lambda>k. (k, the (map_of xs k))) (map fst xs) = map (\<lambda>e. e) xs"
    unfolding map_map by (rule map_cong) (use d in auto)
  then show ?thesis by simp
qed

lemma sorted_by_name_unique:
  assumes "sorted_wrt entry_le xs" "sorted_wrt entry_le ys" and d: "distinct (map fst xs)" "distinct (map fst ys)"
    and eq: "set xs = set ys"
  shows "xs = ys"
proof -
  have "mset (map fst xs) = mset (map fst ys)"
    using d eq set_eq_iff_mset_eq_distinct[OF d] by (metis list.set_map)
  moreover have "sorted_wrt str_le (map fst xs)" "sorted_wrt str_le (map fst ys)"
    using assms(1,2) by (simp_all add: sorted_wrt_map entry_le_def[abs_def])
  ultimately have "map fst xs = map fst ys"
    by (intro sorted_wrt_mset_unique[where le = str_le]) (auto intro: str_le_antisym)
  moreover have "map_of xs = map_of ys" using map_of_inject_set[OF d] eq by simp
  ultimately show ?thesis using map_of_reconstruct[OF d(1)] map_of_reconstruct[OF d(2)] by metis
qed

lemma canon_JObj_eq_iff:
  assumes d: "distinct (map fst es)" "distinct (map fst fs)"
    and u: "JUndef \<notin> snd ` set es" "JUndef \<notin> snd ` set fs"
  shows "canon (JObj es) = canon (JObj fs) \<longleftrightarrow>
    (\<lambda>(k, v). (k, canon v)) ` set es = (\<lambda>(k, v). (k, canon v)) ` set fs"
proof -
  let ?c = "map (\<lambda>(k, v). (k, canon v))"
  have s: "set (?c (sorted_entries xs)) = (\<lambda>(k, v). (k, canon v)) ` set xs" if "JUndef \<notin> snd ` set xs" for xs
  proof -
    have "{e \<in> set xs. snd e \<noteq> JUndef} = set xs" using that by force
    then show ?thesis by (simp add: set_sorted_entries)
  qed
  have k: "distinct (map fst (?c (sorted_entries xs)))" if "distinct (map fst xs)" for xs
  proof -
    have "mset (map fst (?c (sorted_entries xs))) = mset (map fst (defined_entries xs))"
      by (simp add: sorted_entries_def comp_def split_def mset_map[symmetric] del: mset_map)
        (simp add: mset_map)
    moreover have "distinct (map fst (defined_entries xs))"
      using that by (simp add: defined_entries_def distinct_map_filter)
    ultimately show ?thesis by (metis mset_eq_imp_distinct_iff)
  qed
  have w: "sorted_wrt entry_le (?c (sorted_entries xs))" for xs
    using sorted_wrt_sorted_entries[of xs]
    by (simp add: sorted_wrt_map split_beta) (simp add: entry_le_def[abs_def])
  show ?thesis
    unfolding canon.simps jsval.inject s[OF u(1), symmetric] s[OF u(2), symmetric]
    using sorted_by_name_unique[OF w w k[OF d(1)] k[OF d(2)]] by metis
qed

section \<open>Equal digests\<close>

lemma sha256_eq_iff:
  assumes "sha256 C v = Inr d" and "sha256 C w = Inr e"
  shows "d = e \<longleftrightarrow> canon v = canon w \<or>
    (\<exists>s t. encode v ''$'' = Inr s \<and> encode w ''$'' = Inr t \<and> collision C s t)"
proof -
  from assms obtain s t where s: "encode v ''$'' = Inr s" "d = sha256Ref C s"
    and t: "encode w ''$'' = Inr t" "e = sha256Ref C t"
    by (auto simp: sha256_def res_bind_Inr_iff)
  from encode_eq_canon[OF s(1) t(1)] sha256Ref_eq_cases[of C s t] s t show ?thesis
    by (auto simp: collision_def sha256Ref_def)
qed

section \<open>Properties\<close>

text \<open>
  C37: the canonical form is injective up to the order of members and undefined members: two
  values that both encode have the same bytes if and only if their canonical values are the same,
  whatever the paths they were encoded under.
\<close>

theorem encode_injective:
  assumes "encode v p = Inr s" and "encode w q = Inr t"
  shows "s = t \<longleftrightarrow> canon v = canon w"
  using assms by (rule encode_eq_canon)

theorem encode_injective_witness:
  "encode (JObj [(''b'', JInt 1), (''c'', JUndef), (''a'', JArr [JStr ''x''])]) ''p''
     = encode (JObj [(''a'', JArr [JStr ''x'']), (''b'', JInt 1)]) ''q''
   \<and> encode (JObj [(''a'', JArr [])]) ''p'' \<noteq> encode (JObj [(''a'', JNull)]) ''p''"
  (is "encode ?a _ = encode ?b _ \<and> encode ?c _ \<noteq> encode ?d _")
proof -
  have h: "hashable ?a" "hashable ?b" "hashable ?c" "hashable ?d" by code_simp+
  have eq: "canon ?a = canon ?b" "canon ?c \<noteq> canon ?d" by code_simp+
  from h obtain sa sb sc sd where s: "encode ?a ''p'' = Inr sa" "encode ?b ''q'' = Inr sb"
    "encode ?c ''p'' = Inr sc" "encode ?d ''p'' = Inr sd"
    using encode_hashable by meson
  show ?thesis
    using encode_injective[OF s(1,2)] encode_injective[OF s(3,4)] eq s by simp
qed

text \<open>
  The commitment binds.  If two values hash, then their digests agree exactly when the values
  agree up to member order and undefined members, or the two canonical forms are themselves a
  collision of the hash.
\<close>

theorem sha256_commits:
  assumes "sha256 C v = Inr d" and "sha256 C w = Inr e"
  shows "d = e \<longleftrightarrow> canon v = canon w \<or>
    (\<exists>s t. encode v ''$'' = Inr s \<and> encode w ''$'' = Inr t \<and> collision C s t)"
  using assms by (rule sha256_eq_iff)

theorem sha256_commits_witness:
  "sha256 sample_crypto (JObj [(''a'', JInt 1), (''b'', JNull)])
     = sha256 sample_crypto (JObj [(''b'', JNull), (''a'', JInt 1), (''c'', JUndef)])"
  (is "sha256 _ ?a = sha256 _ ?b")
proof -
  have "hashable ?a" "hashable ?b" by code_simp+
  then obtain s t where "encode ?a ''$'' = Inr s" "encode ?b ''$'' = Inr t"
    using encode_hashable by meson
  then obtain d e where h: "sha256 sample_crypto ?a = Inr d" "sha256 sample_crypto ?b = Inr e"
    by (simp add: sha256_def)
  have "canon ?a = canon ?b" by code_simp
  then show ?thesis using sha256_commits[OF h] h by simp
qed

text \<open>
  The integers-only rule. A value has a commitment exactly when it is made of null,
  booleans, strings, safe integers, arrays and plain objects; a fraction, an infinity, NaN, an
  undefined array element or a class instance anywhere inside is an error.
\<close>

theorem sha256_total_on_hashable: "(\<exists>d. sha256 C v = Inr d) \<longleftrightarrow> hashable v"
  using encode_hashable[of v "''$''"] by (auto simp: sha256_def res_bind_Inr_iff)

end
