(* ===== verification/Signing.thy ===== *)
theory Signing
  imports Hash
begin

text \<open>
  \<open>src/signing.ts\<close>: hexadecimal bytes, canonical bytes, the \<open>secp256k1-keccak-v1\<close> signature
  (\<open>sign\<close>, \<open>recover\<close>, \<open>verify\<close>), key names, and the signed preimages of the terms, commands,
  party envelopes, receipts and transition proofs.  A \<open>Record<string, unknown>\<close> is the list of its
  members (\<open>json\<close>).  Curve, digests and RFC 8785 canonicalization are the parameter \<open>C\<close>; a value
  the \<open>canonicalize\<close> package answers undefined for, or throws on, has no canonical text.
\<close>

type_synonym json = "(string \<times> jsval) list"

datatype signing_error =
    NotHex string
  | NoJcsForm

section \<open>Tags\<close>

datatype signed_family = TermsFamily | CommandFamily | FundingFamily | ReceiptFamily

fun DOMAIN_TAGS :: "signed_family \<Rightarrow> string" where
  "DOMAIN_TAGS TermsFamily = ''kite:a2a-agreement:terms:v1''"
| "DOMAIN_TAGS CommandFamily = ''kite:a2a-agreement:command:v1''"
| "DOMAIN_TAGS FundingFamily = ''kite:a2a-agreement:funding:v1''"
| "DOMAIN_TAGS ReceiptFamily = ''kite:a2a-agreement:receipt:v1''"

definition PROOF_TAG :: string where
  "PROOF_TAG = ''kite:fulfill:transition-proof:v1''"

definition SIGNATURE_PROFILE :: string where
  "SIGNATURE_PROFILE = ''secp256k1-keccak-v1''"

section \<open>Bytes\<close>

text \<open>\<open>parseInt(h.slice(2 * i, 2 * i + 2), 16)\<close> for every \<open>i\<close>, the text being hexadecimal.\<close>

fun hex_pairs :: "string \<Rightarrow> string" where
  "hex_pairs (a # b # r) = char_of (16 * the (hex_val a) + the (hex_val b)) # hex_pairs r"
| "hex_pairs _ = []"

definition fromHex :: "string \<Rightarrow> (signing_error, string) res" where
  "fromHex s =
     (let h = (if starts_with ''0x'' s then drop 2 s else s)
      in if js_length h mod 2 \<noteq> 0 \<or> \<not> list_all is_hex_char h then Inl (NotHex s)
         else Inr (hex_pairs h))"

definition concatBytes :: "string list \<Rightarrow> string" where
  "concatBytes parts = concat parts"

definition jcs :: "crypto \<Rightarrow> jsval \<Rightarrow> (signing_error, string) res" where
  "jcs C v = (case canonicalize C v of None \<Rightarrow> Inl NoJcsForm | Some s \<Rightarrow> Inr s)"

section \<open>Keys\<close>

text \<open>\<open>"0x" + toHex(keccak_256(pub.slice(1)).slice(-20))\<close>\<close>

definition address_of_pubkey :: "crypto \<Rightarrow> string \<Rightarrow> string" where
  "address_of_pubkey C pub =
     ''0x'' @ to_hex (let d = keccak_digest C (drop 1 pub) in drop (length d - 20) d)"

definition addressOfPrivateKey :: "crypto \<Rightarrow> string \<Rightarrow> string" where
  "addressOfPrivateKey C privateKey = address_of_pubkey C (curve_pubkey C privateKey False)"

definition thumbprintOfPrivateKey :: "crypto \<Rightarrow> string \<Rightarrow> string" where
  "thumbprintOfPrivateKey C privateKey =
     ''jkt:'' @ take 16 (to_hex (sha256_digest C
       (concatBytes [''secp256k1:'', curve_pubkey C privateKey True])))"

definition keyIdOf :: "crypto \<Rightarrow> string \<Rightarrow> string \<Rightarrow> string" where
  "keyIdOf C did privateKey = did @ ''#'' @ thumbprintOfPrivateKey C privateKey"

section \<open>Signatures\<close>

text \<open>\<open>(sig.recovery + 27).toString(16)\<close> is one byte, \<open>1b\<close> or \<open>1c\<close>.\<close>

definition sign :: "crypto \<Rightarrow> string \<Rightarrow> string \<Rightarrow> string" where
  "sign C privateKey preimage =
     (let (compact, recovery) = curve_sign C privateKey (keccak_digest C preimage)
      in ''0x'' @ to_hex compact @ hex_byte (char_of (recovery + 27)))"

definition recover :: "crypto \<Rightarrow> string \<Rightarrow> string \<Rightarrow> string option" where
  "recover C signature preimage =
     (if \<not> starts_with ''0x'' signature \<or> js_length signature \<noteq> 132 then None
      else case fromHex signature of
             Inl e \<Rightarrow> None
           | Inr raw \<Rightarrow>
               (let v = of_char (raw ! 64) :: nat
                in if v \<noteq> 27 \<and> v \<noteq> 28 then None
                   else map_option (address_of_pubkey C)
                          (curve_recover C (take 64 raw) (v - 27) (keccak_digest C preimage))))"

definition verify :: "crypto \<Rightarrow> string \<Rightarrow> string \<Rightarrow> string \<Rightarrow> bool" where
  "verify C signature preimage address =
     (case recover C signature preimage of None \<Rightarrow> False | Some a \<Rightarrow> a = js_lower address)"

section \<open>The signed preimages\<close>

text \<open>\<open>const { k: _, ...rest } = value\<close>: the members but the named ones.\<close>

definition omit :: "string list \<Rightarrow> json \<Rightarrow> json" where
  "omit ks es = filter (\<lambda>(k, v). k \<notin> set ks) es"

definition termsHashOf :: "crypto \<Rightarrow> json \<Rightarrow> (signing_error, string) res" where
  "termsHashOf C contract =
     res_bind (jcs C (JObj (omit [''signatures'', ''termsHash''] contract))) (\<lambda>b. Inr (sha256Ref C b))"

definition termsSigningBytes :: "string \<Rightarrow> string" where
  "termsSigningBytes termsHash = concatBytes [DOMAIN_TAGS TermsFamily, termsHash]"

definition commandSigningBytes :: "crypto \<Rightarrow> json \<Rightarrow> (signing_error, string) res" where
  "commandSigningBytes C command =
     res_bind (jcs C (JObj (omit [''signature''] command)))
       (\<lambda>b. Inr (concatBytes [DOMAIN_TAGS CommandFamily, b]))"

definition payloadHashOf :: "crypto \<Rightarrow> jsval \<Rightarrow> (signing_error, string) res" where
  "payloadHashOf C payload = res_bind (jcs C payload) (\<lambda>b. Inr (sha256Ref C b))"

definition envelopeSigningBytes :: "crypto \<Rightarrow> json \<Rightarrow> (signing_error, string) res" where
  "envelopeSigningBytes C envelope =
     res_bind (jcs C (JObj (omit [''signature''] envelope)))
       (\<lambda>b. Inr (concatBytes [DOMAIN_TAGS FundingFamily, b]))"

definition RECEIPT_SIGNED_FIELDS :: "string list" where
  "RECEIPT_SIGNED_FIELDS =
     [''schema'', ''receiptId'', ''dealId'', ''commandId'', ''commandHash'', ''fromState'',
      ''toState'', ''revision'', ''recordedAt'']"

definition receiptSignedPreimage :: "crypto \<Rightarrow> json \<Rightarrow> (signing_error, string) res" where
  "receiptSignedPreimage C receipt =
     jcs C (JObj (concat (map (\<lambda>k. if getp (JObj receipt) k = JUndef then [] else [(k, getp (JObj receipt) k)])
       RECEIPT_SIGNED_FIELDS)))"

definition receiptSigningBytes :: "crypto \<Rightarrow> json \<Rightarrow> (signing_error, string) res" where
  "receiptSigningBytes C receipt =
     res_bind (receiptSignedPreimage C receipt) (\<lambda>b. Inr (concatBytes [DOMAIN_TAGS ReceiptFamily, b]))"

definition proofSigningBytes :: "string \<Rightarrow> string" where
  "proofSigningBytes proofHash = concatBytes [PROOF_TAG, proofHash]"

section \<open>Tagged preimages\<close>

text \<open>
  The contract of a tag set: no tag begins another one, so a preimage names its family and its
  content.  Every family of signed bytes relies on it and on nothing else.
\<close>

locale tagged_preimages =
  fixes tag :: "'f \<Rightarrow> string"
  assumes tag_apart: "f \<noteq> g \<Longrightarrow>
    take (min (length (tag f)) (length (tag g))) (tag f) \<noteq> take (min (length (tag f)) (length (tag g))) (tag g)"
begin

lemma preimage_inject: "tag f @ x = tag g @ y \<longleftrightarrow> f = g \<and> x = y"
proof
  assume e: "tag f @ x = tag g @ y"
  let ?n = "min (length (tag f)) (length (tag g))"
  from e have "take ?n (tag f @ x) = take ?n (tag g @ y)" by simp
  then have "take ?n (tag f) = take ?n (tag g)" by simp
  then have "f = g" using tag_apart by blast
  with e show "f = g \<and> x = y" by simp
qed simp

lemma preimage_family: "f \<noteq> g \<Longrightarrow> tag f @ x \<noteq> tag g @ y"
  by (simp add: preimage_inject)

end

section \<open>Hexadecimal text and bytes\<close>

lemma hex_pairs_to_hex: "hex_pairs (to_hex b @ r) = b @ hex_pairs r"
proof (induction b)
  case (Cons c b)
  have "char_of (16 * ((of_char c :: nat) div 16) + of_char c mod 16) = c" by simp
  with Cons show ?case by (simp add: to_hex_Cons hex_byte_def nibbles_lt)
qed simp

lemma hex_byte_is_hex_byte: "to_hex [c] = hex_byte c"
  by (simp add: to_hex_Cons)

lemma to_hex_append: "to_hex (a @ b) = to_hex a @ to_hex b"
  by (simp add: to_hex_def)

lemma all_hex_to_hex [simp]: "list_all is_hex_char (to_hex b)"
  by (auto simp: list_all_iff dest!: to_hex_chars intro: is_lower_hex_imp_hex)

lemma hex_char_ascii: "is_hex_char c \<Longrightarrow> (of_char c :: nat) < 128"
  by (auto simp: is_hex_char_def hex_val_def Let_def split: if_splits)

lemma js_length_ascii: "list_all (\<lambda>c. (of_char c :: nat) < 128) s \<Longrightarrow> js_length s = length s"
  by (induction s) (auto simp: js_length_def)

lemma js_length_hex: "list_all is_hex_char s \<Longrightarrow> js_length s = length s"
  by (rule js_length_ascii) (auto simp: list_all_iff hex_char_ascii)

lemma js_length_0x: "list_all is_hex_char s \<Longrightarrow> js_length (''0x'' @ s) = length s + 2"
  by (subst js_length_ascii) (auto simp: list_all_iff hex_char_ascii)

lemma to_hex_not_0x: "\<not> starts_with ''0x'' (to_hex b)"
proof
  assume "starts_with ''0x'' (to_hex b)"
  then obtain r where "to_hex b = ''0x'' @ r" by (auto simp: starts_with_iff)
  then have "CHR ''x'' \<in> set (to_hex b)" by simp
  then have "is_lower_hex_char (CHR ''x'')" by (rule to_hex_chars)
  then show False by (simp add: is_lower_hex_char_def)
qed

lemma fromHex_to_hex [simp]: "fromHex (to_hex b) = Inr b" "fromHex (''0x'' @ to_hex b) = Inr b"
proof -
  have "starts_with ''0x'' (''0x'' @ to_hex b)" by (rule starts_with_append)
  then show "fromHex (''0x'' @ to_hex b) = Inr b"
    using hex_pairs_to_hex[of b "[]"] by (simp add: fromHex_def js_length_hex)
  show "fromHex (to_hex b) = Inr b"
    using hex_pairs_to_hex[of b "[]"] by (simp add: fromHex_def js_length_hex to_hex_not_0x)
qed

lemma length_hex_pairs: "length (hex_pairs h) = length h div 2"
  by (induction h rule: hex_pairs.induct) simp_all

lemma fromHex_Inr:
  assumes "fromHex s = Inr b"
  shows "length b = length (if starts_with ''0x'' s then drop 2 s else s) div 2"
  using assms by (auto simp: fromHex_def Let_def length_hex_pairs split: if_splits)


section \<open>Signatures\<close>

lemma curve_okD:
  assumes "curve_ok C"
  shows "length (fst (curve_sign C k d)) = 64" "snd (curve_sign C k d) < 2"
    "curve_recover C (fst (curve_sign C k d)) (snd (curve_sign C k d)) d = Some (curve_pubkey C k False)"
  using assms by (auto simp: curve_ok_def)

lemma sign_hex: "sign C k p = ''0x'' @ to_hex (fst (curve_sign C k (keccak_digest C p)) @
    [char_of (snd (curve_sign C k (keccak_digest C p)) + 27)])"
  by (simp add: sign_def case_prod_beta to_hex_append hex_byte_is_hex_byte)

lemma recover_sign:
  assumes "curve_ok C"
  shows "recover C (sign C k p) p = Some (addressOfPrivateKey C k)"
proof -
  let ?sv = "curve_sign C k (keccak_digest C p)"
  let ?b = "fst ?sv @ [char_of (snd ?sv + 27)]"
  note c = curve_okD[OF assms, of k "keccak_digest C p"]
  have l: "js_length (''0x'' @ to_hex ?b) = 132"
    using c(1) by (simp only: js_length_0x all_hex_to_hex) simp
  have f: "fromHex (''0x'' @ to_hex ?b) = Inr ?b" by (rule fromHex_to_hex)
  have sw: "starts_with ''0x'' (''0x'' @ to_hex ?b)" by (rule starts_with_append)
  have v: "(of_char (char_of (snd ?sv + 27) :: char) :: nat) = snd ?sv + 27"
    using c(2) by (simp add: take_bit_eq_mod)
  have n: "(?b ! 64) = char_of (snd ?sv + 27)" using c(1) by (simp add: nth_append)
  have r: "snd ?sv + 27 = 27 \<or> snd ?sv + 27 = 28" using c(2) by auto
  show ?thesis
    unfolding recover_def sign_hex using l f sw r c(1,3) v n
    by (auto simp: Let_def addressOfPrivateKey_def)
qed

definition address_form :: "string \<Rightarrow> bool" where
  "address_form a \<longleftrightarrow> starts_with ''0x'' a \<and> length a = 42 \<and> list_all is_lower_hex_char (drop 2 a)"

lemma address_of_pubkey_form: "digests_ok C \<Longrightarrow> address_form (address_of_pubkey C pub)"
proof -
  assume "digests_ok C"
  then have l: "length (keccak_digest C (drop 1 pub)) = 32" by (simp add: digests_ok_def)
  have h: "list_all is_lower_hex_char (to_hex b)" for b
    by (auto simp: list_all_iff to_hex_chars)
  show ?thesis
    using l h starts_with_append[of "''0x''"] by (simp add: address_form_def address_of_pubkey_def Let_def)
qed

lemma lower_char_lower_hex [simp]: "is_lower_hex_char c \<Longrightarrow> lower_char c = c"
  by (auto simp: lower_char_def is_lower_hex_char_def Let_def)

lemma address_form_lower: "address_form a \<Longrightarrow> js_lower a = a"
proof -
  assume a: "address_form a"
  then obtain r where r: "a = ''0x'' @ r" by (auto simp: address_form_def starts_with_iff)
  with a have "list_all is_lower_hex_char r" by (simp add: address_form_def)
  then have "map lower_char r = r" by (intro map_idI) (auto simp: list_all_iff)
  with r show ?thesis by (simp add: js_lower_def lower_char_def)
qed

lemma recover_SomeD:
  assumes "recover C s p = Some a"
  obtains raw pub where "fromHex s = Inr raw" "starts_with ''0x'' s" "js_length s = 132"
    "a = address_of_pubkey C pub" "(of_char (raw ! 64) :: nat) = 27 \<or> (of_char (raw ! 64) :: nat) = 28"
    "curve_recover C (take 64 raw) (of_char (raw ! 64) - 27) (keccak_digest C p) = Some pub"
  using assms by (auto simp: recover_def Let_def split: if_splits sum.splits)

lemma verify_iff: "verify C s p a \<longleftrightarrow> recover C s p = Some (js_lower a)"
  by (auto simp: verify_def split: option.splits)

lemma verify_sign:
  assumes "curve_ok C" and "digests_ok C"
  shows "verify C (sign C k p) p (addressOfPrivateKey C k)"
  using recover_sign[OF assms(1)] address_form_lower[OF address_of_pubkey_form[OF assms(2)]]
  by (simp add: verify_iff addressOfPrivateKey_def)

section \<open>Canonical text\<close>

text \<open>
  A plain value is one RFC 8785 gives a text: finite numbers, no undefined array element, plain
  objects with distinct member names.  \<open>canonicalize_ok\<close> is the documented law of the package: on
  plain values two texts are equal exactly when the values are, members in any order and undefined
  members dropped.
\<close>

fun plain :: "jsval \<Rightarrow> bool" where
  "plain JNull = True"
| "plain (JBool b) = True"
| "plain (JStr s) = True"
| "plain (JNum v) = num_is_finite v"
| "plain (JArr xs) = list_all plain xs"
| "plain (JObj es) = (distinct (map fst es) \<and> list_all (\<lambda>(k, v). v = JUndef \<or> plain v) es)"
| "plain _ = False"

definition canonicalize_ok :: "crypto \<Rightarrow> bool" where
  "canonicalize_ok C \<longleftrightarrow>
     (\<forall>a b s t. plain a \<and> plain b \<and> canonicalize C a = Some s \<and> canonicalize C b = Some t
        \<longrightarrow> (s = t \<longleftrightarrow> canon a = canon b))"

text \<open>The law holds of the commitment encoder of \<open>engine/hash.ts\<close> where that answers.\<close>

definition encoder_crypto :: crypto where
  "encoder_crypto = sample_crypto \<lparr> canonicalize :=
     (\<lambda>v. case encode v ''$'' of Inl e \<Rightarrow> None | Inr s \<Rightarrow> Some s) \<rparr>"

lemma encoder_crypto_ok:
  "canonicalize_ok encoder_crypto" "digests_ok encoder_crypto" "curve_ok encoder_crypto"
proof -
  show "canonicalize_ok encoder_crypto"
    by (auto simp: canonicalize_ok_def encoder_crypto_def encode_eq_canon split: sum.splits)
  show "digests_ok encoder_crypto" "curve_ok encoder_crypto"
    using sample_crypto_ok by (simp_all add: encoder_crypto_def digests_ok_def curve_ok_def)
qed

lemma jcs_encoder: "jcs encoder_crypto v = (case encode v ''$'' of Inl e \<Rightarrow> Inl NoJcsForm | Inr s \<Rightarrow> Inr s)"
  by (simp add: jcs_def encoder_crypto_def split: sum.splits)

lemma jcs_encoder_ok: "hashable v \<Longrightarrow> \<exists>b. jcs encoder_crypto v = Inr b"
  using encode_hashable[of v "''$''"] by (auto simp: jcs_encoder)

lemma jcs_eq_iff:
  assumes "canonicalize_ok C" "plain a" "plain b" "jcs C a = Inr s" "jcs C b = Inr t"
  shows "s = t \<longleftrightarrow> canon a = canon b"
  using assms by (auto simp: jcs_def canonicalize_ok_def split: option.splits)

lemma map_of_sorted_entries:
  assumes "distinct (map fst es)"
  shows "map_of (sorted_entries es) k = (if map_of es k = Some JUndef then None else map_of es k)"
proof -
  have d: "distinct (map fst (sorted_entries es))"
  proof -
    have "mset (map fst (sorted_entries es)) = mset (map fst (defined_entries es))"
      by (simp add: sorted_entries_def)
    then show ?thesis using assms
      by (metis mset_eq_imp_distinct_iff defined_entries_def distinct_map_filter)
  qed
  show ?thesis
  proof (cases "map_of (sorted_entries es) k")
    case None
    then have "k \<notin> fst ` set (sorted_entries es)" by (simp add: map_of_eq_None_iff)
    then have "v = JUndef" if "map_of es k = Some v" for v
      using map_of_SomeD[OF that] by (force simp: set_sorted_entries)
    with None show ?thesis by (cases "map_of es k") auto
  next
    case (Some v)
    then have "(k, v) \<in> set es" "v \<noteq> JUndef" by (auto dest!: map_of_SomeD simp: set_sorted_entries)
    with assms Some show ?thesis by simp
  qed
qed

lemma getp_canon: "distinct (map fst es) \<Longrightarrow> getp (canon (JObj es)) k = canon (getp (JObj es) k)"
  by (simp add: getp_def map_of_map map_of_sorted_entries split: option.splits)

lemma canon_member_eq:
  assumes "canon (JObj es) = canon (JObj fs)" and "distinct (map fst es)" and "distinct (map fst fs)"
  shows "canon (getp (JObj es) k) = canon (getp (JObj fs) k)"
  using assms by (metis getp_canon)

lemma canon_JStr_iff [simp]: "canon v = JStr s \<longleftrightarrow> v = JStr s" "JStr s = canon v \<longleftrightarrow> v = JStr s"
  by (cases v; auto)+


section \<open>What each preimage covers\<close>

lemma plain_omit: "plain (JObj es) \<Longrightarrow> plain (JObj (omit ks es))"
  by (auto simp: omit_def list_all_iff distinct_map_filter)

lemma map_of_omit: "map_of (omit ks es) k = (if k \<in> set ks then None else map_of es k)"
  by (induction es) (auto simp: omit_def)

lemma getp_omit: "getp (JObj (omit ks es)) k = (if k \<in> set ks then JUndef else getp (JObj es) k)"
  by (simp add: getp_def map_of_omit)

definition receipt_signed :: "json \<Rightarrow> json" where
  "receipt_signed r = concat (map (\<lambda>k. if getp (JObj r) k = JUndef then [] else [(k, getp (JObj r) k)])
     RECEIPT_SIGNED_FIELDS)"

lemma selected_members:
  assumes "distinct ks"
  shows "map fst (concat (map (\<lambda>k. if g k = JUndef then [] else [(k, g k)]) ks)) = filter (\<lambda>k. g k \<noteq> JUndef) ks"
    "set (concat (map (\<lambda>k. if g k = JUndef then [] else [(k, g k)]) ks)) = {(k, g k) | k. k \<in> set ks \<and> g k \<noteq> JUndef}"
  by (induction ks) auto

lemma distinct_RECEIPT_SIGNED_FIELDS [simp]: "distinct RECEIPT_SIGNED_FIELDS"
  by (simp add: RECEIPT_SIGNED_FIELDS_def)

lemma plain_getp: "plain (JObj es) \<Longrightarrow> getp (JObj es) k \<noteq> JUndef \<Longrightarrow> plain (getp (JObj es) k)"
  by (cases "map_of es k") (auto simp: getp_def list_all_iff dest: map_of_SomeD)

lemma plain_receipt_signed: "plain (JObj r) \<Longrightarrow> plain (JObj (receipt_signed r))"
proof -
  assume p: "plain (JObj r)"
  have "list_all (\<lambda>(k, v). v = JUndef \<or> plain v) (receipt_signed r)"
    unfolding list_all_iff receipt_signed_def selected_members(2)[OF distinct_RECEIPT_SIGNED_FIELDS]
    using plain_getp[OF p] by auto
  moreover have "distinct (map fst (receipt_signed r))"
    by (simp only: receipt_signed_def selected_members(1)[OF distinct_RECEIPT_SIGNED_FIELDS]) simp
  ultimately show ?thesis by simp
qed

lemma map_of_receipt_signed:
  "getp (JObj (receipt_signed r)) k = (if k \<in> set RECEIPT_SIGNED_FIELDS then getp (JObj r) k else JUndef)"
proof (cases "k \<in> set RECEIPT_SIGNED_FIELDS \<and> getp (JObj r) k \<noteq> JUndef")
  case True
  then have "(k, getp (JObj r) k) \<in> set (receipt_signed r)"
    by (auto simp only: receipt_signed_def selected_members(2)[OF distinct_RECEIPT_SIGNED_FIELDS])
  moreover have "distinct (map fst (receipt_signed r))"
    by (simp only: receipt_signed_def selected_members(1)[OF distinct_RECEIPT_SIGNED_FIELDS]) simp
  ultimately have "map_of (receipt_signed r) k = Some (getp (JObj r) k)" by (rule map_of_is_SomeI[rotated])
  then show ?thesis using True by (simp add: getp_def)
next
  case False
  then have "k \<notin> set (map fst (receipt_signed r))"
    by (auto simp only: receipt_signed_def selected_members(1)[OF distinct_RECEIPT_SIGNED_FIELDS] set_filter)
  then have "map_of (receipt_signed r) k = None" by (simp add: map_of_eq_None_iff)
  then show ?thesis using False by (auto simp: getp_def)
qed

lemma canon_JObj_ext:
  assumes "distinct (map fst es)" "distinct (map fst fs)"
    and "\<And>k. canon (getp (JObj es) k) = canon (getp (JObj fs) k)"
  shows "canon (JObj es) = canon (JObj fs)"
proof -
  let ?d = defined_entries
  have dd: "distinct (map fst (?d xs))" if "distinct (map fst xs)" for xs :: json
    using that by (simp add: defined_entries_def distinct_map_filter)
  have ud: "JUndef \<notin> snd ` set (?d xs)" for xs :: json by (auto simp: defined_entries_def)
  have idem: "?d (?d xs) = ?d xs" for xs :: json by (simp add: defined_entries_def)
  have sub: "(\<lambda>(k, v). (k, canon v)) ` set (?d xs) \<subseteq> (\<lambda>(k, v). (k, canon v)) ` set (?d ys)"
    if "distinct (map fst xs)" "distinct (map fst ys)" and e: "\<And>k. canon (getp (JObj xs) k) = canon (getp (JObj ys) k)"
    for xs ys :: json
  proof
    fix p assume "p \<in> (\<lambda>(k, v). (k, canon v)) ` set (?d xs)"
    then obtain k v where kv: "(k, v) \<in> set xs" "v \<noteq> JUndef" "p = (k, canon v)" by (auto simp: defined_entries_def)
    have "canon (getp (JObj ys) k) = canon v"
      using kv that(1) e[of k] by (simp add: getp_def)
    moreover have "canon v \<noteq> JUndef" using kv(2) by (simp add: canon_undef)
    ultimately obtain w where "map_of ys k = Some w" "canon w = canon v" "w \<noteq> JUndef"
      by (cases "map_of ys k") (auto simp: getp_def, metis canon_undef)
    then show "p \<in> (\<lambda>(k, v). (k, canon v)) ` set (?d ys)"
      using kv(3) map_of_SomeD[of ys k w] by (force simp: defined_entries_def)
  qed
  have "canon (JObj (?d es)) = canon (JObj (?d fs))"
    unfolding canon_JObj_eq_iff[OF dd[OF assms(1)] dd[OF assms(2)] ud ud]
    using sub[OF assms(1,2)] sub[OF assms(2,1)] assms(3) by (intro equalityI) (simp_all add: eq_commute)
  then show ?thesis by (simp add: sorted_entries_def idem)
qed

lemma canon_JObj_iff:
  assumes "distinct (map fst es)" "distinct (map fst fs)"
  shows "canon (JObj es) = canon (JObj fs) \<longleftrightarrow> (\<forall>k. canon (getp (JObj es) k) = canon (getp (JObj fs) k))"
  using canon_member_eq[OF _ assms] canon_JObj_ext[OF assms] by blast

lemma hash_of_eq:
  assumes "canonicalize_ok C" "plain a" "plain b" "jcs C a = Inr s" "jcs C b = Inr t"
    and "sha256Ref C s = sha256Ref C t"
  shows "canon a = canon b \<or> collision C s t"
  using sha256Ref_eq_cases[OF assms(6)] jcs_eq_iff[OF assms(1-5)] by blast

lemma receipt_bytes_iff:
  assumes "canonicalize_ok C" and "plain (JObj r)" and "plain (JObj r')"
    and "receiptSigningBytes C r = Inr b" and "receiptSigningBytes C r' = Inr b'"
  shows "b = b' \<longleftrightarrow> (\<forall>k. k \<in> set RECEIPT_SIGNED_FIELDS \<longrightarrow> canon (getp (JObj r) k) = canon (getp (JObj r') k))"
proof -
  from assms(4,5) obtain s t where st: "jcs C (JObj (receipt_signed r)) = Inr s" "jcs C (JObj (receipt_signed r')) = Inr t"
    and b: "b = DOMAIN_TAGS ReceiptFamily @ s" "b' = DOMAIN_TAGS ReceiptFamily @ t"
    by (auto simp: receiptSigningBytes_def receiptSignedPreimage_def receipt_signed_def concatBytes_def res_bind_Inr_iff)
  have p: "plain (JObj (receipt_signed r))" "plain (JObj (receipt_signed r'))"
    using assms(2,3) by (simp_all only: plain_receipt_signed)
  have "b = b' \<longleftrightarrow> canon (JObj (receipt_signed r)) = canon (JObj (receipt_signed r'))"
    unfolding b using jcs_eq_iff[OF assms(1) p st] by (simp del: canon.simps)
  also have "\<dots> \<longleftrightarrow> (\<forall>k. canon (getp (JObj (receipt_signed r)) k) = canon (getp (JObj (receipt_signed r')) k))"
    using p by (intro canon_JObj_iff) simp_all
  finally show ?thesis by (auto simp: map_of_receipt_signed)
qed

definition terms_preimage :: "json \<Rightarrow> jsval" where
  "terms_preimage c = JObj (omit [''signatures'', ''termsHash''] c)"

lemma terms_hash_iff:
  assumes "canonicalize_ok C" and "plain (JObj c)" and "plain (JObj c')"
    and "termsHashOf C c = Inr h" and "termsHashOf C c' = Inr h'"
  shows "h = h' \<longleftrightarrow> (\<forall>k. k \<notin> {''signatures'', ''termsHash''} \<longrightarrow> canon (getp (JObj c) k) = canon (getp (JObj c') k))
    \<or> (\<exists>s t. jcs C (terms_preimage c) = Inr s \<and> jcs C (terms_preimage c') = Inr t \<and> collision C s t)"
    (is "_ \<longleftrightarrow> ?same \<or> ?coll")
proof -
  let ?o = "omit [''signatures'', ''termsHash'']"
  from assms(4,5) obtain s t where st: "jcs C (JObj (?o c)) = Inr s" "jcs C (JObj (?o c')) = Inr t"
    and h: "h = sha256Ref C s" "h' = sha256Ref C t"
    by (auto simp: termsHashOf_def res_bind_Inr_iff)
  have p: "plain (JObj (?o c))" "plain (JObj (?o c'))" using assms(2,3) by (simp_all only: plain_omit)
  have "s = t \<longleftrightarrow> canon (JObj (?o c)) = canon (JObj (?o c'))" by (rule jcs_eq_iff[OF assms(1) p st])
  also have "\<dots> \<longleftrightarrow> (\<forall>k. canon (getp (JObj (?o c)) k) = canon (getp (JObj (?o c')) k))"
    using p by (intro canon_JObj_iff) simp_all
  also have "\<dots> \<longleftrightarrow> ?same" by (auto simp: getp_omit)
  finally have e: "s = t \<longleftrightarrow> ?same" .
  show ?thesis
    using e sha256Ref_eq_cases[of C s t] st h
    by (auto simp: terms_preimage_def collision_def sha256Ref_def simp del: canon.simps)
qed

section \<open>Properties\<close>

interpretation domain: tagged_preimages DOMAIN_TAGS
proof
  fix f g :: signed_family assume "f \<noteq> g"
  then show "take (min (length (DOMAIN_TAGS f)) (length (DOMAIN_TAGS g))) (DOMAIN_TAGS f)
      \<noteq> take (min (length (DOMAIN_TAGS f)) (length (DOMAIN_TAGS g))) (DOMAIN_TAGS g)"
    by (cases f; cases g) simp_all
qed

text \<open>
  What a key signs verifies against that key's address, whatever the preimage.
\<close>

theorem signature_recovers:
  assumes "curve_ok C" and "digests_ok C"
  shows "recover C (sign C k p) p = Some (addressOfPrivateKey C k) \<and> verify C (sign C k p) p (addressOfPrivateKey C k)"
  using recover_sign[OF assms(1)] verify_sign[OF assms] by blast

theorem signature_recovers_witness:
  "verify sample_crypto (sign sample_crypto ''key'' ''m'') ''m'' (addressOfPrivateKey sample_crypto ''key'')"
  using signature_recovers[OF sample_crypto_ok(2,1)] by blast

text \<open>
  C40: recovery answers only for a signature spelled as \<open>0x\<close> and 65 hexadecimal bytes with recovery
  id 27 or 28, and what it answers is always a lower-case address of 20 bytes; everything else is
  null, never an exception.
\<close>

theorem recovered_signer_is_an_address:
  assumes "digests_ok C" and "recover C s p = Some a"
  shows "address_form a \<and> js_length s = 132 \<and>
    (\<exists>raw. fromHex s = Inr raw \<and> length raw = 65 \<and> raw ! 64 \<in> {char_of (27 :: nat), char_of (28 :: nat)})"
proof -
  from assms(2) obtain raw pub where r: "fromHex s = Inr raw" "starts_with ''0x'' s" "js_length s = 132"
    "a = address_of_pubkey C pub" "(of_char (raw ! 64) :: nat) = 27 \<or> (of_char (raw ! 64) :: nat) = 28"
    by (rule recover_SomeD)
  from r(2) obtain t where t: "s = ''0x'' @ t" by (auto simp: starts_with_iff)
  from r(1) r(2) t have h: "list_all is_hex_char t" by (auto simp: fromHex_def Let_def split: if_splits)
  then have "length t = 130" using r(3) js_length_0x[OF h] t by simp
  then have "length raw = 65" using fromHex_Inr[OF r(1)] t r(2) by simp
  moreover have "raw ! 64 = char_of (27 :: nat) \<or> raw ! 64 = char_of (28 :: nat)" using r(5) by (auto dest!: char_eq_char_of)
  ultimately show ?thesis using r(1,3,4) address_of_pubkey_form[OF assms(1)] by blast
qed

theorem recovered_signer_is_an_address_witness:
  "\<exists>a. recover sample_crypto (sign sample_crypto ''key'' ''m'') ''m'' = Some a \<and> address_form a \<and>
     js_length (sign sample_crypto ''key'' ''m'') = 132"
  using recovered_signer_is_an_address[OF sample_crypto_ok(1) recover_sign[OF sample_crypto_ok(2)]]
    recover_sign[OF sample_crypto_ok(2), of "''key''" "''m''"] by blast

text \<open>
  A receipt signature covers the nine signed members and nothing else: two receipts have the
  same signing bytes exactly when those members agree, so stamping the audit members onto a signed
  receipt leaves its signature valid.
\<close>

theorem receipt_signature_covers_nine_members:
  assumes "canonicalize_ok C" and "plain (JObj r)" and "plain (JObj r')"
    and "receiptSigningBytes C r = Inr b" and "receiptSigningBytes C r' = Inr b'"
  shows "b = b' \<longleftrightarrow> (\<forall>k\<in>set RECEIPT_SIGNED_FIELDS. canon (getp (JObj r) k) = canon (getp (JObj r') k))"
  using receipt_bytes_iff[OF assms] by blast

theorem receipt_signature_covers_nine_members_witness:
  "receiptSigningBytes encoder_crypto [(''schema'', JStr ''x''), (''revision'', JInt 3)]
     = receiptSigningBytes encoder_crypto
         [(''auditStatus'', JStr ''appended''), (''revision'', JInt 3), (''schema'', JStr ''x'')]"
  (is "receiptSigningBytes _ ?r = receiptSigningBytes _ ?r'")
proof -
  have hs: "hashable (JObj (receipt_signed ?r))" "hashable (JObj (receipt_signed ?r'))" by code_simp+
  have "\<exists>b. receiptSigningBytes encoder_crypto ?r = Inr b" "\<exists>b. receiptSigningBytes encoder_crypto ?r' = Inr b"
    using jcs_encoder_ok[of "JObj (receipt_signed ?r)"] jcs_encoder_ok[of "JObj (receipt_signed ?r')"] hs
    by (auto simp: receiptSigningBytes_def receiptSignedPreimage_def receipt_signed_def)
  then obtain b b' where b: "receiptSigningBytes encoder_crypto ?r = Inr b" "receiptSigningBytes encoder_crypto ?r' = Inr b'"
    by blast
  have p: "plain (JObj ?r)" "plain (JObj ?r')" by (simp_all add: num_is_finite_def)
  from receipt_signature_covers_nine_members[OF encoder_crypto_ok(1) p b] b show ?thesis
    by (simp add: RECEIPT_SIGNED_FIELDS_def)
qed

text \<open>
  The terms hash covers every member of the contract but \<open>signatures\<close> and a declared
  \<open>termsHash\<close>: two contracts have the same hash exactly when all other members agree, or their
  canonical texts are a collision of the digest.
\<close>

theorem terms_hash_covers_contract:
  assumes "canonicalize_ok C" and "plain (JObj c)" and "plain (JObj c')"
    and "termsHashOf C c = Inr h" and "termsHashOf C c' = Inr h'"
  shows "h = h' \<longleftrightarrow> (\<forall>k. k \<notin> {''signatures'', ''termsHash''} \<longrightarrow> canon (getp (JObj c) k) = canon (getp (JObj c') k))
    \<or> (\<exists>s t. jcs C (terms_preimage c) = Inr s \<and> jcs C (terms_preimage c') = Inr t \<and> collision C s t)"
  using assms by (rule terms_hash_iff)

theorem terms_hash_covers_contract_witness:
  "\<exists>h. termsHashOf encoder_crypto [(''a'', JInt 1)] = Inr h \<and>
     termsHashOf encoder_crypto [(''signatures'', JArr []), (''a'', JInt 1), (''termsHash'', JStr ''?'')] = Inr h"
  (is "\<exists>h. termsHashOf _ ?c = Inr h \<and> termsHashOf _ ?c' = Inr h")
proof -
  have hs: "hashable (terms_preimage ?c)" "hashable (terms_preimage ?c')" by code_simp+
  have "\<exists>h. termsHashOf encoder_crypto ?c = Inr h" "\<exists>h. termsHashOf encoder_crypto ?c' = Inr h"
    using jcs_encoder_ok[OF hs(1)] jcs_encoder_ok[OF hs(2)] by (auto simp: termsHashOf_def terms_preimage_def)
  then obtain h h' where h: "termsHashOf encoder_crypto ?c = Inr h" "termsHashOf encoder_crypto ?c' = Inr h'"
    by blast
  have p: "plain (JObj ?c)" "plain (JObj ?c')" by (simp_all add: num_is_finite_def)
  have "\<forall>k. k \<notin> {''signatures'', ''termsHash''} \<longrightarrow> canon (getp (JObj ?c) k) = canon (getp (JObj ?c') k)"
    by auto
  with terms_hash_covers_contract[OF encoder_crypto_ok(1) p h] have "h = h'" by blast
  with h show ?thesis by blast
qed

end
