(* ===== verification/PlacesCsv.thy ===== *)
theory PlacesCsv
  imports Hash
begin

text \<open>
  \<open>engine/places.ts\<close>, the corpus: the CSV line splitter, the reader of published numbers, the loader
  and the tables of what is sold.  The lines of the file come from \<open>node:readline\<close> and are the
  argument of \<open>loadPlaces\<close>.  A published number is a rational (a finite double); \<open>None\<close> is a value
  the CDC suppressed.  The theorems show that the splitter inverts CSV quoting and that every table
  the loader keeps while it reads is the one its tracts determine.
\<close>

section \<open>What is sold\<close>

datatype tier = Premium | Standard

datatype data_error =
    NotSold string
  | LineTooLong nat
  | MissingColumn string
  | MissingMeasure string
  | NoDataRows
  | CardMismatch "string list"

definition SOLD_MEASURES :: "(string, tier) jsmap" where
  "SOLD_MEASURES =
     [(''DIABETES'', Premium), (''BPHIGH'', Premium), (''CHD'', Premium), (''DEPRESSION'', Premium),
      (''OBESITY'', Standard), (''CSMOKING'', Standard), (''ACCESS2'', Standard), (''SLEEP'', Standard)]"

definition MEASURE_KEYS :: "string list" where
  "MEASURE_KEYS =
     [''DIABETES'', ''BPHIGH'', ''CHD'', ''DEPRESSION'', ''OBESITY'', ''CSMOKING'', ''ACCESS2'', ''SLEEP'']"

definition isSoldMeasure :: "string \<Rightarrow> bool" where
  "isSoldMeasure key \<longleftrightarrow> key \<in> set MEASURE_KEYS"

definition tierOf :: "string \<Rightarrow> (data_error, tier) res" where
  "tierOf key =
     (if \<not> isSoldMeasure key then Inl (NotSold key)
      else (case map_get SOLD_MEASURES key of Some t \<Rightarrow> Inr t | None \<Rightarrow> Inl (NotSold key)))"

section \<open>Tracts and the corpus\<close>

record tract =
  stateAbbr :: string
  stateDesc :: string
  countyName :: string
  countyFips :: string
  tractFips :: string
  totalPopulation :: "rat option"
  totalPop18plus :: "rat option"
  tract_values :: "(string, rat option) jsmap"

record corpus_totals =
  total_tracts :: nat
  total_states :: nat
  total_counties :: nat
  total_population :: rat
  total_pop18plus :: rat

record corpus =
  tracts :: "tract list"
  corpus_states :: "string list"
  unavailableStates :: "(string, string list) jsmap"
  availabilityIsExhaustive :: bool
  corpus_counties :: "(string, string list) jsmap"
  totals :: corpus_totals
  sourcePath :: string

section \<open>CSV\<close>

text \<open>
  The loop of \<open>splitCsvLine\<close>: the rest of the line, the field read so far and whether the reader is
  inside quotes.
\<close>

fun csv_loop :: "string \<Rightarrow> string \<Rightarrow> bool \<Rightarrow> string list" where
  "csv_loop [] field inQuotes = [field]"
| "csv_loop (ch # rest) field inQuotes =
     (if inQuotes then
        (if ch = quote_char then
           (if rest \<noteq> [] \<and> hd rest = quote_char then csv_loop (tl rest) (field @ [quote_char]) True
            else csv_loop rest field False)
         else csv_loop rest (field @ [ch]) True)
      else if ch = quote_char then csv_loop rest field True
      else if ch = CHR '','' then field # csv_loop rest [] False
      else csv_loop rest (field @ [ch]) False)"

definition splitCsvLine :: "string \<Rightarrow> string list" where
  "splitCsvLine line = csv_loop line [] False"

definition parseNum :: "string option \<Rightarrow> rat option" where
  "parseNum raw =
     (let s = js_trim (filter (\<lambda>c. c \<noteq> CHR '','') (case raw of Some r \<Rightarrow> r | None \<Rightarrow> ''''))
      in if s = [] then None
         else (case js_parse_number s of Fin x \<Rightarrow> Some x | _ \<Rightarrow> None))"

section \<open>The loader\<close>

definition MAX_LINE :: int where
  "MAX_LINE = 64 * 1024"

record loader =
  ld_header :: "(string, nat) jsmap option"
  ld_tracts :: "tract list"
  ld_states :: "string list"
  ld_counties :: "(string, string list) jsmap"
  ld_population :: rat
  ld_pop18 :: rat
  ld_withValue :: "(string, nat) jsmap"
  ld_rowsPerState :: "(string, nat) jsmap"

definition loader_init :: loader where
  "loader_init = \<lparr> ld_header = None, ld_tracts = [], ld_states = [], ld_counties = [],
     ld_population = 0, ld_pop18 = 0, ld_withValue = [], ld_rowsPerState = [] \<rparr>"

text \<open>\<open>m.set(k, (m.get(k) ?? 0) + 1)\<close>\<close>

definition count_get :: "(string, nat) jsmap \<Rightarrow> string \<Rightarrow> nat" where
  "count_get m k = (case map_get m k of Some n \<Rightarrow> n | None \<Rightarrow> 0)"

definition count_bump :: "string \<Rightarrow> (string, nat) jsmap \<Rightarrow> (string, nat) jsmap" where
  "count_bump k m = map_set k (count_get m k + 1) m"

definition measure_column :: "string \<Rightarrow> string" where
  "measure_column m = m @ ''_CrudePrev''"

definition measure_state_key :: "string \<Rightarrow> string \<Rightarrow> string" where
  "measure_state_key m st = m @ ''|'' @ st"

definition header_index :: "string list \<Rightarrow> (string, nat) jsmap" where
  "header_index cells = fold (\<lambda>(i, name). map_set name i) (enumerate 0 (map js_trim cells)) []"

definition read_header :: "string list \<Rightarrow> (data_error, (string, nat) jsmap) res" where
  "read_header cells =
     (let idx = header_index cells
      in case filter (\<lambda>r. map_get idx r = None)
                [''StateAbbr'', ''CountyName'', ''TractFIPS'', ''TotalPopulation''] of
           r # _ \<Rightarrow> Inl (MissingColumn r)
         | [] \<Rightarrow>
             (case filter (\<lambda>m. map_get idx (measure_column m) = None) MEASURE_KEYS of
                m # _ \<Rightarrow> Inl (MissingMeasure m)
              | [] \<Rightarrow> Inr idx))"

definition cell_at :: "(string, nat) jsmap \<Rightarrow> string list \<Rightarrow> string \<Rightarrow> string option" where
  "cell_at idx cells name =
     (case map_get idx name of
        Some i \<Rightarrow> if i < length cells then Some (cells ! i) else None
      | None \<Rightarrow> None)"

definition trimmed_cell :: "(string, nat) jsmap \<Rightarrow> string list \<Rightarrow> string \<Rightarrow> string" where
  "trimmed_cell idx cells name = js_trim (case cell_at idx cells name of Some s \<Rightarrow> s | None \<Rightarrow> '''')"

definition read_tract :: "(string, nat) jsmap \<Rightarrow> string list \<Rightarrow> tract" where
  "read_tract idx cells = \<lparr>
     stateAbbr = trimmed_cell idx cells ''StateAbbr'',
     stateDesc = trimmed_cell idx cells ''StateDesc'',
     countyName = trimmed_cell idx cells ''CountyName'',
     countyFips = trimmed_cell idx cells ''CountyFIPS'',
     tractFips = trimmed_cell idx cells ''TractFIPS'',
     totalPopulation = parseNum (cell_at idx cells ''TotalPopulation''),
     totalPop18plus = parseNum (cell_at idx cells ''TotalPop18plus''),
     tract_values = map (\<lambda>m. (m, parseNum (cell_at idx cells (measure_column m)))) MEASURE_KEYS \<rparr>"

definition or_zero :: "rat option \<Rightarrow> rat" where
  "or_zero v = (case v of Some x \<Rightarrow> x | None \<Rightarrow> 0)"

text \<open>\<open>t.values[m]\<close>: \<open>None\<close> is undefined, \<open>Some None\<close> is null.\<close>

definition tract_value :: "tract \<Rightarrow> string \<Rightarrow> rat option option" where
  "tract_value t m = map_get (tract_values t) m"

definition has_value :: "tract \<Rightarrow> string \<Rightarrow> bool" where
  "has_value t m \<longleftrightarrow> (case tract_value t m of Some (Some _) \<Rightarrow> True | _ \<Rightarrow> False)"

definition add_tract :: "tract \<Rightarrow> loader \<Rightarrow> loader" where
  "add_tract t l =
     (let st = stateAbbr t
      in l \<lparr>
        ld_withValue := fold (\<lambda>m w. if has_value t m then count_bump (measure_state_key m st) w else w)
                          MEASURE_KEYS (ld_withValue l),
        ld_tracts := ld_tracts l @ [t],
        ld_states := set_add st (ld_states l),
        ld_rowsPerState := count_bump st (ld_rowsPerState l),
        ld_counties := map_set st
          (set_add (countyName t) (case map_get (ld_counties l) st of Some cs \<Rightarrow> cs | None \<Rightarrow> []))
          (ld_counties l),
        ld_population := fadd (ld_population l) (or_zero (totalPopulation t)),
        ld_pop18 := fadd (ld_pop18 l) (or_zero (totalPop18plus t)) \<rparr>)"

text \<open>One turn of the reading loop.\<close>

definition load_line :: "string \<Rightarrow> loader \<Rightarrow> (data_error, loader) res" where
  "load_line line l =
     (if int (js_length line) > MAX_LINE then Inl (LineTooLong (js_length line))
      else if js_trim line = [] then Inr l
      else
        (case ld_header l of
           None \<Rightarrow> res_bind (read_header (splitCsvLine line)) (\<lambda>idx. Inr (l \<lparr> ld_header := Some idx \<rparr>))
         | Some idx \<Rightarrow>
             (let cells = splitCsvLine line
              in if trimmed_cell idx cells ''StateAbbr'' = [] then Inr l
                 else Inr (add_tract (read_tract idx cells) l))))"

fun load_lines :: "string list \<Rightarrow> loader \<Rightarrow> (data_error, loader) res" where
  "load_lines [] l = Inr l"
| "load_lines (line # lines) l = res_bind (load_line line l) (load_lines lines)"

definition state_gaps :: "loader \<Rightarrow> string \<Rightarrow> string list" where
  "state_gaps l m = filter (\<lambda>st. count_get (ld_withValue l) (measure_state_key m st) = 0) (ld_states l)"

definition exhaustive_for :: "loader \<Rightarrow> string \<Rightarrow> bool" where
  "exhaustive_for l m =
     list_all (\<lambda>st. let n = count_get (ld_withValue l) (measure_state_key m st)
                   in n = 0 \<or> \<not> n < count_get (ld_rowsPerState l) st) (ld_states l)"

definition corpus_of :: "string \<Rightarrow> loader \<Rightarrow> corpus" where
  "corpus_of path l = \<lparr>
     tracts = ld_tracts l,
     corpus_states = ld_states l,
     unavailableStates = map (\<lambda>m. (m, sort_strings (state_gaps l m))) MEASURE_KEYS,
     availabilityIsExhaustive = list_all (exhaustive_for l) MEASURE_KEYS,
     corpus_counties = ld_counties l,
     totals = \<lparr>
       total_tracts = length (ld_tracts l),
       total_states = length (ld_states l),
       total_counties = sum_list (map length (map_values (ld_counties l))),
       total_population = ld_population l,
       total_pop18plus = ld_pop18 l \<rparr>,
     sourcePath = path \<rparr>"

definition loadPlaces :: "string \<Rightarrow> string list \<Rightarrow> (data_error, corpus) res" where
  "loadPlaces path lines =
     res_bind (load_lines lines loader_init) (\<lambda>l.
       if ld_tracts l = [] then Inl NoDataRows else Inr (corpus_of path l))"

section \<open>The splitter inverts CSV quoting\<close>

definition plain_field :: "string \<Rightarrow> bool" where
  "plain_field f \<longleftrightarrow> list_all (\<lambda>c. c \<noteq> quote_char \<and> c \<noteq> CHR '','') f"

text \<open>\<open>f.replace(/"/g, '""')\<close>\<close>

definition double_quotes :: "string \<Rightarrow> string" where
  "double_quotes f = concat (map (\<lambda>c. if c = quote_char then [quote_char, quote_char] else [c]) f)"

definition csv_quoted :: "string \<Rightarrow> string" where
  "csv_quoted f = quote_char # double_quotes f @ [quote_char]"

definition csv_cell :: "string \<Rightarrow> string \<Rightarrow> bool" where
  "csv_cell f e \<longleftrightarrow> (plain_field f \<and> e = f) \<or> e = csv_quoted f"

lemma quote_char_not_comma [simp]: "quote_char \<noteq> CHR '',''" "CHR '','' \<noteq> quote_char"
  by (simp_all add: quote_char_def)

lemma csv_loop_plain: "plain_field f \<Longrightarrow> csv_loop (f @ r) acc False = csv_loop r (acc @ f) False"
  by (induction f arbitrary: acc) (auto simp: plain_field_def)

lemma csv_loop_quoted:
  "r = [] \<or> hd r \<noteq> quote_char \<Longrightarrow>
   csv_loop (double_quotes f @ quote_char # r) acc True = csv_loop r (acc @ f) False"
  by (induction f arbitrary: acc) (auto simp: double_quotes_def)

lemma csv_loop_cell:
  "csv_cell f e \<Longrightarrow> r = [] \<or> hd r \<noteq> quote_char \<Longrightarrow> csv_loop (e @ r) [] False = csv_loop r f False"
  using csv_loop_plain[of f r "[]"] csv_loop_quoted[of r f "[]"]
  by (auto simp: csv_cell_def csv_quoted_def)

lemma splitCsvLine_join:
  "list_all2 csv_cell fs es \<Longrightarrow> fs \<noteq> [] \<Longrightarrow> splitCsvLine (join_with '','' es) = fs"
  unfolding splitCsvLine_def
proof (induction fs arbitrary: es)
  case (Cons f fs)
  from Cons.prems(1) obtain e es' where es: "es = e # es'" "csv_cell f e" "list_all2 csv_cell fs es'"
    by (auto simp: list_all2_Cons1)
  show ?case
  proof (cases es')
    case Nil
    with es csv_loop_cell[of f e "[]"] show ?thesis by simp
  next
    case (Cons e' es'')
    with es csv_loop_cell[of f e "CHR '','' # join_with '','' es'"] Cons.IH[OF es(3)]
    show ?thesis by auto
  qed
qed simp

section \<open>The tables of the loader are those of its tracts\<close>

definition tracts_with :: "tract list \<Rightarrow> string \<Rightarrow> string \<Rightarrow> tract list" where
  "tracts_with ts m st = filter (\<lambda>t. stateAbbr t = st \<and> has_value t m) ts"

definition tracts_in :: "tract list \<Rightarrow> string \<Rightarrow> tract list" where
  "tracts_in ts st = filter (\<lambda>t. stateAbbr t = st) ts"

definition tract_ok :: "tract \<Rightarrow> bool" where
  "tract_ok t \<longleftrightarrow> stateAbbr t \<noteq> [] \<and> map fst (tract_values t) = MEASURE_KEYS"

definition counties_of :: "(string, string list) jsmap \<Rightarrow> string \<Rightarrow> string list" where
  "counties_of m st = (case map_get m st of Some cs \<Rightarrow> cs | None \<Rightarrow> [])"

definition loader_inv :: "loader \<Rightarrow> bool" where
  "loader_inv l \<longleftrightarrow>
     (let ts = ld_tracts l in
        list_all tract_ok ts \<and>
        ld_states l = js_set_of (map stateAbbr ts) \<and>
        (\<forall>m\<in>set MEASURE_KEYS. \<forall>st.
           count_get (ld_withValue l) (measure_state_key m st) = length (tracts_with ts m st)) \<and>
        (\<forall>st. count_get (ld_rowsPerState l) st = length (tracts_in ts st)) \<and>
        map_keys (ld_counties l) = ld_states l \<and>
        (\<forall>st. counties_of (ld_counties l) st = js_set_of (map countyName (tracts_in ts st))) \<and>
        ld_population l = foldl fadd 0 (map (or_zero \<circ> totalPopulation) ts) \<and>
        ld_pop18 l = foldl fadd 0 (map (or_zero \<circ> totalPop18plus) ts))"

lemma loader_inv_init: "loader_inv loader_init"
  by (simp add: loader_inv_def loader_init_def tracts_with_def tracts_in_def counties_of_def count_get_def
      map_keys_def map_get_def)

lemma count_get_bump: "count_get (count_bump k m) k' = count_get m k' + (if k' = k then 1 else 0)"
  by (simp add: count_get_def count_bump_def map_get_set)

lemma measure_keys_no_bar: "m \<in> set MEASURE_KEYS \<Longrightarrow> CHR ''|'' \<notin> set m"
  by (auto simp: MEASURE_KEYS_def)

lemma measure_state_key_inject:
  assumes "m \<in> set MEASURE_KEYS" "m' \<in> set MEASURE_KEYS"
  shows "measure_state_key m st = measure_state_key m' st' \<longleftrightarrow> m = m' \<and> st = st'"
proof
  assume eq: "measure_state_key m st = measure_state_key m' st'"
  have "takeWhile (\<lambda>c. c \<noteq> CHR ''|'') (measure_state_key n s) = n" if "n \<in> set MEASURE_KEYS" for n s
    using measure_keys_no_bar[OF that]
    by (auto simp: measure_state_key_def takeWhile_append takeWhile_eq_all_conv)
  with eq assms have "m = m'" by metis
  with eq show "m = m' \<and> st = st'" by (simp add: measure_state_key_def)
qed simp

lemma fold_bump:
  assumes "distinct ms" "set ms \<subseteq> set MEASURE_KEYS" "m \<in> set MEASURE_KEYS"
  shows "count_get (fold (\<lambda>m w. if P m then count_bump (measure_state_key m st) w else w) ms w)
      (measure_state_key m st') = count_get w (measure_state_key m st') + (if st' = st \<and> m \<in> set ms \<and> P m then 1 else 0)"
  using assms by (induction ms arbitrary: w) (auto simp: count_get_bump measure_state_key_inject)

lemma distinct_MEASURE_KEYS [simp]: "distinct MEASURE_KEYS"
  by (simp add: MEASURE_KEYS_def)

lemma tract_ok_read [simp]:
  "trimmed_cell idx cells ''StateAbbr'' \<noteq> [] \<Longrightarrow> tract_ok (read_tract idx cells)"
  by (simp add: tract_ok_def read_tract_def comp_def)

lemma loader_inv_add:
  assumes inv: "loader_inv l" and t: "tract_ok t"
  shows "loader_inv (add_tract t l)"
proof -
  let ?ts = "ld_tracts l" and ?st = "stateAbbr t"
  have cs: "counties_of (ld_counties (add_tract t l)) st
      = js_set_of (map countyName (tracts_in (?ts @ [t]) st))" for st
    using inv by (auto simp: loader_inv_def Let_def counties_of_def add_tract_def map_get_set tracts_in_def
        js_set_of_snoc[symmetric])
  have wv: "count_get (ld_withValue (add_tract t l)) (measure_state_key m st)
      = length (tracts_with (?ts @ [t]) m st)" if "m \<in> set MEASURE_KEYS" for m st
    using inv that fold_bump[of MEASURE_KEYS m "has_value t" ?st]
    by (simp add: loader_inv_def Let_def add_tract_def tracts_with_def)
  have "map_keys (ld_counties (add_tract t l)) = set_add ?st (map_keys (ld_counties l))"
    by (simp add: add_tract_def Let_def map_keys_set set_add_def)
  with inv t cs wv show ?thesis
    by (simp add: loader_inv_def Let_def add_tract_def js_set_of_snoc count_get_bump tracts_in_def)
qed

lemma loader_inv_header [simp]: "loader_inv (l \<lparr> ld_header := h \<rparr>) = loader_inv l"
  by (simp add: loader_inv_def)

lemma load_line_inv: "load_line line l = Inr l' \<Longrightarrow> loader_inv l \<Longrightarrow> loader_inv l'"
  by (auto simp: load_line_def Let_def res_bind_Inr_iff intro: loader_inv_add split: if_splits option.splits)

lemma load_lines_inv: "load_lines lines l = Inr l' \<Longrightarrow> loader_inv l \<Longrightarrow> loader_inv l'"
  by (induction lines arbitrary: l) (auto simp: res_bind_Inr_iff dest: load_line_inv)

lemma loader_invD:
  assumes "loader_inv l"
  shows "list_all tract_ok (ld_tracts l)"
    and "ld_states l = js_set_of (map stateAbbr (ld_tracts l))"
    and "m \<in> set MEASURE_KEYS \<Longrightarrow>
      count_get (ld_withValue l) (measure_state_key m st) = length (tracts_with (ld_tracts l) m st)"
    and "count_get (ld_rowsPerState l) st = length (tracts_in (ld_tracts l) st)"
    and "map_keys (ld_counties l) = ld_states l"
    and "counties_of (ld_counties l) st = js_set_of (map countyName (tracts_in (ld_tracts l) st))"
    and "ld_population l = foldl fadd 0 (map (or_zero \<circ> totalPopulation) (ld_tracts l))"
    and "ld_pop18 l = foldl fadd 0 (map (or_zero \<circ> totalPop18plus) (ld_tracts l))"
  using assms by (simp_all add: loader_inv_def Let_def)

text \<open>
  The specification of availability, over the tracts alone: a state is a gap for a measure when none
  of its tracts has a value, and availability is exhaustive at state level when within each state
  either all tracts or none have one.
\<close>

definition gap_in :: "tract list \<Rightarrow> string \<Rightarrow> string \<Rightarrow> bool" where
  "gap_in ts m st \<longleftrightarrow> (\<forall>t\<in>set ts. stateAbbr t = st \<longrightarrow> \<not> has_value t m)"

definition uniform_in_states :: "tract list \<Rightarrow> string \<Rightarrow> bool" where
  "uniform_in_states ts m \<longleftrightarrow>
     (\<forall>t\<in>set ts. \<forall>u\<in>set ts. stateAbbr t = stateAbbr u \<longrightarrow> has_value t m = has_value u m)"

lemma tracts_with_eq: "tracts_with ts m st = filter (\<lambda>t. has_value t m) (tracts_in ts st)"
  by (simp add: tracts_with_def tracts_in_def conj_commute)

lemma gap_iff: "length (tracts_with ts m st) = 0 \<longleftrightarrow> gap_in ts m st"
  by (auto simp: tracts_with_def gap_in_def filter_empty_conv)

lemma exhaustive_for_iff:
  assumes inv: "loader_inv l" and m: "m \<in> set MEASURE_KEYS"
  shows "exhaustive_for l m \<longleftrightarrow> uniform_in_states (ld_tracts l) m"
proof -
  let ?ts = "ld_tracts l"
  have full: "\<not> length (tracts_with ?ts m st) < length (tracts_in ?ts st)
      \<longleftrightarrow> (\<forall>t\<in>set (tracts_in ?ts st). has_value t m)" for st
    unfolding tracts_with_eq using length_filter_less by (metis filter_True less_irrefl)
  have "exhaustive_for l m \<longleftrightarrow> (\<forall>st\<in>set (map stateAbbr ?ts).
      gap_in ?ts m st \<or> (\<forall>t\<in>set (tracts_in ?ts st). has_value t m))"
    unfolding exhaustive_for_def Let_def list_all_iff loader_invD(3)[OF inv m] loader_invD(4)[OF inv]
      loader_invD(2)[OF inv] set_js_set_of full gap_iff ..
  also have "\<dots> \<longleftrightarrow> uniform_in_states ?ts m"
    by (auto simp: gap_in_def uniform_in_states_def tracts_in_def)
  finally show ?thesis .
qed

text \<open>What the rest of the engine relies on: a corpus whose tables are those of its tracts.\<close>

definition corpus_ok :: "corpus \<Rightarrow> bool" where
  "corpus_ok c \<longleftrightarrow>
     tracts c \<noteq> [] \<and> list_all tract_ok (tracts c) \<and>
     corpus_states c = js_set_of (map stateAbbr (tracts c)) \<and>
     map_keys (corpus_counties c) = corpus_states c \<and>
     (\<forall>st. counties_of (corpus_counties c) st = js_set_of (map countyName (tracts_in (tracts c) st))) \<and>
     unavailableStates c = map (\<lambda>m. (m, sort_strings (filter (gap_in (tracts c) m) (corpus_states c)))) MEASURE_KEYS \<and>
     availabilityIsExhaustive c = (\<forall>m\<in>set MEASURE_KEYS. uniform_in_states (tracts c) m) \<and>
     total_tracts (totals c) = length (tracts c) \<and>
     total_states (totals c) = length (corpus_states c) \<and>
     total_counties (totals c) = sum_list (map length (map_values (corpus_counties c))) \<and>
     total_population (totals c) = foldl fadd 0 (map (or_zero \<circ> totalPopulation) (tracts c)) \<and>
     total_pop18plus (totals c) = foldl fadd 0 (map (or_zero \<circ> totalPop18plus) (tracts c))"

lemma state_gaps_eq:
  "loader_inv l \<Longrightarrow> m \<in> set MEASURE_KEYS \<Longrightarrow> state_gaps l m = filter (gap_in (ld_tracts l) m) (ld_states l)"
  by (simp add: state_gaps_def loader_invD(3) gap_iff[unfolded length_0_conv])

lemma corpus_of_ok:
  assumes l: "loader_inv l" and ne: "ld_tracts l \<noteq> []"
  shows "corpus_ok (corpus_of path l)"
proof -
  let ?c = "corpus_of path l"
  have "unavailableStates ?c
      = map (\<lambda>m. (m, sort_strings (filter (gap_in (tracts ?c) m) (corpus_states ?c)))) MEASURE_KEYS"
    unfolding corpus_of_def corpus.select_convs by (rule map_cong) (simp_all add: state_gaps_eq l)
  moreover have "availabilityIsExhaustive ?c = (\<forall>m\<in>set MEASURE_KEYS. uniform_in_states (tracts ?c) m)"
    by (simp add: corpus_of_def list_all_iff exhaustive_for_iff l)
  ultimately show ?thesis
    using loader_invD[OF l] ne by (simp add: corpus_ok_def corpus_of_def)
qed

lemma loadPlaces_ok:
  assumes "loadPlaces path lines = Inr c"
  shows "corpus_ok c"
proof -
  from assms obtain l where "load_lines lines loader_init = Inr l" "ld_tracts l \<noteq> []" "c = corpus_of path l"
    by (auto simp: loadPlaces_def res_bind_Inr_iff split: if_splits)
  with corpus_of_ok load_lines_inv[OF _ loader_inv_init] show ?thesis by blast
qed

text \<open>The corpus of a list of tracts, for the examples: what loading their lines would give.\<close>

definition corpus_from :: "tract list \<Rightarrow> corpus" where
  "corpus_from ts = corpus_of ''places.csv'' (fold add_tract ts loader_init)"

lemma fold_add_tract:
  "list_all tract_ok ts \<Longrightarrow> loader_inv l \<Longrightarrow>
   loader_inv (fold add_tract ts l) \<and> ld_tracts (fold add_tract ts l) = ld_tracts l @ ts"
  by (induction ts arbitrary: l) (auto simp: loader_inv_add, simp add: add_tract_def Let_def)

lemma loader_init_tracts [simp]: "ld_tracts loader_init = []"
  by (simp add: loader_init_def)

lemma corpus_from_ok: "list_all tract_ok ts \<Longrightarrow> ts \<noteq> [] \<Longrightarrow> corpus_ok (corpus_from ts)"
  using fold_add_tract[of ts loader_init] by (simp add: corpus_from_def loader_inv_init corpus_of_ok)

lemma tracts_corpus_from: "list_all tract_ok ts \<Longrightarrow> tracts (corpus_from ts) = ts"
  using fold_add_tract[of ts loader_init] by (simp add: corpus_from_def corpus_of_def loader_inv_init)

section \<open>Properties\<close>

text \<open>
  Splitting is the inverse of CSV quoting: a line that joins cells with commas, each cell either a
  plain field or a field in quotes with its quotes doubled, splits into exactly the fields.
\<close>

theorem splitCsvLine_inverts_quoting:
  assumes "list_all2 csv_cell fs es" and "fs \<noteq> []"
  shows "splitCsvLine (join_with '','' es) = fs"
  using assms by (rule splitCsvLine_join)

theorem splitCsvLine_inverts_quoting_witness:
  "splitCsvLine (join_with '','' [''CA'', csv_quoted ''1,370'', csv_quoted [quote_char], ''''])
     = [''CA'', ''1,370'', [quote_char], '''']"
  by (rule splitCsvLine_inverts_quoting) (simp_all add: csv_cell_def plain_field_def quote_char_def)

text \<open>
  C38: loading a release succeeds only with a corpus whose every table is the one its tracts
  determine: states and counties in order of first appearance, the unavailable states of each
  measure sorted, the exhaustiveness flag true exactly when no state has a measure in some of its
  tracts and not in others, and the totals.
\<close>

theorem loadPlaces_tables:
  assumes "loadPlaces path lines = Inr c"
  shows "corpus_ok c \<and> sourcePath c = path"
  using loadPlaces_ok[OF assms] assms by (auto simp: loadPlaces_def corpus_of_def res_bind_Inr_iff split: if_splits)

definition sample_header :: string where
  "sample_header =
     ''StateAbbr,StateDesc,CountyName,CountyFIPS,TractFIPS,TotalPopulation,TotalPop18plus,''
     @ join_with '','' (map measure_column MEASURE_KEYS)"

definition sample_lines :: "string list" where
  "sample_lines =
     [sample_header, '''',
      ''CA,California,Kern,06029,06029000101,'' @ csv_quoted ''4,200'' @ '','' @ csv_quoted ''3,100''
        @ '',12.5,30.1,5.5,20,33.3,14.2,9.9,36'',
      ''PA,Pennsylvania,Erie,42049,42049000100,1800,1370,,31,6,21,30,15,7,35'']"

definition sample_corpus :: corpus where
  "sample_corpus = (case loadPlaces ''places.csv'' sample_lines of Inr c \<Rightarrow> c)"

theorem loadPlaces_tables_witness:
  "corpus_ok sample_corpus \<and> map_get (unavailableStates sample_corpus) ''DIABETES'' = Some [''PA'']
   \<and> total_population (totals sample_corpus) = 6000"
proof -
  have ok: "(case loadPlaces ''places.csv'' sample_lines of
        Inr c \<Rightarrow> map_get (unavailableStates c) ''DIABETES'' = Some [''PA''] \<and> total_population (totals c) = 6000
      | Inl e \<Rightarrow> False)" by code_simp
  then obtain c where c: "loadPlaces ''places.csv'' sample_lines = Inr c"
    by (auto split: sum.splits)
  with ok loadPlaces_tables[OF c] show ?thesis by (simp add: sample_corpus_def)
qed

end
