(* ===== verification/PlacesQuery.thy ===== *)
theory PlacesQuery
  imports PlacesCsv
begin

text \<open>
  \<open>engine/places.ts\<close>, the query: \<open>validateQuery\<close> and \<open>evaluateQuery\<close>.  A query comes from an
  untrusted body, so \<open>minPopulation\<close> and the thresholds are JavaScript values.  The theorems show
  which queries are accepted, which tracts an accepted query matches, that the rejection list is
  bounded, and that the match of an accepted query does not depend on measures it does not buy.
\<close>

record query =
  columns :: "string list"
  q_states :: "string list option"
  q_counties :: "string list option"
  minPopulation :: jsval
  thresholds :: jsval

datatype rejection_code =
    NO_COLUMNS_REQUESTED
  | UNKNOWN_COLUMN
  | STATE_NOT_AVAILABLE
  | COUNTY_FILTER_UNSUPPORTED
  | POPULATION_FILTER_UNSUPPORTED
  | THRESHOLD_FILTER_UNSUPPORTED
  | THRESHOLD_ON_UNREQUESTED_COLUMN
  | THRESHOLD_RANGE_EMPTY

record rejection =
  code :: rejection_code
  detail :: string

definition reject :: "rejection_code \<Rightarrow> string \<Rightarrow> rejection" where
  "reject c d = \<lparr> code = c, detail = d \<rparr>"

text \<open>\<open>xs ?? []\<close>, and \<open>Object.entries(v ?? {})\<close>.\<close>

definition or_empty :: "'a list option \<Rightarrow> 'a list" where
  "or_empty v = (case v of Some xs \<Rightarrow> xs | None \<Rightarrow> [])"

definition object_entries :: "jsval \<Rightarrow> (string \<times> jsval) list" where
  "object_entries v =
     (case v of
        JObj es \<Rightarrow> es
      | JInst _ es \<Rightarrow> es
      | JArr xs \<Rightarrow> map (\<lambda>(i, x). (string_of_nat i, x)) (enumerate 0 xs)
      | _ \<Rightarrow> [])"

section \<open>Validation\<close>

definition MAX_PROBLEMS :: nat where
  "MAX_PROBLEMS = 24"

definition column_problems :: "string list \<Rightarrow> rejection list" where
  "column_problems cols =
     (let unknown = filter (\<lambda>c. \<not> isSoldMeasure c) cols
      in (if cols = [] then [reject NO_COLUMNS_REQUESTED ''At least one measure must be purchased.''] else [])
         @ (if unknown \<noteq> []
            then [reject UNKNOWN_COLUMN
                   (''Not sold: '' @ join_with '', '' unknown @ ''. Available: '' @ join_with '', '' MEASURE_KEYS @ ''.'')]
            else []))"

definition state_problems :: "string list \<Rightarrow> corpus \<Rightarrow> rejection list" where
  "state_problems sts corpus =
     map (\<lambda>st. reject STATE_NOT_AVAILABLE
            ([quote_char] @ st @ [quote_char] @ '' is not in the 2025 release. The release covers ''
             @ string_of_nat (length (corpus_states corpus))
             @ '' states and DC; US territories are not covered.''))
       (filter (\<lambda>st. st \<notin> set (corpus_states corpus)) sts)"

definition known_counties :: "string list \<Rightarrow> corpus \<Rightarrow> string list" where
  "known_counties sts corpus = concat (map (counties_of (corpus_counties corpus)) sts)"

definition county_problems :: "string list option \<Rightarrow> string list \<Rightarrow> corpus \<Rightarrow> rejection list" where
  "county_problems names sts corpus =
     (if or_empty names = [] then []
      else if sts = [] then
        [reject COUNTY_FILTER_UNSUPPORTED
          ''A county filter requires at least one state: county names are not unique nationally.'']
      else
        (let missing = filter (\<lambda>c. c \<notin> set (known_counties sts corpus)) (or_empty names)
         in if missing \<noteq> []
            then [reject COUNTY_FILTER_UNSUPPORTED
                   (''No such county in the selected states: '' @ join_with '', '' missing @ ''.'')]
            else []))"

definition is_nonneg_integer :: "jsval \<Rightarrow> bool" where
  "is_nonneg_integer v = (case v of JNum n \<Rightarrow> num_is_integer n \<and> \<not> num_lt n (Fin 0) | _ \<Rightarrow> False)"

definition population_problems :: "jsval \<Rightarrow> rejection list" where
  "population_problems mp =
     (if mp \<noteq> JUndef \<and> \<not> is_nonneg_integer mp
      then [reject POPULATION_FILTER_UNSUPPORTED ''minPopulation must be a non-negative integer.'']
      else [])"

definition undefined_or_number :: "jsval \<Rightarrow> bool" where
  "undefined_or_number v \<longleftrightarrow> v = JUndef \<or> typeof v = ''number''"

definition js_gt :: "jsval \<Rightarrow> jsval \<Rightarrow> bool" where
  "js_gt a b = num_lt (js_number b) (js_number a)"

definition threshold_problem :: "string list \<Rightarrow> string \<times> jsval \<Rightarrow> rejection list" where
  "threshold_problem cols = (\<lambda>(key, t).
     if typeof t \<noteq> ''object'' \<or> t = JNull then
       [reject THRESHOLD_FILTER_UNSUPPORTED (''Threshold on '' @ key @ '' is not an object.'')]
     else
       (let mn = getp t ''min''; mx = getp t ''max''
        in if \<not> undefined_or_number mn \<or> \<not> undefined_or_number mx then
             [reject THRESHOLD_FILTER_UNSUPPORTED (''Threshold on '' @ key @ '' must use numeric min/max.'')]
           else if mn = JUndef \<and> mx = JUndef then
             [reject THRESHOLD_FILTER_UNSUPPORTED (''Threshold on '' @ key @ '' sets neither min nor max.'')]
           else if key \<notin> set cols then
             [reject THRESHOLD_ON_UNREQUESTED_COLUMN
               (key @ '' is not being purchased, so it cannot be filtered on.'')]
           else if mn \<noteq> JUndef \<and> mx \<noteq> JUndef \<and> js_gt mn mx then
             [reject THRESHOLD_RANGE_EMPTY (''Threshold on '' @ key @ '' has min > max.'')]
           else []))"

definition threshold_problems :: "string list \<Rightarrow> (string \<times> jsval) list \<Rightarrow> rejection list" where
  "threshold_problems cols entries =
     (if length entries > length MEASURE_KEYS
      then [reject THRESHOLD_FILTER_UNSUPPORTED
             (''At most '' @ string_of_nat (length MEASURE_KEYS)
              @ '' thresholds '' @ [CHR 0xE2, CHR 0x80, CHR 0x94] @ '' one per sold measure.'')]
      else [])
     @ concat (map (threshold_problem cols) (take (length MEASURE_KEYS) entries))"

definition query_problems :: "query \<Rightarrow> corpus \<Rightarrow> rejection list" where
  "query_problems q corpus =
     column_problems (columns q)
     @ state_problems (or_empty (q_states q)) corpus
     @ county_problems (q_counties q) (or_empty (q_states q)) corpus
     @ population_problems (minPopulation q)
     @ threshold_problems (columns q) (object_entries (thresholds q))"

definition validateQuery :: "query \<Rightarrow> corpus \<Rightarrow> rejection list" where
  "validateQuery q corpus =
     (let problems = query_problems q corpus
      in if length problems > MAX_PROBLEMS then
           take MAX_PROBLEMS problems
           @ [reject NO_COLUMNS_REQUESTED
                ([CHR 0xE2, CHR 0x80, CHR 0xA6] @ ''and '' @ string_of_nat (length problems - MAX_PROBLEMS)
                 @ '' further problems, not listed. Fix these first.'')]
         else problems)"

section \<open>Evaluation\<close>

record matched =
  m_tracts :: "tract list"
  zeroYieldStates :: "string list"

definition passes_threshold :: "tract \<Rightarrow> string \<times> jsval \<Rightarrow> bool" where
  "passes_threshold t = (\<lambda>(key, th).
     (case tract_value t key of
        Some None \<Rightarrow> False
      | Some (Some v) \<Rightarrow>
          \<not> (getp th ''min'' \<noteq> JUndef \<and> num_lt (Fin v) (js_number (getp th ''min''))) \<and>
          \<not> (getp th ''max'' \<noteq> JUndef \<and> num_lt (js_number (getp th ''max'')) (Fin v))
      | None \<Rightarrow> True))"

definition tract_passes :: "query \<Rightarrow> tract \<Rightarrow> bool" where
  "tract_passes q t \<longleftrightarrow>
     \<not> (or_empty (q_states q) \<noteq> [] \<and> stateAbbr t \<notin> set (or_empty (q_states q))) \<and>
     \<not> (or_empty (q_counties q) \<noteq> [] \<and> countyName t \<notin> set (or_empty (q_counties q))) \<and>
     \<not> (minPopulation q \<noteq> JUndef \<and>
        num_lt (Fin (case totalPopulation t of Some p \<Rightarrow> p | None \<Rightarrow> - 1)) (js_number (minPopulation q))) \<and>
     list_all (\<lambda>c. tract_value t c \<noteq> Some None) (columns q) \<and>
     list_all (passes_threshold t) (object_entries (thresholds q))"

definition add_zero_yield :: "corpus \<Rightarrow> string \<Rightarrow> string \<Rightarrow> string list \<Rightarrow> string list" where
  "add_zero_yield corpus st c acc =
     (case map_get (unavailableStates corpus) c of
        Some gaps \<Rightarrow> if st \<in> set gaps \<and> st \<notin> set acc then acc @ [st] else acc
      | None \<Rightarrow> acc)"

definition evaluateQuery :: "query \<Rightarrow> corpus \<Rightarrow> matched" where
  "evaluateQuery q corpus = \<lparr>
     m_tracts = filter (tract_passes q) (tracts corpus),
     zeroYieldStates =
       fold (\<lambda>st. fold (add_zero_yield corpus st) (columns q)) (or_empty (q_states q)) [] \<rparr>"

section \<open>Which queries are accepted\<close>

definition bound_ok :: "jsval \<Rightarrow> bool" where
  "bound_ok v \<longleftrightarrow> v = JUndef \<or> (\<exists>n. v = JNum n)"

definition threshold_ok :: "jsval \<Rightarrow> bool" where
  "threshold_ok t \<longleftrightarrow>
     typeof t = ''object'' \<and> t \<noteq> JNull \<and>
     bound_ok (getp t ''min'') \<and> bound_ok (getp t ''max'') \<and>
     (getp t ''min'' \<noteq> JUndef \<or> getp t ''max'' \<noteq> JUndef) \<and>
     (\<forall>l h. getp t ''min'' = JNum l \<longrightarrow> getp t ''max'' = JNum h \<longrightarrow> \<not> num_lt h l)"

definition query_accepted :: "query \<Rightarrow> corpus \<Rightarrow> bool" where
  "query_accepted q c \<longleftrightarrow>
     columns q \<noteq> [] \<and> set (columns q) \<subseteq> set MEASURE_KEYS \<and>
     set (or_empty (q_states q)) \<subseteq> set (corpus_states c) \<and>
     (or_empty (q_counties q) \<noteq> [] \<longrightarrow>
        or_empty (q_states q) \<noteq> [] \<and>
        (\<forall>n\<in>set (or_empty (q_counties q)). \<exists>st\<in>set (or_empty (q_states q)).
           n \<in> set (counties_of (corpus_counties c) st))) \<and>
     (minPopulation q = JUndef \<or> (\<exists>n. 0 \<le> n \<and> minPopulation q = JInt n)) \<and>
     length (object_entries (thresholds q)) \<le> 8 \<and>
     (\<forall>(k, t)\<in>set (object_entries (thresholds q)). k \<in> set (columns q) \<and> threshold_ok t)"

lemma column_problems_iff: "column_problems cols = [] \<longleftrightarrow> cols \<noteq> [] \<and> set cols \<subseteq> set MEASURE_KEYS"
  by (auto simp: column_problems_def Let_def isSoldMeasure_def filter_empty_conv)

lemma state_problems_iff: "state_problems sts c = [] \<longleftrightarrow> set sts \<subseteq> set (corpus_states c)"
  by (auto simp: state_problems_def filter_empty_conv)

lemma county_problems_iff:
  "county_problems cs sts c = [] \<longleftrightarrow>
     (or_empty cs \<noteq> [] \<longrightarrow> sts \<noteq> [] \<and>
       (\<forall>n\<in>set (or_empty cs). \<exists>st\<in>set sts. n \<in> set (counties_of (corpus_counties c) st)))"
  by (auto simp: county_problems_def Let_def filter_empty_conv known_counties_def)

lemma is_nonneg_integer_iff: "is_nonneg_integer v \<longleftrightarrow> (\<exists>n. 0 \<le> n \<and> v = JInt n)"
proof
  assume "is_nonneg_integer v"
  then obtain x where x: "v = JNum (Fin x)" "rat_is_int x" "\<not> x < 0"
    by (auto simp: is_nonneg_integer_def num_is_integer_def split: jsval.splits jsnum.splits)
  then have "v = JInt \<lfloor>x\<rfloor>" "0 \<le> \<lfloor>x\<rfloor>" by (simp_all only: rat_is_int_def)
  then show "\<exists>n. 0 \<le> n \<and> v = JInt n" by blast
qed (auto simp: is_nonneg_integer_def num_is_integer_def)

lemma population_problems_iff:
  "population_problems mp = [] \<longleftrightarrow> mp = JUndef \<or> (\<exists>n. 0 \<le> n \<and> mp = JInt n)"
  by (simp add: population_problems_def is_nonneg_integer_iff)

lemma undefined_or_number_iff: "undefined_or_number v \<longleftrightarrow> bound_ok v"
  by (cases v) (auto simp: undefined_or_number_def bound_ok_def typeof_def exotic_name_def split: exotic.splits)

lemma js_gt_JNum [simp]: "js_gt (JNum a) (JNum b) = num_lt b a"
  by (simp add: js_gt_def js_number_def)

lemma threshold_problem_iff:
  "threshold_problem cols (k, t) = [] \<longleftrightarrow> k \<in> set cols \<and> threshold_ok t"
  by (auto simp: threshold_problem_def Let_def threshold_ok_def undefined_or_number_iff bound_ok_def)

lemma threshold_problems_iff:
  "threshold_problems cols es = [] \<longleftrightarrow>
     length es \<le> 8 \<and> (\<forall>(k, t)\<in>set es. k \<in> set cols \<and> threshold_ok t)"
  by (auto simp: threshold_problems_def MEASURE_KEYS_def threshold_problem_iff split_beta)

lemma query_problems_iff: "query_problems q c = [] \<longleftrightarrow> query_accepted q c"
  unfolding query_problems_def append_is_Nil_conv column_problems_iff state_problems_iff
    county_problems_iff population_problems_iff threshold_problems_iff query_accepted_def
  by blast

lemma validateQuery_Nil: "validateQuery q c = [] \<longleftrightarrow> query_problems q c = []"
  by (auto simp: validateQuery_def Let_def MAX_PROBLEMS_def)

section \<open>Which tracts are matched\<close>

definition in_range :: "rat \<Rightarrow> jsval \<Rightarrow> bool" where
  "in_range x th \<longleftrightarrow>
     (\<forall>l. getp th ''min'' = JNum l \<longrightarrow> \<not> num_lt (Fin x) l) \<and>
     (\<forall>h. getp th ''max'' = JNum h \<longrightarrow> \<not> num_lt h (Fin x))"

definition published :: "tract \<Rightarrow> string \<Rightarrow> rat \<Rightarrow> bool" where
  "published t m x \<longleftrightarrow> tract_value t m = Some (Some x)"

definition tract_matches :: "query \<Rightarrow> tract \<Rightarrow> bool" where
  "tract_matches q t \<longleftrightarrow>
     (or_empty (q_states q) = [] \<or> stateAbbr t \<in> set (or_empty (q_states q))) \<and>
     (or_empty (q_counties q) = [] \<or> countyName t \<in> set (or_empty (q_counties q))) \<and>
     (\<forall>n. minPopulation q = JInt n \<longrightarrow> (\<exists>p. totalPopulation t = Some p \<and> of_int n \<le> p)) \<and>
     (\<forall>m\<in>set (columns q). \<exists>x. published t m x) \<and>
     (\<forall>(m, th)\<in>set (object_entries (thresholds q)). \<exists>x. published t m x \<and> in_range x th)"

lemma tract_value_sold: "tract_ok t \<Longrightarrow> m \<in> set MEASURE_KEYS \<Longrightarrow> tract_value t m \<noteq> None"
  by (metis tract_ok_def map_get_def map_of_eq_None_iff set_map tract_value_def)

lemma passes_threshold_iff:
  assumes "tract_value t k \<noteq> None" and "threshold_ok th"
  shows "passes_threshold t (k, th) \<longleftrightarrow> (\<exists>x. published t k x \<and> in_range x th)"
  using assms
  by (auto simp: passes_threshold_def published_def in_range_def threshold_ok_def bound_ok_def js_number_def
      split: option.splits)

lemma tract_passes_iff:
  assumes q: "query_accepted q c" and t: "tract_ok t"
  shows "tract_passes q t \<longleftrightarrow> tract_matches q t"
proof -
  have mp: "\<not> (minPopulation q \<noteq> JUndef \<and>
        num_lt (Fin (case totalPopulation t of Some p \<Rightarrow> p | None \<Rightarrow> - 1)) (js_number (minPopulation q)))
      \<longleftrightarrow> (\<forall>n. minPopulation q = JInt n \<longrightarrow> (\<exists>p. totalPopulation t = Some p \<and> of_int n \<le> p))"
  proof (cases "minPopulation q = JUndef")
    case False
    with q obtain n where n: "0 \<le> n" "minPopulation q = JInt n" by (auto simp: query_accepted_def)
    then have "- 1 < (of_int n :: rat)" by simp
    with n show ?thesis by (auto simp: js_number_def split: option.splits)
  qed simp
  have cols: "list_all (\<lambda>m. tract_value t m \<noteq> Some None) (columns q) \<longleftrightarrow> (\<forall>m\<in>set (columns q). \<exists>x. published t m x)"
    using q tract_value_sold[OF t] unfolding list_all_iff published_def query_accepted_def
    by (metis not_None_eq option.inject subset_iff)
  have th: "list_all (passes_threshold t) (object_entries (thresholds q)) \<longleftrightarrow>
      (\<forall>(m, th)\<in>set (object_entries (thresholds q)). \<exists>x. published t m x \<and> in_range x th)"
    unfolding list_all_iff
  proof (rule ball_cong)
    fix e assume e: "e \<in> set (object_entries (thresholds q))"
    obtain k v where kv: "e = (k, v)" by (cases e)
    with q e have "k \<in> set MEASURE_KEYS" "threshold_ok v" by (auto simp: query_accepted_def)
    with passes_threshold_iff[of t k v] tract_value_sold[OF t] kv
    show "passes_threshold t e = (case e of (m, th) \<Rightarrow> \<exists>x. published t m x \<and> in_range x th)" by simp
  qed simp
  show ?thesis unfolding tract_passes_def tract_matches_def mp cols th by auto
qed

lemma evaluateQuery_tracts:
  assumes "query_accepted q c" and "list_all tract_ok (tracts c)"
  shows "m_tracts (evaluateQuery q c) = filter (tract_matches q) (tracts c)"
  using assms by (auto simp: evaluateQuery_def tract_passes_iff list_all_iff intro!: filter_cong)

section \<open>States that yield nothing\<close>

lemma set_add_zero_yield:
  "set (add_zero_yield c st m acc) = set acc \<union>
     {s. s = st \<and> (case map_get (unavailableStates c) m of Some gaps \<Rightarrow> st \<in> set gaps | None \<Rightarrow> False)}"
  by (auto simp: add_zero_yield_def split: option.splits)

lemma set_zero_yield_columns:
  "set (fold (add_zero_yield c st) ms acc) = set acc \<union>
     {s. s = st \<and> (\<exists>m\<in>set ms. case map_get (unavailableStates c) m of Some gaps \<Rightarrow> st \<in> set gaps | None \<Rightarrow> False)}"
  by (induction ms arbitrary: acc) (auto simp: set_add_zero_yield)

lemma set_zero_yield:
  "set (fold (\<lambda>st. fold (add_zero_yield c st) ms) sts acc) = set acc \<union>
     {st \<in> set sts. \<exists>m\<in>set ms. case map_get (unavailableStates c) m of Some gaps \<Rightarrow> st \<in> set gaps | None \<Rightarrow> False}"
  by (induction sts arbitrary: acc) (auto simp: set_zero_yield_columns)

lemma map_get_table: "map_get (map (\<lambda>m. (m, f m)) ms) m = (if m \<in> set ms then Some (f m) else None)"
  by (induction ms) (auto simp: map_get_def)

lemma unavailable_gap:
  assumes "corpus_ok c" and "m \<in> set MEASURE_KEYS"
  shows "(case map_get (unavailableStates c) m of Some gaps \<Rightarrow> st \<in> set gaps | None \<Rightarrow> False)
    \<longleftrightarrow> st \<in> set (corpus_states c) \<and> gap_in (tracts c) m st"
proof -
  from assms(1) have "unavailableStates c
      = map (\<lambda>m. (m, sort_strings (filter (gap_in (tracts c) m) (corpus_states c)))) MEASURE_KEYS"
    by (simp add: corpus_ok_def)
  then show ?thesis using assms(2) by (simp add: map_get_table)
qed

lemma zeroYield_iff:
  assumes c: "corpus_ok c" and q: "query_accepted q c"
  shows "st \<in> set (zeroYieldStates (evaluateQuery q c)) \<longleftrightarrow>
    st \<in> set (or_empty (q_states q)) \<and> (\<exists>m\<in>set (columns q). gap_in (tracts c) m st)"
proof -
  have "m \<in> set MEASURE_KEYS" if "m \<in> set (columns q)" for m
    using q that by (auto simp: query_accepted_def)
  moreover have "st \<in> set (corpus_states c)" if "st \<in> set (or_empty (q_states q))"
    using q that by (auto simp: query_accepted_def)
  ultimately show ?thesis
    by (auto simp: evaluateQuery_def set_zero_yield unavailable_gap[OF c])
qed

section \<open>What is not bought does not show\<close>

text \<open>A tract with the measures outside \<open>cols\<close> erased.\<close>

definition project :: "string list \<Rightarrow> tract \<Rightarrow> tract" where
  "project cols t = t \<lparr> tract_values := filter (\<lambda>(k, v). k \<in> set cols) (tract_values t) \<rparr>"

definition same_projection :: "string list \<Rightarrow> corpus \<Rightarrow> corpus \<Rightarrow> bool" where
  "same_projection cols c d \<longleftrightarrow> map (project cols) (tracts c) = map (project cols) (tracts d)"

lemma map_of_filter_key: "m \<in> S \<Longrightarrow> map_of (filter (\<lambda>(k, v). k \<in> S) es) m = map_of es m"
  by (induction es) auto

lemma project_eqD:
  assumes "project cols t = project cols u"
  shows "stateAbbr t = stateAbbr u" "stateDesc t = stateDesc u" "countyName t = countyName u"
    "countyFips t = countyFips u" "tractFips t = tractFips u"
    "totalPopulation t = totalPopulation u" "totalPop18plus t = totalPop18plus u"
    "filter (\<lambda>(k, v). k \<in> set cols) (tract_values t) = filter (\<lambda>(k, v). k \<in> set cols) (tract_values u)"
  using assms by (cases t; cases u; simp add: project_def)+

lemma project_value: "project cols t = project cols u \<Longrightarrow> m \<in> set cols \<Longrightarrow> tract_value t m = tract_value u m"
  unfolding tract_value_def map_get_def using project_eqD(8) by (metis map_of_filter_key)

lemma project_matches:
  assumes p: "project (columns q) t = project (columns q) u"
    and th: "\<forall>(k, v)\<in>set (object_entries (thresholds q)). k \<in> set (columns q)"
  shows "tract_matches q t = tract_matches q u"
proof -
  have "published t m = published u m" if "m \<in> set (columns q)" for m
    using project_value[OF p that] by (simp add: published_def fun_eq_iff)
  with th project_eqD[OF p] show ?thesis
    unfolding tract_matches_def by (auto simp: split_beta)
qed

lemma map_eq_filter:
  "map f xs = map f ys \<Longrightarrow> (\<And>x y. f x = f y \<Longrightarrow> P x = P y) \<Longrightarrow> map f (filter P xs) = map f (filter P ys)"
proof (induction xs arbitrary: ys)
  case (Cons x xs)
  from Cons.prems(1) obtain y ys' where y: "ys = y # ys'" "f x = f y" "map f xs = map f ys'" by (cases ys) auto
  with Cons.IH[OF y(3) Cons.prems(2)] Cons.prems(2)[OF y(2)] show ?case by simp
qed simp

lemma same_projection_states:
  assumes "same_projection cols c d"
  shows "map stateAbbr (tracts c) = map stateAbbr (tracts d)"
    and "map countyName (tracts_in (tracts c) st) = map countyName (tracts_in (tracts d) st)"
proof -
  from assms have eq: "map (project cols) (tracts c) = map (project cols) (tracts d)"
    by (simp add: same_projection_def)
  have f: "map f (map (project cols) ts) = map f ts" if "\<And>t. f (project cols t) = f t" for f :: "tract \<Rightarrow> string" and ts
    using that by simp
  show "map stateAbbr (tracts c) = map stateAbbr (tracts d)"
    using arg_cong[OF eq, of "map stateAbbr"] by (simp add: f project_def comp_def)
  have "map (project cols) (tracts_in (tracts c) st) = map (project cols) (tracts_in (tracts d) st)"
    unfolding tracts_in_def by (rule map_eq_filter[OF eq]) (metis project_eqD(1))
  from arg_cong[OF this, of "map countyName"]
  show "map countyName (tracts_in (tracts c) st) = map countyName (tracts_in (tracts d) st)"
    by (simp add: project_def comp_def)
qed

lemma same_projection_tables:
  assumes "corpus_ok c" and "corpus_ok d" and "same_projection cols c d"
  shows "corpus_states c = corpus_states d" and "counties_of (corpus_counties c) = counties_of (corpus_counties d)"
  using assms same_projection_states[OF assms(3)] by (simp_all add: corpus_ok_def fun_eq_iff)

lemma same_projection_gap:
  assumes "same_projection cols c d" and "m \<in> set cols"
  shows "gap_in (tracts c) m st = gap_in (tracts d) m st"
proof -
  have eq: "map (project cols) (tracts c) = map (project cols) (tracts d)"
    using assms(1) by (simp add: same_projection_def)
  have "map (project cols) (filter (\<lambda>t. stateAbbr t = st \<and> has_value t m) (tracts c))
      = map (project cols) (filter (\<lambda>t. stateAbbr t = st \<and> has_value t m) (tracts d))"
  proof (rule map_eq_filter[OF eq])
    fix t u assume p: "project cols t = project cols u"
    show "(stateAbbr t = st \<and> has_value t m) = (stateAbbr u = st \<and> has_value u m)"
      unfolding has_value_def project_eqD(1)[OF p] project_value[OF p assms(2)] ..
  qed
  then have "length (tracts_with (tracts c) m st) = length (tracts_with (tracts d) m st)"
    unfolding tracts_with_def by (rule map_eq_imp_length_eq)
  then show ?thesis unfolding gap_iff[symmetric] by simp
qed

lemma same_projection_problems:
  assumes "corpus_ok c" and "corpus_ok d" and "same_projection cols c d"
  shows "validateQuery q c = validateQuery q d"
  unfolding validateQuery_def query_problems_def state_problems_def county_problems_def known_counties_def
    same_projection_tables[OF assms] ..

lemma same_projection_unavailable:
  assumes c: "corpus_ok c" and d: "corpus_ok d" and cd: "same_projection cols c d"
    and m: "m \<in> set cols" "m \<in> set MEASURE_KEYS"
  shows "map_get (unavailableStates c) m = map_get (unavailableStates d) m"
proof -
  have "gap_in (tracts c) m = gap_in (tracts d) m"
    using same_projection_gap[OF cd m(1)] by (simp add: fun_eq_iff)
  moreover have "unavailableStates x
      = map (\<lambda>m. (m, sort_strings (filter (gap_in (tracts x) m) (corpus_states x)))) MEASURE_KEYS"
    if "corpus_ok x" for x using that by (simp add: corpus_ok_def)
  ultimately show ?thesis
    using m(2) c d same_projection_tables(1)[OF c d cd] by (simp add: map_get_table)
qed

lemma evaluate_same_projection:
  assumes c: "corpus_ok c" and d: "corpus_ok d" and cd: "same_projection (columns q) c d"
    and q: "query_accepted q c" "query_accepted q d"
  shows "map (project (columns q)) (m_tracts (evaluateQuery q c)) =
      map (project (columns q)) (m_tracts (evaluateQuery q d))"
    and "zeroYieldStates (evaluateQuery q c) = zeroYieldStates (evaluateQuery q d)"
proof -
  have ok: "list_all tract_ok (tracts c)" "list_all tract_ok (tracts d)"
    using c d by (simp_all add: corpus_ok_def)
  show "map (project (columns q)) (m_tracts (evaluateQuery q c)) =
      map (project (columns q)) (m_tracts (evaluateQuery q d))"
    unfolding evaluateQuery_tracts[OF q(1) ok(1)] evaluateQuery_tracts[OF q(2) ok(2)]
    using cd q(1)
    by (intro map_eq_filter project_matches) (auto simp: same_projection_def query_accepted_def)
  have "add_zero_yield c st m = add_zero_yield d st m" if "m \<in> set (columns q)" for st m
    using same_projection_unavailable[OF c d cd that] q(1) that
    by (auto simp: add_zero_yield_def fun_eq_iff query_accepted_def)
  then have "fold (add_zero_yield c st) (columns q) = fold (add_zero_yield d st) (columns q)" for st
    by (intro fold_cong ext) auto
  then show "zeroYieldStates (evaluateQuery q c) = zeroYieldStates (evaluateQuery q d)"
    by (simp add: evaluateQuery_def)
qed

section \<open>Properties\<close>

text \<open>
  Validation accepts exactly the well-formed queries: at least one column and only sold ones,
  states of the release, counties only with states and only counties of those states, a population
  floor that is a non-negative integer, and at most eight thresholds, each on a purchased column and
  with a non-empty numeric range.
\<close>

theorem validateQuery_accepts: "validateQuery q c = [] \<longleftrightarrow> query_accepted q c"
  by (simp add: validateQuery_Nil query_problems_iff)

text \<open>
  The rejection list is bounded whatever the body, and below the bound it is every problem of the
  query; above it the first 24 are followed by one entry that says how many are left out.
\<close>

theorem validateQuery_bounded:
  "length (validateQuery q c) \<le> 25 \<and>
   take 24 (validateQuery q c) = take 24 (query_problems q c) \<and>
   (length (validateQuery q c) = 25 \<longleftrightarrow> 24 < length (query_problems q c))"
  by (auto simp: validateQuery_def Let_def MAX_PROBLEMS_def min_def)

text \<open>
  C13: an accepted query over a loaded corpus matches, in file order, exactly the tracts in the
  selected states and counties, with at least the population asked, with a published value for every
  purchased measure (a suppressed one never counts as zero) and inside every threshold; and the
  states it reports as yielding nothing are the selected states where some purchased measure has no
  published value at all.
\<close>

theorem evaluateQuery_matches:
  assumes "corpus_ok c" and "validateQuery q c = []"
  shows "m_tracts (evaluateQuery q c) = filter (tract_matches q) (tracts c) \<and>
    (\<forall>st. st \<in> set (zeroYieldStates (evaluateQuery q c)) \<longleftrightarrow>
       st \<in> set (or_empty (q_states q)) \<and> (\<exists>m\<in>set (columns q). gap_in (tracts c) m st))"
  using assms evaluateQuery_tracts[of q c] zeroYield_iff[of c q]
  by (simp add: validateQuery_Nil query_problems_iff corpus_ok_def)

text \<open>
  A query cannot read a measure it does not buy. Two corpora that agree on everything but the
  measures the query leaves out give the same validation, the same matched tracts up to those
  measures and the same zero-yield states; in particular no threshold can probe an unpurchased
  column by watching the tract count.
\<close>

theorem unpurchased_measures_do_not_show:
  assumes "corpus_ok c" and "corpus_ok d" and "same_projection (columns q) c d"
    and "validateQuery q c = []"
  shows "validateQuery q d = [] \<and>
    map (project (columns q)) (m_tracts (evaluateQuery q c)) =
      map (project (columns q)) (m_tracts (evaluateQuery q d)) \<and>
    zeroYieldStates (evaluateQuery q c) = zeroYieldStates (evaluateQuery q d)"
proof -
  have v: "validateQuery q d = []"
    using assms(4) same_projection_problems[OF assms(1-3), of q] by simp
  with assms(4) have q: "query_accepted q c" "query_accepted q d"
    by (simp_all add: validateQuery_Nil query_problems_iff)
  show ?thesis using evaluate_same_projection[OF assms(1-3) q] v by blast
qed

text \<open>The tracts and the query of the examples.\<close>

definition sample_tract :: "string \<Rightarrow> string \<Rightarrow> rat \<Rightarrow> rat option \<Rightarrow> rat option \<Rightarrow> tract" where
  "sample_tract st fips pop diabetes bphigh = \<lparr>
     stateAbbr = st, stateDesc = st, countyName = ''Kern'', countyFips = ''06029'', tractFips = fips,
     totalPopulation = Some pop, totalPop18plus = Some (pop - 100),
     tract_values = map (\<lambda>m. (m, if m = ''DIABETES'' then diabetes else if m = ''BPHIGH'' then bphigh else Some 20)) MEASURE_KEYS \<rparr>"

definition sample_tracts :: "rat option \<Rightarrow> tract list" where
  "sample_tracts bphigh =
     [sample_tract ''CA'' ''1'' 4000 (Some 12) bphigh, sample_tract ''CA'' ''2'' 900 (Some 10) bphigh,
      sample_tract ''PA'' ''3'' 3000 None bphigh]"

definition sample_query :: query where
  "sample_query = \<lparr> columns = [''DIABETES'', ''SLEEP''], q_states = Some [''CA'', ''PA''], q_counties = None,
     minPopulation = JInt 1000, thresholds = JObj [(''DIABETES'', JObj [(''min'', JInt 5)])] \<rparr>"

lemma tract_ok_sample [simp]: "st \<noteq> [] \<Longrightarrow> tract_ok (sample_tract st f p d b)"
  by (simp add: tract_ok_def sample_tract_def comp_def)

lemma sample_tracts_ok: "corpus_ok (corpus_from (sample_tracts b))" "tracts (corpus_from (sample_tracts b)) = sample_tracts b"
  by (simp_all add: corpus_from_ok tracts_corpus_from sample_tracts_def)

lemma sample_query_valid: "validateQuery sample_query (corpus_from (sample_tracts b)) = []"
proof -
  have "corpus_states (corpus_from (sample_tracts b)) = [''CA'', ''PA'']"
    using sample_tracts_ok[of b] by (simp add: corpus_ok_def sample_tracts_def sample_tract_def)
  then show ?thesis
    by (simp add: validateQuery_Nil query_problems_iff query_accepted_def sample_query_def or_empty_def
        MEASURE_KEYS_def object_entries_def threshold_ok_def bound_ok_def typeof_def)
qed

theorem evaluateQuery_matches_witness:
  "m_tracts (evaluateQuery sample_query (corpus_from (sample_tracts None)))
     = [sample_tract ''CA'' ''1'' 4000 (Some 12) None]
   \<and> ''PA'' \<in> set (zeroYieldStates (evaluateQuery sample_query (corpus_from (sample_tracts None))))"
  using evaluateQuery_matches[OF sample_tracts_ok(1) sample_query_valid, of None]
  by (simp add: sample_tracts_ok(2))
    (simp add: sample_tracts_def sample_tract_def sample_query_def tract_matches_def or_empty_def published_def
      tract_value_def map_get_def MEASURE_KEYS_def in_range_def object_entries_def gap_in_def has_value_def)

theorem unpurchased_measures_do_not_show_witness:
  "zeroYieldStates (evaluateQuery sample_query (corpus_from (sample_tracts None)))
     = zeroYieldStates (evaluateQuery sample_query (corpus_from (sample_tracts (Some 30))))"
proof -
  have "same_projection (columns sample_query) (corpus_from (sample_tracts None)) (corpus_from (sample_tracts (Some 30)))"
    unfolding same_projection_def sample_tracts_ok(2) by code_simp
  from unpurchased_measures_do_not_show[OF sample_tracts_ok(1) sample_tracts_ok(1) this sample_query_valid]
  show ?thesis by blast
qed

end
