(* ===== verification/PlacesPrice.thy ===== *)
theory PlacesPrice
  imports PlacesQuery
begin

text \<open>
  \<open>engine/places.ts\<close>, the price: \<open>priceQuery\<close> and its rounding, in double arithmetic as the code
  computes it.  The theorems show that for a card of whole numbers within \<open>2 ^ 50\<close> the floating
  point result is the published formula in exact integers, that only the set of columns counts, and
  that the displayed amount is the exact number of dollars and cents.
\<close>

record rate_card_terms =
  baseCents :: rat
  perTractMicroCents :: rat
  perStandardColumnCents :: rat
  perPremiumColumnCents :: rat
  vintageMultiplierBps :: rat

record price =
  pr_tractCount :: nat
  br_base :: rat
  br_tracts :: int
  br_standardColumns :: rat
  br_premiumColumns :: rat
  br_subtotal :: rat
  listCents :: int
  listAmountMinor :: string
  listAmountDisplay :: string

definition roundHalfUp :: "rat \<Rightarrow> int" where
  "roundHalfUp x = \<lfloor>fadd x (1 / 2)\<rfloor>"

definition priceQuery :: "nat \<Rightarrow> string list \<Rightarrow> rate_card_terms \<Rightarrow> (data_error, price) res" where
  "priceQuery tractCount cols terms =
     res_bind (res_map_list tierOf (js_set_of cols)) (\<lambda>tiers.
       let premium = length (filter (\<lambda>t. t = Premium) tiers);
           standard = length (filter (\<lambda>t. t \<noteq> Premium) tiers);
           tractsCents = roundHalfUp (fdiv (fmul (of_nat tractCount) (perTractMicroCents terms)) 1000);
           standardColumns = fmul (of_nat standard) (perStandardColumnCents terms);
           premiumColumns = fmul (of_nat premium) (perPremiumColumnCents terms);
           subtotal = fadd (fadd (fadd (baseCents terms) (of_int tractsCents)) standardColumns) premiumColumns;
           cents = roundHalfUp (fdiv (fmul subtotal (vintageMultiplierBps terms)) 10000)
       in Inr \<lparr> pr_tractCount = tractCount, br_base = baseCents terms, br_tracts = tractsCents,
            br_standardColumns = standardColumns, br_premiumColumns = premiumColumns,
            br_subtotal = subtotal, listCents = cents,
            listAmountMinor = string_of_int (cents * 10000),
            listAmountDisplay = ''$'' @ to_fixed 2 (fdiv (of_int cents) 100) \<rparr>)"

section \<open>Tiers\<close>

lemma tierOf_sold: "m \<in> set MEASURE_KEYS \<Longrightarrow> \<exists>t. tierOf m = Inr t \<and> map_get SOLD_MEASURES m = Some t"
  by (auto simp: tierOf_def isSoldMeasure_def MEASURE_KEYS_def SOLD_MEASURES_def map_get_def)

lemma tierOf_unsold: "m \<notin> set MEASURE_KEYS \<Longrightarrow> tierOf m = Inl (NotSold m)"
  by (simp add: tierOf_def isSoldMeasure_def)

definition count_tier :: "tier \<Rightarrow> string list \<Rightarrow> nat" where
  "count_tier t cols = card {m \<in> set cols. map_get SOLD_MEASURES m = Some t}"

lemma tiers_of:
  assumes "set ms \<subseteq> set MEASURE_KEYS"
  shows "res_map_list tierOf ms = Inr (map (\<lambda>m. the (map_get SOLD_MEASURES m)) ms)"
  using assms
proof (induction ms)
  case (Cons m ms)
  with tierOf_sold[of m] show ?case by auto
qed simp

lemma count_tier_filter:
  assumes "set cols \<subseteq> set MEASURE_KEYS"
  shows "length (filter (\<lambda>t'. t' = t) (map (\<lambda>m. the (map_get SOLD_MEASURES m)) (js_set_of cols))) = count_tier t cols"
proof -
  have "length (filter (\<lambda>t'. t' = t) (map (\<lambda>m. the (map_get SOLD_MEASURES m)) (js_set_of cols)))
      = length (filter (\<lambda>m. the (map_get SOLD_MEASURES m) = t) (js_set_of cols))"
    by (simp add: filter_map comp_def)
  also have "\<dots> = card {m \<in> set cols. the (map_get SOLD_MEASURES m) = t}"
    by (subst distinct_card[symmetric]) simp_all
  also have "{m \<in> set cols. the (map_get SOLD_MEASURES m) = t} = {m \<in> set cols. map_get SOLD_MEASURES m = Some t}"
    using assms tierOf_sold by fastforce
  finally show ?thesis by (simp add: count_tier_def)
qed

lemma not_premium: "t \<noteq> Premium \<longleftrightarrow> t = Standard"
  by (cases t) auto

section \<open>The displayed amount\<close>

definition dollars :: "int \<Rightarrow> string" where
  "dollars k = ''$'' @ string_of_int (k div 100) @ ''.'' @ pad_start 2 (CHR ''0'') (string_of_int (k mod 100))"

lemma pad_start_Suc: "pad_start (Suc n) c s = (if length s \<le> n then c # pad_start n c s else s)"
  by (simp add: pad_start_def Suc_diff_le)

lemma string_of_nat_split:
  "pad_start 3 (CHR ''0'') (string_of_nat k)
     = string_of_nat (k div 100) @ pad_start 2 (CHR ''0'') (string_of_nat (k mod 100))"
proof -
  have z: "digit_char 0 = CHR ''0''" by code_simp
  have one: "string_of_nat d = [digit_char d]" if "d < 10" for d
    using that by (subst string_of_nat.simps) simp
  have two: "string_of_nat d = [digit_char (d div 10), digit_char (d mod 10)]" if "10 \<le> d" "d < 100" for d
    using that by (subst string_of_nat.simps) (simp add: one)
  have pad2: "pad_start 2 (CHR ''0'') (string_of_nat d) = [digit_char (d div 10), digit_char (d mod 10)]" if "d < 100" for d
    using that by (cases "d < 10") (simp_all add: one two pad_start_def z)
  show ?thesis
  proof (cases "k < 100")
    case True
    then have "pad_start 3 (CHR ''0'') (string_of_nat k) = CHR ''0'' # pad_start 2 (CHR ''0'') (string_of_nat k)"
      using pad_start_Suc[of 2] by (cases "k < 10") (simp_all add: one two)
    with True show ?thesis by (simp add: one z)
  next
    case False
    have d: "k div 10 div 10 = k div 100" "k div 10 mod 10 = k mod 100 div 10" "k mod 100 mod 10 = k mod 10"
      by (simp_all add: div_mult2_eq[symmetric] mod_mult2_eq[of k 10 10, simplified] mod_mod_cancel)
    have "string_of_nat k = string_of_nat (k div 100) @ [digit_char (k mod 100 div 10), digit_char (k mod 10)]"
      using False by (subst string_of_nat.simps, subst string_of_nat.simps) (simp add: d)
    moreover have "string_of_nat (k div 100) \<noteq> []" by simp
    then have "length (string_of_nat (k div 100)) \<ge> 1" by (cases "string_of_nat (k div 100)") auto
    ultimately show ?thesis using pad2[of "k mod 100"] by (simp add: pad_start_def d)
  qed
qed

lemma to_fixed_cents:
  assumes "0 \<le> k" "k \<le> 2 ^ 50"
  shows "''$'' @ to_fixed 2 (fdiv (of_int k) 100) = dollars k"
proof -
  define x where "x = (of_int k / 100 :: rat)"
  have x0: "0 \<le> x" using assms(1) by (simp add: x_def)
  have err: "\<bar>fl x - x\<bar> \<le> x / 2 ^ 53"
  proof (cases "k = 0")
    case False
    with assms(1) have "1 \<le> (of_int k :: rat)" by simp
    then have "1 / 100 \<le> x" by (simp add: x_def)
    moreover have "pow2 (- 1022) \<le> pow2 (- 7)" by (rule pow2_mono) simp
    moreover have "pow2 (- 7) \<le> 1 / 100" by (simp add: pow2_def)
    ultimately have "pow2 (- 1022) \<le> \<bar>x\<bar>" using x0 by linarith
    from fl_rel_error[OF this] x0 show ?thesis by simp
  qed (simp add: x_def)
  have k2: "(of_int k :: rat) \<le> 2 ^ 50" using assms(2) by (metis of_int_le_iff of_int_numeral of_int_power)
  then have "x / 2 ^ 53 < 1 / 200" by (simp add: x_def)
  with err have lo: "x - 1 / 200 < fl x" and hi: "fl x < x + 1 / 200" by linarith+
  have "x / 2 ^ 53 \<le> x" using x0 by (simp add: field_simps)
  with err have nn: "0 \<le> fl x" by linarith
  have "\<lfloor>fl x * 10 ^ 2 + 1 / 2\<rfloor> = k"
    unfolding floor_eq_iff using lo hi by (simp add: x_def field_simps)
  with nn have fixed: "to_fixed_int 2 (fl x) = k" by (simp add: to_fixed_int_def)
  define m where "m = pad_start 3 (CHR ''0'') (string_of_nat (nat k))"
  have m: "m = string_of_nat (nat k div 100) @ pad_start 2 (CHR ''0'') (string_of_nat (nat k mod 100))"
    unfolding m_def by (rule string_of_nat_split)
  have l2: "length (pad_start 2 (CHR ''0'') (string_of_nat (nat k mod 100))) = 2"
  proof -
    have "length (string_of_nat d) \<le> 2" if "d < 100" for d
      using that by (subst string_of_nat.simps, subst string_of_nat.simps) auto
    from this[of "nat k mod 100"] show ?thesis by (simp add: pad_start_def)
  qed
  have "pad_start (Suc 2) (CHR ''0'') (string_of_nat (nat \<bar>to_fixed_int 2 (fl x)\<bar>)) = m"
    using assms(1) by (simp add: fixed m_def)
  then have "to_fixed 2 (fl x) = take (length m - 2) m @ ''.'' @ drop (length m - 2) m"
    using nn unfolding to_fixed_def Let_def by simp
  also have "\<dots> = string_of_nat (nat k div 100) @ ''.'' @ pad_start 2 (CHR ''0'') (string_of_nat (nat k mod 100))"
    unfolding m by (simp add: l2)
  finally have tf: "to_fixed 2 (fl x)
      = string_of_nat (nat k div 100) @ ''.'' @ pad_start 2 (CHR ''0'') (string_of_nat (nat k mod 100))" .
  have sgn: "\<not> k mod 100 < 0" "\<not> k div 100 < 0"
    using assms(1) by (simp_all add: pos_imp_zdiv_neg_iff)
  show ?thesis
    using assms(1) sgn tf by (simp add: dollars_def fdiv_def x_def string_of_int_def nat_div_distrib nat_mod_distrib)
qed

section \<open>The published formula\<close>

definition whole_card :: "int \<Rightarrow> int \<Rightarrow> int \<Rightarrow> int \<Rightarrow> int \<Rightarrow> rate_card_terms" where
  "whole_card b t s p v = \<lparr> baseCents = of_int b, perTractMicroCents = of_int t,
     perStandardColumnCents = of_int s, perPremiumColumnCents = of_int p, vintageMultiplierBps = of_int v \<rparr>"

text \<open>Half-up division, and the subtotal of the card's formula.\<close>

definition div_half_up :: "int \<Rightarrow> int \<Rightarrow> int" where
  "div_half_up a d = (2 * a + d) div (2 * d)"

definition formula_subtotal :: "nat \<Rightarrow> string list \<Rightarrow> int \<Rightarrow> int \<Rightarrow> int \<Rightarrow> int \<Rightarrow> int" where
  "formula_subtotal n cols b t s p =
     b + div_half_up (int n * t) 1000 + int (count_tier Standard cols) * s + int (count_tier Premium cols) * p"

lemma priceQuery_whole:
  assumes cols: "set cols \<subseteq> set MEASURE_KEYS"
    and nn: "0 \<le> b" "0 \<le> t" "0 \<le> s" "0 \<le> p" "1 \<le> v"
    and nt: "int n * t \<le> 2 ^ 50" and sv: "formula_subtotal n cols b t s p * v \<le> 2 ^ 50"
  shows "\<exists>pr. priceQuery n cols (whole_card b t s p v) = Inr pr \<and>
    br_tracts pr = div_half_up (int n * t) 1000 \<and>
    br_subtotal pr = of_int (formula_subtotal n cols b t s p) \<and>
    listCents pr = div_half_up (formula_subtotal n cols b t s p * v) 10000 \<and>
    listAmountMinor pr = string_of_int (listCents pr * 10000) \<and>
    listAmountDisplay pr = dollars (listCents pr)"
proof -
  let ?sub = "formula_subtotal n cols b t s p"
  define tc where "tc = div_half_up (int n * t) 1000"
  define sc where "sc = int (count_tier Standard cols) * s"
  define pc where "pc = int (count_tier Premium cols) * p"
  define lc where "lc = div_half_up (?sub * v) 10000"
  have nt0: "0 \<le> int n * t" using nn by simp
  have pos: "0 \<le> tc" "0 \<le> sc" "0 \<le> pc"
    using nn nt0 by (simp_all add: tc_def sc_def pc_def div_half_up_def pos_imp_zdiv_nonneg_iff)
  have sub: "?sub = b + tc + sc + pc" by (simp add: formula_subtotal_def tc_def sc_def pc_def)
  have sub0: "0 \<le> ?sub" using pos nn sub by simp
  have "?sub * 1 \<le> ?sub * v" using nn(5) sub0 by (rule mult_left_mono)
  with sv have sub50: "?sub \<le> 2 ^ 50" by simp
  have tc50: "tc \<le> 2 ^ 50" "sc \<le> 2 ^ 50" "pc \<le> 2 ^ 50" "b \<le> 2 ^ 50"
    "b + tc \<le> 2 ^ 50" "b + tc + sc \<le> 2 ^ 50"
    using sub sub50 pos nn(1) by linarith+
  have mt: "fmul (of_nat n) (of_int t) = of_int (int n * t)"
    using fmul_of_int[of "int n" t] nt nt0 by simp
  have tracts: "roundHalfUp (fdiv (fmul (of_nat n) (of_int t)) 1000) = tc"
    using floor_half_up_quotient[OF nt0 nt, of 1000] by (simp add: roundHalfUp_def mt tc_def div_half_up_def)
  have s1: "fmul (of_nat (count_tier Standard cols)) (of_int s) = of_int sc"
    using fmul_of_int[of "int (count_tier Standard cols)" s] pos tc50 by (simp add: sc_def)
  have p1: "fmul (of_nat (count_tier Premium cols)) (of_int p) = of_int pc"
    using fmul_of_int[of "int (count_tier Premium cols)" p] pos tc50 by (simp add: pc_def)
  have a: "fadd (of_int b) (of_int tc) = of_int (b + tc)"
    "fadd (of_int (b + tc)) (of_int sc) = of_int (b + tc + sc)"
    "fadd (of_int (b + tc + sc)) (of_int pc) = of_int ?sub"
    using fadd_of_int[of b tc] fadd_of_int[of "b + tc" sc] fadd_of_int[of "b + tc + sc" pc] pos nn(1) tc50 sub sub50
    by simp_all
  have sv0: "0 \<le> ?sub * v" using sub0 nn(5) by simp
  have mv: "fmul (of_int ?sub) (of_int v) = of_int (?sub * v)"
    using fmul_of_int[of ?sub v] sv sv0 by simp
  have list: "roundHalfUp (fdiv (fmul (of_int ?sub) (of_int v)) 10000) = lc"
    using floor_half_up_quotient[OF sv0 sv, of 10000] by (simp only: roundHalfUp_def mv lc_def div_half_up_def) simp
  have lc: "0 \<le> lc" "lc \<le> 2 ^ 50"
    using sv0 sv by (simp_all add: lc_def div_half_up_def pos_imp_zdiv_nonneg_iff)
  have cs: "length (filter (\<lambda>t'. t' = tr) (map (\<lambda>m. the (map_get SOLD_MEASURES m)) (js_set_of cols))) = count_tier tr cols" for tr
    by (rule count_tier_filter[OF cols])
  have tiers: "res_map_list tierOf (js_set_of cols) = Inr (map (\<lambda>m. the (map_get SOLD_MEASURES m)) (js_set_of cols))"
    using cols by (intro tiers_of) simp
  show ?thesis
    unfolding priceQuery_def tiers res_bind_simps Let_def not_premium cs whole_card_def rate_card_terms.select_convs
      tracts s1 p1 a list to_fixed_cents[OF lc]
    by (simp add: lc_def[symmetric] tc_def[symmetric])
qed

lemma priceQuery_error: "(\<exists>pr. priceQuery n cols terms = Inr pr) \<longleftrightarrow> set cols \<subseteq> set MEASURE_KEYS"
proof -
  have "(\<exists>pr. priceQuery n cols terms = Inr pr) \<longleftrightarrow> (\<exists>ts. res_map_list tierOf (js_set_of cols) = Inr ts)"
    by (simp add: priceQuery_def Let_def ok_bind_Inr)
  also have "\<dots> \<longleftrightarrow> (\<forall>m\<in>set cols. \<exists>t. tierOf m = Inr t)"
    by (simp add: res_map_list_ok_iff)
  also have "\<dots> \<longleftrightarrow> set cols \<subseteq> set MEASURE_KEYS"
    using tierOf_sold tierOf_unsold by (metis Inl_Inr_False subset_iff)
  finally show ?thesis .
qed

section \<open>Properties\<close>

text \<open>
  C14: the floating point price is the published formula. For sold columns and a card of whole
  numbers, with the products within \<open>2 ^ 50\<close>, pricing succeeds and the tract charge is tracts times
  micro-cents over 1000 rounded half up, the subtotal is exact and charges each distinct column
  once, the list price is the subtotal times the vintage multiplier over 10000 rounded half up, the
  minor units are the cents times 10000 and the display is the exact dollars and cents.
\<close>

theorem priceQuery_exact:
  assumes "set cols \<subseteq> set MEASURE_KEYS"
    and "0 \<le> b" "0 \<le> t" "0 \<le> s" "0 \<le> p" "1 \<le> v"
    and "int n * t \<le> 2 ^ 50" and "formula_subtotal n cols b t s p * v \<le> 2 ^ 50"
  shows "\<exists>pr. priceQuery n cols (whole_card b t s p v) = Inr pr \<and>
    br_tracts pr = div_half_up (int n * t) 1000 \<and>
    br_subtotal pr = of_int (formula_subtotal n cols b t s p) \<and>
    listCents pr = div_half_up (formula_subtotal n cols b t s p * v) 10000 \<and>
    listAmountMinor pr = string_of_int (listCents pr * 10000) \<and>
    listAmountDisplay pr = dollars (listCents pr)"
  by (rule priceQuery_whole[OF assms])

lemma card_example_columns:
  "count_tier Standard [''DIABETES'', ''CHD'', ''SLEEP'', ''OBESITY'', ''CHD''] = 2"
  "count_tier Premium [''DIABETES'', ''CHD'', ''SLEEP'', ''OBESITY'', ''CHD''] = 2"
proof -
  have "set [''DIABETES'', ''CHD'', ''SLEEP'', ''OBESITY'', ''CHD''] \<subseteq> set MEASURE_KEYS"
    by (simp add: MEASURE_KEYS_def)
  from count_tier_filter[OF this, of Standard] count_tier_filter[OF this, of Premium]
  show "count_tier Standard [''DIABETES'', ''CHD'', ''SLEEP'', ''OBESITY'', ''CHD''] = 2"
    "count_tier Premium [''DIABETES'', ''CHD'', ''SLEEP'', ''OBESITY'', ''CHD''] = 2"
    by (simp_all add: SOLD_MEASURES_def map_get_def)
qed

theorem priceQuery_exact_witness:
  "\<exists>pr. priceQuery 362 [''DIABETES'', ''CHD'', ''SLEEP'', ''OBESITY'', ''CHD''] (whole_card 100 0 500 500 10000) = Inr pr
     \<and> listCents pr = 2100 \<and> listAmountDisplay pr = ''$21.00''"
proof -
  let ?cols = "[''DIABETES'', ''CHD'', ''SLEEP'', ''OBESITY'', ''CHD'']"
  have sold: "set ?cols \<subseteq> set MEASURE_KEYS" by (simp add: MEASURE_KEYS_def)
  have sub: "formula_subtotal 362 ?cols 100 0 500 500 = 2100"
    by (simp add: formula_subtotal_def card_example_columns div_half_up_def)
  have "dollars 2100 = ''$21.00''" by code_simp
  moreover have "div_half_up (formula_subtotal 362 ?cols 100 0 500 500 * 10000) 10000 = 2100"
    unfolding sub by (simp add: div_half_up_def)
  moreover have "formula_subtotal 362 ?cols 100 0 500 500 * 10000 \<le> 2 ^ 50" unfolding sub by simp
  ultimately show ?thesis
    using priceQuery_exact[OF sold, of 100 0 500 500 10000 362] by auto
qed

text \<open>
  Pricing refuses exactly the requests that name something that is not sold, whatever the card
  and the tract count; nothing unknown is ever billed as a standard column.
\<close>

theorem priceQuery_refuses_unsold:
  "(\<exists>pr. priceQuery n cols terms = Inr pr) \<longleftrightarrow> set cols \<subseteq> Collect isSoldMeasure"
  using priceQuery_error by (auto simp: isSoldMeasure_def)

end
