(* ===== verification/Settlement.thy ===== *)
theory Settlement
  imports Signing PlacesPrice
begin

text \<open>
  \<open>src/settlement.ts\<close>: the EIP-712 constructions the settlement vault verifies.  ABI words, the
  decimal amount in base units, the domain separator, the parsing of struct type strings, one word
  per field, the struct hash and the signing preimage, and the byte equality of 32-byte anchors.
  A struct is the list of its members; a number given to \<open>BigInt\<close> is a \<open>jsnum\<close>.
\<close>

datatype settlement_error =
    SigningFailed signing_error
  | BigIntSyntax string
  | BigIntRange
  | BigIntType
  | NegativeUint int
  | UintOverflow int
  | Not32Bytes string
  | NotAnAddress string
  | NotUsdcAmount string
  | MalformedField string
  | MissingMember string
  | UnsupportedFieldType string

record eip712_domain =
  ed_name :: string
  ed_version :: string
  ed_chainId :: jsnum
  ed_verifyingContract :: "string option"

datatype settlement_struct =
  Agreement | Activation | Delivery | Acceptance | Rejection | Appeal | RefundConsent | Resolution

fun TYPE_STRINGS :: "settlement_struct \<Rightarrow> string" where
  "TYPE_STRINGS Agreement =
     ''Agreement(bytes32 agreementId,bytes32 termsHash,uint256 amount,address buyerAgent,address sellerAgent)''"
| "TYPE_STRINGS Activation =
     ''Activation(bytes32 termsHash,address buyer,address buyerAgent,address sellerAgent,address sellerPayout,'' @
     ''address arbiter,uint256 amount,uint64 fundingDeadline,uint64 deliveryWindow,'' @
     ''uint64 deliveryConfirmationWindow,uint64 appealResponseWindow,uint64 arbitrationWindow)''"
| "TYPE_STRINGS Delivery =
     ''Delivery(bytes32 dealId,bytes32 termsHash,bytes32 deliveryHash,bytes32 receiptHash,uint64 nonce,uint64 expiry)''"
| "TYPE_STRINGS Acceptance =
     ''Acceptance(bytes32 dealId,bytes32 termsHash,bytes32 receiptHash,uint64 nonce,uint64 expiry)''"
| "TYPE_STRINGS Rejection =
     ''Rejection(bytes32 dealId,bytes32 termsHash,bytes32 reasonHash,bytes32 receiptHash,uint64 nonce,uint64 expiry)''"
| "TYPE_STRINGS Appeal =
     ''Appeal(bytes32 dealId,bytes32 termsHash,bytes32 receiptHash,uint64 nonce,uint64 expiry)''"
| "TYPE_STRINGS RefundConsent =
     ''RefundConsent(bytes32 dealId,bytes32 termsHash,bytes32 receiptHash,uint64 nonce,uint64 expiry)''"
| "TYPE_STRINGS Resolution =
     ''Resolution(bytes32 dealId,bytes32 termsHash,bytes32 decisionId,uint16 sellerBps,bytes32 receiptHash,'' @
     ''uint64 nonce,uint64 expiry)''"

section \<open>ABI words\<close>

text \<open>
  \<open>BigInt(value)\<close>: an integral number, or the decimal (signed), hexadecimal, octal or binary text
  of an integer with white space around it, the empty text being zero.
\<close>

definition bigint_of_string :: "string \<Rightarrow> (settlement_error, int) res" where
  "bigint_of_string str =
     (let s = js_trim str;
          radix = (\<lambda>b ds. if ds = [] then Inl (BigIntSyntax str)
                     else case nat_of_radix b 0 ds of None \<Rightarrow> Inl (BigIntSyntax str) | Some n \<Rightarrow> Inr (int n));
          neg = starts_with ''-'' s;
          body = (if neg \<or> starts_with ''+'' s then tl s else s)
      in if s = [] then Inr 0
         else if starts_with ''0x'' s \<or> starts_with ''0X'' s then radix 16 (drop 2 s)
         else if starts_with ''0o'' s \<or> starts_with ''0O'' s then radix 8 (drop 2 s)
         else if starts_with ''0b'' s \<or> starts_with ''0B'' s then radix 2 (drop 2 s)
         else if body = [] \<or> \<not> list_all is_digit body then Inl (BigIntSyntax str)
         else Inr (if neg then - int_of_digits body else int_of_digits body))"

definition js_bigint :: "jsval \<Rightarrow> (settlement_error, int) res" where
  "js_bigint v =
     (case v of
        JUndef \<Rightarrow> Inl BigIntType
      | JNull \<Rightarrow> Inl BigIntType
      | JExotic e \<Rightarrow> Inl BigIntType
      | JBool b \<Rightarrow> Inr (if b then 1 else 0)
      | JNum n \<Rightarrow> (case n of Fin r \<Rightarrow> if rat_is_int r then Inr \<lfloor>r\<rfloor> else Inl BigIntRange | _ \<Rightarrow> Inl BigIntRange)
      | _ \<Rightarrow> bigint_of_string (js_string v))"

text \<open>The loop \<open>for (let i = 31; i >= 0 && x > 0n; i--)\<close>, at \<open>i = n - 1\<close>.\<close>

fun word_loop :: "nat \<Rightarrow> int \<Rightarrow> string \<Rightarrow> int \<times> string" where
  "word_loop 0 x out = (x, out)"
| "word_loop (Suc i) x out =
     (if x > 0 then word_loop i (x div 256) (out[i := char_of (nat (x mod 256))]) else (x, out))"

definition word_of_bigint :: "int \<Rightarrow> (settlement_error, string) res" where
  "word_of_bigint n =
     (if n < 0 then Inl (NegativeUint n)
      else let (x, out) = word_loop 32 n (replicate 32 (CHR 0x00))
           in if x > 0 then Inl (UintOverflow n) else Inr out)"

definition wordUint :: "jsval \<Rightarrow> (settlement_error, string) res" where
  "wordUint value = res_bind (js_bigint value) word_of_bigint"

definition from_hex_word :: "string \<Rightarrow> (settlement_error, string) res" where
  "from_hex_word h = (case fromHex h of Inl e \<Rightarrow> Inl (SigningFailed e) | Inr b \<Rightarrow> Inr b)"

definition wordBytes32 :: "string \<Rightarrow> (settlement_error, string) res" where
  "wordBytes32 value =
     (let h = (if starts_with ''sha256:'' value then drop 7 value
               else if starts_with ''0x'' value then drop 2 value else value)
      in res_bind (from_hex_word h) (\<lambda>raw. if length raw \<noteq> 32 then Inl (Not32Bytes value) else Inr raw))"

definition wordAddress :: "string \<Rightarrow> (settlement_error, string) res" where
  "wordAddress value =
     res_bind (from_hex_word value)
       (\<lambda>raw. if length raw \<noteq> 20 then Inl (NotAnAddress value)
              else Inr (concatBytes [replicate 12 (CHR 0x00), raw]))"

section \<open>Field derivations\<close>

definition agreementIdWord :: "crypto \<Rightarrow> string \<Rightarrow> string" where
  "agreementIdWord C agreementId = keccak_digest C agreementId"

definition reasonHashWord :: "crypto \<Rightarrow> string \<Rightarrow> string" where
  "reasonHashWord C reasonCode = keccak_digest C reasonCode"

definition decisionIdWord :: "crypto \<Rightarrow> string \<Rightarrow> string" where
  "decisionIdWord C decisionId = keccak_digest C decisionId"

text \<open>The regular expression \<open>/^([0-9]+)(?:\.([0-9]{1,6}))?$/\<close>: whole part and fraction.\<close>

definition usdc_parts :: "string \<Rightarrow> (string \<times> string) option" where
  "usdc_parts s =
     (let whole = takeWhile is_digit s; r = dropWhile is_digit s
      in if whole = [] then None
         else case r of
                [] \<Rightarrow> Some (whole, [])
              | c # f \<Rightarrow>
                  if c = CHR ''.'' \<and> list_all is_digit f \<and> 1 \<le> length f \<and> length f \<le> 6
                  then Some (whole, f) else None)"

definition usdcBaseUnits :: "string \<Rightarrow> (settlement_error, int) res" where
  "usdcBaseUnits decimalAmount =
     (case usdc_parts decimalAmount of
        None \<Rightarrow> Inl (NotUsdcAmount decimalAmount)
      | Some (whole, f) \<Rightarrow>
          Inr (int_of_digits whole * 1000000 + int_of_digits (f @ replicate (6 - length f) (CHR ''0''))))"

section \<open>EIP-712\<close>

definition domainSeparator :: "crypto \<Rightarrow> eip712_domain \<Rightarrow> (settlement_error, string) res" where
  "domainSeparator C domain =
     (let typeString = (if ed_verifyingContract domain \<noteq> None
            then ''EIP712Domain(string name,string version,uint256 chainId,address verifyingContract)''
            else ''EIP712Domain(string name,string version,uint256 chainId)'')
      in res_bind (wordUint (JNum (ed_chainId domain))) (\<lambda>chain.
         res_bind (case ed_verifyingContract domain of
                     None \<Rightarrow> Inr []
                   | Some a \<Rightarrow> res_bind (wordAddress a) (\<lambda>w. Inr [w])) (\<lambda>contract.
           Inr (keccak_digest C (concatBytes
             ([keccak_digest C typeString, keccak_digest C (ed_name domain), keccak_digest C (ed_version domain), chain]
              @ contract))))))"

record field_spec =
  fs_type :: string
  fs_name :: string

text \<open>\<open>s.slice(s.indexOf("(") + 1, s.lastIndexOf(")"))\<close>, an absent bracket being index -1.\<close>

definition after_first :: "char \<Rightarrow> string \<Rightarrow> string" where
  "after_first c s = (if c \<in> set s then tl (dropWhile (\<lambda>x. x \<noteq> c) s) else s)"

definition before_last_index :: "char \<Rightarrow> string \<Rightarrow> nat" where
  "before_last_index c s =
     (if c \<in> set s then length s - Suc (length (takeWhile (\<lambda>x. x \<noteq> c) (rev s))) else length s - 1)"

definition type_inner :: "string \<Rightarrow> string" where
  "type_inner s =
     (let start = length s - length (after_first (CHR ''('') s)
      in take (before_last_index (CHR '')'') s - start) (drop start s))"

definition parse_field :: "string \<Rightarrow> (settlement_error, field_spec) res" where
  "parse_field f =
     (case split_at_char (CHR '' '') (js_trim f) of
        t # n # _ \<Rightarrow> if t = [] \<or> n = [] then Inl (MalformedField f) else Inr \<lparr> fs_type = t, fs_name = n \<rparr>
      | _ \<Rightarrow> Inl (MalformedField f))"

definition parseTypeString :: "string \<Rightarrow> (settlement_error, field_spec list) res" where
  "parseTypeString typeString = res_map_list parse_field (split_at_char (CHR '','') (type_inner typeString))"

definition fieldWord :: "crypto \<Rightarrow> field_spec \<Rightarrow> json \<Rightarrow> string \<Rightarrow> (settlement_error, string) res" where
  "fieldWord C field struct typeString =
     (let get = getp (JObj struct); name = fs_name field
      in if name = ''agreementId'' then Inr (agreementIdWord C (js_string (get ''agreementId'')))
         else if name = ''reasonHash'' then Inr (reasonHashWord C (js_string (get ''reasonCode'')))
         else if name = ''decisionId'' then Inr (decisionIdWord C (js_string (get ''decisionId'')))
         else if name = ''amount'' then
           (if starts_with ''Activation('' typeString then
              wordUint (JStr (js_string (coalesce (get ''amountBaseUnits'') (get ''amount''))))
            else if get ''amountBaseUnits'' \<noteq> JUndef then wordUint (JStr (js_string (get ''amountBaseUnits'')))
            else res_bind (usdcBaseUnits (js_string (get ''amount''))) word_of_bigint)
         else let value = get name; t = fs_type field
              in if value = JUndef then Inl (MissingMember name)
                 else if t = ''address'' then wordAddress (js_string value)
                 else if t = ''bytes32'' then wordBytes32 (js_string value)
                 else if starts_with ''uint'' t then wordUint value
                 else Inl (UnsupportedFieldType t))"

definition structHash :: "crypto \<Rightarrow> string \<Rightarrow> json \<Rightarrow> (settlement_error, string) res" where
  "structHash C typeString struct =
     res_bind (parseTypeString typeString) (\<lambda>fields.
     res_bind (res_map_list (\<lambda>f. fieldWord C f struct typeString) fields) (\<lambda>words.
       Inr (keccak_digest C (concatBytes (keccak_digest C typeString # words)))))"

definition signingPreimage :: "crypto \<Rightarrow> eip712_domain \<Rightarrow> string \<Rightarrow> json \<Rightarrow> (settlement_error, string) res" where
  "signingPreimage C domain typeString struct =
     res_bind (domainSeparator C domain) (\<lambda>d.
     res_bind (structHash C typeString struct) (\<lambda>h.
       Inr (concatBytes [[CHR 0x19, CHR 0x01], d, h])))"

definition digest :: "crypto \<Rightarrow> eip712_domain \<Rightarrow> string \<Rightarrow> json \<Rightarrow> (settlement_error, string) res" where
  "digest C domain typeString struct =
     res_bind (signingPreimage C domain typeString struct) (\<lambda>p. Inr (keccak256 C p))"

definition signStruct :: "crypto \<Rightarrow> string \<Rightarrow> eip712_domain \<Rightarrow> string \<Rightarrow> json \<Rightarrow> (settlement_error, string) res" where
  "signStruct C privateKey domain typeString struct =
     res_bind (signingPreimage C domain typeString struct) (\<lambda>p. Inr (sign C privateKey p))"

definition strip_anchor :: "string \<Rightarrow> string" where
  "strip_anchor s =
     js_lower (if starts_with ''sha256:'' s then drop 7 s else if starts_with ''0x'' s then drop 2 s else s)"

definition bytes32Equal :: "string \<Rightarrow> string \<Rightarrow> bool" where
  "bytes32Equal a b \<longleftrightarrow> js_length (strip_anchor a) = 64 \<and> strip_anchor a = strip_anchor b"

definition recoverStruct :: "crypto \<Rightarrow> string \<Rightarrow> eip712_domain \<Rightarrow> string \<Rightarrow> json
    \<Rightarrow> (settlement_error, string option) res" where
  "recoverStruct C signature domain typeString struct =
     res_bind (signingPreimage C domain typeString struct) (\<lambda>p. Inr (recover C signature p))"

section \<open>The published type strings\<close>

text \<open>What the parser makes of each type string, evaluated.\<close>

abbreviation fld :: "string \<Rightarrow> string \<Rightarrow> field_spec" where
  "fld t n \<equiv> \<lparr> fs_type = t, fs_name = n \<rparr>"

fun struct_fields :: "settlement_struct \<Rightarrow> field_spec list" where
  "struct_fields Agreement = [fld ''bytes32'' ''agreementId'', fld ''bytes32'' ''termsHash'', fld ''uint256'' ''amount'',
     fld ''address'' ''buyerAgent'', fld ''address'' ''sellerAgent'']"
| "struct_fields Activation = [fld ''bytes32'' ''termsHash'', fld ''address'' ''buyer'', fld ''address'' ''buyerAgent'',
     fld ''address'' ''sellerAgent'', fld ''address'' ''sellerPayout'', fld ''address'' ''arbiter'',
     fld ''uint256'' ''amount'', fld ''uint64'' ''fundingDeadline'', fld ''uint64'' ''deliveryWindow'',
     fld ''uint64'' ''deliveryConfirmationWindow'', fld ''uint64'' ''appealResponseWindow'',
     fld ''uint64'' ''arbitrationWindow'']"
| "struct_fields Delivery = [fld ''bytes32'' ''dealId'', fld ''bytes32'' ''termsHash'', fld ''bytes32'' ''deliveryHash'',
     fld ''bytes32'' ''receiptHash'', fld ''uint64'' ''nonce'', fld ''uint64'' ''expiry'']"
| "struct_fields Acceptance = [fld ''bytes32'' ''dealId'', fld ''bytes32'' ''termsHash'', fld ''bytes32'' ''receiptHash'',
     fld ''uint64'' ''nonce'', fld ''uint64'' ''expiry'']"
| "struct_fields Rejection = [fld ''bytes32'' ''dealId'', fld ''bytes32'' ''termsHash'', fld ''bytes32'' ''reasonHash'',
     fld ''bytes32'' ''receiptHash'', fld ''uint64'' ''nonce'', fld ''uint64'' ''expiry'']"
| "struct_fields Appeal = [fld ''bytes32'' ''dealId'', fld ''bytes32'' ''termsHash'', fld ''bytes32'' ''receiptHash'',
     fld ''uint64'' ''nonce'', fld ''uint64'' ''expiry'']"
| "struct_fields RefundConsent = [fld ''bytes32'' ''dealId'', fld ''bytes32'' ''termsHash'', fld ''bytes32'' ''receiptHash'',
     fld ''uint64'' ''nonce'', fld ''uint64'' ''expiry'']"
| "struct_fields Resolution = [fld ''bytes32'' ''dealId'', fld ''bytes32'' ''termsHash'', fld ''bytes32'' ''decisionId'',
     fld ''uint16'' ''sellerBps'', fld ''bytes32'' ''receiptHash'', fld ''uint64'' ''nonce'', fld ''uint64'' ''expiry'']"

lemma parse_each_type_string:
  "parseTypeString (TYPE_STRINGS Agreement) = Inr (struct_fields Agreement)"
  "parseTypeString (TYPE_STRINGS Activation) = Inr (struct_fields Activation)"
  "parseTypeString (TYPE_STRINGS Delivery) = Inr (struct_fields Delivery)"
  "parseTypeString (TYPE_STRINGS Acceptance) = Inr (struct_fields Acceptance)"
  "parseTypeString (TYPE_STRINGS Rejection) = Inr (struct_fields Rejection)"
  "parseTypeString (TYPE_STRINGS Appeal) = Inr (struct_fields Appeal)"
  "parseTypeString (TYPE_STRINGS RefundConsent) = Inr (struct_fields RefundConsent)"
  "parseTypeString (TYPE_STRINGS Resolution) = Inr (struct_fields Resolution)"
  by code_simp+

lemma parse_type_strings: "parseTypeString (TYPE_STRINGS s) = Inr (struct_fields s)"
  by (cases s) (simp_all only: parse_each_type_string)


section \<open>Words\<close>

text \<open>The reference: \<open>n\<close> bytes, big-endian.\<close>

fun be_bytes :: "nat \<Rightarrow> int \<Rightarrow> string" where
  "be_bytes 0 v = []"
| "be_bytes (Suc n) v = be_bytes n (v div 256) @ [char_of (nat (v mod 256))]"

lemma length_be_bytes [simp]: "length (be_bytes n v) = n"
  by (induction n arbitrary: v) simp_all

lemma be_bytes_0: "be_bytes n 0 = replicate n (CHR 0x00)"
proof (induction n)
  case (Suc n)
  have "char_of (0 :: nat) = CHR 0x00" by code_simp
  with Suc show ?case by (simp add: replicate_append_same)
qed simp

lemma word_loop_be_bytes:
  "0 \<le> x \<Longrightarrow> n \<le> length out \<Longrightarrow> take n out = replicate n (CHR 0x00) \<Longrightarrow>
   word_loop n x out = (x div 256 ^ n, be_bytes n (x mod 256 ^ n) @ drop n out)"
proof (induction n arbitrary: x out)
  case (Suc n)
  show ?case
  proof (cases "x > 0")
    case True
    let ?b = "char_of (nat (x mod 256)) :: char"
    have t: "take n (out[n := ?b]) = replicate n (CHR 0x00)"
    proof -
      have "take n (take (Suc n) out) = take n (replicate (Suc n) (CHR 0x00))" using Suc.prems(3) by simp
      then show ?thesis by (simp del: replicate_Suc)
    qed
    have "word_loop n (x div 256) (out[n := ?b])
        = (x div 256 div 256 ^ n, be_bytes n (x div 256 mod 256 ^ n) @ drop n (out[n := ?b]))"
      using Suc.prems(1,2) t by (intro Suc.IH) (simp_all add: pos_imp_zdiv_nonneg_iff)
    moreover have "drop n (out[n := ?b]) = ?b # drop (Suc n) out"
      using Suc.prems(2) by (simp add: drop_update_swap Cons_nth_drop_Suc[symmetric])
    moreover have "x div 256 div 256 ^ n = x div 256 ^ Suc n" by (simp add: zdiv_zmult2_eq)
    moreover have "x mod 256 ^ Suc n div 256 = x div 256 mod 256 ^ n"
      by (simp add: zmod_zmult2_eq)
    moreover have "x mod 256 ^ Suc n mod 256 = x mod 256" by (simp add: mod_mod_cancel)
    ultimately show ?thesis using True by simp
  next
    case False
    with Suc.prems have "x = 0" by simp
    moreover have "out = replicate (Suc n) (CHR 0x00) @ drop (Suc n) out"
      using Suc.prems(3) by (metis append_take_drop_id)
    ultimately show ?thesis by (simp add: be_bytes_0 del: be_bytes.simps)
  qed
qed simp

lemma word_of_bigint_cases:
  "word_of_bigint n =
     (if n < 0 then Inl (NegativeUint n) else if 2 ^ 256 \<le> n then Inl (UintOverflow n) else Inr (be_bytes 32 n))"
proof -
  have p: "(256 :: int) ^ 32 = 2 ^ 256" by simp
  have "0 < n div 2 ^ 256 \<longleftrightarrow> 2 ^ 256 \<le> n" by (simp add: pos_imp_zdiv_pos_iff)
  then show ?thesis
    using word_loop_be_bytes[of n 32 "replicate 32 (CHR 0x00)"]
    by (auto simp: word_of_bigint_def p Let_def)
qed



text \<open>The value of big-endian bytes.\<close>

abbreviation be_value :: "string \<Rightarrow> nat" where
  "be_value w \<equiv> horner_sum of_char 256 (rev w)"

lemma be_bytes_value: "0 \<le> v \<Longrightarrow> v < 256 ^ n \<Longrightarrow> be_value (be_bytes n v) = nat v"
proof (induction n arbitrary: v)
  case (Suc n)
  have lt: "v div 256 < 256 ^ n" using Suc.prems(2) by (simp add: div_less_iff_less_mult mult.commute)
  have c: "(of_char (char_of (nat (v mod 256)) :: char) :: nat) = nat (v mod 256)"
    by (simp add: take_bit_eq_mod nat_less_iff)
  have "be_value (be_bytes (Suc n) v)
      = of_char (char_of (nat (v mod 256)) :: char) + 256 * be_value (be_bytes n (v div 256))"
    by (simp del: of_char_of)
  also have "\<dots> = nat (v mod 256) + 256 * nat (v div 256)"
    unfolding c using Suc.IH[OF _ lt] Suc.prems(1) by (simp add: pos_imp_zdiv_nonneg_iff)
  also have "\<dots> = nat v"
    using Suc.prems(1) by (simp add: nat_mod_distrib nat_div_distrib)
  finally show ?case .
qed simp

lemma digit_step: "(x :: nat) < 256 \<Longrightarrow> h < p \<Longrightarrow> x + 256 * h < 256 * p"
  by linarith

lemma horner_char_bound: "(horner_sum of_char 256 (bs :: string) :: nat) < 256 ^ length bs"
proof (induction bs)
  case (Cons b bs)
  from digit_step[OF nat_of_char_less_256[of b] Cons] show ?case by simp
qed simp

lemma horner_char_inject:
  "length (bs :: string) = length cs \<Longrightarrow> (horner_sum of_char 256 bs :: nat) = horner_sum of_char 256 cs \<Longrightarrow> bs = cs"
proof (induction bs cs rule: list_induct2)
  case (Cons b bs c cs)
  have m: "(horner_sum of_char 256 (x # xs) :: nat) mod 256 = of_char x" for x and xs :: string
    using nat_of_char_less_256[of x] by simp
  from Cons.prems m[of b bs] m[of c cs] have "(of_char b :: nat) = of_char c" by simp
  then have "b = c" by simp
  with Cons show ?case by simp
qed simp

lemma word_of_bigint_iff:
  "word_of_bigint n = Inr w \<longleftrightarrow> 0 \<le> n \<and> length w = 32 \<and> be_value w = nat n"
proof
  assume "word_of_bigint n = Inr w"
  then have "0 \<le> n" "n < 2 ^ 256" "w = be_bytes 32 n" by (auto simp: word_of_bigint_cases split: if_splits)
  moreover have "(256 :: int) ^ 32 = 2 ^ 256" by simp
  ultimately show "0 \<le> n \<and> length w = 32 \<and> be_value w = nat n"
    using be_bytes_value[of n 32] by simp
next
  assume a: "0 \<le> n \<and> length w = 32 \<and> be_value w = nat n"
  have p: "(256 :: int) ^ 32 = 2 ^ 256" "(256 :: nat) ^ 32 = 2 ^ 256" by simp_all
  have "nat n < 2 ^ 256" using a horner_char_bound[of "rev w"] by (simp only: p length_rev)
  then have lt: "n < 2 ^ 256" by (simp add: nat_less_iff)
  have "be_value (be_bytes 32 n) = nat n" using a lt be_bytes_value[of n 32] by (simp only: p)
  then have "rev (be_bytes 32 n) = rev w" using a by (intro horner_char_inject) simp_all
  then show "word_of_bigint n = Inr w" using a lt by (simp add: word_of_bigint_cases)
qed

section \<open>Anchors\<close>

lemma lower_hex_pairs:
  "list_all is_hex_char h \<Longrightarrow> even (length h) \<Longrightarrow> js_lower h = to_hex (hex_pairs h)"
proof (induction h rule: hex_pairs.induct)
  case (1 a b r)
  have c: "\<exists>d. hex_val x = Some d \<and> d < 16 \<and> lower_char x = hex_digit d" if h: "is_hex_char x" for x
  proof -
    have d: "x = char_of (of_char x :: nat)" by simp
    from h show ?thesis
      unfolding is_hex_char_def hex_val_def lower_char_def hex_digit_def Let_def
      by (auto simp: of_char_eq_iff char_of_eq_iff take_bit_eq_mod split: if_splits)
  qed
  from 1(2) have "is_hex_char a" "is_hex_char b" by simp_all
  with c obtain d e where d: "hex_val a = Some d" "d < 16" "lower_char a = hex_digit d"
    and e: "hex_val b = Some e" "e < 16" "lower_char b = hex_digit e" by metis
  have "of_char (char_of (16 * d + e) :: char) = 16 * d + e" using d e by (simp add: take_bit_eq_mod)
  with d e have "hex_byte (char_of (16 * d + e)) = [lower_char a, lower_char b]"
    by (simp add: hex_byte_def)
  with 1 d e show ?case by (simp add: js_lower_def to_hex_Cons)
qed (simp_all add: js_lower_def to_hex_def)

definition bare_anchor :: "string \<Rightarrow> string" where
  "bare_anchor s = (if starts_with ''sha256:'' s then drop 7 s else if starts_with ''0x'' s then drop 2 s else s)"

lemma wordBytes32_bare:
  assumes "wordBytes32 a = Inr w" and "\<not> starts_with ''0x'' (bare_anchor a)"
  shows "strip_anchor a = to_hex w \<and> length w = 32"
proof -
  from assms(1) have f: "fromHex (bare_anchor a) = Inr w" "length w = 32"
    by (auto simp: wordBytes32_def from_hex_word_def bare_anchor_def[symmetric] Let_def res_bind_Inr_iff split: sum.splits if_splits)
  then have h: "list_all is_hex_char (bare_anchor a)" "js_length (bare_anchor a) mod 2 = 0" "w = hex_pairs (bare_anchor a)"
    using assms(2) by (auto simp: fromHex_def Let_def split: if_splits)
  then have "even (length (bare_anchor a))" using js_length_hex[OF h(1)] by (simp add: even_iff_mod_2_eq_zero)
  with h f show ?thesis using lower_hex_pairs[of "bare_anchor a"] by (simp add: strip_anchor_def bare_anchor_def[symmetric])
qed

lemma bytes32Equal_words:
  assumes "wordBytes32 a = Inr w" and "wordBytes32 b = Inr w'"
    and "\<not> starts_with ''0x'' (bare_anchor a)" and "\<not> starts_with ''0x'' (bare_anchor b)"
  shows "bytes32Equal a b \<longleftrightarrow> w = w'"
  using wordBytes32_bare[OF assms(1,3)] wordBytes32_bare[OF assms(2,4)]
  by (auto simp: bytes32Equal_def js_length_hex)

section \<open>Amounts\<close>

lemma nat_of_digits_append: "nat_of_digits (a @ b) = nat_of_digits a * 10 ^ length b + nat_of_digits b"
proof (induction b rule: rev_induct)
  case (snoc c b)
  then show ?case by (simp add: nat_of_digits_def)
qed (simp add: nat_of_digits_def)

lemma nat_of_digits_zeros [simp]: "nat_of_digits (replicate n (CHR ''0'')) = 0"
  by (induction n) (simp_all add: nat_of_digits_def digit_val_def)

lemma nat_of_digits_pad [simp]: "nat_of_digits (pad_start n (CHR ''0'') s) = nat_of_digits s"
  by (simp add: pad_start_def nat_of_digits_append)

lemma usdc_dollars:
  assumes "0 \<le> k" and "k \<le> 2 ^ 50"
  shows "usdcBaseUnits (to_fixed 2 (fdiv (of_int k) 100)) = Inr (10000 * k)"
proof -
  let ?w = "string_of_nat (nat (k div 100))" and ?f = "pad_start 2 (CHR ''0'') (string_of_nat (nat (k mod 100)))"
  have sgn: "\<not> k mod 100 < 0" by (simp add: not_less)
  have t: "to_fixed 2 (fdiv (of_int k) 100) = ?w @ ''.'' @ ?f"
    using to_fixed_cents[OF assms] assms(1) sgn
    by (simp add: dollars_def string_of_int_def pos_imp_zdiv_neg_iff)
  have dig: "list_all is_digit ?w" "list_all is_digit ?f"
    by (auto simp: list_all_iff pad_start_def is_digit_def dest!: string_of_nat_digits)
  have len: "length ?f = 2"
  proof -
    have "length (string_of_nat d) \<le> 2" if "d < 100" for d
      using that by (subst string_of_nat.simps, subst string_of_nat.simps) auto
    from this[of "nat (k mod 100)"] show ?thesis by (simp add: pad_start_def)
  qed
  have dot: "\<not> is_digit (CHR ''.'')" by (simp add: is_digit_def)
  have tw: "takeWhile is_digit (?w @ ''.'' @ ?f) = ?w" "dropWhile is_digit (?w @ ''.'' @ ?f) = ''.'' @ ?f"
    using dig(1) dot by (simp_all add: list_all_iff takeWhile_append2 dropWhile_append2)
  have "usdc_parts (?w @ ''.'' @ ?f) = Some (?w, ?f)"
    unfolding usdc_parts_def Let_def tw using dig(2) len by simp
  then show ?thesis
    unfolding t usdcBaseUnits_def using assms(1) len mult_div_mod_eq[of 100 k]
    by (simp add: int_of_digits_eq nat_of_digits_append pos_imp_zdiv_nonneg_iff) presburger
qed



section \<open>Digests bind what they are taken of\<close>

definition kcollision :: "crypto \<Rightarrow> string \<Rightarrow> string \<Rightarrow> bool" where
  "kcollision C a b \<longleftrightarrow> a \<noteq> b \<and> keccak_digest C a = keccak_digest C b"

lemma keccak_eq_cases: "keccak_digest C a = keccak_digest C b \<Longrightarrow> a = b \<or> kcollision C a b"
  by (auto simp: kcollision_def)

text \<open>What is hashed: the concatenation under the digest of a domain and of a struct.\<close>

definition domain_words :: "crypto \<Rightarrow> eip712_domain \<Rightarrow> (settlement_error, string list) res" where
  "domain_words C d =
     res_bind (wordUint (JNum (ed_chainId d))) (\<lambda>chain.
     res_bind (case ed_verifyingContract d of None \<Rightarrow> Inr [] | Some a \<Rightarrow> res_bind (wordAddress a) (\<lambda>w. Inr [w])) (\<lambda>contract.
       Inr ([keccak_digest C (if ed_verifyingContract d \<noteq> None
              then ''EIP712Domain(string name,string version,uint256 chainId,address verifyingContract)''
              else ''EIP712Domain(string name,string version,uint256 chainId)''),
             keccak_digest C (ed_name d), keccak_digest C (ed_version d), chain] @ contract)))"

definition struct_words :: "crypto \<Rightarrow> settlement_struct \<Rightarrow> json \<Rightarrow> (settlement_error, string list) res" where
  "struct_words C s st =
     res_bind (res_map_list (\<lambda>f. fieldWord C f st (TYPE_STRINGS s)) (struct_fields s))
       (\<lambda>ws. Inr (keccak_digest C (TYPE_STRINGS s) # ws))"

lemma domainSeparator_words: "domainSeparator C d = res_bind (domain_words C d) (\<lambda>ws. Inr (keccak_digest C (concat ws)))"
  by (auto simp: domainSeparator_def domain_words_def concatBytes_def Let_def res_bind_def split: sum.splits option.splits)

lemma structHash_words:
  "structHash C (TYPE_STRINGS s) st = res_bind (struct_words C s st) (\<lambda>ws. Inr (keccak_digest C (concat ws)))"
  by (auto simp: structHash_def struct_words_def parse_type_strings concatBytes_def res_bind_def split: sum.splits)

lemma word_lengths:
  "word_of_bigint n = Inr w \<Longrightarrow> length w = 32"
  "wordUint v = Inr w \<Longrightarrow> length w = 32"
  "wordBytes32 s = Inr w \<Longrightarrow> length w = 32"
  "wordAddress s = Inr w \<Longrightarrow> length w = 32"
  by (auto simp: word_of_bigint_iff wordUint_def wordBytes32_def wordAddress_def concatBytes_def Let_def
      res_bind_Inr_iff split: if_splits)

lemma fieldWord_length: "digests_ok C \<Longrightarrow> fieldWord C f st T = Inr w \<Longrightarrow> length w = 32"
  by (auto simp: fieldWord_def Let_def digests_ok_def agreementIdWord_def reasonHashWord_def decisionIdWord_def
      res_bind_Inr_iff dest: word_lengths split: if_splits)

lemma concat_words_inject:
  "list_all (\<lambda>w. length w = n) ws \<Longrightarrow> list_all (\<lambda>w. length w = n) vs \<Longrightarrow> 0 < n \<Longrightarrow>
   concat ws = concat (vs :: string list) \<Longrightarrow> ws = vs"
proof (induction ws arbitrary: vs)
  case Nil
  then show ?case by (cases vs) auto
next
  case (Cons w ws)
  then obtain v vs' where vs: "vs = v # vs'" by (cases vs) auto
  from Cons.prems vs have l: "length w = length v" by simp
  from Cons.prems(4) vs have "w @ concat ws = v @ concat vs'" by simp
  then have wv: "w = v \<and> concat ws = concat vs'" using append_eq_append_conv[of w v "concat ws" "concat vs'"] l by blast
  with Cons.IH[of vs'] Cons.prems(1-3) vs show ?case by simp
qed

lemma struct_words_iff:
  "struct_words C s st = Inr ws \<longleftrightarrow> (\<exists>vs. ws = keccak_digest C (TYPE_STRINGS s) # vs \<and>
     list_all2 (\<lambda>f w. fieldWord C f st (TYPE_STRINGS s) = Inr w) (struct_fields s) vs)"
  unfolding struct_words_def res_bind_Inr_iff res_map_list_Inr_iff by blast

lemma struct_words_length:
  assumes "digests_ok C" and "struct_words C s st = Inr ws"
  shows "list_all (\<lambda>w. length w = 32) ws"
proof -
  from assms(2) obtain vs where w: "ws = keccak_digest C (TYPE_STRINGS s) # vs"
    and vs: "list_all2 (\<lambda>f w. fieldWord C f st (TYPE_STRINGS s) = Inr w) (struct_fields s) vs"
    unfolding struct_words_iff by blast
  have "list_all (\<lambda>w. length w = 32) vs"
    using vs by (induction rule: list_all2_induct) (simp_all add: fieldWord_length[OF assms(1)])
  with w assms(1) show ?thesis by (simp add: digests_ok_def)
qed

lemma domain_words_length: "digests_ok C \<Longrightarrow> domain_words C d = Inr ws \<Longrightarrow> list_all (\<lambda>w. length w = 32) ws"
  by (auto simp: domain_words_def res_bind_Inr_iff digests_ok_def dest: word_lengths split: option.splits)

lemma TYPE_STRINGS_inject [simp]: "TYPE_STRINGS s = TYPE_STRINGS s' \<longleftrightarrow> s = s'"
  by (cases s; cases s') simp_all

definition words_collision :: "crypto \<Rightarrow> (settlement_error, string list) res \<Rightarrow> (settlement_error, string list) res \<Rightarrow> bool" where
  "words_collision C r r' \<longleftrightarrow> (\<exists>ws vs. r = Inr ws \<and> r' = Inr vs \<and> kcollision C (concat ws) (concat vs))"

lemma keccak_words_eq:
  assumes "list_all (\<lambda>w. length w = 32) ws" "list_all (\<lambda>w. length w = 32) vs"
    and "keccak_digest C (concat ws) = keccak_digest C (concat vs)" and "\<not> kcollision C (concat ws) (concat vs)"
  shows "ws = vs"
  using keccak_eq_cases[OF assms(3)] assms concat_words_inject[of 32 ws vs] by auto

section \<open>What a struct says\<close>

text \<open>
  The value a struct states for each field of its type, without words or digests: a text, an integer (none when
  the member has none), or the hexadecimal digits, in lower case and without prefix, of an account or an anchor.
\<close>

datatype signed_value = Says string | Units "int option" | Digits string

definition read_int :: "(settlement_error, int) res \<Rightarrow> signed_value" where
  "read_int r = Units (case r of Inr n \<Rightarrow> Some n | Inl e \<Rightarrow> None)"

definition hex_digits :: "string \<Rightarrow> string" where
  "hex_digits s = js_lower (if starts_with ''0x'' s then drop 2 s else s)"

definition stated_text :: "json \<Rightarrow> string \<Rightarrow> signed_value" where
  "stated_text st k = Says (js_string (getp (JObj st) k))"

definition stated_account :: "json \<Rightarrow> string \<Rightarrow> signed_value" where
  "stated_account st k = Digits (hex_digits (js_string (getp (JObj st) k)))"

definition stated_anchor :: "json \<Rightarrow> string \<Rightarrow> signed_value" where
  "stated_anchor st k = Digits (hex_digits (bare_anchor (js_string (getp (JObj st) k))))"

definition stated_int :: "json \<Rightarrow> string \<Rightarrow> signed_value" where
  "stated_int st k = read_int (js_bigint (getp (JObj st) k))"

text \<open>The amount: base units in an Activation, the decimal price in an Agreement unless base units are pinned.\<close>

definition activated_amount :: "json \<Rightarrow> signed_value" where
  "activated_amount st =
     read_int (bigint_of_string (js_string (coalesce (getp (JObj st) ''amountBaseUnits'') (getp (JObj st) ''amount''))))"

definition agreed_amount :: "json \<Rightarrow> signed_value" where
  "agreed_amount st =
     (if getp (JObj st) ''amountBaseUnits'' \<noteq> JUndef
      then read_int (bigint_of_string (js_string (getp (JObj st) ''amountBaseUnits'')))
      else read_int (usdcBaseUnits (js_string (getp (JObj st) ''amount''))))"

fun struct_meaning :: "settlement_struct \<Rightarrow> json \<Rightarrow> signed_value list" where
  "struct_meaning Agreement st = [stated_text st ''agreementId'', stated_anchor st ''termsHash'', agreed_amount st,
     stated_account st ''buyerAgent'', stated_account st ''sellerAgent'']"
| "struct_meaning Activation st = [stated_anchor st ''termsHash'', stated_account st ''buyer'', stated_account st ''buyerAgent'',
     stated_account st ''sellerAgent'', stated_account st ''sellerPayout'', stated_account st ''arbiter'', activated_amount st,
     stated_int st ''fundingDeadline'', stated_int st ''deliveryWindow'', stated_int st ''deliveryConfirmationWindow'',
     stated_int st ''appealResponseWindow'', stated_int st ''arbitrationWindow'']"
| "struct_meaning Delivery st = [stated_anchor st ''dealId'', stated_anchor st ''termsHash'', stated_anchor st ''deliveryHash'',
     stated_anchor st ''receiptHash'', stated_int st ''nonce'', stated_int st ''expiry'']"
| "struct_meaning Acceptance st = [stated_anchor st ''dealId'', stated_anchor st ''termsHash'', stated_anchor st ''receiptHash'',
     stated_int st ''nonce'', stated_int st ''expiry'']"
| "struct_meaning Rejection st = [stated_anchor st ''dealId'', stated_anchor st ''termsHash'', stated_text st ''reasonCode'',
     stated_anchor st ''receiptHash'', stated_int st ''nonce'', stated_int st ''expiry'']"
| "struct_meaning Appeal st = [stated_anchor st ''dealId'', stated_anchor st ''termsHash'', stated_anchor st ''receiptHash'',
     stated_int st ''nonce'', stated_int st ''expiry'']"
| "struct_meaning RefundConsent st = [stated_anchor st ''dealId'', stated_anchor st ''termsHash'', stated_anchor st ''receiptHash'',
     stated_int st ''nonce'', stated_int st ''expiry'']"
| "struct_meaning Resolution st = [stated_anchor st ''dealId'', stated_anchor st ''termsHash'', stated_text st ''decisionId'',
     stated_int st ''sellerBps'', stated_anchor st ''receiptHash'', stated_int st ''nonce'', stated_int st ''expiry'']"

text \<open>The same, field by field of a type string.\<close>

definition field_value :: "settlement_struct \<Rightarrow> json \<Rightarrow> field_spec \<Rightarrow> signed_value" where
  "field_value s st f =
     (let n = fs_name f
      in if n = ''agreementId'' then stated_text st n
         else if n = ''reasonHash'' then stated_text st ''reasonCode''
         else if n = ''decisionId'' then stated_text st n
         else if n = ''amount'' then (if s = Activation then activated_amount st else agreed_amount st)
         else if fs_type f = ''address'' then stated_account st n
         else if fs_type f = ''bytes32'' then stated_anchor st n
         else stated_int st n)"

lemma struct_meaning_fields: "struct_meaning s st = map (field_value s st) (struct_fields s)"
  by (cases s) (simp_all add: field_value_def)

text \<open>A word determines the value it was made of.\<close>

lemma read_int_simps [simp]:
  "read_int (Inr n) = Units (Some n)" "read_int (Inl e) = Units None"
  "read_int r = Units None \<longleftrightarrow> (\<exists>e. r = Inl e)" "read_int r = Units (Some n) \<longleftrightarrow> r = Inr n"
  by (simp_all add: read_int_def split: sum.split)

lemma word_of_bigint_inject: "word_of_bigint n = Inr w \<Longrightarrow> word_of_bigint m = Inr w \<Longrightarrow> n = m"
  by (auto simp: word_of_bigint_iff)

lemma wordUint_Inr: "wordUint v = Inr w \<longleftrightarrow> (\<exists>n. js_bigint v = Inr n \<and> word_of_bigint n = Inr w)"
  by (auto simp: wordUint_def res_bind_Inr_iff)

lemma wordUint_text: "wordUint (JStr s) = Inr w \<longleftrightarrow> (\<exists>n. bigint_of_string s = Inr n \<and> word_of_bigint n = Inr w)"
  by (auto simp: wordUint_Inr js_bigint_def)

lemma fromHex_digits: "fromHex s = Inr b \<Longrightarrow> hex_digits s = to_hex b"
proof -
  assume b: "fromHex s = Inr b"
  define h where "h = (if starts_with ''0x'' s then drop 2 s else s)"
  from b have h: "list_all is_hex_char h" "js_length h mod 2 = 0" "b = hex_pairs h"
    by (auto simp: fromHex_def h_def Let_def split: if_splits)
  then have "even (length h)" using js_length_hex[OF h(1)] by (simp add: even_iff_mod_2_eq_zero)
  with h show ?thesis using lower_hex_pairs[of h] by (simp add: hex_digits_def h_def[symmetric])
qed

lemma wordAddress_digits: "wordAddress v = Inr w \<Longrightarrow> wordAddress v' = Inr w \<Longrightarrow> hex_digits v = hex_digits v'"
  by (auto simp: wordAddress_def from_hex_word_def concatBytes_def res_bind_Inr_iff fromHex_digits split: if_splits sum.splits)

lemma wordBytes32_digits:
  "wordBytes32 v = Inr w \<Longrightarrow> wordBytes32 v' = Inr w \<Longrightarrow> hex_digits (bare_anchor v) = hex_digits (bare_anchor v')"
  by (auto simp: wordBytes32_def from_hex_word_def bare_anchor_def[symmetric] Let_def res_bind_Inr_iff fromHex_digits
      split: if_splits sum.splits)

lemma wordUint_chain: "wordUint (JNum c) = Inr w \<Longrightarrow> wordUint (JNum c') = Inr w \<Longrightarrow> c = c'"
  by (auto simp: wordUint_Inr js_bigint_def rat_is_int_def split: jsnum.splits if_splits dest: word_of_bigint_inject)

lemma activation_text: "starts_with ''Activation('' (TYPE_STRINGS s) \<longleftrightarrow> s = Activation"
  by (cases s) (simp_all add: starts_with_def)

definition texts_collision :: "crypto \<Rightarrow> json \<Rightarrow> json \<Rightarrow> string \<Rightarrow> bool" where
  "texts_collision C st st' k \<longleftrightarrow> kcollision C (js_string (getp (JObj st) k)) (js_string (getp (JObj st') k))"

lemma digest_text:
  "keccak_digest C (js_string (getp (JObj st) k)) = w \<Longrightarrow> keccak_digest C (js_string (getp (JObj st') k)) = w \<Longrightarrow>
   \<not> texts_collision C st st' k \<Longrightarrow> stated_text st k = stated_text st' k"
  by (auto simp: stated_text_def texts_collision_def kcollision_def)

lemma field_word_value:
  assumes "fieldWord C f st (TYPE_STRINGS s) = Inr w" and "fieldWord C f st' (TYPE_STRINGS s) = Inr w"
    and "\<not> texts_collision C st st' ''agreementId''" "\<not> texts_collision C st st' ''reasonCode''"
    and "\<not> texts_collision C st st' ''decisionId''"
  shows "field_value s st f = field_value s st' f \<and> field_value s st f \<noteq> Units None"
proof -
  note [simp del] = TYPE_STRINGS.simps
  note w = assms(1,2)[unfolded fieldWord_def Let_def activation_text]
  consider "fs_name f = ''agreementId''" | "fs_name f = ''reasonHash''" | "fs_name f = ''decisionId''" | "fs_name f = ''amount''"
    | "fs_name f \<notin> {''agreementId'', ''reasonHash'', ''decisionId'', ''amount''}" by blast
  then show ?thesis
  proof cases
    case 1
    then show ?thesis using w digest_text[OF _ _ assms(3)] by (simp add: field_value_def agreementIdWord_def stated_text_def)
  next
    case 2
    then show ?thesis using w digest_text[OF _ _ assms(4)] by (simp add: field_value_def reasonHashWord_def stated_text_def)
  next
    case 3
    then show ?thesis using w digest_text[OF _ _ assms(5)] by (simp add: field_value_def decisionIdWord_def stated_text_def)
  next
    case 4
    then show ?thesis using w
      by (auto simp: field_value_def activated_amount_def agreed_amount_def wordUint_text res_bind_Inr_iff
          dest: word_of_bigint_inject split: if_splits)
  next
    case 5
    then show ?thesis using w
      by (auto simp: field_value_def stated_account_def stated_anchor_def stated_int_def wordUint_Inr dest: word_of_bigint_inject
          split: if_splits intro: wordAddress_digits wordBytes32_digits)
  qed
qed

lemma struct_words_eq:
  assumes "struct_words C s st = Inr ws" and "struct_words C s' st' = Inr ws"
    and "\<not> kcollision C (TYPE_STRINGS s) (TYPE_STRINGS s')"
    and "\<not> texts_collision C st st' ''agreementId''" "\<not> texts_collision C st st' ''reasonCode''"
    and "\<not> texts_collision C st st' ''decisionId''"
  shows "s = s' \<and> struct_meaning s st = struct_meaning s st' \<and> Units None \<notin> set (struct_meaning s st)"
proof -
  from assms(1) obtain vs where w: "ws = keccak_digest C (TYPE_STRINGS s) # vs"
    and vs: "list_all2 (\<lambda>f w. fieldWord C f st (TYPE_STRINGS s) = Inr w) (struct_fields s) vs"
    unfolding struct_words_iff by blast
  from assms(2) w have k: "keccak_digest C (TYPE_STRINGS s) = keccak_digest C (TYPE_STRINGS s')"
    and vs': "list_all2 (\<lambda>f w. fieldWord C f st' (TYPE_STRINGS s') = Inr w) (struct_fields s') vs"
    unfolding struct_words_iff by auto
  have s: "s = s'" using keccak_eq_cases[OF k] assms(3) TYPE_STRINGS_inject by blast
  have "field_value s st f = field_value s st' f \<and> field_value s st f \<noteq> Units None" if f: "f \<in> set (struct_fields s)" for f
  proof -
    from f obtain i where i: "i < length (struct_fields s)" "f = struct_fields s ! i" by (auto simp: in_set_conv_nth)
    with vs vs' have "fieldWord C f st (TYPE_STRINGS s) = Inr (vs ! i)" "fieldWord C f st' (TYPE_STRINGS s) = Inr (vs ! i)"
      unfolding s by (simp_all add: list_all2_conv_all_nth del: struct_fields.simps TYPE_STRINGS.simps)
    then show ?thesis using field_word_value assms(4-6) by blast
  qed
  then show ?thesis unfolding struct_meaning_fields using s by force
qed

lemma domain_words_eq:
  assumes "domain_words C d = Inr ws" and "domain_words C d' = Inr ws"
    and "\<not> kcollision C (ed_name d) (ed_name d')" and "\<not> kcollision C (ed_version d) (ed_version d')"
  shows "ed_name d = ed_name d' \<and> ed_version d = ed_version d' \<and> ed_chainId d = ed_chainId d' \<and>
    map_option hex_digits (ed_verifyingContract d) = map_option hex_digits (ed_verifyingContract d')"
  using assms keccak_eq_cases[of C "ed_name d" "ed_name d'"] keccak_eq_cases[of C "ed_version d" "ed_version d'"]
  by (auto simp: domain_words_def res_bind_Inr_iff split: option.splits intro: wordUint_chain wordAddress_digits)

lemma preimage_parts:
  assumes "digests_ok C" and "signingPreimage C d (TYPE_STRINGS s) st = Inr p"
  obtains dw sw where "domain_words C d = Inr dw" "struct_words C s st = Inr sw"
    "p = [CHR 0x19, CHR 0x01] @ keccak_digest C (concat dw) @ keccak_digest C (concat sw)"
  using assms(2) by (auto simp: signingPreimage_def domainSeparator_words structHash_words concatBytes_def res_bind_Inr_iff)



lemma preimage_parts_eq:
  assumes "digests_ok C" and "signingPreimage C d (TYPE_STRINGS s) st = Inr p"
    and "signingPreimage C d' (TYPE_STRINGS s') st' = Inr p"
  obtains dw dw' sw sw' where "domain_words C d = Inr dw" "domain_words C d' = Inr dw'"
    "struct_words C s st = Inr sw" "struct_words C s' st' = Inr sw'"
    "keccak_digest C (concat dw) = keccak_digest C (concat dw')"
    "keccak_digest C (concat sw) = keccak_digest C (concat sw')"
proof -
  from preimage_parts[OF assms(1,2)] obtain dw sw where a: "domain_words C d = Inr dw" "struct_words C s st = Inr sw"
    "p = [CHR 0x19, CHR 0x01] @ keccak_digest C (concat dw) @ keccak_digest C (concat sw)" by blast
  from preimage_parts[OF assms(1,3)] obtain dw' sw' where b: "domain_words C d' = Inr dw'" "struct_words C s' st' = Inr sw'"
    "p = [CHR 0x19, CHR 0x01] @ keccak_digest C (concat dw') @ keccak_digest C (concat sw')" by blast
  have l: "length (keccak_digest C x) = length (keccak_digest C y)" for x y using assms(1) by (simp add: digests_ok_def)
  from a(3) b(3) have "keccak_digest C (concat dw) @ keccak_digest C (concat sw)
      = keccak_digest C (concat dw') @ keccak_digest C (concat sw')" by simp
  then have "keccak_digest C (concat dw) = keccak_digest C (concat dw') \<and> keccak_digest C (concat sw) = keccak_digest C (concat sw')"
    using append_eq_append_conv[of "keccak_digest C (concat dw)" "keccak_digest C (concat dw')"] l by blast
  with a b that show ?thesis by blast
qed

section \<open>Properties\<close>

text \<open>
  An ABI word is the 32 big-endian bytes of its integer: \<open>wordUint\<close> answers for a bigint
  exactly when it lies in the range of a uint256, the answer has 32 bytes and their big-endian value
  is the integer; every other integer is an error, never a truncation.
\<close>

theorem uint_word_is_big_endian:
  "word_of_bigint n = Inr w \<longleftrightarrow> 0 \<le> n \<and> n < 2 ^ 256 \<and> length w = 32 \<and> horner_sum of_char 256 (rev w) = nat n"
proof -
  have "n < 2 ^ 256" if "word_of_bigint n = Inr w" using that by (auto simp: word_of_bigint_cases split: if_splits)
  then show ?thesis using word_of_bigint_iff by blast
qed

text \<open>
  The amount that is settled is the price that was quoted: the decimal text of a price of \<open>k\<close>
  cents, as the quote and the terms document spell it, is exactly \<open>10000 * k\<close> base units of six
  decimals, although the text is made in double arithmetic.
\<close>

theorem quoted_price_in_base_units:
  assumes "0 \<le> k" and "k \<le> 2 ^ 50"
  shows "usdcBaseUnits (to_fixed 2 (fdiv (of_int k) 100)) = Inr (10000 * k)"
  using assms by (rule usdc_dollars)

theorem quoted_price_in_base_units_witness: "usdcBaseUnits (to_fixed 2 (fdiv 123405 100)) = Inr 1234050000"
  using quoted_price_in_base_units[of 123405] by simp

text \<open>What a signature of a struct fixes, and the pairs of texts a collision would be found among.\<close>

definition same_signed_struct ::
  "settlement_struct \<Rightarrow> eip712_domain \<Rightarrow> eip712_domain \<Rightarrow> json \<Rightarrow> json \<Rightarrow> bool" where
  "same_signed_struct s d d' st st' \<longleftrightarrow>
     struct_meaning s st = struct_meaning s st' \<and> Units None \<notin> set (struct_meaning s st) \<and>
     ed_name d = ed_name d' \<and> ed_version d = ed_version d' \<and> ed_chainId d = ed_chainId d' \<and>
     map_option hex_digits (ed_verifyingContract d) = map_option hex_digits (ed_verifyingContract d')"

definition preimage_collision ::
  "crypto \<Rightarrow> settlement_struct \<Rightarrow> settlement_struct \<Rightarrow> eip712_domain \<Rightarrow> eip712_domain \<Rightarrow> json \<Rightarrow> json \<Rightarrow> bool" where
  "preimage_collision C s s' d d' st st' \<longleftrightarrow>
     words_collision C (domain_words C d) (domain_words C d') \<or>
     words_collision C (struct_words C s st) (struct_words C s' st') \<or>
     kcollision C (TYPE_STRINGS s) (TYPE_STRINGS s') \<or>
     kcollision C (ed_name d) (ed_name d') \<or> kcollision C (ed_version d) (ed_version d') \<or>
     texts_collision C st st' ''agreementId'' \<or> texts_collision C st st' ''reasonCode'' \<or>
     texts_collision C st st' ''decisionId''"

text \<open>
  C36: a settlement signature cannot be replayed: two structs of the eight published types with the
  same signing preimage are of the same type and state the same in every field, the same agreement,
  reason and decision texts, the same integers for amounts, nonces, deadlines and shares, the same
  hexadecimal digits for every account and every anchor, and they were signed under the same
  name, version, chain and contract, unless one of the listed pairs of texts is an explicit
  collision of keccak256.
\<close>

theorem settlement_preimage_binds:
  assumes "digests_ok C" and "signingPreimage C d (TYPE_STRINGS s) st = Inr p"
    and "signingPreimage C d' (TYPE_STRINGS s') st' = Inr p"
  shows "(s = s' \<and> same_signed_struct s d d' st st') \<or> preimage_collision C s s' d d' st st'"
proof (cases "preimage_collision C s s' d d' st st'")
  case False
  from preimage_parts_eq[OF assms] obtain dw dw' sw sw' where
    w: "domain_words C d = Inr dw" "domain_words C d' = Inr dw'" "struct_words C s st = Inr sw" "struct_words C s' st' = Inr sw'"
    and k: "keccak_digest C (concat dw) = keccak_digest C (concat dw')" "keccak_digest C (concat sw) = keccak_digest C (concat sw')"
    by blast
  have nc: "\<not> kcollision C (concat dw) (concat dw')" "\<not> kcollision C (concat sw) (concat sw')"
    and nk: "\<not> kcollision C (TYPE_STRINGS s) (TYPE_STRINGS s')" "\<not> kcollision C (ed_name d) (ed_name d')"
      "\<not> kcollision C (ed_version d) (ed_version d')"
    and nt: "\<not> texts_collision C st st' ''agreementId''" "\<not> texts_collision C st st' ''reasonCode''"
      "\<not> texts_collision C st st' ''decisionId''"
    using False w unfolding preimage_collision_def words_collision_def by blast+
  have "dw = dw'" using keccak_words_eq[OF domain_words_length[OF assms(1) w(1)] domain_words_length[OF assms(1) w(2)] k(1) nc(1)] .
  moreover have "sw = sw'" using keccak_words_eq[OF struct_words_length[OF assms(1) w(3)] struct_words_length[OF assms(1) w(4)] k(2) nc(2)] .
  ultimately show ?thesis
    using domain_words_eq[of C d dw d'] struct_words_eq[of C s st sw s' st'] w nk nt
    unfolding same_signed_struct_def by blast
qed blast

definition sample_domain :: eip712_domain where
  "sample_domain = \<lparr> ed_name = ''KiteFulfill'', ed_version = ''1'', ed_chainId = Fin 2368, ed_verifyingContract = None \<rparr>"

definition sample_agreement :: "string \<Rightarrow> json" where
  "sample_agreement amount =
     [(''agreementId'', JStr ''d''), (''termsHash'', JStr (sha256Ref sample_crypto ''t'')), (''amount'', JStr amount),
      (''buyerAgent'', JStr (addressOfPrivateKey sample_crypto ''b'')),
      (''sellerAgent'', JStr (addressOfPrivateKey sample_crypto ''s''))]"

lemma sample_preimages:
  "case signingPreimage sample_crypto sample_domain (TYPE_STRINGS Agreement) (sample_agreement ''25'') of
     Inl e \<Rightarrow> False
   | Inr p \<Rightarrow> signingPreimage sample_crypto sample_domain (TYPE_STRINGS Agreement) (sample_agreement ''25.00'') = Inr p"
  by code_simp

lemma no_self_collision [simp]: "\<not> kcollision C x x" "\<not> words_collision C r r"
  by (auto simp: kcollision_def words_collision_def)

theorem settlement_preimage_binds_witness:
  "same_signed_struct Agreement sample_domain sample_domain (sample_agreement ''25'') (sample_agreement ''25.00'')"
proof -
  obtain p where
    "signingPreimage sample_crypto sample_domain (TYPE_STRINGS Agreement) (sample_agreement ''25'') = Inr p"
    "signingPreimage sample_crypto sample_domain (TYPE_STRINGS Agreement) (sample_agreement ''25.00'') = Inr p"
    using sample_preimages by (auto split: sum.splits simp del: TYPE_STRINGS.simps)
  note b = settlement_preimage_binds[OF sample_crypto_ok(1) this]
  have "struct_words sample_crypto Agreement (sample_agreement ''25'') = struct_words sample_crypto Agreement (sample_agreement ''25.00'')"
    by code_simp
  moreover have "\<not> texts_collision sample_crypto (sample_agreement ''25'') (sample_agreement ''25.00'') k"
    if "k \<noteq> ''amount''" for k
    using that by (simp add: texts_collision_def sample_agreement_def)
  ultimately show ?thesis using b by (simp add: preimage_collision_def del: TYPE_STRINGS.simps struct_meaning.simps)
qed

text \<open>
  The two spellings of an anchor are compared by value: for texts that are 32-byte words,
  \<open>sha256:\<close> or \<open>0x\<close> or bare, in either case, the comparison answers true exactly when the ABI words
  are equal.
\<close>

theorem anchors_compare_by_value:
  assumes "wordBytes32 a = Inr w" and "wordBytes32 b = Inr w'"
    and "\<not> starts_with ''0x'' (bare_anchor a)" and "\<not> starts_with ''0x'' (bare_anchor b)"
  shows "bytes32Equal a b \<longleftrightarrow> w = w'"
  using assms by (rule bytes32Equal_words)

theorem anchors_compare_by_value_witness:
  "bytes32Equal (sha256Ref sample_crypto ''x'') (''0x'' @ drop 7 (sha256Ref sample_crypto ''x''))"
proof -
  have "wordBytes32 (sha256Ref sample_crypto ''x'') = Inr (sha256_digest sample_crypto ''x'')"
    "wordBytes32 (''0x'' @ drop 7 (sha256Ref sample_crypto ''x'')) = Inr (sha256_digest sample_crypto ''x'')"
    "\<not> starts_with ''0x'' (bare_anchor (sha256Ref sample_crypto ''x''))"
    "\<not> starts_with ''0x'' (bare_anchor (''0x'' @ drop 7 (sha256Ref sample_crypto ''x'')))"
    by code_simp+
  from anchors_compare_by_value[OF this] show ?thesis by simp
qed


end
