(* ===== verification/Terms.thy ===== *)
theory Terms
  imports Signing
begin

text \<open>
  \<open>src/terms.ts\<close>: the terms document, its digest, and the \<open>acceptanceCriteria\<close> text of the
  contract that carries the digest: how it is written, how it is read back, and the check that a
  document is the one a contract pins.
\<close>

section \<open>The document\<close>

record usage_terms =
  ut_resale :: bool
  ut_retentionDays :: int
  ut_prohibitedUse :: string
  ut_limitations :: "string list"

record price_breakdown_cents =
  pb_base :: rat
  pb_tracts :: rat
  pb_standardColumns :: rat
  pb_premiumColumns :: rat
  pb_subtotal :: rat

record terms_document =
  td_format :: string
  td_criteriaHash :: string
  td_statsHash :: string
  td_rowsPerTract :: rat
  td_totalRows :: rat
  td_tractCount :: rat
  td_perTractStandardErrorPp :: rat
  td_method :: string
  td_seedDisclosure :: string
  td_generatorVersion :: string
  td_corpusHash :: string
  td_verifierHash :: string
  td_usage :: usage_terms
  td_artifactAvailability :: string
  td_priceBreakdownCents :: price_breakdown_cents
  td_priceAmount :: string

text \<open>The document as the object that is canonicalized.\<close>

abbreviation JRat :: "rat \<Rightarrow> jsval" where
  "JRat r \<equiv> JNum (Fin r)"

definition usage_js :: "usage_terms \<Rightarrow> jsval" where
  "usage_js u = JObj [
     (''resale'', JBool (ut_resale u)), (''retentionDays'', JInt (ut_retentionDays u)),
     (''prohibitedUse'', JStr (ut_prohibitedUse u)), (''limitations'', JArr (map JStr (ut_limitations u)))]"

definition breakdown_js :: "price_breakdown_cents \<Rightarrow> jsval" where
  "breakdown_js b = JObj [
     (''base'', JRat (pb_base b)), (''tracts'', JRat (pb_tracts b)),
     (''standardColumns'', JRat (pb_standardColumns b)), (''premiumColumns'', JRat (pb_premiumColumns b)),
     (''subtotal'', JRat (pb_subtotal b))]"

definition terms_members :: "terms_document \<Rightarrow> json" where
  "terms_members d = [
     (''format'', JStr (td_format d)), (''criteriaHash'', JStr (td_criteriaHash d)),
     (''statsHash'', JStr (td_statsHash d)), (''rowsPerTract'', JRat (td_rowsPerTract d)),
     (''totalRows'', JRat (td_totalRows d)), (''tractCount'', JRat (td_tractCount d)),
     (''perTractStandardErrorPp'', JRat (td_perTractStandardErrorPp d)), (''method'', JStr (td_method d)),
     (''seedDisclosure'', JStr (td_seedDisclosure d)), (''generatorVersion'', JStr (td_generatorVersion d)),
     (''corpusHash'', JStr (td_corpusHash d)), (''verifierHash'', JStr (td_verifierHash d)),
     (''usage'', usage_js (td_usage d)), (''artifactAvailability'', JStr (td_artifactAvailability d)),
     (''priceBreakdownCents'', breakdown_js (td_priceBreakdownCents d)),
     (''priceAmount'', JStr (td_priceAmount d))]"

definition termsDocumentHashOf :: "crypto \<Rightarrow> terms_document \<Rightarrow> (signing_error, string) res" where
  "termsDocumentHashOf C doc = res_bind (jcs C (JObj (terms_members doc))) (\<lambda>b. Inr (sha256Ref C b))"

section \<open>The acceptance criteria\<close>

definition ACCEPTANCE_CRITERIA_PREFIX :: string where
  "ACCEPTANCE_CRITERIA_PREFIX = ''Delivery matches the terms document with JCS digest ''"

definition buildAcceptanceCriteria :: "string \<Rightarrow> string \<Rightarrow> string" where
  "buildAcceptanceCriteria termsDocumentHash locatorBase =
     (let base = (if locatorBase \<noteq> [] \<and> last locatorBase = CHR ''/'' then butlast locatorBase else locatorBase)
      in ACCEPTANCE_CRITERIA_PREFIX @ termsDocumentHash @ '', '' @
         ''served content-addressed at '' @ base @ ''/terms/'' @ termsDocumentHash @ ''. '' @
         ''The delivered CSV regenerates byte-for-byte from the manifest's published seed '' @
         ''under the document's pinned generator version, and its manifest satisfies the '' @
         ''document's criteriaHash, statsHash and row counts.'')"

record acceptance_criteria_commitment =
  ac_termsDocumentHash :: string
  ac_locator :: string

text \<open>
  The regular expression
  \<open>/(sha256:[0-9a-f]{64}), served content-addressed at (\S+?)\.(?:\s|$)/\<close>, leftmost match, the
  locator as short as possible.  \<open>ws_prefix\<close> is \<open>\s\<close> at the head of a UTF-8 string: the ASCII
  spaces and the encodings of U+00A0, U+1680, U+2000 to U+200A, U+2028, U+2029, U+202F, U+205F,
  U+3000 and U+FEFF.
\<close>

definition ws_prefix :: "string \<Rightarrow> bool" where
  "ws_prefix s =
     (case map (of_char :: char \<Rightarrow> nat) (take 3 s) of
        [] \<Rightarrow> False
      | a # r \<Rightarrow> is_ws (hd s) \<or> (case r of
          [] \<Rightarrow> False
        | b # r' \<Rightarrow> (a = 0xC2 \<and> b = 0xA0) \<or> (case r' of
            [] \<Rightarrow> False
          | c # _ \<Rightarrow> (a = 0xE1 \<and> b = 0x9A \<and> c = 0x80)
              \<or> (a = 0xE2 \<and> b = 0x80 \<and> ((0x80 \<le> c \<and> c \<le> 0x8A) \<or> c = 0xA8 \<or> c = 0xA9 \<or> c = 0xAF))
              \<or> (a = 0xE2 \<and> b = 0x81 \<and> c = 0x9F) \<or> (a = 0xE3 \<and> b = 0x80 \<and> c = 0x80)
              \<or> (a = 0xEF \<and> b = 0xBB \<and> c = 0xBF))))"

fun locator_rest :: "string \<Rightarrow> string option" where
  "locator_rest [] = None"
| "locator_rest (c # r) =
     (if c = CHR ''.'' \<and> (r = [] \<or> ws_prefix r) then Some []
      else if ws_prefix (c # r) then None
      else map_option (Cons c) (locator_rest r))"

definition locator_match :: "string \<Rightarrow> string option" where
  "locator_match s =
     (if s = [] \<or> ws_prefix s then None else map_option (Cons (hd s)) (locator_rest (tl s)))"

definition criteria_match_at :: "string \<Rightarrow> acceptance_criteria_commitment option" where
  "criteria_match_at s =
     (let h = take 64 (drop 7 s); mid = '', served content-addressed at ''; r = drop 71 s
      in if starts_with ''sha256:'' s \<and> length h = 64 \<and> list_all is_lower_hex_char h \<and> starts_with mid r
         then map_option (\<lambda>l. \<lparr> ac_termsDocumentHash = ''sha256:'' @ h, ac_locator = l \<rparr>)
                (locator_match (drop (length mid) r))
         else None)"

fun parseAcceptanceCriteria :: "string \<Rightarrow> acceptance_criteria_commitment option" where
  "parseAcceptanceCriteria [] = None"
| "parseAcceptanceCriteria (c # s) =
     (case criteria_match_at (c # s) of Some m \<Rightarrow> Some m | None \<Rightarrow> parseAcceptanceCriteria s)"

definition termsDocumentMatchesContract :: "crypto \<Rightarrow> terms_document \<Rightarrow> string \<Rightarrow> (signing_error, bool) res" where
  "termsDocumentMatchesContract C doc acceptanceCriteria =
     (case parseAcceptanceCriteria acceptanceCriteria of
        None \<Rightarrow> Inr False
      | Some commitment \<Rightarrow>
          res_bind (termsDocumentHashOf C doc) (\<lambda>h. Inr (h = ac_termsDocumentHash commitment)))"

section \<open>Reading back what was written\<close>

text \<open>A text without white space, at any position.\<close>

fun no_space :: "string \<Rightarrow> bool" where
  "no_space [] = True"
| "no_space (c # s) = (\<not> ws_prefix (c # s) \<and> no_space s)"

definition well_formed_ref :: "string \<Rightarrow> bool" where
  "well_formed_ref h \<longleftrightarrow> starts_with ''sha256:'' h \<and> length h = 71 \<and> list_all is_lower_hex_char (drop 7 h)"

lemma sha256Ref_well_formed: "digests_ok C \<Longrightarrow> well_formed_ref (sha256Ref C b)"
proof -
  assume d: "digests_ok C"
  have "list_all is_lower_hex_char (to_hex (sha256_digest C b))"
    by (auto simp: list_all_iff to_hex_chars)
  moreover have "starts_with ''sha256:'' (sha256Ref C b)"
    unfolding sha256Ref_def by (rule starts_with_append)
  moreover have "drop 7 (sha256Ref C b) = to_hex (sha256_digest C b)"
    unfolding sha256Ref_def by simp
  ultimately show ?thesis using length_sha256Ref[OF d] by (simp add: well_formed_ref_def)
qed


lemma ws_prefix_append:
  assumes "a \<noteq> []" and "b \<noteq> []" and "(of_char (hd b) :: nat) < 128"
  shows "ws_prefix (a @ b) = ws_prefix a"
proof -
  from assms(2) obtain y b' where b: "b = y # b'" by (cases b) auto
  from assms(1) obtain x a' where a: "a = x # a'" by (cases a) auto
  show ?thesis
  proof (cases a')
    case Nil
    with a b assms(3) show ?thesis by (cases b') (auto simp: ws_prefix_def)
  next
    case (Cons x' a'')
    with a b assms(3) show ?thesis by (cases a'') (auto simp: ws_prefix_def)
  qed
qed

lemma no_space_append:
  assumes "no_space a" and "no_space b" and "b = [] \<or> (of_char (hd b) :: nat) < 128"
  shows "no_space (a @ b)"
  using assms
proof (induction a)
  case (Cons c a)
  then show ?case using ws_prefix_append[of "c # a" b] by (cases "b = []") auto
qed simp

lemma ws_prefix_plain: "\<not> is_ws c \<Longrightarrow> (of_char c :: nat) < 128 \<Longrightarrow> \<not> ws_prefix (c # s)"
  by (cases s; cases "tl s") (auto simp: ws_prefix_def)

lemma no_space_ascii: "list_all (\<lambda>c. \<not> is_ws c \<and> (of_char c :: nat) < 128) s \<Longrightarrow> no_space s"
  by (induction s) (auto simp: ws_prefix_plain)

lemma lower_hex_plain: "is_lower_hex_char c \<Longrightarrow> \<not> is_ws c \<and> (of_char c :: nat) < 128"
  by (auto simp: is_lower_hex_char_def is_ws_def Let_def)

lemma no_space_ref: "well_formed_ref h \<Longrightarrow> no_space h"
proof (rule no_space_ascii)
  assume w: "well_formed_ref h"
  then obtain r where h: "h = ''sha256:'' @ r" by (auto simp: well_formed_ref_def starts_with_iff)
  with w have "list_all is_lower_hex_char r" by (simp add: well_formed_ref_def)
  then have "list_all (\<lambda>c. \<not> is_ws c \<and> (of_char c :: nat) < 128) r"
    by (auto simp: list_all_iff dest: lower_hex_plain)
  with h show "list_all (\<lambda>c. \<not> is_ws c \<and> (of_char c :: nat) < 128) h"
    by (simp add: is_ws_def)
qed

lemma locator_rest_dot: "no_space l \<Longrightarrow> locator_rest (l @ CHR ''.'' # CHR '' '' # r) = Some l"
proof (induction l)
  case Nil
  have "ws_prefix (CHR '' '' # r)" by (cases r; cases "tl r") (auto simp: ws_prefix_def is_ws_def)
  then show ?case by simp
next
  case (Cons c l)
  have w: "ws_prefix (a @ CHR ''.'' # CHR '' '' # r) = ws_prefix a" if "a \<noteq> []" for a
    using that by (intro ws_prefix_append) simp_all
  have n: "\<not> ws_prefix (c # l)" "no_space l" using Cons.prems by simp_all
  have "\<not> ws_prefix (l @ CHR ''.'' # CHR '' '' # r)"
  proof (cases l)
    case Nil
    then show ?thesis by (simp add: ws_prefix_plain is_ws_def)
  next
    case (Cons d l')
    with n(2) w[of l] show ?thesis by simp
  qed
  moreover have "\<not> ws_prefix (c # l @ CHR ''.'' # CHR '' '' # r)" using n(1) w[of "c # l"] by simp
  ultimately show ?case using Cons.IH[OF n(2)] by simp
qed

lemma locator_match_dot:
  "no_space l \<Longrightarrow> l \<noteq> [] \<Longrightarrow> locator_match (l @ CHR ''.'' # CHR '' '' # r) = Some l"
proof -
  assume l: "no_space l" "l \<noteq> []"
  then obtain c l' where c: "l = c # l'" by (cases l) auto
  have "\<not> ws_prefix (l @ CHR ''.'' # CHR '' '' # r)"
    using l c ws_prefix_append[of l "CHR ''.'' # CHR '' '' # r"] by simp
  then show ?thesis using locator_rest_dot[of l' r] l c by (simp add: locator_match_def)
qed

lemma no_match_at:
  "c \<noteq> CHR ''s'' \<Longrightarrow> parseAcceptanceCriteria (c # s) = parseAcceptanceCriteria s"
  "d \<noteq> CHR ''h'' \<Longrightarrow> parseAcceptanceCriteria (CHR ''s'' # d # s) = parseAcceptanceCriteria (d # s)"
  by (simp_all add: criteria_match_at_def starts_with_def)

lemma parse_after_prefix: "parseAcceptanceCriteria (ACCEPTANCE_CRITERIA_PREFIX @ s) = parseAcceptanceCriteria s"
  by (simp add: ACCEPTANCE_CRITERIA_PREFIX_def no_match_at del: parseAcceptanceCriteria.simps)

lemma parse_ref:
  assumes "well_formed_ref h" and "no_space l" and "l \<noteq> []"
  shows "parseAcceptanceCriteria (h @ '', served content-addressed at '' @ l @ CHR ''.'' # CHR '' '' # r)
    = Some \<lparr> ac_termsDocumentHash = h, ac_locator = l \<rparr>"
proof -
  from assms(1) obtain d where h: "h = ''sha256:'' @ d" by (auto simp: well_formed_ref_def starts_with_iff)
  with assms(1) have d: "length d = 64" "list_all is_lower_hex_char d" by (simp_all add: well_formed_ref_def)
  let ?mid = "'', served content-addressed at ''"
  let ?s = "h @ ?mid @ l @ CHR ''.'' # CHR '' '' # r"
  have s: "starts_with ''sha256:'' ?s" "starts_with ?mid (drop 71 ?s)"
    unfolding h using d(1) by (simp_all add: starts_with_def)
  have "drop 7 ?s = d @ ?mid @ l @ CHR ''.'' # CHR '' '' # r" by (simp add: h)
  moreover have "drop 71 ?s = ?mid @ l @ CHR ''.'' # CHR '' '' # r" using d(1) by (simp add: h)
  ultimately have "criteria_match_at ?s = Some \<lparr> ac_termsDocumentHash = h, ac_locator = l \<rparr>"
    using s d locator_match_dot[OF assms(2,3)] h by (simp add: criteria_match_at_def Let_def)
  moreover obtain c t where "?s = c # t" by (simp add: h)
  ultimately show ?thesis by (metis (no_types, lifting) option.case(2) parseAcceptanceCriteria.simps(2))
qed

definition locator_base :: "string \<Rightarrow> string" where
  "locator_base b = (if b \<noteq> [] \<and> last b = CHR ''/'' then butlast b else b)"

lemma parse_build:
  assumes "well_formed_ref h" and "no_space (locator_base b)"
  shows "parseAcceptanceCriteria (buildAcceptanceCriteria h b)
    = Some \<lparr> ac_termsDocumentHash = h, ac_locator = locator_base b @ ''/terms/'' @ h \<rparr>"
proof -
  have h: "no_space h" using assms(1) by (rule no_space_ref)
  obtain d where d: "h = ''sha256:'' @ d" using assms(1) by (auto simp: well_formed_ref_def starts_with_iff)
  have "no_space (''/terms/'' @ h)"
    by (rule no_space_append[OF _ h]) (auto simp: d ws_prefix_plain is_ws_def)
  then have "no_space (locator_base b @ ''/terms/'' @ h)"
    by (rule no_space_append[OF assms(2)]) simp
  from parse_ref[OF assms(1) this] show ?thesis
    unfolding buildAcceptanceCriteria_def Let_def locator_base_def[symmetric] parse_after_prefix
    by simp
qed



section \<open>The digest determines the document\<close>

lemma canon_JRat [simp]: "canon (JRat r) = JRat r"
  by simp

lemma usage_js_inject: "canon (usage_js u) = canon (usage_js v) \<longleftrightarrow> u = v"
proof
  assume e: "canon (usage_js u) = canon (usage_js v)"
  have "canon (getp (usage_js u) k) = canon (getp (usage_js v) k)" for k
    using e unfolding usage_js_def by (rule canon_member_eq) simp_all
  note m = this[of "''resale''"] this[of "''retentionDays''"] this[of "''prohibitedUse''"] this[of "''limitations''"]
  have "map JStr (ut_limitations u) = map JStr (ut_limitations v)"
    using m(4)
    by (simp add: usage_js_def comp_def)
  then have "ut_limitations u = ut_limitations v" by (simp add: inj_map_eq_map inj_on_def)
  with m(1-3)
  show "u = v" by (cases u; cases v) (simp add: usage_js_def)
qed simp

lemma breakdown_js_inject: "canon (breakdown_js u) = canon (breakdown_js v) \<longleftrightarrow> u = v"
proof
  assume e: "canon (breakdown_js u) = canon (breakdown_js v)"
  have "canon (getp (breakdown_js u) k) = canon (getp (breakdown_js v) k)" for k
    using e unfolding breakdown_js_def by (rule canon_member_eq) simp_all
  from this[of "''base''"] this[of "''tracts''"] this[of "''standardColumns''"] this[of "''premiumColumns''"]
    this[of "''subtotal''"]
  show "u = v" by (cases u; cases v) (simp add: breakdown_js_def)
qed simp

lemma plain_terms: "plain (JObj (terms_members d))"
  by (simp add: terms_members_def usage_js_def breakdown_js_def num_is_finite_def list_all_iff)

lemma terms_members_inject: "canon (JObj (terms_members d)) = canon (JObj (terms_members e)) \<longleftrightarrow> d = e"
proof
  assume eq: "canon (JObj (terms_members d)) = canon (JObj (terms_members e))"
  have m: "canon (getp (JObj (terms_members d)) k) = canon (getp (JObj (terms_members e)) k)" for k
    using plain_terms[of d] plain_terms[of e] by (intro canon_member_eq[OF eq]) simp_all
  note ms = m[unfolded terms_members_def]
  from ms[of "''format''"] ms[of "''criteriaHash''"] ms[of "''statsHash''"] ms[of "''rowsPerTract''"]
    ms[of "''totalRows''"] ms[of "''tractCount''"] ms[of "''perTractStandardErrorPp''"] ms[of "''method''"]
    ms[of "''seedDisclosure''"] ms[of "''generatorVersion''"] ms[of "''corpusHash''"] ms[of "''verifierHash''"]
    ms[of "''usage''"] ms[of "''artifactAvailability''"] ms[of "''priceBreakdownCents''"] ms[of "''priceAmount''"]
  show "d = e"
    by (cases d; cases e) (simp add: usage_js_inject breakdown_js_inject)
qed simp

lemma terms_document_hash_eq:
  assumes "canonicalize_ok C" and "termsDocumentHashOf C d = Inr h" and "termsDocumentHashOf C e = Inr h"
  shows "d = e \<or> (\<exists>s t. jcs C (JObj (terms_members d)) = Inr s \<and> jcs C (JObj (terms_members e)) = Inr t \<and> collision C s t)"
proof -
  from assms(2,3) obtain s t where st: "jcs C (JObj (terms_members d)) = Inr s" "jcs C (JObj (terms_members e)) = Inr t"
    "sha256Ref C s = sha256Ref C t"
    by (auto simp: termsDocumentHashOf_def res_bind_Inr_iff)
  from hash_of_eq[OF assms(1) plain_terms plain_terms st(1,2,3)] st(1,2) show ?thesis
    unfolding terms_members_inject by blast
qed

lemma matches_contract_iff:
  "termsDocumentMatchesContract C d a = Inr True \<longleftrightarrow>
     (\<exists>m. parseAcceptanceCriteria a = Some m \<and> termsDocumentHashOf C d = Inr (ac_termsDocumentHash m))"
  by (auto simp: termsDocumentMatchesContract_def res_bind_Inr_iff split: option.splits)

lemma terms_hash_well_formed: "digests_ok C \<Longrightarrow> termsDocumentHashOf C d = Inr h \<Longrightarrow> well_formed_ref h"
  by (auto simp: termsDocumentHashOf_def res_bind_Inr_iff sha256Ref_well_formed)

section \<open>Properties\<close>

text \<open>
  The commitment written into a contract is the one read back: for every locator base without
  white space, parsing the acceptance criteria built for a document hash gives that hash and the
  content-addressed locator under that base, one trailing slash removed.
\<close>

theorem acceptance_criteria_roundtrip:
  assumes "well_formed_ref h" and "no_space (locator_base b)"
  shows "parseAcceptanceCriteria (buildAcceptanceCriteria h b)
    = Some \<lparr> ac_termsDocumentHash = h, ac_locator = locator_base b @ ''/terms/'' @ h \<rparr>"
  using assms by (rule parse_build)

theorem acceptance_criteria_roundtrip_witness:
  "parseAcceptanceCriteria (buildAcceptanceCriteria (sha256Ref sample_crypto ''d'') ''http://a.example:8080/'')
    = Some \<lparr> ac_termsDocumentHash = sha256Ref sample_crypto ''d'',
             ac_locator = ''http://a.example:8080/terms/'' @ sha256Ref sample_crypto ''d'' \<rparr>"
proof -
  have "no_space (locator_base ''http://a.example:8080/'')" by code_simp
  from acceptance_criteria_roundtrip[OF sha256Ref_well_formed[OF sample_crypto_ok(1)] this] show ?thesis
    by (simp add: locator_base_def)
qed

text \<open>
  C35: a signature over a contract pins the terms document: if two contracts have the same terms
  hash and each is matched by a document, the two documents are the same in every field, or two of
  the canonical texts involved are an explicit collision of the digest.
\<close>

theorem signed_contract_pins_terms_document:
  assumes "canonicalize_ok C" and "plain (JObj c)" and "plain (JObj c')"
    and "termsHashOf C c = Inr h" and "termsHashOf C c' = Inr h"
    and "getp (JObj c) ''acceptanceCriteria'' = JStr a" and "getp (JObj c') ''acceptanceCriteria'' = JStr a'"
    and "termsDocumentMatchesContract C d a = Inr True" and "termsDocumentMatchesContract C e a' = Inr True"
  shows "d = e
    \<or> (\<exists>s t. jcs C (JObj (terms_members d)) = Inr s \<and> jcs C (JObj (terms_members e)) = Inr t \<and> collision C s t)
    \<or> (\<exists>s t. jcs C (terms_preimage c) = Inr s \<and> jcs C (terms_preimage c') = Inr t \<and> collision C s t)"
proof (cases "\<exists>s t. jcs C (terms_preimage c) = Inr s \<and> jcs C (terms_preimage c') = Inr t \<and> collision C s t")
  case False
  with terms_hash_iff[OF assms(1-5)]
  have same: "\<forall>k. k \<notin> {''signatures'', ''termsHash''} \<longrightarrow> canon (getp (JObj c) k) = canon (getp (JObj c') k)"
    by blast
  have "canon (getp (JObj c) ''acceptanceCriteria'') = canon (getp (JObj c') ''acceptanceCriteria'')"
    by (rule same[rule_format]) simp
  with assms(6,7) have "a = a'" by simp
  with assms(8,9) obtain x where "termsDocumentHashOf C d = Inr x" "termsDocumentHashOf C e = Inr x"
    by (auto simp: matches_contract_iff)
  from terms_document_hash_eq[OF assms(1) this] show ?thesis by blast
qed blast

definition sample_terms :: terms_document where
  "sample_terms = \<lparr> td_format = ''kite-example-data-deal-terms/v1'', td_criteriaHash = ''c'', td_statsHash = ''s'',
     td_rowsPerTract = 1, td_totalRows = 3, td_tractCount = 3, td_perTractStandardErrorPp = 30,
     td_method = ''m'', td_seedDisclosure = ''p'', td_generatorVersion = ''g'', td_corpusHash = ''h'',
     td_verifierHash = ''v'',
     td_usage = \<lparr> ut_resale = False, ut_retentionDays = 365, ut_prohibitedUse = ''u'', ut_limitations = [''l''] \<rparr>,
     td_artifactAvailability = ''x'',
     td_priceBreakdownCents = \<lparr> pb_base = 1, pb_tracts = 2, pb_standardColumns = 3, pb_premiumColumns = 4, pb_subtotal = 10 \<rparr>,
     td_priceAmount = ''0.10'' \<rparr>"

lemma sample_terms_hash: "\<exists>h. termsDocumentHashOf encoder_crypto sample_terms = Inr h"
proof -
  have "hashable (JObj (terms_members sample_terms))" by code_simp
  from jcs_encoder_ok[OF this] show ?thesis by (auto simp: termsDocumentHashOf_def)
qed

theorem signed_contract_pins_terms_document_witness:
  "\<exists>h c. termsDocumentHashOf encoder_crypto sample_terms = Inr h \<and>
     c = [(''acceptanceCriteria'', JStr (buildAcceptanceCriteria h ''http://s''))] \<and>
     (sample_terms = sample_terms
    \<or> (\<exists>s t. jcs encoder_crypto (JObj (terms_members sample_terms)) = Inr s \<and>
          jcs encoder_crypto (JObj (terms_members sample_terms)) = Inr t \<and> collision encoder_crypto s t)
    \<or> (\<exists>s t. jcs encoder_crypto (terms_preimage c) = Inr s \<and> jcs encoder_crypto (terms_preimage c) = Inr t \<and>
          collision encoder_crypto s t))"
proof -
  from sample_terms_hash obtain h where h: "termsDocumentHashOf encoder_crypto sample_terms = Inr h" by blast
  define a where "a = buildAcceptanceCriteria h ''http://s''"
  define c where "c = [(''acceptanceCriteria'', JStr a)]"
  have "no_space (locator_base ''http://s'')" by code_simp
  from parse_build[OF terms_hash_well_formed[OF encoder_crypto_ok(2) h] this]
  have m: "termsDocumentMatchesContract encoder_crypto sample_terms a = Inr True"
    unfolding matches_contract_iff a_def by (intro exI conjI) (assumption | simp add: h)+
  have "terms_preimage c = JObj [(''acceptanceCriteria'', JStr a)]" by (simp add: terms_preimage_def omit_def c_def)
  then have "hashable (terms_preimage c)" by simp
  then obtain th where th: "termsHashOf encoder_crypto c = Inr th"
    using jcs_encoder_ok[of "terms_preimage c"] by (auto simp: termsHashOf_def terms_preimage_def)
  have p: "plain (JObj c)" and g: "getp (JObj c) ''acceptanceCriteria'' = JStr a" by (simp_all add: c_def)
  note r = signed_contract_pins_terms_document[OF encoder_crypto_ok(1) p p th th g g m m]
  show ?thesis by (rule exI[of _ h], rule exI[of _ c]) (intro conjI h r c_def[unfolded a_def])
qed

end
