(* ===== verification/Extension.thy ===== *)
theory Extension
  imports Settlement Terms
begin

text \<open>
  \<open>src/extension.ts\<close>: the seller's side of the agreement workflow.  Commands and party envelopes, the
  seller's own check of the terms, the check of the Runtime card, the countersignature, delivery
  evidence and the delivered command, and the proof a buyer attaches to a delivery request.

  The process environment is the parameter \<open>env\<close>; random bytes and the time are arguments.  A
  thrown error is a constructor of \<open>extension_error\<close>; \<open>NotAnObject\<close> is the TypeError of reading a
  member of null or undefined or of calling what is not a function.
\<close>

type_synonym environment = "string \<Rightarrow> string option"

datatype terms_refusal =
    PayoutAddressDiffers
  | SellerDiffers jsval
  | NoTermsDocumentPinned
  | TermsDocumentDiffers string string
  | PriceDiffers jsval jsval string
  | DocumentPriceDiffers
  | DocumentCriteriaDiffer
  | DocumentStatsDiffer
  | NoDeliverable
  | ExtensionDiffers jsval
  | EndpointDiffers jsval
  | ArbiterNotThirdParty

datatype extension_error =
    SignatureFailed signing_error
  | SettlementFailed settlement_error
  | Refused terms_refusal
  | NotAnObject
  | CardHashDiffers string jsval
  | CardAgentDiffers jsval jsval
  | ExtensionNotDeclared
  | ChainContextMissing
  | NotOneSignature
  | SignerNotBuyer
  | TermsSignatureInvalid
  | AgreementSignatureInvalid
  | RequestNotFresh
  | RequestNotByBuyer

definition from_signing :: "(signing_error, 'a) res \<Rightarrow> (extension_error, 'a) res" where
  "from_signing r = (case r of Inl e \<Rightarrow> Inl (SignatureFailed e) | Inr x \<Rightarrow> Inr x)"

definition from_settlement :: "(settlement_error, 'a) res \<Rightarrow> (extension_error, 'a) res" where
  "from_settlement r = (case r of Inl e \<Rightarrow> Inl (SettlementFailed e) | Inr x \<Rightarrow> Inr x)"

section \<open>Constants\<close>

definition EXTENSION_URI :: string where
  "EXTENSION_URI = ''https://a2a.gokite.ai/extensions/coordination-workflow/v1''"

definition COMMAND_SCHEMA :: string where
  "COMMAND_SCHEMA = ''https://a2a.gokite.ai/schemas/agreement-command/v1''"

definition COMMAND_MEDIA_TYPE :: string where
  "COMMAND_MEDIA_TYPE = ''application/vnd.gokite.agreement-command+json;version=1''"

definition NEGOTIATION_MEDIA_TYPE :: string where
  "NEGOTIATION_MEDIA_TYPE = ''application/vnd.gokite.example-data-negotiation+json;version=1''"

definition CONTRACT_MESSAGE_MEDIA_TYPE :: string where
  "CONTRACT_MESSAGE_MEDIA_TYPE = ''application/vnd.gokite.contract-message+json;version=1''"

definition env_or :: "environment \<Rightarrow> string \<Rightarrow> string \<Rightarrow> string" where
  "env_or env k d = (case env k of Some v \<Rightarrow> v | None \<Rightarrow> d)"

definition coordinationEndpoint :: "environment \<Rightarrow> string" where
  "coordinationEndpoint env = env_or env ''KITE_COORDINATION_ENDPOINT'' ''https://passport.dev.gokite.ai/a2a/v1''"

definition SELLER_AGENT_ID :: "environment \<Rightarrow> string" where
  "SELLER_AGENT_ID env = env_or env ''SELLER_AGENT_ID'' ''did:kite:corp-kite:example-data-seller-agent''"

definition repeat_string :: "nat \<Rightarrow> string \<Rightarrow> string" where
  "repeat_string n s = concat (replicate n s)"

definition SELLER_PAYOUT_ADDRESS :: "environment \<Rightarrow> string" where
  "SELLER_PAYOUT_ADDRESS env = env_or env ''SELLER_PAYOUT_ADDRESS'' (''0x'' @ repeat_string 20 ''33'')"

definition DEMO_EXPIRY :: int where
  "DEMO_EXPIRY = 1800000000"

definition DEMO_CHAIN_ID :: int where
  "DEMO_CHAIN_ID = 2368"

definition DEMO_VAULT_ADDRESS :: string where
  "DEMO_VAULT_ADDRESS = ''0x'' @ repeat_string 20 ''ec''"

definition ZERO_ANCHOR :: string where
  "ZERO_ANCHOR = ''0x'' @ repeat_string 32 ''00''"

section \<open>Commands and envelopes\<close>

record command_input =
  ci_commandType :: string
  ci_dealId :: string
  ci_expectedRevision :: jsnum
  ci_termsHash :: string
  ci_payload :: json

definition buildCommand :: "crypto \<Rightarrow> environment \<Rightarrow> string \<Rightarrow> string \<Rightarrow> command_input \<Rightarrow> (extension_error, json) res" where
  "buildCommand C env random now i =
     res_bind (from_signing (payloadHashOf C (JObj (ci_payload i)))) (\<lambda>payloadHash.
       Inr [(''schema'', JStr COMMAND_SCHEMA), (''commandId'', JStr (''cmd_'' @ to_hex random)),
            (''commandType'', JStr (ci_commandType i)), (''dealId'', JStr (ci_dealId i)),
            (''expectedRevision'', JNum (ci_expectedRevision i)), (''actorAgentId'', JStr (SELLER_AGENT_ID env)),
            (''termsHash'', JStr (ci_termsHash i)), (''payload'', JObj (ci_payload i)),
            (''payloadHash'', JStr payloadHash), (''occurredAt'', JStr now)])"

definition signature_member :: "string \<Rightarrow> string \<Rightarrow> jsval" where
  "signature_member keyId sig =
     JObj [(''profile'', JStr SIGNATURE_PROFILE), (''keyId'', JStr keyId), (''sig'', JStr sig)]"

definition sign_under :: "crypto \<Rightarrow> signed_family \<Rightarrow> json \<Rightarrow> string \<Rightarrow> string \<Rightarrow> (extension_error, json) res" where
  "sign_under C family value privateKey keyId =
     res_bind (from_signing (jcs C (JObj (omit [''signature''] value)))) (\<lambda>b.
       let sig = sign C privateKey (concatBytes [DOMAIN_TAGS family, b])
       in Inr (map_set ''signature'' (signature_member keyId sig) value))"

definition signCommand :: "crypto \<Rightarrow> json \<Rightarrow> string \<Rightarrow> string \<Rightarrow> (extension_error, json) res" where
  "signCommand C command privateKey keyId = sign_under C CommandFamily command privateKey keyId"

definition signPartyEnvelope :: "crypto \<Rightarrow> json \<Rightarrow> string \<Rightarrow> string \<Rightarrow> (extension_error, json) res" where
  "signPartyEnvelope C envelope privateKey keyId = sign_under C FundingFamily envelope privateKey keyId"

section \<open>The seller's own check of the terms\<close>

record recomputed_quote =
  rq_priceAmount :: string
  rq_criteriaHash :: string
  rq_statsHash :: string

record terms_validation_context =
  tv_termsDocument :: terms_document
  tv_recomputed :: recomputed_quote

abbreviation member :: "json \<Rightarrow> string \<Rightarrow> jsval" where
  "member es k \<equiv> getp (JObj es) k"

text \<open>\<open>(o[k] ?? {})[m]\<close> and \<open>String(v ?? "")\<close>\<close>

definition sub_member :: "json \<Rightarrow> string \<Rightarrow> string \<Rightarrow> jsval" where
  "sub_member es k m = getp (coalesce (member es k) (JObj [])) m"

definition text_of :: "jsval \<Rightarrow> string" where
  "text_of v = js_string (coalesce v (JStr ''''))"

definition refuse_unless :: "bool \<Rightarrow> terms_refusal \<Rightarrow> (extension_error, unit) res" where
  "refuse_unless b e = require b (Refused e)"

definition check_parties :: "environment \<Rightarrow> json \<Rightarrow> (extension_error, unit) res" where
  "check_parties env contract =
     res_bind (refuse_unless
       (js_lower (text_of (sub_member contract ''escrow'' ''payoutAddress'')) = js_lower (SELLER_PAYOUT_ADDRESS env))
       PayoutAddressDiffers) (\<lambda>_.
     refuse_unless (strict_eq (member contract ''sellerAgentId'') (JStr (SELLER_AGENT_ID env)))
       (SellerDiffers (member contract ''sellerAgentId'')))"

definition check_document :: "crypto \<Rightarrow> json \<Rightarrow> terms_document \<Rightarrow> (extension_error, unit) res" where
  "check_document C contract doc =
     (case parseAcceptanceCriteria (text_of (member contract ''acceptanceCriteria'')) of
        None \<Rightarrow> Inl (Refused NoTermsDocumentPinned)
      | Some commitment \<Rightarrow>
          res_bind (from_signing (termsDocumentHashOf C doc)) (\<lambda>docHash.
            refuse_unless (ac_termsDocumentHash commitment = docHash)
              (TermsDocumentDiffers (ac_termsDocumentHash commitment) docHash)))"

definition check_price :: "json \<Rightarrow> terms_validation_context \<Rightarrow> (extension_error, unit) res" where
  "check_price contract ctx =
     (let asset = sub_member contract ''price'' ''asset''; amount = sub_member contract ''price'' ''amount'';
          doc = tv_termsDocument ctx; own = tv_recomputed ctx
      in res_bind (refuse_unless (strict_eq asset (JStr ''USDC'') \<and> strict_eq amount (JStr (rq_priceAmount own)))
           (PriceDiffers asset amount (rq_priceAmount own))) (\<lambda>_.
         res_bind (refuse_unless (td_priceAmount doc = rq_priceAmount own) DocumentPriceDiffers) (\<lambda>_.
         res_bind (refuse_unless (td_criteriaHash doc = rq_criteriaHash own) DocumentCriteriaDiffer) (\<lambda>_.
         refuse_unless (td_statsHash doc = rq_statsHash own) DocumentStatsDiffer))))"

definition check_binding :: "environment \<Rightarrow> json \<Rightarrow> (extension_error, unit) res" where
  "check_binding env contract =
     (let uri = sub_member contract ''runtimeBinding'' ''extensionUri'';
          endpoint = sub_member contract ''runtimeBinding'' ''endpoint'';
          arbiter = sub_member contract ''disputePolicy'' ''arbiterAgentId''
      in res_bind (refuse_unless (js_trim (text_of (member contract ''deliverable'')) \<noteq> []) NoDeliverable) (\<lambda>_.
         res_bind (refuse_unless (strict_eq uri (JStr EXTENSION_URI)) (ExtensionDiffers uri)) (\<lambda>_.
         res_bind (refuse_unless (strict_eq endpoint (JStr (coordinationEndpoint env))) (EndpointDiffers endpoint)) (\<lambda>_.
         refuse_unless (truthy arbiter \<and> \<not> strict_eq arbiter (member contract ''buyerAgentId'') \<and>
             \<not> strict_eq arbiter (JStr (SELLER_AGENT_ID env))) ArbiterNotThirdParty))))"

definition validateTerms :: "crypto \<Rightarrow> environment \<Rightarrow> json \<Rightarrow> terms_validation_context \<Rightarrow> (extension_error, unit) res" where
  "validateTerms C env contract ctx =
     res_bind (check_parties env contract) (\<lambda>_.
     res_bind (check_document C contract (tv_termsDocument ctx)) (\<lambda>_.
     res_bind (check_price contract ctx) (\<lambda>_.
     check_binding env contract)))"

section \<open>The Runtime card\<close>

text \<open>\<open>xs.find((e) => e["uri"] === uri)\<close>\<close>

fun find_extension :: "jsval list \<Rightarrow> (extension_error, jsval option) res" where
  "find_extension [] = Inr None"
| "find_extension (e # es) =
     (if nullish e then Inl NotAnObject
      else if strict_eq (getp e ''uri'') (JStr EXTENSION_URI) then Inr (Some e)
      else find_extension es)"

definition declared_extension :: "json \<Rightarrow> (extension_error, jsval option) res" where
  "declared_extension runtime_card =
     (case sub_member runtime_card ''capabilities'' ''extensions'' of
        JArr es \<Rightarrow> find_extension es
      | v \<Rightarrow> if nullish v then Inr None else Inl NotAnObject)"

definition validateRuntimeCard :: "crypto \<Rightarrow> json \<Rightarrow> json \<Rightarrow> (extension_error, jsnum \<times> string) res" where
  "validateRuntimeCard C runtime_card runtime_binding =
     res_bind (from_signing (jcs C (JObj runtime_card))) (\<lambda>b.
     let computed = sha256Ref C b;
         registry = sub_member runtime_card ''x-kite-registry'' ''agentId''
     in if \<not> strict_eq (member runtime_binding ''agentCardHash'') (JStr computed)
        then Inl (CardHashDiffers computed (member runtime_binding ''agentCardHash''))
        else if \<not> strict_eq registry (member runtime_binding ''runtimeAgentId'')
        then Inl (CardAgentDiffers registry (member runtime_binding ''runtimeAgentId''))
        else res_bind (declared_extension runtime_card) (\<lambda>declared.
          case declared of
            None \<Rightarrow> Inl ExtensionNotDeclared
          | Some e \<Rightarrow>
              (let params = coalesce (getp e ''params'') (JObj [])
               in if getp params ''chainId'' = JUndef \<or> getp params ''escrowVault'' = JUndef
                  then Inl ChainContextMissing
                  else Inr (js_number (getp params ''chainId''), js_string (getp params ''escrowVault'')))))"

section \<open>Acceptance\<close>

definition agreementDomain :: "jsnum \<Rightarrow> eip712_domain" where
  "agreementDomain chainId =
     \<lparr> ed_name = ''KiteFulfill'', ed_version = ''1'', ed_chainId = chainId, ed_verifyingContract = None \<rparr>"

definition agreementStruct :: "string \<Rightarrow> string \<Rightarrow> string \<Rightarrow> string \<Rightarrow> string \<Rightarrow> json" where
  "agreementStruct dealId termsHash amount buyer seller =
     [(''agreementId'', JStr dealId), (''termsHash'', JStr termsHash), (''amount'', JStr amount),
      (''buyerAgent'', JStr buyer), (''sellerAgent'', JStr seller)]"

record acceptance_input =
  ai_contract :: json
  ai_buyerAddress :: string
  ai_dealId :: string
  ai_buyerAgreementSig :: string
  ai_privateKey :: string
  ai_keyId :: string
  ai_sellerAddress :: string
  ai_chainId :: "jsnum option"
  ai_validation :: terms_validation_context

text \<open>\<open>signatures[0]\<close> of a value of length one; reading a member of it throws when it is null.\<close>

definition only_element :: "jsval \<Rightarrow> jsval" where
  "only_element v =
     (case v of
        JArr (x # _) \<Rightarrow> x
      | JStr s \<Rightarrow> JStr s
      | JObj es \<Rightarrow> getp v ''0''
      | JInst c es \<Rightarrow> getp v ''0''
      | _ \<Rightarrow> JUndef)"

definition members_of :: "jsval \<Rightarrow> json" where
  "members_of v = (case v of JObj es \<Rightarrow> es | JInst c es \<Rightarrow> es | _ \<Rightarrow> [])"

definition acceptance_signature :: "crypto \<Rightarrow> environment \<Rightarrow> acceptance_input \<Rightarrow> string \<Rightarrow> string \<Rightarrow> jsval" where
  "acceptance_signature C env i computed sellerAgreementSig =
     JObj [(''signerAgentId'', JStr (SELLER_AGENT_ID env)), (''profile'', JStr ''secp256k1-keccak-v1''),
           (''keyId'', JStr (ai_keyId i)),
           (''sig'', JStr (sign C (ai_privateKey i) (termsSigningBytes computed))),
           (''agreementSig'', JStr sellerAgreementSig)]"

definition acceptTerms :: "crypto \<Rightarrow> environment \<Rightarrow> acceptance_input \<Rightarrow> (extension_error, json) res" where
  "acceptTerms C env i =
     (let contract = ai_contract i;
          signatures = coalesce (member contract ''signatures'') (JArr []);
          proposalSig = only_element signatures
      in if \<not> strict_eq (getp signatures ''length'') (JInt 1) then Inl NotOneSignature
         else res_bind (validateTerms C env contract (ai_validation i)) (\<lambda>_.
         res_bind (from_signing (termsHashOf C contract)) (\<lambda>computed.
         if nullish proposalSig then Inl NotAnObject
         else if \<not> strict_eq (getp proposalSig ''signerAgentId'') (member contract ''buyerAgentId'')
         then Inl SignerNotBuyer
         else if \<not> verify C (js_string (getp proposalSig ''sig'')) (termsSigningBytes computed) (ai_buyerAddress i)
         then Inl TermsSignatureInvalid
         else
           (let chainId = (case ai_chainId i of Some c \<Rightarrow> c | None \<Rightarrow> Fin (of_int DEMO_CHAIN_ID));
                struct = agreementStruct (ai_dealId i) computed (js_string (sub_member contract ''price'' ''amount''))
                  (ai_buyerAddress i) (ai_sellerAddress i);
                T = TYPE_STRINGS Agreement
            in res_bind (from_settlement (recoverStruct C (ai_buyerAgreementSig i) (agreementDomain chainId) T struct)) (\<lambda>recovered.
               if recovered \<noteq> Some (js_lower (ai_buyerAddress i)) then Inl AgreementSignatureInvalid
               else res_bind (from_settlement (signStruct C (ai_privateKey i) (agreementDomain chainId) T struct)) (\<lambda>sellerAgreementSig.
                 Inr (map_set ''signatures''
                   (JArr [JObj (map_set ''agreementSig'' (JStr (ai_buyerAgreementSig i)) (members_of proposalSig)),
                          acceptance_signature C env i computed sellerAgreementSig])
                   contract)))))))"

section \<open>Evidence and delivery\<close>

record evidence_input =
  ei_dealId :: string
  ei_termsHash :: string
  ei_manifestHash :: string
  ei_manifestUrl :: string
  ei_manifestBytes :: nat
  ei_privateKey :: string
  ei_keyId :: string

definition evidenceEnvelope :: "crypto \<Rightarrow> environment \<Rightarrow> evidence_input \<Rightarrow> (extension_error, json) res" where
  "evidenceEnvelope C env i =
     signPartyEnvelope C
       [(''kind'', JStr ''evidence''), (''dealId'', JStr (ei_dealId i)), (''actorAgentId'', JStr (SELLER_AGENT_ID env)),
        (''termsHash'', JStr (ei_termsHash i)),
        (''submission'', JObj [(''type'', JStr ''delivery-manifest''), (''hash'', JStr (ei_manifestHash i)),
           (''url'', JStr (ei_manifestUrl i)), (''format'', JStr ''application/json''),
           (''sizeBytes'', JInt (int (ei_manifestBytes i)))])]
       (ei_privateKey i) (ei_keyId i)"

record settlement_anchors =
  sc_dealId32 :: string
  sc_receiptHash :: string
  sc_nonce :: jsnum
  sc_expiry :: jsnum
  sc_chainId :: jsnum
  sc_vault :: string

definition demoAnchors :: "crypto \<Rightarrow> string \<Rightarrow> settlement_anchors" where
  "demoAnchors C dealId =
     \<lparr> sc_dealId32 = ''0x'' @ drop 7 (sha256Ref C (''demo-vault-deal|'' @ dealId)),
       sc_receiptHash = ZERO_ANCHOR, sc_nonce = Fin 0, sc_expiry = Fin (of_int DEMO_EXPIRY),
       sc_chainId = Fin (of_int DEMO_CHAIN_ID), sc_vault = DEMO_VAULT_ADDRESS \<rparr>"

definition vaultDomain :: "settlement_anchors \<Rightarrow> eip712_domain" where
  "vaultDomain anchors =
     \<lparr> ed_name = ''KiteEscrowVault'', ed_version = ''1'', ed_chainId = sc_chainId anchors,
       ed_verifyingContract = Some (sc_vault anchors) \<rparr>"

record delivered_input =
  dv_dealId :: string
  dv_expectedRevision :: jsnum
  dv_termsHash :: string
  dv_evidenceId :: string
  dv_deliveryHash :: string
  dv_anchors :: settlement_anchors
  dv_privateKey :: string
  dv_keyId :: string

definition delivery_struct :: "delivered_input \<Rightarrow> json" where
  "delivery_struct i =
     [(''dealId'', JStr (sc_dealId32 (dv_anchors i))), (''termsHash'', JStr (dv_termsHash i)),
      (''deliveryHash'', JStr (dv_deliveryHash i)), (''receiptHash'', JStr (sc_receiptHash (dv_anchors i))),
      (''nonce'', JNum (sc_nonce (dv_anchors i))), (''expiry'', JNum (sc_expiry (dv_anchors i)))]"

definition deliveredCommand :: "crypto \<Rightarrow> environment \<Rightarrow> string \<Rightarrow> string \<Rightarrow> delivered_input \<Rightarrow> (extension_error, json) res" where
  "deliveredCommand C env random now i =
     res_bind (from_settlement (signStruct C (dv_privateKey i) (vaultDomain (dv_anchors i)) (TYPE_STRINGS Delivery) (delivery_struct i)))
       (\<lambda>sellerDeliverySig.
     res_bind (buildCommand C env random now
         \<lparr> ci_commandType = ''kite.contract.delivered'', ci_dealId = dv_dealId i,
           ci_expectedRevision = dv_expectedRevision i, ci_termsHash = dv_termsHash i,
           ci_payload = [(''evidenceId'', JStr (dv_evidenceId i)), (''deliveryHash'', JStr (dv_deliveryHash i)),
             (''sellerDeliverySig'', JStr sellerDeliverySig), (''expiry'', JNum (sc_expiry (dv_anchors i)))] \<rparr>)
       (\<lambda>command. signCommand C command (dv_privateKey i) (dv_keyId i)))"

section \<open>The proof of a delivery request\<close>

definition DELIVERY_REQUEST_TAG :: string where
  "DELIVERY_REQUEST_TAG = ''kite:example:delivery-request:v1''"

definition DELIVERY_REQUEST_MAX_AGE_SECONDS :: int where
  "DELIVERY_REQUEST_MAX_AGE_SECONDS = 300"

definition deliveryRequestSigningBytes :: "crypto \<Rightarrow> string \<Rightarrow> jsnum \<Rightarrow> (extension_error, string) res" where
  "deliveryRequestSigningBytes C dealId requestedAt =
     res_bind (from_signing (jcs C (JObj [(''dealId'', JStr dealId), (''requestedAt'', JNum requestedAt)])))
       (\<lambda>b. Inr (concatBytes [DELIVERY_REQUEST_TAG, b]))"

definition signDeliveryRequest :: "crypto \<Rightarrow> string \<Rightarrow> string \<Rightarrow> jsnum \<Rightarrow> (extension_error, string) res" where
  "signDeliveryRequest C privateKey dealId requestedAt =
     res_bind (deliveryRequestSigningBytes C dealId requestedAt) (\<lambda>b. Inr (sign C privateKey b))"

text \<open>\<open>!Number.isFinite(at) || Math.abs(now - at) > 300\<close>, negated.\<close>

definition request_fresh :: "int \<Rightarrow> jsnum \<Rightarrow> bool" where
  "request_fresh now requestedAt \<longleftrightarrow>
     (case requestedAt of
        Fin t \<Rightarrow> \<bar>fsub (of_int now) t\<bar> \<le> of_int DELIVERY_REQUEST_MAX_AGE_SECONDS
      | _ \<Rightarrow> False)"

definition verifyDeliveryRequest :: "crypto \<Rightarrow> string \<Rightarrow> jsnum \<Rightarrow> string \<Rightarrow> string \<Rightarrow> int \<Rightarrow> (extension_error, unit) res" where
  "verifyDeliveryRequest C dealId requestedAt buyerSig buyerAddress now =
     (if \<not> request_fresh now requestedAt then Inl RequestNotFresh
      else res_bind (deliveryRequestSigningBytes C dealId requestedAt) (\<lambda>b.
        if recover C buyerSig b \<noteq> Some (js_lower buyerAddress) then Inl RequestNotByBuyer else Inr ()))"

definition recoverTermsSigner :: "crypto \<Rightarrow> string \<Rightarrow> string \<Rightarrow> string option" where
  "recoverTermsSigner C termsHash sig = recover C sig (termsSigningBytes termsHash)"


section \<open>The families of signed bytes\<close>

text \<open>
  Everything one runtime key signs starts with the tag of its family: the four domain tags, the
  transition proof, the delivery request, and the two EIP-712 bytes.
\<close>

datatype preimage_kind = Tagged signed_family | ProofPreimage | RequestPreimage | StructPreimage

fun preimage_tag :: "preimage_kind \<Rightarrow> string" where
  "preimage_tag (Tagged f) = DOMAIN_TAGS f"
| "preimage_tag ProofPreimage = PROOF_TAG"
| "preimage_tag RequestPreimage = DELIVERY_REQUEST_TAG"
| "preimage_tag StructPreimage = [CHR 0x19, CHR 0x01]"

definition preimage_kinds :: "preimage_kind list" where
  "preimage_kinds = map Tagged [TermsFamily, CommandFamily, FundingFamily, ReceiptFamily]
     @ [ProofPreimage, RequestPreimage, StructPreimage]"

lemma preimage_kinds_all: "k \<in> set preimage_kinds"
proof (cases k)
  case (Tagged f)
  then show ?thesis by (cases f) (simp_all add: preimage_kinds_def)
qed (simp_all add: preimage_kinds_def)

lemma preimage_tags_apart:
  "list_all (\<lambda>f. list_all (\<lambda>g. f = g \<or>
     take (min (length (preimage_tag f)) (length (preimage_tag g))) (preimage_tag f)
       \<noteq> take (min (length (preimage_tag f)) (length (preimage_tag g))) (preimage_tag g)) preimage_kinds) preimage_kinds"
  by code_simp

interpretation preimages: tagged_preimages preimage_tag
  using preimage_tags_apart preimage_kinds_all by unfold_locales (auto simp: list_all_iff)

text \<open>\<open>b\<close> are signed bytes of a kind, for some content.\<close>

inductive signed_bytes :: "crypto \<Rightarrow> preimage_kind \<Rightarrow> string \<Rightarrow> bool" for C where
  terms: "signed_bytes C (Tagged TermsFamily) (termsSigningBytes h)"
| command: "commandSigningBytes C c = Inr b \<Longrightarrow> signed_bytes C (Tagged CommandFamily) b"
| envelope: "envelopeSigningBytes C e = Inr b \<Longrightarrow> signed_bytes C (Tagged FundingFamily) b"
| receipt: "receiptSigningBytes C r = Inr b \<Longrightarrow> signed_bytes C (Tagged ReceiptFamily) b"
| transition: "signed_bytes C ProofPreimage (proofSigningBytes h)"
| request: "deliveryRequestSigningBytes C d t = Inr b \<Longrightarrow> signed_bytes C RequestPreimage b"
| struct: "signingPreimage C dm (TYPE_STRINGS s) st = Inr b \<Longrightarrow> signed_bytes C StructPreimage b"

lemma signed_bytes_tag: "signed_bytes C k b \<Longrightarrow> \<exists>x. b = preimage_tag k @ x"
  by (induction rule: signed_bytes.induct)
    (auto simp: termsSigningBytes_def commandSigningBytes_def envelopeSigningBytes_def receiptSigningBytes_def
      proofSigningBytes_def deliveryRequestSigningBytes_def signingPreimage_def concatBytes_def res_bind_Inr_iff)

lemma signed_bytes_kind: "signed_bytes C k b \<Longrightarrow> signed_bytes C k' b \<Longrightarrow> k = k'"
  by (metis preimages.preimage_inject signed_bytes_tag)

section \<open>Signed objects\<close>

lemma from_signing_Inr [simp]: "from_signing r = Inr x \<longleftrightarrow> r = Inr x"
  by (auto simp: from_signing_def split: sum.splits)

lemma from_settlement_Inr [simp]: "from_settlement r = Inr x \<longleftrightarrow> r = Inr x"
  by (auto simp: from_settlement_def split: sum.splits)

lemma omit_map_set: "k \<in> set ks \<Longrightarrow> omit ks (map_set k v es) = omit ks es"
  by (induction es) (auto simp: omit_def map_set_def)

lemma member_map_set [simp]: "getp (JObj (map_set k v es)) k' = (if k' = k then v else getp (JObj es) k')"
  by (simp add: getp_def map_get_set[unfolded map_get_def])

lemma signCommand_Inr:
  assumes "signCommand C command key keyId = Inr s"
  obtains b where "commandSigningBytes C command = Inr b" "commandSigningBytes C s = Inr b"
    "s = map_set ''signature'' (signature_member keyId (sign C key b)) command"
  using assms
  by (auto simp: signCommand_def sign_under_def commandSigningBytes_def res_bind_Inr_iff Let_def omit_map_set)

lemma signPartyEnvelope_Inr:
  assumes "signPartyEnvelope C e key keyId = Inr s"
  obtains b where "envelopeSigningBytes C e = Inr b" "envelopeSigningBytes C s = Inr b"
    "s = map_set ''signature'' (signature_member keyId (sign C key b)) e"
  using assms
  by (auto simp: signPartyEnvelope_def sign_under_def envelopeSigningBytes_def res_bind_Inr_iff Let_def omit_map_set)

lemma signature_member_sig [simp]: "getp (signature_member keyId sig) ''sig'' = JStr sig"
  by (simp add: signature_member_def)

section \<open>What a validated contract says\<close>

definition terms_acceptable :: "crypto \<Rightarrow> environment \<Rightarrow> json \<Rightarrow> terms_validation_context \<Rightarrow> bool" where
  "terms_acceptable C env c ctx \<longleftrightarrow>
     js_lower (text_of (sub_member c ''escrow'' ''payoutAddress'')) = js_lower (SELLER_PAYOUT_ADDRESS env) \<and>
     member c ''sellerAgentId'' = JStr (SELLER_AGENT_ID env) \<and>
     (\<exists>m. parseAcceptanceCriteria (text_of (member c ''acceptanceCriteria'')) = Some m \<and>
        termsDocumentHashOf C (tv_termsDocument ctx) = Inr (ac_termsDocumentHash m)) \<and>
     sub_member c ''price'' ''asset'' = JStr ''USDC'' \<and>
     sub_member c ''price'' ''amount'' = JStr (rq_priceAmount (tv_recomputed ctx)) \<and>
     td_priceAmount (tv_termsDocument ctx) = rq_priceAmount (tv_recomputed ctx) \<and>
     td_criteriaHash (tv_termsDocument ctx) = rq_criteriaHash (tv_recomputed ctx) \<and>
     td_statsHash (tv_termsDocument ctx) = rq_statsHash (tv_recomputed ctx) \<and>
     js_trim (text_of (member c ''deliverable'')) \<noteq> [] \<and>
     sub_member c ''runtimeBinding'' ''extensionUri'' = JStr EXTENSION_URI \<and>
     sub_member c ''runtimeBinding'' ''endpoint'' = JStr (coordinationEndpoint env) \<and>
     truthy (sub_member c ''disputePolicy'' ''arbiterAgentId'') \<and>
     \<not> strict_eq (sub_member c ''disputePolicy'' ''arbiterAgentId'') (member c ''buyerAgentId'') \<and>
     sub_member c ''disputePolicy'' ''arbiterAgentId'' \<noteq> JStr (SELLER_AGENT_ID env)"

lemma refuse_unless_Inr [simp]: "refuse_unless b e = Inr u \<longleftrightarrow> b"
  by (simp add: refuse_unless_def)

lemma validateTerms_iff: "validateTerms C env c ctx = Inr () \<longleftrightarrow> terms_acceptable C env c ctx"
  unfolding validateTerms_def check_parties_def check_document_def check_price_def check_binding_def
    terms_acceptable_def Let_def
  by (auto simp: res_bind_Inr_iff split: option.splits)



section \<open>The countersigned contract\<close>

lemma signStruct_Inr:
  assumes "signStruct C key d T st = Inr sig" and "curve_ok C"
  shows "recoverStruct C sig d T st = Inr (Some (addressOfPrivateKey C key))"
  using assms by (auto simp: signStruct_def recoverStruct_def res_bind_Inr_iff recover_sign)

lemma termsHashOf_signatures: "termsHashOf C (map_set ''signatures'' v c) = termsHashOf C c"
  by (simp add: termsHashOf_def omit_map_set)

text \<open>The struct and the chain an acceptance signs.\<close>

definition accepted_struct :: "acceptance_input \<Rightarrow> string \<Rightarrow> json" where
  "accepted_struct i h = agreementStruct (ai_dealId i) h (js_string (sub_member (ai_contract i) ''price'' ''amount''))
     (ai_buyerAddress i) (ai_sellerAddress i)"

definition accepted_domain :: "acceptance_input \<Rightarrow> eip712_domain" where
  "accepted_domain i =
     agreementDomain (case ai_chainId i of Some c \<Rightarrow> c | None \<Rightarrow> Fin (of_int DEMO_CHAIN_ID))"

lemma acceptTerms_Inr:
  assumes "acceptTerms C env i = Inr c'"
  obtains h ps sig where "terms_acceptable C env (ai_contract i) (ai_validation i)" "termsHashOf C (ai_contract i) = Inr h"
    "ps = only_element (coalesce (member (ai_contract i) ''signatures'') (JArr []))"
    "strict_eq (getp ps ''signerAgentId'') (member (ai_contract i) ''buyerAgentId'')"
    "verify C (js_string (getp ps ''sig'')) (termsSigningBytes h) (ai_buyerAddress i)"
    "recoverStruct C (ai_buyerAgreementSig i) (accepted_domain i) (TYPE_STRINGS Agreement) (accepted_struct i h)
       = Inr (Some (js_lower (ai_buyerAddress i)))"
    "signStruct C (ai_privateKey i) (accepted_domain i) (TYPE_STRINGS Agreement) (accepted_struct i h) = Inr sig"
    "c' = map_set ''signatures''
       (JArr [JObj (map_set ''agreementSig'' (JStr (ai_buyerAgreementSig i)) (members_of ps)),
              acceptance_signature C env i h sig]) (ai_contract i)"
  using assms
  unfolding acceptTerms_def Let_def accepted_domain_def[symmetric] accepted_struct_def[symmetric] validateTerms_iff[symmetric]
  by (auto simp: res_bind_Inr_iff accepted_domain_def accepted_struct_def split: if_splits)

section \<open>A proposal that can be countersigned\<close>

lemma hex_not_0x: "list_all is_hex_char h \<Longrightarrow> \<not> starts_with ''0x'' h"
proof
  assume h: "list_all is_hex_char h" and "starts_with ''0x'' h"
  then obtain r where "h = ''0x'' @ r" by (auto simp: starts_with_iff)
  with h have "is_hex_char (CHR ''x'')" by simp
  then show False by (simp add: is_hex_char_def hex_val_def)
qed

lemma fromHex_hex:
  assumes "list_all is_hex_char h" and "even (length h)"
  shows "fromHex h = Inr (hex_pairs h)" "fromHex (''0x'' @ h) = Inr (hex_pairs h)"
proof -
  have "starts_with ''0x'' (''0x'' @ h)" by (rule starts_with_append)
  then show "fromHex (''0x'' @ h) = Inr (hex_pairs h)"
    using assms js_length_hex[OF assms(1)] by (simp add: fromHex_def even_iff_mod_2_eq_zero)
  show "fromHex h = Inr (hex_pairs h)"
    using assms js_length_hex[OF assms(1)] hex_not_0x[OF assms(1)] by (simp add: fromHex_def even_iff_mod_2_eq_zero)
qed

lemma lower_hex_all: "list_all is_lower_hex_char h \<Longrightarrow> list_all is_hex_char h"
  by (auto simp: list_all_iff is_lower_hex_imp_hex)

lemma wordBytes32_ref: "well_formed_ref h \<Longrightarrow> \<exists>w. wordBytes32 h = Inr w"
proof -
  assume w: "well_formed_ref h"
  then have "list_all is_hex_char (drop 7 h)" "even (length (drop 7 h))"
    by (auto simp: well_formed_ref_def lower_hex_all)
  from fromHex_hex(1)[OF this] w show ?thesis
    by (simp add: wordBytes32_def well_formed_ref_def from_hex_word_def length_hex_pairs)
qed

lemma wordAddress_form: "address_form a \<Longrightarrow> \<exists>w. wordAddress a = Inr w"
proof -
  assume a: "address_form a"
  then obtain r where r: "a = ''0x'' @ r" by (auto simp: address_form_def starts_with_iff)
  with a have "list_all is_hex_char r" "length r = 40" by (auto simp: address_form_def lower_hex_all)
  with fromHex_hex(2)[of r] r show ?thesis
    by (simp add: wordAddress_def from_hex_word_def length_hex_pairs)
qed

lemma agreement_preimage_total:
  assumes "well_formed_ref h" and "usdcBaseUnits amount = Inr n" and "0 \<le> n" "n < 2 ^ 256"
    and "address_form a" and "address_form b" and "0 \<le> c" "c < 2 ^ 256"
  shows "\<exists>p. signingPreimage C (agreementDomain (Fin (of_int c))) (TYPE_STRINGS Agreement) (agreementStruct d h amount a b) = Inr p"
proof -
  obtain w1 w2 w3 w4 where w: "wordBytes32 h = Inr w1" "word_of_bigint n = Inr w2" "wordAddress a = Inr w3" "wordAddress b = Inr w4"
    using wordBytes32_ref[OF assms(1)] wordAddress_form[OF assms(5)] wordAddress_form[OF assms(6)] assms(3,4)
    by (auto simp: word_of_bigint_cases)
  have act: "\<not> starts_with ''Activation('' (TYPE_STRINGS Agreement)" by (simp add: starts_with_def)
  have f: "struct_words C Agreement (agreementStruct d h amount a b)
      = Inr [keccak_digest C (TYPE_STRINGS Agreement), agreementIdWord C d, w1, w2, w3, w4]"
    unfolding struct_words_def struct_fields.simps
    using w assms(2) act by (simp add: fieldWord_def agreementStruct_def starts_with_def del: TYPE_STRINGS.simps)
  have "\<exists>w. wordUint (JNum (Fin (of_int c))) = Inr w"
    using assms(7,8) by (simp add: wordUint_def js_bigint_def word_of_bigint_cases)
  then have "\<exists>ws. domain_words C (agreementDomain (Fin (of_int c))) = Inr ws"
    by (auto simp: domain_words_def agreementDomain_def)
  with f show ?thesis by (auto simp: signingPreimage_def domainSeparator_words structHash_words simp del: TYPE_STRINGS.simps)
qed

lemma acceptTerms_total:
  assumes "curve_ok C" and "digests_ok C" and "terms_acceptable C env (ai_contract i) (ai_validation i)"
    and "termsHashOf C (ai_contract i) = Inr h"
    and "member (ai_contract i) ''signatures'' = JArr [JObj ps]"
    and "getp (JObj ps) ''signerAgentId'' = JStr buyer" and "member (ai_contract i) ''buyerAgentId'' = JStr buyer"
    and "getp (JObj ps) ''sig'' = JStr (sign C bk (termsSigningBytes h))" and "ai_buyerAddress i = addressOfPrivateKey C bk"
    and "signStruct C bk (accepted_domain i) (TYPE_STRINGS Agreement) (accepted_struct i h) = Inr (ai_buyerAgreementSig i)"
  shows "\<exists>c'. acceptTerms C env i = Inr c'"
proof -
  have addr: "address_form (addressOfPrivateKey C bk)" "js_lower (addressOfPrivateKey C bk) = addressOfPrivateKey C bk"
    using address_of_pubkey_form[OF assms(2)] address_form_lower by (simp_all add: addressOfPrivateKey_def)
  from assms(10) obtain p where p: "signingPreimage C (accepted_domain i) (TYPE_STRINGS Agreement) (accepted_struct i h) = Inr p"
    by (auto simp: signStruct_def res_bind_Inr_iff)
  have s: "signStruct C (ai_privateKey i) (accepted_domain i) (TYPE_STRINGS Agreement) (accepted_struct i h)
      = Inr (sign C (ai_privateKey i) p)" by (simp add: signStruct_def p del: TYPE_STRINGS.simps)
  have v: "verify C (sign C bk (termsSigningBytes h)) (termsSigningBytes h) (addressOfPrivateKey C bk)"
    by (rule verify_sign[OF assms(1,2)])
  have one: "getp (coalesce (member (ai_contract i) ''signatures'') (JArr [])) ''length'' = JInt 1"
    "only_element (coalesce (member (ai_contract i) ''signatures'') (JArr [])) = JObj ps"
    unfolding assms(5) by (simp_all add: getp_def only_element_def)
  note t = assms(3)[unfolded validateTerms_iff[symmetric]]
  show ?thesis
    unfolding acceptTerms_def Let_def accepted_domain_def[symmetric] accepted_struct_def[symmetric] one t
    using v addr(2) signStruct_Inr[OF assms(10,1)] s
    by (simp add: assms(4,6,7,8,9) from_signing_def from_settlement_def del: TYPE_STRINGS.simps)
qed

text \<open>A proposal over the sample terms document, priced at ten cents.\<close>

definition sample_unsigned :: "string \<Rightarrow> json" where
  "sample_unsigned docHash =
     [(''buyerAgentId'', JStr ''did:kite:b:x''), (''sellerAgentId'', JStr (SELLER_AGENT_ID (\<lambda>_. None))),
      (''price'', JObj [(''asset'', JStr ''USDC''), (''amount'', JStr ''0.10'')]),
      (''escrow'', JObj [(''payoutAddress'', JStr (SELLER_PAYOUT_ADDRESS (\<lambda>_. None)))]),
      (''acceptanceCriteria'', JStr (buildAcceptanceCriteria docHash ''http://s'')), (''deliverable'', JStr ''csv''),
      (''runtimeBinding'', JObj [(''extensionUri'', JStr EXTENSION_URI),
         (''endpoint'', JStr (coordinationEndpoint (\<lambda>_. None)))]),
      (''disputePolicy'', JObj [(''arbiterAgentId'', JStr ''did:kite:a:y'')])]"

definition sample_context :: terms_validation_context where
  "sample_context = \<lparr> tv_termsDocument = sample_terms,
     tv_recomputed = \<lparr> rq_priceAmount = ''0.10'', rq_criteriaHash = ''c'', rq_statsHash = ''s'' \<rparr> \<rparr>"

definition sample_acceptance :: "string \<Rightarrow> string \<Rightarrow> string \<Rightarrow> acceptance_input" where
  "sample_acceptance docHash h sig = \<lparr>
     ai_contract = map_set ''signatures'' (JArr [JObj [(''signerAgentId'', JStr ''did:kite:b:x''),
         (''sig'', JStr (sign encoder_crypto ''b'' (termsSigningBytes h)))]]) (sample_unsigned docHash),
     ai_buyerAddress = addressOfPrivateKey encoder_crypto ''b'', ai_dealId = ''deal_1'', ai_buyerAgreementSig = sig,
     ai_privateKey = ''s'', ai_keyId = ''k'', ai_sellerAddress = addressOfPrivateKey encoder_crypto ''s'',
     ai_chainId = None, ai_validation = sample_context \<rparr>"

lemma sample_acceptable:
  assumes "termsDocumentHashOf encoder_crypto sample_terms = Inr dh"
  shows "terms_acceptable encoder_crypto (\<lambda>_. None) (map_set ''signatures'' x (sample_unsigned dh)) sample_context"
proof -
  have "no_space (locator_base ''http://s'')" by code_simp
  from parse_build[OF terms_hash_well_formed[OF encoder_crypto_ok(2) assms] this]
  have p: "parseAcceptanceCriteria (buildAcceptanceCriteria dh ''http://s'')
      = Some \<lparr> ac_termsDocumentHash = dh, ac_locator = locator_base ''http://s'' @ ''/terms/'' @ dh \<rparr>" .
  have m: "member (map_set ''signatures'' x (sample_unsigned dh)) k
      = (if k = ''signatures'' then x else member (sample_unsigned dh) k)" for k by simp
  have g: "td_priceAmount sample_terms = ''0.10''" "td_criteriaHash sample_terms = ''c''" "td_statsHash sample_terms = ''s''"
    by (simp_all add: sample_terms_def)
  show ?thesis
    unfolding terms_acceptable_def sub_member_def m
    by (simp add: sample_unsigned_def sample_context_def text_of_def p assms g js_trim_def is_ws_def SELLER_AGENT_ID_def env_or_def)
qed

lemma sample_proposal:
  "\<exists>dh h sig. acceptTerms encoder_crypto (\<lambda>_. None) (sample_acceptance dh h sig) \<in> range Inr"
proof -
  from sample_terms_hash obtain dh where dh: "termsDocumentHashOf encoder_crypto sample_terms = Inr dh" by blast
  have "hashable (JObj (omit [''signatures'', ''termsHash''] (sample_unsigned dh)))"
    by (simp add: sample_unsigned_def omit_def)
  then obtain h where h: "termsHashOf encoder_crypto (sample_unsigned dh) = Inr h"
    using jcs_encoder_ok by (fastforce simp: termsHashOf_def)
  have wf: "well_formed_ref h"
    using h sha256Ref_well_formed[OF encoder_crypto_ok(2)] by (auto simp: termsHashOf_def res_bind_Inr_iff)
  have af: "address_form (addressOfPrivateKey encoder_crypto k)" for k
    using address_of_pubkey_form[OF encoder_crypto_ok(2)] by (simp add: addressOfPrivateKey_def)
  have amount: "js_string (sub_member (ai_contract (sample_acceptance dh h sig)) ''price'' ''amount'') = ''0.10''" for sig
    by (simp add: sample_acceptance_def sub_member_def) (simp add: sample_unsigned_def)
  have usdc: "usdcBaseUnits ''0.10'' = Inr 100000" by code_simp
  from agreement_preimage_total[OF wf usdc _ _ af[of "''b''"] af[of "''s''"], where c = 2368 and C = encoder_crypto
      and d = "''deal_1''"]
  obtain p where p: "signingPreimage encoder_crypto (agreementDomain (Fin (of_int 2368))) (TYPE_STRINGS Agreement)
      (agreementStruct ''deal_1'' h ''0.10'' (addressOfPrivateKey encoder_crypto ''b'') (addressOfPrivateKey encoder_crypto ''s'')) = Inr p"
    by auto
  let ?sig = "sign encoder_crypto ''b'' p"
  let ?i = "sample_acceptance dh h ?sig"
  have st: "accepted_struct ?i h = agreementStruct ''deal_1'' h ''0.10'' (addressOfPrivateKey encoder_crypto ''b'')
      (addressOfPrivateKey encoder_crypto ''s'')"
    unfolding accepted_struct_def amount by (simp add: sample_acceptance_def)
  have dm: "accepted_domain ?i = agreementDomain (Fin (of_int 2368))"
    by (simp add: accepted_domain_def sample_acceptance_def DEMO_CHAIN_ID_def)
  have "\<exists>c'. acceptTerms encoder_crypto (\<lambda>_. None) ?i = Inr c'"
  proof (rule acceptTerms_total[OF encoder_crypto_ok(3,2), where bk = "''b''" and buyer = "''did:kite:b:x''" and
        ps = "[(''signerAgentId'', JStr ''did:kite:b:x''), (''sig'', JStr (sign encoder_crypto ''b'' (termsSigningBytes h)))]"])
    show "terms_acceptable encoder_crypto (\<lambda>_. None) (ai_contract ?i) (ai_validation ?i)"
      using sample_acceptable[OF dh] by (simp add: sample_acceptance_def)
    show "termsHashOf encoder_crypto (ai_contract ?i) = Inr h"
      using h by (simp add: sample_acceptance_def termsHashOf_signatures)
    show "signStruct encoder_crypto ''b'' (accepted_domain ?i) (TYPE_STRINGS Agreement) (accepted_struct ?i h)
        = Inr (ai_buyerAgreementSig ?i)"
      unfolding st dm using p by (simp add: signStruct_def sample_acceptance_def del: TYPE_STRINGS.simps)
  qed (simp_all add: sample_acceptance_def sample_unsigned_def[of dh] af)
  then show ?thesis by blast
qed

section \<open>Properties\<close>

text \<open>
  No signature of one family is a signature of another: the bytes signed for terms, commands,
  party envelopes, receipts, transition proofs, delivery requests and settlement structs are
  pairwise different, whatever their contents.
\<close>

theorem signed_families_are_disjoint:
  assumes "signed_bytes C k b" and "signed_bytes C k' b'" and "k \<noteq> k'"
  shows "b \<noteq> b'"
  using assms signed_bytes_kind by blast

theorem signed_families_are_disjoint_witness:
  "termsSigningBytes ''sha256:ab'' \<noteq> proofSigningBytes ''sha256:ab''"
  by (rule signed_families_are_disjoint[where C = sample_crypto, OF signed_bytes.terms signed_bytes.transition]) simp

text \<open>
  The seller's check accepts exactly the terms that pay its payout address, name it as seller, pin
  the terms document it holds, carry the price, criteria and statistics it recomputed itself, name a
  deliverable, this extension and its Runtime endpoint, and an arbiter who is neither party.
\<close>

theorem validateTerms_accepts:
  "validateTerms C env c ctx = Inr () \<longleftrightarrow> terms_acceptable C env c ctx"
  by (rule validateTerms_iff)

text \<open>
  C2: what the seller countersigns. An accepted contract was acceptable; the buyer's signature verified
  over the locally recomputed terms hash and the buyer's agreement signature over the struct of this
  deal id, hash and price; the result has the same terms hash and the same members but for
  \<open>signatures\<close>; and both of the seller's signatures recover to the seller's key.
\<close>

theorem countersigned_contract_is_bound:
  assumes "acceptTerms C env i = Inr c'" and "curve_ok C"
  shows "\<exists>h ps sig own.
    terms_acceptable C env (ai_contract i) (ai_validation i) \<and>
    termsHashOf C (ai_contract i) = Inr h \<and> termsHashOf C c' = Inr h \<and>
    verify C (js_string (getp ps ''sig'')) (termsSigningBytes h) (ai_buyerAddress i) \<and>
    recoverStruct C (ai_buyerAgreementSig i) (accepted_domain i) (TYPE_STRINGS Agreement) (accepted_struct i h)
      = Inr (Some (js_lower (ai_buyerAddress i))) \<and>
    member c' ''signatures'' = JArr [JObj (map_set ''agreementSig'' (JStr (ai_buyerAgreementSig i)) (members_of ps)), own] \<and>
    getp own ''agreementSig'' = JStr sig \<and>
    recoverStruct C sig (accepted_domain i) (TYPE_STRINGS Agreement) (accepted_struct i h)
      = Inr (Some (addressOfPrivateKey C (ai_privateKey i))) \<and>
    recover C (js_string (getp own ''sig'')) (termsSigningBytes h) = Some (addressOfPrivateKey C (ai_privateKey i)) \<and>
    (\<forall>k. k \<noteq> ''signatures'' \<longrightarrow> member c' k = member (ai_contract i) k)"
proof -
  from assms(1) obtain h ps sig where a: "terms_acceptable C env (ai_contract i) (ai_validation i)"
    "termsHashOf C (ai_contract i) = Inr h"
    "verify C (js_string (getp ps ''sig'')) (termsSigningBytes h) (ai_buyerAddress i)"
    "recoverStruct C (ai_buyerAgreementSig i) (accepted_domain i) (TYPE_STRINGS Agreement) (accepted_struct i h)
       = Inr (Some (js_lower (ai_buyerAddress i)))"
    "signStruct C (ai_privateKey i) (accepted_domain i) (TYPE_STRINGS Agreement) (accepted_struct i h) = Inr sig"
    "c' = map_set ''signatures''
       (JArr [JObj (map_set ''agreementSig'' (JStr (ai_buyerAgreementSig i)) (members_of ps)),
              acceptance_signature C env i h sig]) (ai_contract i)"
    by (rule acceptTerms_Inr)
  let ?own = "acceptance_signature C env i h sig"
  have own: "getp ?own ''agreementSig'' = JStr sig" "getp ?own ''sig'' = JStr (sign C (ai_privateKey i) (termsSigningBytes h))"
    by (simp_all add: acceptance_signature_def)
  show ?thesis
    apply (rule exI[of _ h], rule exI[of _ ps], rule exI[of _ sig], rule exI[of _ ?own])
    using a own
    by (simp add: termsHashOf_signatures signStruct_Inr[OF a(5) assms(2)] recover_sign[OF assms(2)] del: TYPE_STRINGS.simps)
qed

text \<open>
  The delivered command is signed twice over. Its outer signature recovers to the seller's key over
  the command as sent; it names the given deal, revision and terms; its payload hash is that of its
  payload; and the signature inside the payload recovers to the same key over the EIP-712 delivery
  struct of the anchors and the delivery hash.
\<close>

theorem delivered_command_verifies:
  assumes "deliveredCommand C env random now i = Inr s" and "curve_ok C"
  shows "\<exists>b sig. commandSigningBytes C s = Inr b \<and>
    recover C (js_string (getp (member s ''signature'') ''sig'')) b = Some (addressOfPrivateKey C (dv_privateKey i)) \<and>
    member s ''dealId'' = JStr (dv_dealId i) \<and> member s ''expectedRevision'' = JNum (dv_expectedRevision i) \<and>
    member s ''termsHash'' = JStr (dv_termsHash i) \<and>
    payloadHashOf C (member s ''payload'') = Inr (js_string (member s ''payloadHash'')) \<and>
    getp (member s ''payload'') ''sellerDeliverySig'' = JStr sig \<and>
    getp (member s ''payload'') ''deliveryHash'' = JStr (dv_deliveryHash i) \<and>
    recoverStruct C sig (vaultDomain (dv_anchors i)) (TYPE_STRINGS Delivery) (delivery_struct i)
      = Inr (Some (addressOfPrivateKey C (dv_privateKey i)))"
proof -
  from assms(1) obtain sig cmd where
    sig: "signStruct C (dv_privateKey i) (vaultDomain (dv_anchors i)) (TYPE_STRINGS Delivery) (delivery_struct i) = Inr sig"
    and cmd: "buildCommand C env random now
         \<lparr> ci_commandType = ''kite.contract.delivered'', ci_dealId = dv_dealId i,
           ci_expectedRevision = dv_expectedRevision i, ci_termsHash = dv_termsHash i,
           ci_payload = [(''evidenceId'', JStr (dv_evidenceId i)), (''deliveryHash'', JStr (dv_deliveryHash i)),
             (''sellerDeliverySig'', JStr sig), (''expiry'', JNum (sc_expiry (dv_anchors i)))] \<rparr> = Inr cmd"
    and s: "signCommand C cmd (dv_privateKey i) (dv_keyId i) = Inr s"
    by (auto simp: deliveredCommand_def res_bind_Inr_iff)
  from s obtain b where b: "commandSigningBytes C s = Inr b"
    "s = map_set ''signature'' (signature_member (dv_keyId i) (sign C (dv_privateKey i) b)) cmd"
    by (rule signCommand_Inr)
  from cmd have m: "member cmd ''dealId'' = JStr (dv_dealId i)" "member cmd ''expectedRevision'' = JNum (dv_expectedRevision i)"
    "member cmd ''termsHash'' = JStr (dv_termsHash i)"
    "payloadHashOf C (member cmd ''payload'') = Inr (js_string (member cmd ''payloadHash''))"
    "getp (member cmd ''payload'') ''sellerDeliverySig'' = JStr sig"
    "getp (member cmd ''payload'') ''deliveryHash'' = JStr (dv_deliveryHash i)"
    by (auto simp: buildCommand_def res_bind_Inr_iff)
  show ?thesis
    apply (rule exI[of _ b], rule exI[of _ sig])
    using b m by (simp add: recover_sign[OF assms(2)] signStruct_Inr[OF sig assms(2)] del: TYPE_STRINGS.simps)
qed

text \<open>
  The capability is handed to the buyer only. A delivery request passes exactly when its timestamp
  is a finite number within 300 seconds of the clock and its signature recovers to the buyer's address
  over that deal id and that timestamp; what the buyer signs in time passes.
\<close>

theorem delivery_request_is_the_buyers:
  assumes "deliveryRequestSigningBytes C dealId t = Inr b"
  shows "(verifyDeliveryRequest C dealId t sig buyer now = Inr () \<longleftrightarrow>
      request_fresh now t \<and> recover C sig b = Some (js_lower buyer))
    \<and> (curve_ok C \<and> digests_ok C \<and> request_fresh now t \<longrightarrow>
      (\<exists>s. signDeliveryRequest C key dealId t = Inr s \<and>
         verifyDeliveryRequest C dealId t s (addressOfPrivateKey C key) now = Inr ()))"
  using assms address_form_lower[OF address_of_pubkey_form]
  by (auto simp: verifyDeliveryRequest_def signDeliveryRequest_def recover_sign addressOfPrivateKey_def)



section \<open>Witnesses\<close>

theorem countersigned_contract_is_bound_witness:
  "\<exists>i c' h. acceptTerms encoder_crypto (\<lambda>_. None) i = Inr c' \<and> termsHashOf encoder_crypto c' = Inr h \<and>
     termsHashOf encoder_crypto (ai_contract i) = Inr h"
proof -
  from sample_proposal obtain i c' where a: "acceptTerms encoder_crypto (\<lambda>_. None) i = Inr c'" by blast
  from countersigned_contract_is_bound[OF a encoder_crypto_ok(3)] a show ?thesis by blast
qed

lemma wordBytes32_0x: "list_all is_hex_char h \<Longrightarrow> length h = 64 \<Longrightarrow> \<exists>w. wordBytes32 (''0x'' @ h) = Inr w"
proof -
  assume h: "list_all is_hex_char h" "length h = 64"
  have "starts_with ''0x'' (''0x'' @ h)" "\<not> starts_with ''sha256:'' (''0x'' @ h)"
    by (rule starts_with_append) (simp add: starts_with_def)
  with fromHex_hex(1)[OF h(1)] h show ?thesis
    by (simp add: wordBytes32_def from_hex_word_def length_hex_pairs)
qed

lemma sample_command_total:
  assumes "hashable (JObj (ci_payload i))" and "hashable (JNum (ci_expectedRevision i))"
  shows "\<exists>c. buildCommand encoder_crypto env random now i = Inr c \<and> hashable (JObj (omit [''signature''] c))"
proof -
  from jcs_encoder_ok[OF assms(1)] obtain b where b: "jcs encoder_crypto (JObj (ci_payload i)) = Inr b" by blast
  show ?thesis
    using assms by (simp add: buildCommand_def payloadHashOf_def b from_signing_def omit_def)
qed

definition sample_delivered :: "string \<Rightarrow> delivered_input" where
  "sample_delivered h = \<lparr> dv_dealId = ''deal_1'', dv_expectedRevision = Fin 2, dv_termsHash = h, dv_evidenceId = ''ev'',
     dv_deliveryHash = h, dv_anchors = demoAnchors encoder_crypto ''deal_1'', dv_privateKey = ''s'', dv_keyId = ''k'' \<rparr>"

text \<open>The inner settlement signature of a delivery exists under the demo anchors.\<close>

lemma delivered_struct_signs:
  assumes "digests_ok C" and "well_formed_ref (dv_termsHash i)" and "well_formed_ref (dv_deliveryHash i)"
    and "dv_anchors i = demoAnchors C k"
  shows "\<exists>sig. signStruct C key (vaultDomain (dv_anchors i)) (TYPE_STRINGS Delivery) (delivery_struct i) = Inr sig"
proof -
  obtain w0 w1 w2 w3 w4 w5 w6 where w: "wordBytes32 (dv_termsHash i) = Inr w0" "wordBytes32 (dv_deliveryHash i) = Inr w1"
    "wordBytes32 (sc_dealId32 (demoAnchors C k)) = Inr w2" "wordBytes32 ZERO_ANCHOR = Inr w3"
    "wordUint (JNum (Fin 0)) = Inr w4" "wordUint (JNum (Fin 1800000000)) = Inr w5" "wordAddress DEMO_VAULT_ADDRESS = Inr w6"
  proof -
    have n: "wordUint (JNum (Fin (of_int j))) = Inr (be_bytes 32 j)" if "0 \<le> j" "j < 2 ^ 256" for j
      using that by (simp add: wordUint_def js_bigint_def word_of_bigint_cases)
    have d: "drop 7 (sha256Ref C b) = to_hex (sha256_digest C b)" for b by (simp add: sha256Ref_def)
    have "\<exists>w. wordBytes32 (sc_dealId32 (demoAnchors C k)) = Inr w"
      using assms(1) unfolding demoAnchors_def settlement_anchors.simps d
      by (intro wordBytes32_0x) (simp_all add: digests_ok_def)
    moreover have "\<exists>w. wordBytes32 ZERO_ANCHOR = Inr w"
      unfolding ZERO_ANCHOR_def by (rule wordBytes32_0x) (simp_all add: repeat_string_def numeral_eq_Suc is_hex_char_def hex_val_def)
    moreover have "\<exists>w. wordAddress DEMO_VAULT_ADDRESS = Inr w"
      unfolding DEMO_VAULT_ADDRESS_def
      by (rule wordAddress_form)
        (simp add: address_form_def repeat_string_def numeral_eq_Suc starts_with_def is_lower_hex_char_def)
    ultimately show ?thesis using that wordBytes32_ref[OF assms(2)] wordBytes32_ref[OF assms(3)] n[of 0] n[of 1800000000] by auto
  qed
  have "struct_words C Delivery (delivery_struct i) = Inr [keccak_digest C (TYPE_STRINGS Delivery), w2, w0, w1, w3, w4, w5]"
    unfolding struct_words_def struct_fields.simps
    using w by (simp add: fieldWord_def delivery_struct_def assms(4)) (simp add: demoAnchors_def DEMO_EXPIRY_def starts_with_def
        del: TYPE_STRINGS.simps)
  moreover have "\<exists>ws. domain_words C (vaultDomain (demoAnchors C k)) = Inr ws"
    using w(7) rat_is_int_of_int[of 2368]
    by (simp add: domain_words_def vaultDomain_def demoAnchors_def wordUint_def js_bigint_def word_of_bigint_cases
        DEMO_CHAIN_ID_def)
  ultimately obtain p where "signingPreimage C (vaultDomain (dv_anchors i)) (TYPE_STRINGS Delivery) (delivery_struct i) = Inr p"
    unfolding assms(4) by (auto simp: signingPreimage_def domainSeparator_words structHash_words simp del: TYPE_STRINGS.simps)
  then show ?thesis by (simp add: signStruct_def del: TYPE_STRINGS.simps)
qed

lemma sample_delivered_ok:
  assumes "well_formed_ref h"
  shows "\<exists>s. deliveredCommand encoder_crypto (\<lambda>_. None) ''r'' ''now'' (sample_delivered h) = Inr s"
proof -
  let ?i = "sample_delivered h" and ?C = encoder_crypto
  have f: "dv_anchors ?i = demoAnchors ?C ''deal_1''" "dv_termsHash ?i = h" "dv_deliveryHash ?i = h"
    by (simp_all add: sample_delivered_def)
  obtain sig where sg: "signStruct ?C (dv_privateKey ?i) (vaultDomain (dv_anchors ?i)) (TYPE_STRINGS Delivery) (delivery_struct ?i) = Inr sig"
    using delivered_struct_signs[OF encoder_crypto_ok(2), of ?i "''deal_1''" "dv_privateKey ?i"] assms f by auto
  let ?in = "\<lparr> ci_commandType = ''kite.contract.delivered'', ci_dealId = dv_dealId ?i,
      ci_expectedRevision = dv_expectedRevision ?i, ci_termsHash = dv_termsHash ?i,
      ci_payload = [(''evidenceId'', JStr (dv_evidenceId ?i)), (''deliveryHash'', JStr (dv_deliveryHash ?i)),
        (''sellerDeliverySig'', JStr sig), (''expiry'', JNum (sc_expiry (dv_anchors ?i)))] \<rparr>"
  have i: "hashable (JNum (Fin 1800000000))" "hashable (JNum (Fin 2))" by code_simp+
  have ex: "sc_expiry (dv_anchors ?i) = Fin 1800000000" "dv_expectedRevision ?i = Fin 2"
    by (simp_all add: sample_delivered_def demoAnchors_def DEMO_EXPIRY_def)
  have pay: "hashable (JObj (ci_payload ?in))" using i by (simp add: ex)
  from sample_command_total[OF this] i(2) obtain c where c: "buildCommand ?C (\<lambda>_. None) ''r'' ''now'' ?in = Inr c"
    and hc: "hashable (JObj (omit [''signature''] c))"
    by (metis command_input.select_convs(3) ex(2))
  from jcs_encoder_ok[OF hc] obtain s where "signCommand ?C c (dv_privateKey ?i) (dv_keyId ?i) = Inr s"
    by (auto simp: signCommand_def sign_under_def from_signing_def Let_def)
  with sg c show ?thesis by (simp add: deliveredCommand_def from_settlement_def del: TYPE_STRINGS.simps)
qed

lemma delivered_total:
  assumes "digests_ok C" and "\<And>es. \<exists>b. jcs C (JObj es) = Inr b"
    and "well_formed_ref (dv_termsHash i)" and "well_formed_ref (dv_deliveryHash i)" and "dv_anchors i = demoAnchors C k"
  shows "\<exists>c. deliveredCommand C env random now i = Inr c"
proof -
  obtain sig where sg: "signStruct C (dv_privateKey i) (vaultDomain (dv_anchors i)) (TYPE_STRINGS Delivery) (delivery_struct i) = Inr sig"
    using delivered_struct_signs[OF assms(1,3,4,5)] by blast
  have "\<exists>b. from_signing (payloadHashOf C (JObj es)) = Inr b" for es using assms(2)[of es] by (auto simp: payloadHashOf_def from_signing_def)
  then have "\<exists>c. buildCommand C env random now x = Inr c" for x
    unfolding buildCommand_def by (metis res_bind_simps(2))
  moreover have "\<exists>c. signCommand C v key keyId = Inr c" for v key keyId
    using assms(2)[of "omit [''signature''] v"] by (auto simp: signCommand_def sign_under_def from_signing_def Let_def)
  ultimately show ?thesis
    by (simp add: deliveredCommand_def sg from_settlement_def del: TYPE_STRINGS.simps) (metis res_bind_simps(2))
qed

theorem delivered_command_verifies_witness:
  "\<exists>h s b. deliveredCommand encoder_crypto (\<lambda>_. None) ''r'' ''now'' (sample_delivered h) = Inr s \<and>
     commandSigningBytes encoder_crypto s = Inr b \<and>
     recover encoder_crypto (js_string (getp (member s ''signature'') ''sig'')) b = Some (addressOfPrivateKey encoder_crypto ''s'')"
proof -
  obtain s where s: "deliveredCommand encoder_crypto (\<lambda>_. None) ''r'' ''now'' (sample_delivered (sha256Ref encoder_crypto ''x'')) = Inr s"
    using sample_delivered_ok[OF sha256Ref_well_formed[OF encoder_crypto_ok(2)]] by blast
  have "dv_privateKey (sample_delivered h) = ''s''" for h by (simp add: sample_delivered_def)
  with delivered_command_verifies[OF s encoder_crypto_ok(3)] s show ?thesis by auto
qed

theorem delivery_request_is_the_buyers_witness:
  "\<exists>s. signDeliveryRequest encoder_crypto ''b'' ''deal_1'' (Fin 1000) = Inr s \<and>
     verifyDeliveryRequest encoder_crypto ''deal_1'' (Fin 1000) s (addressOfPrivateKey encoder_crypto ''b'') 1200 = Inr ()"
proof -
  have "hashable (JObj [(''dealId'', JStr ''deal_1''), (''requestedAt'', JNum (Fin 1000))])" by code_simp
  then obtain b where "deliveryRequestSigningBytes encoder_crypto ''deal_1'' (Fin 1000) = Inr b"
    using jcs_encoder_ok by (fastforce simp: deliveryRequestSigningBytes_def from_signing_def)
  moreover have "request_fresh 1200 (Fin 1000)" by code_simp
  ultimately show ?thesis using delivery_request_is_the_buyers encoder_crypto_ok(2,3) by blast
qed


end
