(* ===== verification/PlacesStats.thy ===== *)
theory PlacesStats
  imports PlacesPrice
begin

text \<open>
  \<open>engine/places.ts\<close>, what a quote discloses and commits to: \<open>aggregateStats\<close>, \<open>sampleRows\<close>,
  \<open>statsCommitment\<close> and the start-up check \<open>assertCardMatchesCorpus\<close>.  \<open>localeCompare\<close> is not
  defined by the repository: its order (\<open>a.localeCompare(b) <= 0\<close>) is the parameter \<open>lc\<close>.  The
  theorems show that the aggregates describe the whole slice, that the sample shows only purchased
  columns, that the criteria commitment binds the query up to order and does not depend on
  \<open>lc\<close>, which queries can be committed to at all, and what a card that passes the check
  says of the corpus.
\<close>

section \<open>Aggregates\<close>

record measure_stats =
  ms_min :: rat
  ms_max :: rat
  ms_mean :: rat
  ms_median :: rat
  ms_n :: nat

record aggregate_stats =
  as_tractCount :: nat
  as_totalPopulation :: rat
  as_totalPop18plus :: rat
  perMeasure :: "(string, measure_stats) jsmap"

definition measure_values :: "tract list \<Rightarrow> string \<Rightarrow> rat list" where
  "measure_values ts m =
     List.map_filter (\<lambda>t. case tract_value t m of Some (Some x) \<Rightarrow> Some x | _ \<Rightarrow> None) ts"

definition median_of :: "rat list \<Rightarrow> rat" where
  "median_of vals =
     (let n = length vals
      in if odd n then vals ! ((n - 1) div 2)
         else fixed_num 4 (fdiv (fadd (vals ! (n div 2 - 1)) (vals ! (n div 2))) 2))"

definition measure_stats_of :: "tract list \<Rightarrow> string \<Rightarrow> measure_stats" where
  "measure_stats_of ts m =
     (let vals = sort_by (\<le>) (measure_values ts m); n = length vals
      in if n = 0 then \<lparr> ms_min = 0, ms_max = 0, ms_mean = 0, ms_median = 0, ms_n = 0 \<rparr>
         else \<lparr> ms_min = vals ! 0, ms_max = vals ! (n - 1),
                ms_mean = fixed_num 4 (fdiv (foldl fadd 0 vals) (of_nat n)),
                ms_median = median_of vals, ms_n = n \<rparr>)"

definition aggregateStats :: "tract list \<Rightarrow> string list \<Rightarrow> aggregate_stats" where
  "aggregateStats ts cols = \<lparr>
     as_tractCount = length ts,
     as_totalPopulation = foldl fadd 0 (map (or_zero \<circ> totalPopulation) ts),
     as_totalPop18plus = foldl fadd 0 (map (or_zero \<circ> totalPop18plus) ts),
     perMeasure = fold (\<lambda>m acc. map_set m (measure_stats_of ts m) acc) cols [] \<rparr>"

section \<open>The free sample\<close>

definition opt_num :: "rat option \<Rightarrow> jsval" where
  "opt_num v = (case v of Some x \<Rightarrow> JNum (Fin x) | None \<Rightarrow> JNull)"

definition value_js :: "rat option option \<Rightarrow> jsval" where
  "value_js v = (case v of Some x \<Rightarrow> opt_num x | None \<Rightarrow> JUndef)"

definition sample_row :: "string list \<Rightarrow> tract \<Rightarrow> (string, jsval) jsmap" where
  "sample_row cols t =
     fold (\<lambda>m row. map_set (measure_column m) (value_js (tract_value t m)) row) cols
       [(''StateAbbr'', JStr (stateAbbr t)), (''StateDesc'', JStr (stateDesc t)),
        (''CountyName'', JStr (countyName t)), (''CountyFIPS'', JStr (countyFips t)),
        (''TractFIPS'', JStr (tractFips t)), (''TotalPopulation'', opt_num (totalPopulation t)),
        (''TotalPop18plus'', opt_num (totalPop18plus t))]"

definition sampleRows :: "tract list \<Rightarrow> string list \<Rightarrow> nat \<Rightarrow> (string, jsval) jsmap list" where
  "sampleRows ts cols n = map (sample_row cols) (take n ts)"

section \<open>The commitments\<close>

text \<open>\<open>Object.fromEntries\<close>, and \<open>Math.round(v * 10000)\<close>.\<close>

definition from_entries :: "(string \<times> jsval) list \<Rightarrow> jsval" where
  "from_entries es = JObj (fold (\<lambda>(k, v). map_set k v) es [])"

definition SCALE :: int where
  "SCALE = 10000"

definition scaled_round :: "rat \<Rightarrow> jsval" where
  "scaled_round x = JInt \<lfloor>fmul x (of_int SCALE) + 1 / 2\<rfloor>"

definition sort_entries_by :: "(string \<Rightarrow> string \<Rightarrow> bool) \<Rightarrow> (string \<times> 'a) list \<Rightarrow> (string \<times> 'a) list" where
  "sort_entries_by lc es = sort_by (\<lambda>a b. lc (fst a) (fst b)) es"

definition threshold_criterion :: "string \<times> jsval \<Rightarrow> string \<times> jsval" where
  "threshold_criterion = (\<lambda>(k, v).
     (k, JObj [(''min'', coalesce (getp v ''min'') JNull), (''max'', coalesce (getp v ''max'') JNull)]))"

definition criteria_of :: "(string \<Rightarrow> string \<Rightarrow> bool) \<Rightarrow> query \<Rightarrow> jsval" where
  "criteria_of lc q = JObj
     [(''columns'', JArr (map JStr (sort_strings (columns q)))),
      (''states'', JArr (map JStr (sort_strings (or_empty (q_states q))))),
      (''counties'', JArr (map JStr (sort_strings (or_empty (q_counties q))))),
      (''minPopulation'', coalesce (minPopulation q) JNull),
      (''thresholds'', from_entries (map threshold_criterion (sort_entries_by lc (object_entries (thresholds q)))))]"

definition measure_commitment :: "string \<times> measure_stats \<Rightarrow> string \<times> jsval" where
  "measure_commitment = (\<lambda>(k, s).
     (k, JObj [(''min'', scaled_round (ms_min s)), (''max'', scaled_round (ms_max s)),
               (''mean'', scaled_round (ms_mean s)), (''median'', scaled_round (ms_median s)),
               (''n'', JInt (int (ms_n s)))]))"

definition scaled_stats :: "(string \<Rightarrow> string \<Rightarrow> bool) \<Rightarrow> aggregate_stats \<Rightarrow> jsval" where
  "scaled_stats lc s = JObj
     [(''tractCount'', JInt (int (as_tractCount s))),
      (''totalPopulation'', JNum (Fin (as_totalPopulation s))),
      (''totalPop18plus'', JNum (Fin (as_totalPop18plus s))),
      (''scale'', JInt SCALE),
      (''perMeasure'', from_entries (map measure_commitment (sort_entries_by lc (perMeasure s))))]"

definition statsCommitment ::
  "crypto \<Rightarrow> (string \<Rightarrow> string \<Rightarrow> bool) \<Rightarrow> aggregate_stats \<Rightarrow> query \<Rightarrow> (hash_error, string \<times> string) res" where
  "statsCommitment C lc s q =
     res_bind (sha256 C (scaled_stats lc s)) (\<lambda>statsHash.
     res_bind (sha256 C (criteria_of lc q)) (\<lambda>criteriaHash.
     Inr (statsHash, criteriaHash)))"

section \<open>The card against the corpus\<close>

definition card_problems_for ::
  "corpus \<Rightarrow> (string, string list) jsmap \<Rightarrow> (string, string) jsmap option \<Rightarrow> string \<Rightarrow> string list" where
  "card_problems_for corpus unavailable tiers m =
     (let sold = (case map_get SOLD_MEASURES m of Some Premium \<Rightarrow> ''premium'' | _ \<Rightarrow> ''standard'');
          claimed = join_with '','' (sort_strings (or_empty (map_get unavailable m)));
          actual = join_with '','' (or_empty (map_get (unavailableStates corpus) m))
      in (case Option.bind tiers (\<lambda>ts. map_get ts m) of
            Some tier \<Rightarrow>
              if tier \<noteq> sold then [m @ '': card tier '' @ [quote_char] @ tier @ [quote_char]
                @ '' but engine prices it as '' @ [quote_char] @ sold @ [quote_char]] else []
          | None \<Rightarrow> [])
         @ (if claimed \<noteq> actual
            then [m @ '': card says unavailable in ['' @ claimed @ ''], corpus says ['' @ actual @ '']'']
            else []))"

definition card_problems ::
  "corpus \<Rightarrow> int \<Rightarrow> int \<Rightarrow> (string, string list) jsmap \<Rightarrow> (string, string) jsmap option \<Rightarrow> string list" where
  "card_problems corpus cardTracts cardStates unavailable tiers =
     (let extra = filter (\<lambda>m. \<not> isSoldMeasure m) (map_keys unavailable);
          missing = filter (\<lambda>m. m \<notin> set (map_keys unavailable)) MEASURE_KEYS;
          n = int (total_tracts (totals corpus)); k = int (total_states (totals corpus))
      in (if n \<noteq> cardTracts then [''card claims '' @ string_of_int cardTracts @ '' tracts, corpus has '' @ string_of_int n] else [])
         @ (if k \<noteq> cardStates then [''card claims '' @ string_of_int cardStates @ '' states, corpus has '' @ string_of_int k] else [])
         @ (if extra \<noteq> [] then [''card sells measures the engine cannot price: '' @ join_with '', '' extra] else [])
         @ (if missing \<noteq> [] then [''engine prices measures the card does not sell: '' @ join_with '', '' missing] else [])
         @ concat (map (card_problems_for corpus unavailable tiers) MEASURE_KEYS)
         @ (if \<not> availabilityIsExhaustive corpus
            then [''card asserts availabilityIsExhaustive at state level, but some measure is partially ''
                  @ ''suppressed within a state '' @ [CHR 0xE2, CHR 0x80, CHR 0x94]
                  @ '' unavailableStates is then an incomplete description''] else []))"

definition assertCardMatchesCorpus ::
  "corpus \<Rightarrow> int \<Rightarrow> int \<Rightarrow> (string, string list) jsmap \<Rightarrow> (string, string) jsmap option \<Rightarrow> (data_error, unit) res" where
  "assertCardMatchesCorpus corpus cardTracts cardStates unavailable tiers =
     (let problems = card_problems corpus cardTracts cardStates unavailable tiers
      in if problems \<noteq> [] then Inl (CardMismatch problems) else Inr ())"

section \<open>What the aggregates say\<close>

lemma map_get_fold_set:
  "map_get (fold (\<lambda>m acc. map_set (g m) (f m) acc) ms init) k =
     (case find (\<lambda>m. g m = k) (rev ms) of Some m \<Rightarrow> Some (f m) | None \<Rightarrow> map_get init k)"
  by (induction ms rule: rev_induct) (auto simp: map_get_set)

lemma map_get_fold_self:
  "map_get (fold (\<lambda>m acc. map_set m (f m) acc) ms init) k = (if k \<in> set ms then Some (f k) else map_get init k)"
  by (induction ms arbitrary: init) (auto simp: map_get_set)

lemma set_map_filter: "set (List.map_filter f xs) = {y. \<exists>x\<in>set xs. f x = Some y}"
  by (induction xs) (auto simp: map_filter_simps split: option.splits)

lemma sort_by_Nil [simp]: "sort_by le xs = [] \<longleftrightarrow> xs = []"
  by (metis length_0_conv length_sort_by)

lemma published_case:
  "(case tract_value t m of Some (Some x) \<Rightarrow> Some x | _ \<Rightarrow> None) = Some y \<longleftrightarrow> published t m y"
  by (auto simp: published_def split: option.splits)

lemma measure_values_set: "set (measure_values ts m) = {x. \<exists>t\<in>set ts. published t m x}"
  by (simp add: measure_values_def set_map_filter published_case)

lemma measure_values_length: "length (measure_values ts m) = length (filter (\<lambda>t. has_value t m) ts)"
  by (induction ts) (auto simp: measure_values_def has_value_def map_filter_simps split: option.splits)

lemma sorted_values: "sorted_wrt (\<le>) (sort_by (\<le>) (xs :: rat list))"
  by (rule sorted_sort_by) linarith+

lemma sorted_first_last:
  fixes xs :: "rat list"
  assumes "sorted_wrt (\<le>) xs" "x \<in> set xs"
  shows "xs ! 0 \<le> x" "x \<le> xs ! (length xs - 1)"
proof -
  from assms(2) obtain i where i: "i < length xs" "xs ! i = x" by (auto simp: in_set_conv_nth)
  have s: "sorted xs" using assms(1) by simp
  show "xs ! 0 \<le> x" using sorted_nth_mono[OF s, of 0 i] i by simp
  show "x \<le> xs ! (length xs - 1)" using sorted_nth_mono[OF s, of i "length xs - 1"] i by simp
qed

lemma measure_stats_range:
  assumes "ms_n (measure_stats_of ts m) \<noteq> 0"
  shows "\<exists>t\<in>set ts. published t m (ms_min (measure_stats_of ts m))"
    and "\<exists>t\<in>set ts. published t m (ms_max (measure_stats_of ts m))"
    and "t \<in> set ts \<Longrightarrow> published t m x \<Longrightarrow>
      ms_min (measure_stats_of ts m) \<le> x \<and> x \<le> ms_max (measure_stats_of ts m)"
proof -
  let ?v = "sort_by (\<le>) (measure_values ts m)"
  have n: "measure_values ts m \<noteq> []"
    using assms by (auto simp: measure_stats_of_def Let_def)
  have eq: "ms_min (measure_stats_of ts m) = ?v ! 0" "ms_max (measure_stats_of ts m) = ?v ! (length ?v - 1)"
    using n by (simp_all add: measure_stats_of_def Let_def)
  have "?v ! 0 \<in> set ?v" "?v ! (length ?v - 1) \<in> set ?v"
    using n nth_mem[of 0 ?v] nth_mem[of "length ?v - 1" ?v] by simp_all
  then show "\<exists>t\<in>set ts. published t m (ms_min (measure_stats_of ts m))"
    "\<exists>t\<in>set ts. published t m (ms_max (measure_stats_of ts m))"
    unfolding eq by (simp_all add: measure_values_set)
  assume "t \<in> set ts" "published t m x"
  then have "x \<in> set ?v" by (auto simp: measure_values_set)
  from sorted_first_last[OF sorted_values this]
  show "ms_min (measure_stats_of ts m) \<le> x \<and> x \<le> ms_max (measure_stats_of ts m)" unfolding eq by simp
qed

lemma measure_stats_n: "ms_n (measure_stats_of ts m) = length (filter (\<lambda>t. has_value t m) ts)"
  by (simp add: measure_stats_of_def Let_def measure_values_length[symmetric])

lemma matched_has_value:
  assumes "corpus_ok c" "validateQuery q c = []" "t \<in> set (m_tracts (evaluateQuery q c))" "m \<in> set (columns q)"
  shows "has_value t m"
  using assms evaluateQuery_tracts[of q c]
  by (fastforce simp: validateQuery_Nil query_problems_iff corpus_ok_def tract_matches_def published_def has_value_def)

section \<open>Nothing but the purchased columns is disclosed\<close>

lemma map_eq_map_filter:
  "map f xs = map f ys \<Longrightarrow> (\<And>x y. f x = f y \<Longrightarrow> g x = g y) \<Longrightarrow> List.map_filter g xs = List.map_filter g ys"
proof (induction xs arbitrary: ys)
  case (Cons x xs)
  from Cons.prems(1) obtain y ys' where y: "ys = y # ys'" "f x = f y" "map f xs = map f ys'" by (cases ys) auto
  with Cons.IH[OF y(3) Cons.prems(2)] Cons.prems(2)[OF y(2)] show ?case
    by (simp add: map_filter_simps split: option.splits)
qed simp

lemma map_eq_map: "map f xs = map f ys \<Longrightarrow> (\<And>x y. f x = f y \<Longrightarrow> g x = g y) \<Longrightarrow> map g xs = map g ys"
proof (induction xs arbitrary: ys)
  case (Cons x xs)
  from Cons.prems(1) obtain y ys' where y: "ys = y # ys'" "f x = f y" "map f xs = map f ys'" by (cases ys) auto
  with Cons.IH[OF y(3) Cons.prems(2)] Cons.prems(2)[OF y(2)] show ?case by simp
qed simp

lemma measure_stats_projection:
  assumes p: "map (project cols) ts = map (project cols) us" and m: "m \<in> set cols"
  shows "measure_stats_of ts m = measure_stats_of us m"
proof -
  have "measure_values ts m = measure_values us m"
    unfolding measure_values_def
  proof (rule map_eq_map_filter[OF p])
    fix t u assume e: "project cols t = project cols u"
    show "(case tract_value t m of Some (Some x) \<Rightarrow> Some x | _ \<Rightarrow> None)
        = (case tract_value u m of Some (Some x) \<Rightarrow> Some x | _ \<Rightarrow> None)"
      unfolding project_value[OF e m] ..
  qed
  then show ?thesis by (simp add: measure_stats_of_def)
qed

lemma aggregate_projection:
  assumes p: "map (project cols) ts = map (project cols) us"
  shows "aggregateStats ts cols = aggregateStats us cols"
proof -
  have "map (or_zero \<circ> totalPopulation) ts = map (or_zero \<circ> totalPopulation) us"
    by (rule map_eq_map[OF p]) (drule project_eqD(6), simp)
  moreover have "map (or_zero \<circ> totalPop18plus) ts = map (or_zero \<circ> totalPop18plus) us"
    by (rule map_eq_map[OF p]) (drule project_eqD(7), simp)
  moreover have "fold (\<lambda>m acc. map_set m (measure_stats_of ts m) acc) cols []
      = fold (\<lambda>m acc. map_set m (measure_stats_of us m) acc) cols []"
    by (rule fold_cong) (simp_all add: measure_stats_projection[OF p] fun_eq_iff)
  ultimately show ?thesis
    using map_eq_imp_length_eq[OF p] by (simp add: aggregateStats_def)
qed

lemma sample_row_projection:
  assumes "project cols t = project cols u"
  shows "sample_row cols t = sample_row cols u"
proof -
  have "fold (\<lambda>m row. map_set (measure_column m) (value_js (tract_value t m)) row) cols init
      = fold (\<lambda>m row. map_set (measure_column m) (value_js (tract_value u m)) row) cols init" for init
    by (rule fold_cong) (simp_all add: project_value[OF assms] fun_eq_iff)
  then show ?thesis by (simp add: sample_row_def project_eqD[OF assms])
qed

lemma sample_projection:
  assumes "map (project cols) ts = map (project cols) us"
  shows "sampleRows ts cols n = sampleRows us cols n"
  unfolding sampleRows_def
proof (rule map_eq_map)
  show "map (project cols) (take n ts) = map (project cols) (take n us)"
    using assms by (simp flip: take_map)
qed (rule sample_row_projection)

lemma sample_row_keys: "set (map_keys (sample_row cols t)) =
  {''StateAbbr'', ''StateDesc'', ''CountyName'', ''CountyFIPS'', ''TractFIPS'', ''TotalPopulation'', ''TotalPop18plus''}
  \<union> measure_column ` set cols"
proof -
  have "set (map_keys (fold (\<lambda>m row. map_set (measure_column m) (f m) row) cols init))
      = set (map_keys init) \<union> measure_column ` set cols" for f and init :: "(string, jsval) jsmap"
    by (induction cols arbitrary: init) (auto simp: map_keys_set)
  then show ?thesis by (simp add: sample_row_def map_keys_def)
qed

section \<open>What the criteria commitment says\<close>

lemma from_entries_distinct: "distinct (map fst es) \<Longrightarrow> from_entries es = JObj es"
proof -
  have "fold (\<lambda>(k, v). map_set k v) es acc = acc @ es"
    if "distinct (map fst es)" "fst ` set es \<inter> fst ` set acc = {}" for acc
    using that
  proof (induction es arbitrary: acc)
    case (Cons e es)
    obtain k v where e: "e = (k, v)" by (cases e)
    have "map_set k v acc = acc @ [(k, v)]"
      using Cons.prems(2) e by (induction acc) (auto simp: map_set_def)
    with Cons e show ?case by (auto simp: image_iff)
  qed simp
  from this[of "[]"] show "distinct (map fst es) \<Longrightarrow> from_entries es = JObj es"
    by (simp add: from_entries_def)
qed

lemma distinct_fst_sort: "distinct (map fst (sort_by le es)) = distinct (map fst es)"
  by (metis mset_eq_imp_distinct_iff mset_map mset_sort_by)

lemma fst_threshold_criterion [simp]: "fst (threshold_criterion e) = fst e"
  by (simp add: threshold_criterion_def split_beta)

lemma threshold_entries_distinct:
  "distinct (map fst es) \<Longrightarrow> distinct (map fst (map threshold_criterion (sort_entries_by lc es)))"
  by (simp add: comp_def sort_entries_by_def distinct_fst_sort)

definition threshold_bounds :: "jsval \<Rightarrow> jsval \<times> jsval" where
  "threshold_bounds th = (getp th ''min'', getp th ''max'')"

definition query_entries_ok :: "query \<Rightarrow> bool" where
  "query_entries_ok q \<longleftrightarrow>
     distinct (map fst (object_entries (thresholds q))) \<and> bound_ok (minPopulation q) \<and>
     (\<forall>(k, v)\<in>set (object_entries (thresholds q)). bound_ok (getp v ''min'') \<and> bound_ok (getp v ''max''))"

text \<open>Two queries that differ in the order of their lists and members only.\<close>

definition same_criteria :: "query \<Rightarrow> query \<Rightarrow> bool" where
  "same_criteria q r \<longleftrightarrow>
     mset (columns q) = mset (columns r) \<and>
     mset (or_empty (q_states q)) = mset (or_empty (q_states r)) \<and>
     mset (or_empty (q_counties q)) = mset (or_empty (q_counties r)) \<and>
     minPopulation q = minPopulation r \<and>
     (\<forall>k. map_option threshold_bounds (map_of (object_entries (thresholds q)) k) =
          map_option threshold_bounds (map_of (object_entries (thresholds r)) k))"

lemma bound_canon:
  assumes "bound_ok v" "bound_ok w"
  shows "canon (coalesce v JNull) = canon (coalesce w JNull) \<longleftrightarrow> v = w"
  using assms by (auto simp: bound_ok_def)

lemma bound_defined [simp]: "coalesce v JNull \<noteq> JUndef"
  by (simp add: coalesce_def nullish_def)

lemma canon_strings: "canon (JArr (map JStr (sort_strings xs))) = canon (JArr (map JStr (sort_strings ys))) \<longleftrightarrow> mset xs = mset ys"
proof -
  have "map canon (map JStr zs) = map JStr zs" for zs by simp
  moreover have "map JStr xs = map JStr ys \<longleftrightarrow> xs = ys" for xs ys
    by (simp add: inj_on_def inj_map_eq_map)
  ultimately show ?thesis
    by (metis canon.simps(1) jsval.inject(4) mset_sort_strings sort_strings_mset_cong)
qed

text \<open>The canonical form of one threshold of the criteria.\<close>

definition canon_threshold :: "jsval \<Rightarrow> jsval" where
  "canon_threshold v = JObj [(''max'', canon (coalesce (getp v ''max'') JNull)), (''min'', canon (coalesce (getp v ''min'') JNull))]"

lemma canon_threshold_criterion:
  "(\<lambda>(k, v). (k, canon v)) (threshold_criterion (k, v)) = (k, canon_threshold v)"
  by (simp add: threshold_criterion_def canon_threshold_def sorted_entries_def defined_entries_def entry_le_def)

lemma image_eq_image_iff:
  "g ` A = g ` B \<longleftrightarrow> (\<forall>x\<in>A. \<exists>y\<in>B. g x = g y) \<and> (\<forall>y\<in>B. \<exists>x\<in>A. g x = g y)"
  by (auto simp: image_iff set_eq_iff) metis+

lemma image_kernel:
  assumes "\<And>x y. x \<in> A \<union> B \<Longrightarrow> y \<in> A \<union> B \<Longrightarrow> g x = g y \<longleftrightarrow> b x = b y"
  shows "g ` A = g ` B \<longleftrightarrow> b ` A = b ` B"
  unfolding image_eq_image_iff using assms by blast

lemma thresholds_canon:
  assumes d: "distinct (map fst es)" "distinct (map fst fs)"
    and b: "\<forall>(k, v)\<in>set es. bound_ok (getp v ''min'') \<and> bound_ok (getp v ''max'')"
      "\<forall>(k, v)\<in>set fs. bound_ok (getp v ''min'') \<and> bound_ok (getp v ''max'')"
  shows "canon (from_entries (map threshold_criterion (sort_entries_by lc es))) =
      canon (from_entries (map threshold_criterion (sort_entries_by lc' fs))) \<longleftrightarrow>
    (\<forall>k. map_option threshold_bounds (map_of es k) = map_option threshold_bounds (map_of fs k))"
proof -
  let ?t = "\<lambda>lc es. map threshold_criterion (sort_entries_by lc es)"
  let ?g = "\<lambda>(k, v). (k, canon_threshold v)"
  let ?b = "\<lambda>(k, v). (k, threshold_bounds v)"
  have u: "JUndef \<notin> snd ` set (?t lc es)" for lc es
    by (auto simp: threshold_criterion_def)
  have e: "(\<lambda>(k, v). (k, canon v)) (threshold_criterion e) = ?g e" for e
    by (cases e) (simp only: canon_threshold_criterion prod.case)
  have im: "(\<lambda>(k, v). (k, canon v)) ` set (?t lc es) = ?g ` set es" for lc es
    by (simp only: set_map sort_entries_by_def set_sort_by image_image e)
  have inj: "canon_threshold v = canon_threshold w \<longleftrightarrow> threshold_bounds v = threshold_bounds w"
    if "(k, v) \<in> set es \<union> set fs" "(k', w) \<in> set es \<union> set fs" for k v k' w
  proof -
    have v: "bound_ok (getp v ''min'')" "bound_ok (getp v ''max'')" using that(1) b by blast+
    have w: "bound_ok (getp w ''min'')" "bound_ok (getp w ''max'')" using that(2) b by blast+
    show ?thesis
      by (auto simp only: canon_threshold_def threshold_bounds_def jsval.inject list.inject prod.inject
          bound_canon[OF v(1) w(1)] bound_canon[OF v(2) w(2)])
  qed
  have "?g ` set es = ?g ` set fs \<longleftrightarrow> ?b ` set es = ?b ` set fs"
  proof (rule image_kernel)
    fix x y assume "x \<in> set es \<union> set fs" "y \<in> set es \<union> set fs"
    with inj[of "fst x" "snd x" "fst y" "snd y"] show "?g x = ?g y \<longleftrightarrow> ?b x = ?b y"
      by (cases x; cases y) simp
  qed
  also have "\<dots> \<longleftrightarrow> set (map ?b es) = set (map ?b fs)" by simp
  also have "\<dots> \<longleftrightarrow> map_of (map ?b es) = map_of (map ?b fs)"
    by (rule map_of_inject_set[symmetric]) (use d in \<open>simp_all add: comp_def split_def\<close>)
  also have "\<dots> \<longleftrightarrow> (\<forall>k. map_option threshold_bounds (map_of es k) = map_option threshold_bounds (map_of fs k))"
    by (simp add: fun_eq_iff map_of_map)
  finally show ?thesis
    unfolding from_entries_distinct[OF threshold_entries_distinct[OF d(1)]]
      from_entries_distinct[OF threshold_entries_distinct[OF d(2)]]
      canon_JObj_eq_iff[OF threshold_entries_distinct[OF d(1)] threshold_entries_distinct[OF d(2)] u u] im .
qed

lemma from_entries_not_undef [simp]: "from_entries es \<noteq> JUndef"
  by (simp add: from_entries_def)

lemma canon_criteria:
  "canon (criteria_of lc q) = JObj
     [(''columns'', canon (JArr (map JStr (sort_strings (columns q))))),
      (''counties'', canon (JArr (map JStr (sort_strings (or_empty (q_counties q)))))),
      (''minPopulation'', canon (coalesce (minPopulation q) JNull)),
      (''states'', canon (JArr (map JStr (sort_strings (or_empty (q_states q)))))),
      (''thresholds'', canon (from_entries (map threshold_criterion (sort_entries_by lc (object_entries (thresholds q))))))]"
  by (simp add: criteria_of_def sorted_entries_def defined_entries_def entry_le_def)

lemma canon_criteria_iff:
  assumes "query_entries_ok q" "query_entries_ok r"
  shows "canon (criteria_of lc q) = canon (criteria_of lc' r) \<longleftrightarrow> same_criteria q r"
  using assms thresholds_canon[of "object_entries (thresholds q)" "object_entries (thresholds r)" lc lc']
  unfolding canon_criteria jsval.inject list.inject prod.inject canon_strings
  by (auto simp only: query_entries_ok_def same_criteria_def bound_canon simp_thms)

definition bound_integral :: "jsval \<Rightarrow> bool" where
  "bound_integral v \<longleftrightarrow> v = JUndef \<or> (\<exists>n. v = JNum n \<and> num_is_safe_integer n)"

definition criteria_integral :: "query \<Rightarrow> bool" where
  "criteria_integral q \<longleftrightarrow>
     bound_integral (minPopulation q) \<and>
     (\<forall>(k, v)\<in>set (object_entries (thresholds q)).
        bound_integral (getp v ''min'') \<and> bound_integral (getp v ''max''))"

lemma hashable_bound: "bound_ok v \<Longrightarrow> hashable (coalesce v JNull) \<longleftrightarrow> bound_integral v"
  by (auto simp: bound_ok_def bound_integral_def)

lemma hashable_criteria:
  assumes "query_entries_ok q"
  shows "hashable (criteria_of lc q) \<longleftrightarrow> criteria_integral q"
proof -
  let ?es = "object_entries (thresholds q)"
  have d: "distinct (map fst ?es)" and mp: "bound_ok (minPopulation q)"
    and b: "\<forall>(k, v)\<in>set ?es. bound_ok (getp v ''min'') \<and> bound_ok (getp v ''max'')"
    using assms by (simp_all add: query_entries_ok_def)
  have str: "list_all hashable (map JStr xs)" for xs by (simp add: list_all_iff)
  have one: "(snd (threshold_criterion e) = JUndef \<or> hashable (snd (threshold_criterion e))) \<longleftrightarrow>
      bound_integral (getp (snd e) ''min'') \<and> bound_integral (getp (snd e) ''max'')" if "e \<in> set ?es" for e
    using b that by (cases e) (auto simp: threshold_criterion_def hashable_bound)
  have "hashable (from_entries (map threshold_criterion (sort_entries_by lc ?es))) \<longleftrightarrow>
      (\<forall>e\<in>set ?es. bound_integral (getp (snd e) ''min'') \<and> bound_integral (getp (snd e) ''max''))"
    unfolding from_entries_distinct[OF threshold_entries_distinct[OF d]] hashable.simps
    by (simp add: list_all_iff split_beta sort_entries_by_def one)
  then show ?thesis
    by (simp only: criteria_of_def hashable.simps list.pred_inject prod.case str hashable_bound[OF mp])
      (auto simp: criteria_integral_def)
qed

lemma statsCommitment_ok:
  "(\<exists>h. statsCommitment C lc s q = Inr h) \<longleftrightarrow> hashable (scaled_stats lc s) \<and> hashable (criteria_of lc q)"
proof -
  have "(\<exists>h. statsCommitment C lc s q = Inr h) \<longleftrightarrow>
      (\<exists>d. sha256 C (scaled_stats lc s) = Inr d) \<and> (\<exists>d. sha256 C (criteria_of lc q) = Inr d)"
    by (auto simp: statsCommitment_def res_bind_Inr_iff)
  then show ?thesis
    using encode_hashable[of _ "''$''"] by (auto simp: sha256_def res_bind_Inr_iff)
qed

lemma statsCommitment_Inr:
  "statsCommitment C lc s q = Inr (h, a) \<longleftrightarrow> sha256 C (scaled_stats lc s) = Inr h \<and> sha256 C (criteria_of lc q) = Inr a"
  by (auto simp: statsCommitment_def res_bind_Inr_iff)


section \<open>What a card that passes the check says\<close>

definition plain_code :: "string \<Rightarrow> bool" where
  "plain_code s \<longleftrightarrow> s \<noteq> [] \<and> plain_field s"

lemma join_plain_ne: "list_all plain_code (x # xs) \<Longrightarrow> join_with '','' (x # xs) \<noteq> []"
  by (cases xs) (auto simp: plain_code_def)

lemma split_join_plain: "list_all plain_code (x # xs) \<Longrightarrow> splitCsvLine (join_with '','' (x # xs)) = x # xs"
  by (rule splitCsvLine_join)
    (auto simp: list_all2_same csv_cell_def plain_code_def list_all_iff intro!: list.rel_refl_strong)

lemma join_plain_inject:
  assumes "list_all plain_code xs" "list_all plain_code ys" "join_with '','' xs = join_with '','' ys"
  shows "xs = ys"
  using assms split_join_plain join_plain_ne by (cases xs; cases ys) (metis join_with.simps(1))+

definition card_tier_ok :: "(string, string) jsmap option \<Rightarrow> string \<Rightarrow> bool" where
  "card_tier_ok tiers m \<longleftrightarrow>
     (case Option.bind tiers (\<lambda>ts. map_get ts m) of
        Some tier \<Rightarrow> tier = (case map_get SOLD_MEASURES m of Some Premium \<Rightarrow> ''premium'' | _ \<Rightarrow> ''standard'')
      | None \<Rightarrow> True)"

definition card_describes ::
  "corpus \<Rightarrow> int \<Rightarrow> int \<Rightarrow> (string, string list) jsmap \<Rightarrow> (string, string) jsmap option \<Rightarrow> bool" where
  "card_describes c n k un tiers \<longleftrightarrow>
     n = int (length (tracts c)) \<and> k = int (card (stateAbbr ` set (tracts c))) \<and>
     set (map_keys un) = set MEASURE_KEYS \<and>
     (\<forall>m\<in>set MEASURE_KEYS. card_tier_ok tiers m \<and>
        mset (or_empty (map_get un m)) = mset (filter (gap_in (tracts c) m) (corpus_states c))) \<and>
     (\<forall>m\<in>set MEASURE_KEYS. uniform_in_states (tracts c) m)"

lemma card_problems_for_iff:
  "card_problems_for c un tiers m = [] \<longleftrightarrow> card_tier_ok tiers m \<and>
     join_with '','' (sort_strings (or_empty (map_get un m))) = join_with '','' (or_empty (map_get (unavailableStates c) m))"
  by (simp add: card_problems_for_def Let_def card_tier_ok_def split: option.splits)

lemma list_all_sort_strings [simp]: "list_all P (sort_strings xs) = list_all P xs"
  by (simp add: list_all_iff)

lemma unavailable_join:
  assumes c: "corpus_ok c" and m: "m \<in> set MEASURE_KEYS"
    and p: "list_all plain_code (corpus_states c)" "list_all plain_code claimed"
  shows "join_with '','' (sort_strings claimed) = join_with '','' (or_empty (map_get (unavailableStates c) m))
    \<longleftrightarrow> mset claimed = mset (filter (gap_in (tracts c) m) (corpus_states c))"
proof -
  have "unavailableStates c
      = map (\<lambda>m. (m, sort_strings (filter (gap_in (tracts c) m) (corpus_states c)))) MEASURE_KEYS"
    using c by (simp add: corpus_ok_def)
  then have eq: "or_empty (map_get (unavailableStates c) m) = sort_strings (filter (gap_in (tracts c) m) (corpus_states c))"
    using m by (simp add: map_get_table or_empty_def)
  have "list_all plain_code (filter (gap_in (tracts c) m) (corpus_states c))"
    using p(1) by (auto simp: list_all_iff)
  then have "join_with '','' (sort_strings claimed) = join_with '','' (or_empty (map_get (unavailableStates c) m))
      \<longleftrightarrow> sort_strings claimed = sort_strings (filter (gap_in (tracts c) m) (corpus_states c))"
    unfolding eq using p(2) join_plain_inject by (metis list_all_sort_strings)
  then show ?thesis by (metis mset_sort_strings sort_strings_mset_cong)
qed

lemma card_check:
  assumes c: "corpus_ok c" and p: "list_all plain_code (corpus_states c)"
    and q: "\<forall>m\<in>set MEASURE_KEYS. list_all plain_code (or_empty (map_get un m))"
  shows "assertCardMatchesCorpus c n k un tiers = Inr () \<longleftrightarrow> card_describes c n k un tiers"
proof -
  have st: "length (corpus_states c) = card (stateAbbr ` set (tracts c))"
    using c by (metis corpus_ok_def distinct_card distinct_js_set_of list.set_map set_js_set_of)
  have ms: "concat (map (card_problems_for c un tiers) MEASURE_KEYS) = [] \<longleftrightarrow>
      (\<forall>m\<in>set MEASURE_KEYS. card_tier_ok tiers m \<and>
        mset (or_empty (map_get un m)) = mset (filter (gap_in (tracts c) m) (corpus_states c)))"
    unfolding concat_eq_Nil_conv set_map ball_simps card_problems_for_iff using unavailable_join[OF c _ p] q by blast
  have keys: "filter (\<lambda>m. \<not> isSoldMeasure m) (map_keys un) = [] \<and> filter (\<lambda>m. m \<notin> set (map_keys un)) MEASURE_KEYS = []
      \<longleftrightarrow> set (map_keys un) = set MEASURE_KEYS"
    by (auto simp: filter_empty_conv isSoldMeasure_def)
  have ex: "availabilityIsExhaustive c = (\<forall>m\<in>set MEASURE_KEYS. uniform_in_states (tracts c) m)"
    and tt: "total_tracts (totals c) = length (tracts c)" "total_states (totals c) = length (corpus_states c)"
    using c by (simp_all add: corpus_ok_def)
  have "assertCardMatchesCorpus c n k un tiers = Inr () \<longleftrightarrow> card_problems c n k un tiers = []"
    by (simp add: assertCardMatchesCorpus_def Let_def)
  also have "\<dots> \<longleftrightarrow> card_describes c n k un tiers"
    unfolding card_problems_def Let_def append_is_Nil_conv ms card_describes_def keys[symmetric] ex[symmetric] tt st
    by (auto split: if_splits)
  finally show ?thesis .
qed

section \<open>Properties\<close>

text \<open>
  The aggregates describe the whole matched slice: for every purchased measure of an accepted
  query the count is the number of matched tracts, every matched tract publishes a value between the
  minimum and the maximum, and both are values of matched tracts.
\<close>

theorem aggregates_cover_the_slice:
  assumes "corpus_ok c" and "validateQuery q c = []" and "m \<in> set (columns q)"
    and "ts = m_tracts (evaluateQuery q c)" and "ts \<noteq> []"
  shows "\<exists>s. map_get (perMeasure (aggregateStats ts (columns q))) m = Some s \<and> ms_n s = length ts \<and>
    (\<forall>t\<in>set ts. \<exists>x. published t m x \<and> ms_min s \<le> x \<and> x \<le> ms_max s) \<and>
    (\<exists>t\<in>set ts. published t m (ms_min s)) \<and> (\<exists>t\<in>set ts. published t m (ms_max s))"
proof (intro exI conjI)
  let ?s = "measure_stats_of ts m"
  show "map_get (perMeasure (aggregateStats ts (columns q))) m = Some ?s"
    using assms(3) by (simp add: aggregateStats_def map_get_fold_self)
  have v: "has_value t m" if "t \<in> set ts" for t
    using matched_has_value[OF assms(1,2) _ assms(3)] that assms(4) by simp
  then show n: "ms_n ?s = length ts" unfolding measure_stats_n by (metis filter_True)
  with assms(5) have n0: "ms_n ?s \<noteq> 0" by simp
  show "\<forall>t\<in>set ts. \<exists>x. published t m x \<and> ms_min ?s \<le> x \<and> x \<le> ms_max ?s"
  proof
    fix t assume t: "t \<in> set ts"
    with v obtain x where x: "published t m x"
      by (fastforce simp: has_value_def published_def split: option.splits)
    with measure_stats_range(3)[OF n0 t x] show "\<exists>x. published t m x \<and> ms_min ?s \<le> x \<and> x \<le> ms_max ?s" by blast
  qed
  show "\<exists>t\<in>set ts. published t m (ms_min ?s)" "\<exists>t\<in>set ts. published t m (ms_max ?s)"
    by (rule measure_stats_range[OF n0])+
qed

lemma sample_matched:
  "m_tracts (evaluateQuery sample_query (corpus_from (sample_tracts None)))
     = [sample_tract ''CA'' ''1'' 4000 (Some 12) None]"
proof -
  have "query_accepted sample_query (corpus_from (sample_tracts None))"
    using sample_query_valid by (simp add: validateQuery_Nil query_problems_iff)
  moreover have "list_all tract_ok (tracts (corpus_from (sample_tracts None)))"
    using sample_tracts_ok(1) by (simp add: corpus_ok_def)
  ultimately have "m_tracts (evaluateQuery sample_query (corpus_from (sample_tracts None)))
      = filter (tract_matches sample_query) (sample_tracts None)"
    by (simp add: evaluateQuery_tracts sample_tracts_ok(2))
  also have "\<dots> = [sample_tract ''CA'' ''1'' 4000 (Some 12) None]"
    by (simp add: sample_tracts_def sample_tract_def sample_query_def tract_matches_def or_empty_def published_def
        tract_value_def map_get_def MEASURE_KEYS_def in_range_def object_entries_def)
  finally show ?thesis .
qed

theorem aggregates_cover_the_slice_witness:
  "\<exists>s. map_get (perMeasure (aggregateStats [sample_tract ''CA'' ''1'' 4000 (Some 12) None] (columns sample_query))) ''DIABETES''
     = Some s \<and> ms_n s = 1"
proof -
  have "''DIABETES'' \<in> set (columns sample_query)" by (simp add: sample_query_def)
  from aggregates_cover_the_slice[OF sample_tracts_ok(1) sample_query_valid this sample_matched[symmetric]]
  show ?thesis by auto
qed

text \<open>
  The free sample is the first rows of the slice in file order, at most the number asked, and
  each row carries the identity columns and the purchased measures and nothing else.
\<close>

theorem sample_is_projected:
  "map (\<lambda>row. set (map_keys row)) (sampleRows ts cols n) = replicate (min n (length ts))
     ({''StateAbbr'', ''StateDesc'', ''CountyName'', ''CountyFIPS'', ''TractFIPS'', ''TotalPopulation'', ''TotalPop18plus''}
      \<union> measure_column ` set cols)"
  by (simp add: sampleRows_def comp_def sample_row_keys map_replicate_const min.commute)

text \<open>
  The criteria commitment identifies the query. Two queries with numeric bounds that are both
  committed to have the same criteria hash exactly when they ask for the same columns, states and
  counties in any order, the same population floor and the same bounds per threshold, or else their
  canonical forms are an explicit collision; the order \<open>localeCompare\<close> gives does not matter.
\<close>

theorem criteria_commitment_binds:
  assumes "query_entries_ok q" and "query_entries_ok r"
    and "statsCommitment C lc s q = Inr (h, a)" and "statsCommitment C lc' s' r = Inr (h', b)"
  shows "a = b \<longleftrightarrow> same_criteria q r \<or>
    (\<exists>x y. encode (criteria_of lc q) ''$'' = Inr x \<and> encode (criteria_of lc' r) ''$'' = Inr y \<and> collision C x y)"
  using sha256_eq_iff[of C "criteria_of lc q" a "criteria_of lc' r" b] assms
  by (simp add: statsCommitment_Inr canon_criteria_iff)

definition sample_query' :: query where
  "sample_query' = \<lparr> columns = [''SLEEP'', ''DIABETES''], q_states = Some [''PA'', ''CA''], q_counties = Some [],
     minPopulation = JInt 1000, thresholds = JObj [(''DIABETES'', JObj [(''max'', JUndef), (''min'', JInt 5)])] \<rparr>"

lemma sample_query_entries: "query_entries_ok sample_query" "query_entries_ok sample_query'"
  by (simp_all add: query_entries_ok_def sample_query_def sample_query'_def object_entries_def bound_ok_def)

lemma sample_query_commits:
  "\<exists>h a. statsCommitment sample_crypto lc (aggregateStats [] []) sample_query = Inr (h, a)"
  "\<exists>h a. statsCommitment sample_crypto lc (aggregateStats [] []) sample_query' = Inr (h, a)"
proof -
  have st: "hashable (scaled_stats lc (aggregateStats [] []))"
    by (simp add: scaled_stats_def aggregateStats_def sort_entries_by_def from_entries_def SCALE_def
        num_is_safe_integer_def rat_is_int_def)
  have five: "num_is_safe_integer (Fin 5)" "num_is_safe_integer (Fin 1000)" by code_simp+
  have "criteria_integral sample_query" "criteria_integral sample_query'"
    using five by (simp_all add: criteria_integral_def bound_integral_def sample_query_def sample_query'_def object_entries_def)
  then show "\<exists>h a. statsCommitment sample_crypto lc (aggregateStats [] []) sample_query = Inr (h, a)"
    "\<exists>h a. statsCommitment sample_crypto lc (aggregateStats [] []) sample_query' = Inr (h, a)"
    using statsCommitment_ok[of sample_crypto lc "aggregateStats [] []"] st
    by (simp_all add: hashable_criteria sample_query_entries)
qed

theorem criteria_commitment_binds_witness:
  "\<exists>h a h' b. statsCommitment sample_crypto str_le (aggregateStats [] []) sample_query = Inr (h, a)
     \<and> statsCommitment sample_crypto (\<lambda>x y. True) (aggregateStats [] []) sample_query' = Inr (h', b) \<and> a = b"
proof -
  obtain h a h' b where c: "statsCommitment sample_crypto str_le (aggregateStats [] []) sample_query = Inr (h, a)"
    "statsCommitment sample_crypto (\<lambda>x y. True) (aggregateStats [] []) sample_query' = Inr (h', b)"
    using sample_query_commits by metis
  have "same_criteria sample_query sample_query'"
    by (simp add: same_criteria_def sample_query_def sample_query'_def or_empty_def object_entries_def
        threshold_bounds_def add_mset_commute)
  then show ?thesis using criteria_commitment_binds[OF sample_query_entries c] c by blast
qed

text \<open>
  What can be committed to. With numeric bounds, a commitment exists exactly when the scaled
  statistics are integers and the population floor and every threshold bound of the query is absent
  or a safe integer; a query with a fractional threshold bound has none, although prevalences are
  published to one decimal and validation accepts it.
\<close>

theorem commitment_needs_integral_bounds:
  assumes "query_entries_ok q"
  shows "(\<exists>h. statsCommitment C lc s q = Inr h) \<longleftrightarrow> hashable (scaled_stats lc s) \<and> criteria_integral q"
  unfolding statsCommitment_ok hashable_criteria[OF assms] ..

definition fractional_query :: query where
  "fractional_query = sample_query \<lparr> thresholds := JObj [(''DIABETES'', JObj [(''min'', JNum (Fin (23 / 2)))])] \<rparr>"

theorem commitment_needs_integral_bounds_witness:
  "validateQuery fractional_query (corpus_from (sample_tracts None)) = [] \<and>
   (\<forall>h. statsCommitment sample_crypto str_le (aggregateStats [] []) fractional_query \<noteq> Inr h)"
proof
  have "query_accepted sample_query (corpus_from (sample_tracts None))"
    using sample_query_valid by (simp add: validateQuery_Nil query_problems_iff)
  then show "validateQuery fractional_query (corpus_from (sample_tracts None)) = []"
    by (simp add: validateQuery_Nil query_problems_iff query_accepted_def fractional_query_def sample_query_def
        or_empty_def object_entries_def threshold_ok_def bound_ok_def typeof_def)
  have "query_entries_ok fractional_query"
    by (simp add: query_entries_ok_def fractional_query_def sample_query_def object_entries_def bound_ok_def)
  moreover have "\<not> num_is_safe_integer (Fin (23 / 2))" by code_simp
  then have "\<not> criteria_integral fractional_query"
    by (simp add: criteria_integral_def bound_integral_def fractional_query_def sample_query_def object_entries_def)
  ultimately show "\<forall>h. statsCommitment sample_crypto str_le (aggregateStats [] []) fractional_query \<noteq> Inr h"
    using commitment_needs_integral_bounds[of fractional_query] by blast
qed

text \<open>
  The start-up check. Over a loaded corpus with plain state codes, the check passes exactly when
  the card's tract and state counts are the corpus's, it sells exactly the sold measures with the
  engine's tiers, its unavailable states for each measure are those with no published value, and no
  measure is suppressed in only part of a state.
\<close>

theorem card_check_passes:
  assumes "corpus_ok c" and "list_all plain_code (corpus_states c)"
    and "\<forall>m\<in>set MEASURE_KEYS. list_all plain_code (or_empty (map_get un m))"
  shows "assertCardMatchesCorpus c n k un tiers = Inr () \<longleftrightarrow> card_describes c n k un tiers"
  using assms by (rule card_check)

lemma stateAbbr_sample [simp]: "stateAbbr (sample_tract st f p d b) = st"
  by (simp add: sample_tract_def)

lemma has_value_sample:
  "m \<in> set MEASURE_KEYS \<Longrightarrow> has_value (sample_tract st f p d (Some b)) m \<longleftrightarrow> m \<noteq> ''DIABETES'' \<or> d \<noteq> None"
  by (auto simp: has_value_def tract_value_def sample_tract_def map_get_table split: option.splits)

theorem card_check_passes_witness:
  "assertCardMatchesCorpus (corpus_from (sample_tracts (Some 30))) 3 2
     (map (\<lambda>m. (m, if m = ''DIABETES'' then [''PA''] else [])) MEASURE_KEYS) (Some [(''CHD'', ''premium'')]) = Inr ()"
  (is "assertCardMatchesCorpus ?c 3 2 ?un ?tiers = _")
proof -
  have st: "corpus_states ?c = [''CA'', ''PA'']"
    using sample_tracts_ok[of "Some 30"] by (simp add: corpus_ok_def sample_tracts_def sample_tract_def)
  have un: "map_get ?un m = Some (if m = ''DIABETES'' then [''PA''] else [])" if "m \<in> set MEASURE_KEYS" for m
    using that by (simp add: map_get_table)
  have p: "list_all plain_code (corpus_states ?c)"
    unfolding st by (simp add: plain_code_def plain_field_def quote_char_def)
  have q: "\<forall>m\<in>set MEASURE_KEYS. list_all plain_code (or_empty (map_get ?un m))"
    by (simp add: un or_empty_def plain_code_def plain_field_def quote_char_def)
  have g: "gap_in (tracts ?c) m st \<longleftrightarrow> m = ''DIABETES'' \<and> st = ''PA'' \<or> st \<notin> {''CA'', ''PA''}"
    and u: "uniform_in_states (tracts ?c) m" if "m \<in> set MEASURE_KEYS" for m st
    using that unfolding sample_tracts_ok(2)
    by (auto simp: gap_in_def uniform_in_states_def sample_tracts_def has_value_sample)
  have "card_describes ?c 3 2 ?un ?tiers"
    unfolding card_describes_def
  proof (intro conjI ballI)
    show "set (map_keys ?un) = set MEASURE_KEYS" by (simp add: map_keys_def comp_def)
    show "(3::int) = int (length (tracts ?c))" unfolding sample_tracts_ok(2) by (simp add: sample_tracts_def)
    show "(2::int) = int (card (stateAbbr ` set (tracts ?c)))"
      unfolding sample_tracts_ok(2) by (simp add: sample_tracts_def sample_tract_def)
  next
    fix m assume m: "m \<in> set MEASURE_KEYS"
    show "card_tier_ok ?tiers m" by (simp add: card_tier_ok_def map_get_def SOLD_MEASURES_def)
    show "mset (or_empty (map_get ?un m)) = mset (filter (gap_in (tracts ?c) m) (corpus_states ?c))"
      unfolding un[OF m] st by (simp add: g[OF m] or_empty_def)
    show "uniform_in_states (tracts ?c) m" by (rule u[OF m])
  qed
  with card_check_passes[OF sample_tracts_ok(1) p q] show ?thesis by blast
qed

end
