(* ===== verification/Synth.thy ===== *)
theory Synth
  imports PlacesStats
begin

text \<open>
  \<open>engine/synth.ts\<close>: the generator of the deliverable.  Randomness is counter based: \<open>uniform\<close> is
  the first six bytes of a digest over 2 ^ 48, addressed by seed, row and field.  The theorems show
  that the weighted pick lands on a tract with adults, that the allocation keeps its floor and is
  even to one row, that every tract of the slice is represented, that a draw does not depend on the
  other columns, that row ids sort as they count and that the CSV reads back.  \<open>Math.sqrt\<close> is the
  correctly rounded square root.
\<close>

datatype synth_error =
    EmptySlice
  | RowsPerTractTooSmall int
  | TooManyRows int
  | FloorNotMet int int nat

section \<open>\<open>Math.sqrt\<close>\<close>

text \<open>The integer square root, one bit at a time from bit \<open>b\<close> down.\<close>

fun isqrt_bits :: "nat \<Rightarrow> int \<Rightarrow> int \<Rightarrow> int" where
  "isqrt_bits 0 n r = r"
| "isqrt_bits (Suc b) n r =
     (let r' = r + 2 ^ b in isqrt_bits b n (if r' * r' \<le> n then r' else r))"

text \<open>
  \<open>x * 4 ^ k\<close> has at least 107 bits, so its integer root \<open>r\<close> has at least 54 and the bit that says
  whether the root is exact decides the rounding.
\<close>

definition fsqrt :: "rat \<Rightarrow> rat" where
  "fsqrt x =
     (if x \<le> 0 then 0
      else (let k = (107 - ilog2 x) div 2 + 1; y = x * pow2 (2 * k); n = \<lfloor>y\<rfloor>; r = isqrt_bits 56 n 0
            in fl ((of_int (2 * r + (if of_int (r * r) = y then 0 else 1))) * pow2 (- k - 1))))"

section \<open>Tables\<close>

definition SYNTHETIC_AGE_BANDS :: "(string \<times> rat) list" where
  "SYNTHETIC_AGE_BANDS =
     [(''18-34'', fl (3 / 10)), (''35-49'', 1 / 4), (''50-64'', 1 / 4), (''65+'', fl (1 / 5))]"

definition AGE_RESTRICTED :: "(string, string list) jsmap" where
  "AGE_RESTRICTED = [(''ACCESS2'', [''18-34'', ''35-49'', ''50-64''])]"

definition SYNTHETIC_COLUMN :: "(string, string) jsmap" where
  "SYNTHETIC_COLUMN =
     [(''DIABETES'', ''has_diabetes''), (''BPHIGH'', ''has_high_bp''), (''CHD'', ''has_chd''),
      (''DEPRESSION'', ''has_depression''), (''OBESITY'', ''is_obese''), (''CSMOKING'', ''is_current_smoker''),
      (''ACCESS2'', ''is_uninsured_18_64''), (''SLEEP'', ''short_sleep'')]"

definition MAX_ROWS :: int where
  "MAX_ROWS = 999999"

record synthesis_options =
  opt_rowCount :: int
  opt_rowsPerTract :: "int option"
  opt_seed :: string
  opt_columns :: "string list"

record person =
  syntheticPersonId :: string
  sourceTractFIPS :: string
  sourceCountyName :: string
  sourceStateAbbr :: string
  ageBand :: string
  flags :: "(string, bool) jsmap"

section \<open>Draws\<close>

definition be_nat :: "string \<Rightarrow> nat" where
  "be_nat bs = foldl (\<lambda>n c. 256 * n + of_char c) 0 bs"

definition uniform :: "crypto \<Rightarrow> string \<Rightarrow> nat \<Rightarrow> string \<Rightarrow> rat" where
  "uniform C seed index field =
     of_nat (be_nat (take 6 (sha256_digest C (seed @ ''|'' @ string_of_nat index @ ''|'' @ field)))) / 2 ^ 48"

record sampler =
  s_tracts :: "tract list"
  cumulative :: "rat list"
  totalWeight :: rat

definition tract_weight :: "tract \<Rightarrow> rat" where
  "tract_weight t = (case totalPop18plus t of Some p \<Rightarrow> if 0 < p then p else 0 | None \<Rightarrow> 0)"

fun cumulate :: "rat \<Rightarrow> rat list \<Rightarrow> rat list" where
  "cumulate running [] = []"
| "cumulate running (w # ws) = (let r = fadd running w in r # cumulate r ws)"

definition buildSampler :: "tract list \<Rightarrow> sampler" where
  "buildSampler ts =
     (let ws = map tract_weight ts
      in \<lparr> s_tracts = ts, cumulative = cumulate 0 ws, totalWeight = foldl fadd 0 ws \<rparr>)"

text \<open>The binary search of \<open>pickTract\<close> over the cumulative weights.\<close>

function pick_index :: "rat list \<Rightarrow> rat \<Rightarrow> nat \<Rightarrow> nat \<Rightarrow> nat" where
  "pick_index cum target lo hi =
     (if lo < hi then
        (let mid = (lo + hi) div 2
         in if cum ! mid \<le> target then pick_index cum target (mid + 1) hi
            else pick_index cum target lo mid)
      else lo)"
  by pat_completeness auto

termination
  by (relation "measure (\<lambda>(cum, target, lo, hi). hi - lo)") auto

definition pickTract :: "sampler \<Rightarrow> rat \<Rightarrow> (synth_error, tract) res" where
  "pickTract s u =
     (if totalWeight s \<le> 0 then
        (case s_tracts s of t # _ \<Rightarrow> Inr t | [] \<Rightarrow> Inl EmptySlice)
      else Inr (s_tracts s ! pick_index (cumulative s) (fmul u (totalWeight s)) 0 (length (cumulative s) - 1)))"

fun age_loop :: "rat \<Rightarrow> rat \<Rightarrow> (string \<times> rat) list \<Rightarrow> string" where
  "age_loop u acc [] = ''65+''"
| "age_loop u acc ((band, w) # bs) = (let acc' = fadd acc w in if u < acc' then band else age_loop u acc' bs)"

definition pickAgeBand :: "rat \<Rightarrow> string" where
  "pickAgeBand u = age_loop u 0 SYNTHETIC_AGE_BANDS"

definition measureAppliesToAge :: "string \<Rightarrow> string \<Rightarrow> bool" where
  "measureAppliesToAge m band = (case map_get AGE_RESTRICTED m of None \<Rightarrow> True | Some bs \<Rightarrow> band \<in> set bs)"

section \<open>Allocation\<close>

definition pop_or_zero :: "tract \<Rightarrow> rat" where
  "pop_or_zero t = or_zero (totalPop18plus t)"

text \<open>The comparison of the remainder order: larger adult population first, FIPS as the tiebreak.\<close>

definition larger_first :: "(string \<Rightarrow> string \<Rightarrow> bool) \<Rightarrow> tract list \<Rightarrow> nat \<Rightarrow> nat \<Rightarrow> bool" where
  "larger_first lc ts i j \<longleftrightarrow>
     pop_or_zero (ts ! j) < pop_or_zero (ts ! i) \<or>
     (pop_or_zero (ts ! j) = pop_or_zero (ts ! i) \<and> lc (tractFips (ts ! i)) (tractFips (ts ! j)))"

definition remainder_order :: "(string \<Rightarrow> string \<Rightarrow> bool) \<Rightarrow> tract list \<Rightarrow> nat list" where
  "remainder_order lc ts = sort_by (larger_first lc ts) [0..<length ts]"

text \<open>The loop that hands out the remainder, one row per turn, cycling through the order.\<close>

fun hand_out :: "nat list \<Rightarrow> nat \<Rightarrow> nat \<Rightarrow> nat list \<Rightarrow> nat list" where
  "hand_out order k 0 alloc = alloc"
| "hand_out order k (Suc remainder) alloc =
     hand_out order ((k + 1) mod length order) remainder (alloc[order ! k := alloc ! (order ! k) + 1])"

definition allocateRows ::
  "(string \<Rightarrow> string \<Rightarrow> bool) \<Rightarrow> tract list \<Rightarrow> int \<Rightarrow> int option \<Rightarrow> (synth_error, nat list) res" where
  "allocateRows lc ts rowsPerTract totalRows =
     (if rowsPerTract < 1 then Inl (RowsPerTractTooSmall rowsPerTract)
      else
        (let total = (case totalRows of Some n \<Rightarrow> n | None \<Rightarrow> rowsPerTract * int (length ts))
         in if total > MAX_ROWS then Inl (TooManyRows total)
            else if total < rowsPerTract * int (length ts) then Inl (FloorNotMet total rowsPerTract (length ts))
            else
              (let alloc = replicate (length ts) (nat rowsPerTract);
                   remainder = nat (total - rowsPerTract * int (length ts))
               in Inr (hand_out (remainder_order lc ts) 0 remainder alloc))))"

definition perTractPrecisionPp :: "rat \<Rightarrow> int \<Rightarrow> rat" where
  "perTractPrecisionPp prevalencePercent rowsPerTract =
     (if rowsPerTract \<le> 0 then 100
      else (let p = min (max (fdiv prevalencePercent 100) 0) 1
            in fixed_num 2 (fmul (fsqrt (fdiv (fmul p (fsub 1 p)) (of_int rowsPerTract))) 100)))"

section \<open>Generation\<close>

text \<open>\<open>allocateRows(...).flatMap((n, t) => Array.from({ length: n }, () => tracts[t]))\<close>\<close>

definition flat_assignment :: "nat list \<Rightarrow> tract list \<Rightarrow> tract list" where
  "flat_assignment alloc ts = concat (map (\<lambda>(n, t). replicate n t) (zip alloc ts))"

definition draw_flag :: "crypto \<Rightarrow> string \<Rightarrow> nat \<Rightarrow> tract \<Rightarrow> string \<Rightarrow> string \<Rightarrow> bool" where
  "draw_flag C seed i t band key =
     (if \<not> measureAppliesToAge key band then False
      else (let p = (case tract_value t key of Some (Some v) \<Rightarrow> fdiv v 100 | _ \<Rightarrow> 0)
            in uniform C seed i key < p))"

definition person_id :: "nat \<Rightarrow> string" where
  "person_id i = ''syn_'' @ pad_start 6 (CHR ''0'') (string_of_nat (i + 1))"

definition make_person :: "crypto \<Rightarrow> synthesis_options \<Rightarrow> nat \<Rightarrow> tract \<Rightarrow> person" where
  "make_person C opts i t =
     (let band = pickAgeBand (uniform C (opt_seed opts) i ''age'')
      in \<lparr> syntheticPersonId = person_id i, sourceTractFIPS = tractFips t,
           sourceCountyName = countyName t, sourceStateAbbr = stateAbbr t, ageBand = band,
           flags = fold (\<lambda>key fs. map_set key (draw_flag C (opt_seed opts) i t band key) fs) (opt_columns opts) [] \<rparr>)"

definition assignment ::
  "(string \<Rightarrow> string \<Rightarrow> bool) \<Rightarrow> tract list \<Rightarrow> synthesis_options \<Rightarrow> (synth_error, tract list option) res" where
  "assignment lc ts opts =
     (case opt_rowsPerTract opts of
        None \<Rightarrow> Inr None
      | Some r \<Rightarrow>
          res_bind (allocateRows lc ts r (Some (opt_rowCount opts)))
            (\<lambda>alloc. Inr (Some (flat_assignment alloc ts))))"

definition row_tract :: "crypto \<Rightarrow> tract list \<Rightarrow> synthesis_options \<Rightarrow> tract list option \<Rightarrow> nat \<Rightarrow> (synth_error, tract) res" where
  "row_tract C ts opts assigned i =
     (case assigned of
        Some as \<Rightarrow> Inr (as ! i)
      | None \<Rightarrow> pickTract (buildSampler ts) (uniform C (opt_seed opts) i ''tract''))"

definition generateSyntheticPeople ::
  "crypto \<Rightarrow> (string \<Rightarrow> string \<Rightarrow> bool) \<Rightarrow> tract list \<Rightarrow> synthesis_options \<Rightarrow> (synth_error, person list) res" where
  "generateSyntheticPeople C lc ts opts =
     (if ts = [] then Inl EmptySlice
      else if opt_rowCount opts > MAX_ROWS then Inl (TooManyRows (opt_rowCount opts))
      else res_bind (assignment lc ts opts) (\<lambda>assigned.
             res_map_list (\<lambda>i. res_bind (row_tract C ts opts assigned i) (\<lambda>t. Inr (make_person C opts i t)))
               [0..<nat (opt_rowCount opts)]))"

section \<open>The file\<close>

definition deliverableHeader :: "string list \<Rightarrow> string list" where
  "deliverableHeader cols =
     [''synthetic_person_id'', ''source_tract_fips'', ''source_county_name'', ''source_state_abbr'', ''age_band'']
     @ map (\<lambda>c. case map_get SYNTHETIC_COLUMN c of Some h \<Rightarrow> h | None \<Rightarrow> js_lower c) cols
     @ [''is_synthetic'']"

definition flag_cell :: "person \<Rightarrow> string \<Rightarrow> string" where
  "flag_cell p c = (case map_get (flags p) c of Some True \<Rightarrow> ''1'' | _ \<Rightarrow> ''0'')"

definition person_line :: "string list \<Rightarrow> person \<Rightarrow> string" where
  "person_line cols p =
     join_with '',''
       ([syntheticPersonId p, sourceTractFIPS p, csv_quoted (sourceCountyName p), sourceStateAbbr p, ageBand p]
        @ map (flag_cell p) cols @ [''true''])"

definition serializeCsv :: "person list \<Rightarrow> string list \<Rightarrow> string" where
  "serializeCsv people cols =
     join_with [CHR 0x0A] (join_with '','' (deliverableHeader cols) # map (person_line cols) people) @ [CHR 0x0A]"

section \<open>Calibration\<close>

record measure_calibration =
  cal_measure :: string
  targetPercent :: rat
  realizedPercent :: rat
  denominatorRows :: nat
  tolerancePp :: rat
  withinTolerance :: bool

definition calibrationTolerancePp :: "rat \<Rightarrow> nat \<Rightarrow> rat" where
  "calibrationTolerancePp target rows =
     (if rows = 0 then 100
      else (let p = min (max (fdiv target 100) 0) 1;
                se = fmul (fsqrt (fdiv (fmul p (fsub 1 p)) (of_nat rows))) 100
            in max 1 (fmul 3 se)))"

definition rows_by_tract :: "person list \<Rightarrow> (string, nat) jsmap" where
  "rows_by_tract people = fold (\<lambda>p. count_bump (sourceTractFIPS p)) people []"

text \<open>The loop over the tracts: the weighted sum and the weight.\<close>

definition weigh_tract :: "string \<Rightarrow> (string, nat) jsmap \<Rightarrow> tract \<Rightarrow> rat \<times> rat \<Rightarrow> rat \<times> rat" where
  "weigh_tract m rows t = (\<lambda>(weighted, weight).
     let n = count_get rows (tractFips t)
     in case tract_value t m of
          Some (Some v) \<Rightarrow>
            if 0 < n then (fadd weighted (fmul v (of_nat n)), fadd weight (of_nat n)) else (weighted, weight)
        | _ \<Rightarrow> (weighted, weight))"

definition calibrate_measure :: "person list \<Rightarrow> tract list \<Rightarrow> string \<Rightarrow> measure_calibration" where
  "calibrate_measure people ts m =
     (let (weighted, weight) = fold (weigh_tract m (rows_by_tract people)) ts (0, 0);
          target = (if weight > 0 then fdiv weighted weight else 0);
          denominator = filter (\<lambda>p. measureAppliesToAge m (ageBand p)) people;
          hits = length (filter (\<lambda>p. map_get (flags p) m = Some True) denominator);
          realized = (if denominator \<noteq> [] then fmul (fdiv (of_nat hits) (of_nat (length denominator))) 100 else 0);
          tolerance = calibrationTolerancePp target (length denominator)
      in \<lparr> cal_measure = m, targetPercent = fixed_num 4 target, realizedPercent = fixed_num 4 realized,
           denominatorRows = length denominator, tolerancePp = fixed_num 4 tolerance,
           withinTolerance = \<bar>fsub realized target\<bar> \<le> tolerance \<rparr>)"

definition calibrate :: "person list \<Rightarrow> tract list \<Rightarrow> string list \<Rightarrow> measure_calibration list" where
  "calibrate people ts cols = map (calibrate_measure people ts) cols"

definition isCalibrated :: "measure_calibration list \<Rightarrow> bool" where
  "isCalibrated cs = list_all withinTolerance cs"

section \<open>The weighted pick\<close>

declare pick_index.simps [simp del]

lemma pick_index_range: "lo \<le> hi \<Longrightarrow> lo \<le> pick_index cum x lo hi \<and> pick_index cum x lo hi \<le> hi"
proof (induction cum x lo hi rule: pick_index.induct)
  case (1 cum x lo hi)
  show ?case
  proof (cases "lo < hi")
    case True
    define mid where "mid = (lo + hi) div 2"
    have m: "lo \<le> mid" "mid < hi" using True by (auto simp: mid_def)
    have "lo \<le> (if cum ! mid \<le> x then pick_index cum x (mid + 1) hi else pick_index cum x lo mid) \<and>
        (if cum ! mid \<le> x then pick_index cum x (mid + 1) hi else pick_index cum x lo mid) \<le> hi"
      using "1.IH"[OF True mid_def] m by auto
    with True show ?thesis by (subst (1 2) pick_index.simps) (simp add: Let_def mid_def[symmetric])
  next
    case False
    with "1.prems" show ?thesis by (subst (1 2) pick_index.simps) simp
  qed
qed

text \<open>Everything before the picked index is at most the target, and the picked entry exceeds it unless it is the last.\<close>

lemma pick_index_spec:
  assumes mono: "\<And>i j. i \<le> j \<Longrightarrow> j \<le> hi \<Longrightarrow> cum ! i \<le> (cum ! j :: rat)"
  shows "lo \<le> hi \<Longrightarrow> (\<forall>j<pick_index cum x lo hi. lo \<le> j \<longrightarrow> cum ! j \<le> x) \<and>
    (pick_index cum x lo hi < hi \<longrightarrow> x < cum ! pick_index cum x lo hi)"
  using mono
proof (induction cum x lo hi rule: pick_index.induct)
  case (1 cum x lo hi)
  show ?case
  proof (cases "lo < hi")
    case False
    with "1.prems" show ?thesis by (subst (1 2 3) pick_index.simps) simp
  next
    case True
    define mid where "mid = (lo + hi) div 2"
    have m: "lo \<le> mid" "mid < hi" using True by (auto simp: mid_def)
    show ?thesis
    proof (cases "cum ! mid \<le> x")
      case le: True
      have pick: "pick_index cum x lo hi = pick_index cum x (mid + 1) hi"
        using True le by (subst pick_index.simps) (simp add: mid_def)
      have "cum ! j \<le> x" if "j \<le> mid" for j
        using "1.prems"(2)[OF that] m le by (meson less_imp_le_nat order_trans)
      with "1.IH"(1)[OF True mid_def le] "1.prems"(2) m show ?thesis
        unfolding pick by (metis Suc_eq_plus1 Suc_leI not_less_eq_eq)
    next
      case gt: False
      have pick: "pick_index cum x lo hi = pick_index cum x lo mid"
        using True gt by (subst pick_index.simps) (simp add: mid_def)
      have "pick_index cum x lo mid \<le> mid" using pick_index_range m(1) by blast
      with "1.IH"(2)[OF True mid_def gt] "1.prems"(2) m gt show ?thesis
        unfolding pick by (metis le_trans less_imp_le_nat nat_less_le not_le)
    qed
  qed
qed

lemma cumulate_length [simp]: "length (cumulate r ws) = length ws"
  by (induction ws arbitrary: r) (auto simp: Let_def)

lemma cumulate_whole:
  "r + sum_list ws \<le> 2 ^ 53 \<Longrightarrow> k < length ws \<Longrightarrow>
   cumulate (of_nat r) (map of_nat ws) ! k = of_nat (r + sum_list (take (Suc k) ws))"
proof (induction ws arbitrary: r k)
  case (Cons w ws)
  have f: "fadd (of_nat r) (of_nat w) = of_nat (r + w)"
    using fadd_of_int[of "int r" "int w"] Cons.prems(1) by simp
  show ?case
  proof (cases k)
    case 0
    then show ?thesis by (simp add: Let_def f del: of_nat_add)
  next
    case (Suc k')
    with Cons.IH[of "r + w" k'] Cons.prems show ?thesis by (simp add: Let_def f add.assoc del: of_nat_add)
  qed
qed simp

lemma foldl_fadd_whole:
  "r + sum_list ws \<le> 2 ^ 53 \<Longrightarrow> foldl fadd (of_nat r) (map of_nat ws) = of_nat (r + sum_list ws)"
proof (induction ws arbitrary: r)
  case (Cons w ws)
  have f: "fadd (of_nat r) (of_nat w) = of_nat (r + w)"
    using fadd_of_int[of "int r" "int w"] Cons.prems by simp
  from Cons.IH[of "r + w"] Cons.prems show ?case by (simp add: f add.assoc del: of_nat_add)
qed simp

lemma be_nat_less: "be_nat bs < 256 ^ length bs"
proof (induction bs rule: rev_induct)
  case (snoc c bs)
  have "be_nat (bs @ [c]) = 256 * be_nat bs + of_char c" by (simp add: be_nat_def)
  also have "\<dots> < 256 * be_nat bs + 256" using nat_of_char_less_256[of c] by simp
  also have "\<dots> \<le> 256 * 256 ^ length bs" using snoc by (metis Suc_leI add.commute mult_Suc_right mult_le_mono2)
  finally show ?case by simp
qed (simp add: be_nat_def)

lemma uniform_grid: "\<exists>n<2 ^ 48. uniform C seed i field = of_nat n / 2 ^ 48"
proof -
  let ?n = "be_nat (take 6 (sha256_digest C (seed @ ''|'' @ string_of_nat i @ ''|'' @ field)))"
  have "?n < 256 ^ length (take 6 (sha256_digest C (seed @ ''|'' @ string_of_nat i @ ''|'' @ field)))"
    by (rule be_nat_less)
  also have "\<dots> \<le> 256 ^ 6" by (rule power_increasing) auto
  finally have "?n < 2 ^ 48" by simp
  then show ?thesis unfolding uniform_def by blast
qed

lemma fmul_grid_less:
  assumes n: "n < 2 ^ 48" and w: "0 < w" "w \<le> 2 ^ 53"
  shows "0 \<le> fmul (of_nat n / 2 ^ 48) (of_nat w) \<and> fmul (of_nat n / 2 ^ 48) (of_nat w) < of_nat w"
proof (cases "n = 0")
  case True
  with w show ?thesis by (simp add: fmul_def)
next
  case False
  define x where "x = (of_nat n / 2 ^ 48 * of_nat w :: rat)"
  have n1: "1 \<le> (of_nat n :: rat)" and w1: "1 \<le> (of_nat w :: rat)" using False w(1) by simp_all
  have "1 * 1 \<le> (of_nat n * of_nat w :: rat)" by (rule mult_mono) (use n1 w1 in auto)
  then have "1 / 2 ^ 48 \<le> x" by (simp add: x_def)
  moreover have "pow2 (- 1022) \<le> pow2 (- 48)" by (rule pow2_mono) simp
  moreover have "pow2 (- 48) = 1 / 2 ^ 48" by (simp add: pow2_def)
  ultimately have lo: "pow2 (- 1022) \<le> x" "0 < x" by (auto intro: order_trans order_less_le_trans[of _ "1 / 2 ^ 48"])
  then have err: "\<bar>fl x - x\<bar> \<le> x / 2 ^ 53" using fl_rel_error[of x] by simp
  have "of_nat (n + 1) \<le> (of_nat (2 ^ 48) :: rat)" using n by (simp only: of_nat_le_iff)
  then have "(of_nat n :: rat) \<le> 2 ^ 48 - 1" by simp
  then have "of_nat n * of_nat w \<le> (2 ^ 48 - 1) * (of_nat w :: rat)" using w1 by (intro mult_right_mono) auto
  then have up: "x \<le> of_nat w - of_nat w / 2 ^ 48" by (simp add: x_def field_simps)
  have small: "x / 2 ^ 53 \<le> x" "x / 2 ^ 53 < of_nat w / 2 ^ 48" using up lo w1 by (simp_all add: field_simps)
  have "0 \<le> fl x" "fl x < of_nat w" using err up small by linarith+
  then show ?thesis unfolding fmul_def x_def ..
qed

lemma take_Suc_sum: "k < length (ws :: nat list) \<Longrightarrow> sum_list (take (Suc k) ws) = sum_list (take k ws) + ws ! k"
  by (simp add: take_Suc_conv_app_nth)

lemma pickTract_whole:
  assumes w: "map tract_weight ts = map of_nat ws" and pos: "0 < sum_list ws" and big: "sum_list ws \<le> 2 ^ 53"
    and u: "u = of_nat n / 2 ^ 48" "n < 2 ^ 48"
  shows "\<exists>k<length ts. pickTract (buildSampler ts) u = Inr (ts ! k) \<and> 0 < ws ! k \<and>
    of_nat (sum_list (take k ws)) \<le> fmul u (of_nat (sum_list ws)) \<and>
    fmul u (of_nat (sum_list ws)) < of_nat (sum_list (take k ws) + ws ! k)"
proof -
  let ?W = "sum_list ws" and ?x = "fmul u (of_nat (sum_list ws))" and ?cum = "cumulate 0 (map of_nat ws)"
  have len: "length ts = length ws" using w by (metis length_map)
  have ne: "0 < length ws" using pos by (cases ws) auto
  have cum: "?cum ! k = of_nat (sum_list (take (Suc k) ws))" if "k < length ws" for k
    using cumulate_whole[of 0 ws k] big that by simp
  have tot: "foldl fadd 0 (map of_nat ws) = (of_nat ?W :: rat)" using foldl_fadd_whole[of 0 ws] big by simp
  have x: "0 \<le> ?x" "?x < of_nat ?W" unfolding u(1) using fmul_grid_less[OF u(2) pos big] by blast+
  define k where "k = pick_index ?cum ?x 0 (length ws - 1)"
  have "k \<le> length ws - 1" using pick_index_range[of 0 "length ws - 1" ?cum ?x] by (simp add: k_def)
  with ne have k: "k < length ws" by linarith
  have mono: "?cum ! i \<le> ?cum ! j" if "i \<le> j" "j \<le> length ws - 1" for i j
  proof -
    have "sum_list (take (Suc i) ws) \<le> sum_list (take (Suc j) ws)"
    proof -
      have "take (Suc j) ws = take (Suc i) ws @ take (j - i) (drop (Suc i) ws)"
        using that(1) by (metis Suc_le_mono add_diff_inverse_nat diff_Suc_Suc not_less take_add)
      then show ?thesis by simp
    qed
    moreover have "i < length ws" "j < length ws" using that ne by linarith+
    ultimately show ?thesis by (simp add: cum)
  qed
  from pick_index_spec[of "length ws - 1" ?cum 0 ?x, OF mono]
  have spec: "\<forall>j<k. ?cum ! j \<le> ?x" "k < length ws - 1 \<Longrightarrow> ?x < ?cum ! k"
    unfolding k_def by simp_all
  have lower: "of_nat (sum_list (take k ws)) \<le> ?x"
  proof (cases k)
    case 0
    with x show ?thesis by simp
  next
    case (Suc j)
    with spec(1) k cum[of j] show ?thesis by auto
  qed
  have upper: "?x < of_nat (sum_list (take k ws) + ws ! k)"
  proof (cases "k < length ws - 1")
    case True
    with spec(2) cum[OF k] take_Suc_sum[OF k] show ?thesis by simp
  next
    case False
    with k have "take (Suc k) ws = ws" by simp
    with x(2) take_Suc_sum[OF k] show ?thesis by simp
  qed
  have "0 < ws ! k" using lower upper by (metis add_0_right neq0_conv not_le)
  moreover have "pickTract (buildSampler ts) u = Inr (ts ! k)"
  proof -
    have "\<not> (of_nat ?W :: rat) \<le> 0" using pos by (simp only: of_nat_le_0_iff)
    then show ?thesis
      unfolding pickTract_def buildSampler_def Let_def w sampler.select_convs tot k_def cumulate_length length_map
      by (rule if_not_P)
  qed
  ultimately show ?thesis using lower upper k len by auto
qed

section \<open>The allocation\<close>

lemma length_remainder_order [simp]: "length (remainder_order lc ts) = length ts"
  by (simp add: remainder_order_def)

lemma set_remainder_order [simp]: "set (remainder_order lc ts) = {..<length ts}"
  by (auto simp: remainder_order_def)

lemma distinct_remainder_order [simp]: "distinct (remainder_order lc ts)"
  by (simp add: remainder_order_def)

lemma hand_out_length [simp]: "length (hand_out order k rem alloc) = length alloc"
  by (induction rem arbitrary: k alloc) auto

lemma hand_out_sum:
  assumes "set order = {..<length alloc}" "k < length order"
  shows "sum_list (hand_out order k rem alloc) = sum_list alloc + rem"
  using assms
proof (induction rem arbitrary: k alloc)
  case (Suc rem)
  let ?i = "order ! k"
  have i: "?i < length alloc" using Suc.prems nth_mem[OF Suc.prems(2)] by auto
  have "sum_list (alloc[?i := alloc ! ?i + 1]) = sum_list alloc + 1"
    using i by (simp add: sum_list_update elem_le_sum_list)
  moreover have "(k + 1) mod length order < length order"
    by (rule mod_less_divisor) (use Suc.prems(2) in linarith)
  ultimately show ?case using Suc.IH[of "alloc[?i := alloc ! ?i + 1]" "(k + 1) mod length order"] Suc.prems by simp
qed simp

text \<open>What the loop keeps: the entries before the cursor have one row more than those from it on.\<close>

definition staircase :: "nat list \<Rightarrow> nat \<Rightarrow> nat list \<Rightarrow> bool" where
  "staircase order k alloc \<longleftrightarrow>
     (\<exists>c. \<forall>i<length order. alloc ! (order ! i) = (if i < k then c + 1 else c))"

lemma hand_out_staircase:
  assumes "distinct order" "set order = {..<length alloc}" "k < length order" "staircase order k alloc"
  shows "\<exists>k'<length order. staircase order k' (hand_out order k rem alloc)"
  using assms
proof (induction rem arbitrary: k alloc)
  case (Suc rem)
  let ?i = "order ! k" and ?k = "(k + 1) mod length order"
  let ?a = "alloc[?i := alloc ! ?i + 1]"
  from Suc.prems(4) obtain c where c: "\<forall>i<length order. alloc ! (order ! i) = (if i < k then c + 1 else c)"
    by (auto simp: staircase_def)
  have up: "?a ! (order ! j) = (if j \<le> k then c + 1 else c)" if "j < length order" for j
  proof (cases "j = k")
    case True
    have "?i < length alloc" using Suc.prems(2,3) nth_mem by blast
    with True c that show ?thesis by simp
  next
    case False
    with Suc.prems(1,3) that have "order ! j \<noteq> ?i" by (simp add: nth_eq_iff_index_eq)
    with False c that show ?thesis by auto
  qed
  have "staircase order ?k ?a"
  proof (cases "k + 1 = length order")
    case True
    then have "\<forall>i<length order. ?a ! (order ! i) = (if i < 0 then (c + 1) + 1 else c + 1)" using up by auto
    with True show ?thesis unfolding staircase_def by auto
  next
    case False
    with Suc.prems(3) have "?k = k + 1" by simp
    with up show ?thesis unfolding staircase_def by (intro exI[of _ c]) auto
  qed
  moreover have "?k < length order"
    by (rule mod_less_divisor) (use Suc.prems(3) in linarith)
  ultimately show ?case using Suc.IH[of ?a ?k] Suc.prems(1,2) by simp
qed auto

lemma staircase_even:
  assumes "staircase order k alloc" "set order = {..<length alloc}" "i < length alloc" "j < length alloc"
  shows "alloc ! i \<le> alloc ! j + 1"
proof -
  from assms(1) obtain c where c: "\<forall>a<length order. alloc ! (order ! a) = (if a < k then c + 1 else c)"
    by (auto simp: staircase_def)
  have "alloc ! i \<in> {c, c + 1}" if "i < length alloc" for i
  proof -
    from that assms(2) obtain a where "a < length order" "order ! a = i" by (metis in_set_conv_nth lessThan_iff)
    with c show ?thesis by auto
  qed
  from this[OF assms(3)] this[OF assms(4)] show ?thesis by auto
qed

lemma staircase_order:
  assumes "staircase order k alloc" "a \<le> b" "b < length order"
  shows "alloc ! (order ! b) \<le> alloc ! (order ! a)"
proof -
  from assms(1) obtain c where "\<forall>a<length order. alloc ! (order ! a) = (if a < k then c + 1 else c)"
    by (auto simp: staircase_def)
  with assms(2,3) have "alloc ! (order ! b) = (if b < k then c + 1 else c)"
    "alloc ! (order ! a) = (if a < k then c + 1 else c)" by auto
  with assms(2) show ?thesis by simp
qed

lemma allocateRows_Inr:
  assumes "allocateRows lc ts r (Some n) = Inr alloc"
  shows "1 \<le> r" "n \<le> MAX_ROWS" "r * int (length ts) \<le> n"
    "alloc = hand_out (remainder_order lc ts) 0 (nat (n - r * int (length ts))) (replicate (length ts) (nat r))"
  using assms by (auto simp: allocateRows_def Let_def split: if_splits)

lemma hand_out_ge: "i < length alloc \<Longrightarrow> alloc ! i \<le> hand_out order k rem alloc ! i"
proof (induction rem arbitrary: k alloc)
  case (Suc rem)
  have "alloc ! i \<le> alloc[order ! k := alloc ! (order ! k) + 1] ! i"
    using Suc.prems by (cases "i = order ! k") simp_all
  also have "\<dots> \<le> hand_out order ((k + 1) mod length order) rem (alloc[order ! k := alloc ! (order ! k) + 1]) ! i"
    by (rule Suc.IH) (use Suc.prems in simp)
  finally show ?case by simp
qed simp

lemma allocateRows_props:
  assumes a: "allocateRows lc ts r (Some n) = Inr alloc" and ne: "ts \<noteq> []"
  shows "length alloc = length ts" and "int (sum_list alloc) = n"
    and "i < length ts \<Longrightarrow> r \<le> int (alloc ! i)"
    and "i < length ts \<Longrightarrow> j < length ts \<Longrightarrow> alloc ! i \<le> alloc ! j + 1"
    and "i \<le> j \<Longrightarrow> j < length ts \<Longrightarrow>
      alloc ! (remainder_order lc ts ! j) \<le> alloc ! (remainder_order lc ts ! i)"
proof -
  note f = allocateRows_Inr[OF a]
  let ?o = "remainder_order lc ts" and ?base = "replicate (length ts) (nat r)"
  show len: "length alloc = length ts" by (simp add: f(4))
  have o: "set ?o = {..<length ?base}" "0 < length ?o" using ne by simp_all
  have "sum_list alloc = length ts * nat r + nat (n - r * int (length ts))"
    unfolding f(4) using hand_out_sum[OF o] by (simp add: sum_list_replicate)
  with f(1,3) show "int (sum_list alloc) = n" by (simp add: mult.commute)
  have st: "staircase ?o 0 ?base"
    unfolding staircase_def
  proof (intro exI allI impI)
    fix i assume "i < length ?o"
    then have "?o ! i < length ts" using nth_mem[of i ?o] by simp
    then show "?base ! (?o ! i) = (if i < 0 then nat r + 1 else nat r)" by simp
  qed
  from hand_out_staircase[OF distinct_remainder_order o(1) o(2) st]
  obtain k where k: "staircase ?o k alloc" unfolding f(4) by blast
  show "i < length ts \<Longrightarrow> r \<le> int (alloc ! i)"
    using hand_out_ge[of i ?base ?o 0 "nat (n - r * int (length ts))"] f(1,4) by (simp add: nat_le_iff)
  show "i < length ts \<Longrightarrow> j < length ts \<Longrightarrow> alloc ! i \<le> alloc ! j + 1"
    using staircase_even[OF k] len by simp
  show "i \<le> j \<Longrightarrow> j < length ts \<Longrightarrow> alloc ! (?o ! j) \<le> alloc ! (?o ! i)"
    using staircase_order[OF k] by simp
qed

section \<open>Every tract is in the file\<close>

lemma flat_assignment_length: "length alloc = length ts \<Longrightarrow> length (flat_assignment alloc ts) = sum_list alloc"
  by (induction alloc ts rule: list_induct2) (auto simp: flat_assignment_def)

lemma flat_assignment_count:
  "length alloc = length ts \<Longrightarrow> i < length ts \<Longrightarrow> P (ts ! i) \<Longrightarrow>
   alloc ! i \<le> length (filter P (flat_assignment alloc ts))"
proof (induction alloc ts arbitrary: i rule: list_induct2)
  case (Cons n alloc t ts)
  have "flat_assignment (n # alloc) (t # ts) = replicate n t @ flat_assignment alloc ts"
    by (simp add: flat_assignment_def)
  with Cons show ?case by (cases i) (auto intro: trans_le_add2)
qed simp

lemma res_map_list_nth:
  "res_map_list f xs = Inr ys \<Longrightarrow> length ys = length xs \<and> (\<forall>i<length xs. f (xs ! i) = Inr (ys ! i))"
  by (simp add: res_map_list_Inr_iff list_all2_conv_all_nth)

lemma make_person_fields [simp]:
  "sourceTractFIPS (make_person C opts i t) = tractFips t"
  "syntheticPersonId (make_person C opts i t) = person_id i"
  "sourceCountyName (make_person C opts i t) = countyName t"
  "sourceStateAbbr (make_person C opts i t) = stateAbbr t"
  by (simp_all add: make_person_def Let_def)

lemma generate_Inr:
  assumes "generateSyntheticPeople C lc ts opts = Inr ps"
  shows "\<exists>as. ts \<noteq> [] \<and> opt_rowCount opts \<le> MAX_ROWS \<and> assignment lc ts opts = Inr as \<and>
    length ps = nat (opt_rowCount opts) \<and>
    (\<forall>i<length ps. \<exists>t. row_tract C ts opts as i = Inr t \<and> ps ! i = make_person C opts i t)"
proof -
  from assms obtain as where as: "ts \<noteq> []" "opt_rowCount opts \<le> MAX_ROWS" "assignment lc ts opts = Inr as"
    and m: "res_map_list (\<lambda>i. res_bind (row_tract C ts opts as i) (\<lambda>t. Inr (make_person C opts i t)))
        [0..<nat (opt_rowCount opts)] = Inr ps"
    by (auto simp: generateSyntheticPeople_def res_bind_Inr_iff split: if_splits)
  from res_map_list_nth[OF m] show ?thesis
    by (intro exI[of _ as] conjI as) (auto simp: res_bind_Inr_iff)
qed

lemma filter_map_length: "length (filter P (map f xs)) = length (filter (\<lambda>x. P (f x)) xs)"
  by (induction xs) auto

lemma generate_represented:
  assumes g: "generateSyntheticPeople C lc ts opts = Inr ps" and r: "opt_rowsPerTract opts = Some r"
    and i: "i < length ts"
  shows "r \<le> int (length (filter (\<lambda>p. sourceTractFIPS p = tractFips (ts ! i)) ps))"
proof -
  from generate_Inr[OF g] obtain as where ne: "ts \<noteq> []" and as: "assignment lc ts opts = Inr as"
    and len: "length ps = nat (opt_rowCount opts)"
    and nth: "\<And>i. i < length ps \<Longrightarrow> \<exists>t. row_tract C ts opts as i = Inr t \<and> ps ! i = make_person C opts i t"
    by blast
  from as r obtain alloc where al: "allocateRows lc ts r (Some (opt_rowCount opts)) = Inr alloc"
    and as': "as = Some (flat_assignment alloc ts)"
    by (auto simp: assignment_def res_bind_Inr_iff)
  note p = allocateRows_props[OF al ne]
  have fl: "length (flat_assignment alloc ts) = length ps"
    using flat_assignment_length[OF p(1)] p(2) len by simp
  have "map sourceTractFIPS ps = map tractFips (flat_assignment alloc ts)"
  proof (rule nth_equalityI)
    fix i assume "i < length (map sourceTractFIPS ps)"
    then have i: "i < length ps" by simp
    from nth[OF i] as' have "ps ! i = make_person C opts i (flat_assignment alloc ts ! i)"
      by (auto simp: row_tract_def)
    with i fl show "map sourceTractFIPS ps ! i = map tractFips (flat_assignment alloc ts) ! i" by simp
  qed (simp add: fl)
  then have "length (filter (\<lambda>f. f = tractFips (ts ! i)) (map sourceTractFIPS ps))
      = length (filter (\<lambda>f. f = tractFips (ts ! i)) (map tractFips (flat_assignment alloc ts)))" by simp
  then have "length (filter (\<lambda>p. sourceTractFIPS p = tractFips (ts ! i)) ps)
      = length (filter (\<lambda>t. tractFips t = tractFips (ts ! i)) (flat_assignment alloc ts))"
    by (simp only: filter_map_length)
  moreover have "alloc ! i \<le> length (filter (\<lambda>t. tractFips t = tractFips (ts ! i)) (flat_assignment alloc ts))"
    using flat_assignment_count[OF p(1) i] by simp
  ultimately show ?thesis using p(3)[OF i] by linarith
qed

section \<open>Draws do not depend on the other columns\<close>

lemma flags_get:
  "key \<in> set (opt_columns opts) \<Longrightarrow> map_get (flags (make_person C opts i t)) key =
     Some (draw_flag C (opt_seed opts) i t (pickAgeBand (uniform C (opt_seed opts) i ''age'')) key)"
  by (simp add: make_person_def Let_def map_get_fold_self)

definition same_draws :: "string list \<Rightarrow> person \<Rightarrow> person \<Rightarrow> bool" where
  "same_draws keys p q \<longleftrightarrow>
     syntheticPersonId p = syntheticPersonId q \<and> sourceTractFIPS p = sourceTractFIPS q \<and>
     sourceCountyName p = sourceCountyName q \<and> sourceStateAbbr p = sourceStateAbbr q \<and>
     ageBand p = ageBand q \<and> (\<forall>key\<in>set keys. map_get (flags p) key = map_get (flags q) key)"

lemma make_person_same_draws:
  assumes "opt_seed o1 = opt_seed o2" and "set keys \<subseteq> set (opt_columns o1)" "set keys \<subseteq> set (opt_columns o2)"
  shows "same_draws keys (make_person C o1 i t) (make_person C o2 i t)"
proof -
  have "ageBand (make_person C o1 i t) = ageBand (make_person C o2 i t)"
    using assms(1) by (simp add: make_person_def Let_def)
  moreover have "\<forall>key\<in>set keys. map_get (flags (make_person C o1 i t)) key = map_get (flags (make_person C o2 i t)) key"
    using assms by (simp add: flags_get subset_iff)
  ultimately show ?thesis by (simp add: same_draws_def)
qed

lemma generate_same_draws:
  assumes "generateSyntheticPeople C lc ts o1 = Inr ps" and "generateSyntheticPeople C lc ts (o1 \<lparr> opt_columns := cols \<rparr>) = Inr qs"
    and "set keys \<subseteq> set (opt_columns o1)" "set keys \<subseteq> set cols"
  shows "list_all2 (same_draws keys) ps qs"
proof -
  from generate_Inr[OF assms(1)] obtain as where a: "assignment lc ts o1 = Inr as" "length ps = nat (opt_rowCount o1)"
    "\<And>i. i < length ps \<Longrightarrow> \<exists>t. row_tract C ts o1 as i = Inr t \<and> ps ! i = make_person C o1 i t"
    by blast
  from generate_Inr[OF assms(2)] obtain bs where b: "assignment lc ts (o1 \<lparr> opt_columns := cols \<rparr>) = Inr bs"
    "length qs = nat (opt_rowCount (o1 \<lparr> opt_columns := cols \<rparr>))"
    "\<And>i. i < length qs \<Longrightarrow> \<exists>t. row_tract C ts (o1 \<lparr> opt_columns := cols \<rparr>) bs i = Inr t \<and>
       qs ! i = make_person C (o1 \<lparr> opt_columns := cols \<rparr>) i t"
    by blast
  have "assignment lc ts (o1 \<lparr> opt_columns := cols \<rparr>) = assignment lc ts o1"
    by (simp add: assignment_def split: option.split)
  with a b have len: "length qs = length ps" and bs: "bs = as" by simp_all
  show ?thesis
    unfolding list_all2_conv_all_nth
  proof (intro conjI allI impI)
    fix i assume i: "i < length ps"
    from a(3)[OF i] obtain t where t: "row_tract C ts o1 as i = Inr t" "ps ! i = make_person C o1 i t" by blast
    moreover have "qs ! i = make_person C (o1 \<lparr> opt_columns := cols \<rparr>) i t"
    proof -
      have "row_tract C ts (o1 \<lparr> opt_columns := cols \<rparr>) as i = row_tract C ts o1 as i"
        by (simp add: row_tract_def split: option.split)
      with b(3)[of i] i len bs t(1) show ?thesis by simp
    qed
    ultimately show "same_draws keys (ps ! i) (qs ! i)"
      using assms(3,4) by (simp add: make_person_same_draws)
  qed (simp add: len)
qed

section \<open>Row ids\<close>

fun fixed_digits :: "nat \<Rightarrow> nat \<Rightarrow> string" where
  "fixed_digits 0 n = []"
| "fixed_digits (Suc k) n = fixed_digits k (n div 10) @ [digit_char (n mod 10)]"

lemma length_fixed_digits [simp]: "length (fixed_digits k n) = k"
  by (induction k arbitrary: n) auto

lemma digit_char_0: "digit_char 0 = CHR ''0''"
  by code_simp

lemma fixed_digits_0: "fixed_digits k 0 = replicate k (CHR ''0'')"
  by (induction k) (auto simp: digit_char_0 replicate_append_same)

lemma pad_fixed: "n < 10 ^ Suc k \<Longrightarrow> pad_start (Suc k) (CHR ''0'') (string_of_nat n) = fixed_digits (Suc k) n"
proof (induction k arbitrary: n)
  case 0
  then show ?case by (subst string_of_nat.simps) (simp add: pad_start_def)
next
  case (Suc k)
  show ?case
  proof (cases "n < 10")
    case True
    then have "string_of_nat n = [digit_char n]" by (subst string_of_nat.simps) simp
    with True show ?thesis by (simp add: pad_start_def fixed_digits_0 digit_char_0 replicate_append_same)
  next
    case False
    then have s: "string_of_nat n = string_of_nat (n div 10) @ [digit_char (n mod 10)]"
      by (subst string_of_nat.simps) simp
    have "n div 10 < 10 ^ Suc k" using Suc.prems by (simp add: less_mult_imp_div_less mult.commute)
    from Suc.IH[OF this] show ?thesis unfolding s by (simp add: pad_start_def)
  qed
qed

lemma str_le_append:
  "length s = length t \<Longrightarrow> str_le (s @ a) (t @ b) \<longleftrightarrow> (s = t \<and> str_le a b) \<or> (s \<noteq> t \<and> str_le s t)"
  by (induction s t rule: list_induct2) auto

lemma str_le_same_prefix: "str_le (p @ a) (p @ b) = str_le a b"
  by (induction p) auto

lemma fixed_digits_less:
  "m < n \<Longrightarrow> n < 10 ^ k \<Longrightarrow> str_le (fixed_digits k m) (fixed_digits k n) \<and> fixed_digits k m \<noteq> fixed_digits k n"
proof (induction k arbitrary: m n)
  case (Suc k)
  have n: "n div 10 < 10 ^ k" using Suc.prems(2) by (simp add: less_mult_imp_div_less mult.commute)
  show ?case
  proof (cases "m div 10 = n div 10")
    case True
    with Suc.prems(1) have "m mod 10 < n mod 10"
      by (metis add_less_cancel_left mult_div_mod_eq)
    then have "of_char (digit_char (m mod 10)) < (of_char (digit_char (n mod 10)) :: nat)"
      by (simp add: of_char_digit)
    then have "str_le [digit_char (m mod 10)] [digit_char (n mod 10)]" "digit_char (m mod 10) \<noteq> digit_char (n mod 10)"
      by auto
    with True show ?thesis by (simp add: str_le_append del: str_le.simps)
  next
    case False
    with Suc.prems(1) have "m div 10 < n div 10" by (meson div_le_mono le_neq_implies_less less_imp_le_nat)
    from Suc.IH[OF this n] show ?thesis by (simp add: str_le_append)
  qed
qed simp

lemma person_id_less:
  assumes "i < j" "j < 999999"
  shows "str_le (person_id i) (person_id j) \<and> person_id i \<noteq> person_id j"
proof -
  have f: "person_id n = ''syn_'' @ fixed_digits 6 (n + 1)" if "n < 999999" for n
  proof -
    have "n + 1 < 10 ^ Suc 5" using that by simp
    from pad_fixed[OF this] show ?thesis by (simp add: person_id_def)
  qed
  have "j + 1 < 10 ^ 6" using assms(2) by simp
  with fixed_digits_less[of "i + 1" "j + 1" 6] assms show ?thesis
    by (simp add: f str_le_same_prefix del: str_le.simps append.simps)
qed

section \<open>The file reads back\<close>

definition one_line :: "string \<Rightarrow> bool" where
  "one_line s \<longleftrightarrow> CHR 0x0A \<notin> set s"

definition row_cells :: "string list \<Rightarrow> person \<Rightarrow> string list" where
  "row_cells cols p =
     [syntheticPersonId p, sourceTractFIPS p, sourceCountyName p, sourceStateAbbr p, ageBand p]
     @ map (flag_cell p) cols @ [''true'']"

lemma split_at_char_append: "c \<notin> set l \<Longrightarrow> split_at_char c (l @ c # r) = l # split_at_char c r"
  by (induction l) auto

lemma split_joined_lines:
  "ls \<noteq> [] \<Longrightarrow> list_all one_line ls \<Longrightarrow> split_at_char (CHR 0x0A) (join_with [CHR 0x0A] ls @ [CHR 0x0A]) = ls @ [[]]"
proof (induction ls)
  case (Cons l ls)
  then show ?case
    by (cases ls) (auto simp: one_line_def split_at_char_append)
qed simp

lemma plain_flag_cell: "plain_field (flag_cell p c)" "one_line (flag_cell p c)"
  by (auto simp: flag_cell_def plain_field_def one_line_def quote_char_def split: option.splits bool.splits)

lemma split_person_line:
  assumes "plain_field (syntheticPersonId p)" "plain_field (sourceTractFIPS p)" "plain_field (sourceStateAbbr p)"
    "plain_field (ageBand p)"
  shows "splitCsvLine (person_line cols p) = row_cells cols p"
proof -
  have "list_all2 csv_cell (map (flag_cell p) cols) (map (flag_cell p) cols)"
    by (auto simp: list_all2_same csv_cell_def plain_flag_cell)
  moreover have "plain_field ''true''" by (simp add: plain_field_def quote_char_def)
  ultimately have "list_all2 csv_cell (row_cells cols p)
      ([syntheticPersonId p, sourceTractFIPS p, csv_quoted (sourceCountyName p), sourceStateAbbr p, ageBand p]
        @ map (flag_cell p) cols @ [''true''])"
    using assms by (auto simp: row_cells_def csv_cell_def intro!: list_all2_appendI)
  from splitCsvLine_join[OF this] show ?thesis by (simp add: person_line_def row_cells_def)
qed

lemma set_join_with: "set (join_with sep xs) \<subseteq> set sep \<union> \<Union> (set (map set xs))"
  by (induction xs rule: induct_list012) auto

lemma one_line_join: "one_line sep \<Longrightarrow> list_all one_line xs \<Longrightarrow> one_line (join_with sep xs)"
  using set_join_with[of sep xs] by (auto simp: one_line_def list_all_iff)

lemma plain_digits: "list_all is_digit s \<Longrightarrow> plain_field s \<and> one_line s"
  by (auto simp: list_all_iff plain_field_def one_line_def is_digit_def quote_char_def)

lemma plain_person_id: "plain_field (person_id i)" "one_line (person_id i)"
proof -
  have "list_all is_digit (pad_start 6 (CHR ''0'') (string_of_nat (i + 1)))"
    using string_of_nat_digits[of _ "i + 1"] by (auto simp: pad_start_def list_all_iff is_digit_def)
  from plain_digits[OF this] show "plain_field (person_id i)" "one_line (person_id i)"
    by (auto simp: person_id_def plain_field_def one_line_def quote_char_def)
qed

lemma age_loop_bands: "age_loop u acc bs \<in> insert ''65+'' (fst ` set bs)"
  by (induction u acc bs rule: age_loop.induct) (auto simp: Let_def)

lemma plain_age_band: "plain_field (pickAgeBand u)" "one_line (pickAgeBand u)"
  using age_loop_bands[of u 0 SYNTHETIC_AGE_BANDS]
  by (auto simp: pickAgeBand_def SYNTHETIC_AGE_BANDS_def plain_field_def one_line_def quote_char_def)

lemma plain_make_person:
  "plain_field (ageBand (make_person C opts i t))" "one_line (ageBand (make_person C opts i t))"
  by (simp_all add: make_person_def Let_def plain_age_band)

lemma pickTract_set: "pickTract (buildSampler ts) u = Inr t \<Longrightarrow> t \<in> set ts"
proof -
  assume p: "pickTract (buildSampler ts) u = Inr t"
  show "t \<in> set ts"
  proof (cases ts)
    case Nil
    with p show ?thesis by (simp add: pickTract_def buildSampler_def)
  next
    case (Cons t' ts')
    let ?k = "pick_index (cumulate 0 (map tract_weight ts)) (fmul u (foldl fadd 0 (map tract_weight ts))) 0 (length ts - 1)"
    have "?k \<le> length ts - 1" using pick_index_range by blast
    with Cons have "ts ! ?k \<in> set ts" by (intro nth_mem) simp
    with p Cons show ?thesis by (auto simp: pickTract_def buildSampler_def Let_def split: if_splits)
  qed
qed

lemma generate_source:
  assumes g: "generateSyntheticPeople C lc ts opts = Inr ps" and p: "p \<in> set ps"
  shows "\<exists>i. \<exists>t\<in>set ts. p = make_person C opts i t"
proof -
  from generate_Inr[OF g] obtain as where ne: "ts \<noteq> []" and as: "assignment lc ts opts = Inr as"
    and len: "length ps = nat (opt_rowCount opts)"
    and nth: "\<And>i. i < length ps \<Longrightarrow> \<exists>t. row_tract C ts opts as i = Inr t \<and> ps ! i = make_person C opts i t"
    by blast
  from p obtain i where i: "i < length ps" "p = ps ! i" by (auto simp: in_set_conv_nth)
  from nth[OF i(1)] obtain t where t: "row_tract C ts opts as i = Inr t" "p = make_person C opts i t" using i by auto
  have "t \<in> set ts"
  proof (cases as)
    case None
    with t(1) show ?thesis by (simp add: row_tract_def pickTract_set)
  next
    case (Some fl)
    with as obtain r alloc where al: "allocateRows lc ts r (Some (opt_rowCount opts)) = Inr alloc"
      and fl: "fl = flat_assignment alloc ts"
      by (auto simp: assignment_def res_bind_Inr_iff split: option.splits)
    note a = allocateRows_props[OF al ne]
    have "i < length fl" using flat_assignment_length[OF a(1)] a(2) len i(1) fl by simp
    then have "fl ! i \<in> set ts"
      using nth_mem[of i fl] by (auto simp: fl flat_assignment_def dest: set_zip_rightD split: if_splits)
    with t(1) Some show ?thesis by (simp add: row_tract_def)
  qed
  with t(2) show ?thesis by blast
qed

definition csv_safe_tract :: "tract \<Rightarrow> bool" where
  "csv_safe_tract t \<longleftrightarrow> plain_field (tractFips t) \<and> plain_field (stateAbbr t) \<and>
     one_line (tractFips t) \<and> one_line (stateAbbr t) \<and> one_line (countyName t)"

lemma one_line_csv_quoted: "one_line f \<Longrightarrow> one_line (csv_quoted f)"
  by (auto simp: one_line_def csv_quoted_def double_quotes_def quote_char_def split: if_splits)

lemma header_safe:
  assumes "set cols \<subseteq> set MEASURE_KEYS"
  shows "list_all plain_field (deliverableHeader cols)" "list_all one_line (deliverableHeader cols)"
proof -
  have "\<forall>c\<in>set MEASURE_KEYS. \<exists>h. map_get SYNTHETIC_COLUMN c = Some h \<and> plain_field h \<and> one_line h"
    by (simp add: MEASURE_KEYS_def SYNTHETIC_COLUMN_def map_get_def plain_field_def one_line_def quote_char_def)
  then have "\<forall>c\<in>set cols. plain_field (case map_get SYNTHETIC_COLUMN c of Some h \<Rightarrow> h | None \<Rightarrow> js_lower c)
      \<and> one_line (case map_get SYNTHETIC_COLUMN c of Some h \<Rightarrow> h | None \<Rightarrow> js_lower c)"
    using assms by fastforce
  moreover have "list_all plain_field [''synthetic_person_id'', ''source_tract_fips'', ''source_county_name'',
      ''source_state_abbr'', ''age_band'', ''is_synthetic'']"
    "list_all one_line [''synthetic_person_id'', ''source_tract_fips'', ''source_county_name'',
      ''source_state_abbr'', ''age_band'', ''is_synthetic'']"
    by (simp_all add: plain_field_def one_line_def quote_char_def)
  ultimately show "list_all plain_field (deliverableHeader cols)" "list_all one_line (deliverableHeader cols)"
    by (simp_all add: deliverableHeader_def list_all_iff)
qed

lemma serialize_reads_back:
  assumes g: "generateSyntheticPeople C lc ts opts = Inr ps"
    and ts: "list_all csv_safe_tract ts" and cols: "set cols \<subseteq> set MEASURE_KEYS"
  shows "map splitCsvLine (split_at_char (CHR 0x0A) (serializeCsv ps cols))
     = deliverableHeader cols # map (row_cells cols) ps @ [[[]]]"
proof -
  let ?h = "join_with '','' (deliverableHeader cols)"
  have person: "splitCsvLine (person_line cols p) = row_cells cols p \<and> one_line (person_line cols p)" if "p \<in> set ps" for p
  proof -
    from generate_source[OF g that] obtain i t where t: "t \<in> set ts" "p = make_person C opts i t" by blast
    with ts have s: "csv_safe_tract t" by (auto simp: list_all_iff)
    have "splitCsvLine (person_line cols p) = row_cells cols p"
      by (rule split_person_line) (use s t in \<open>simp_all add: csv_safe_tract_def plain_person_id plain_make_person\<close>)
    moreover have "one_line (person_line cols p)"
      unfolding person_line_def
    proof (rule one_line_join)
      show "one_line '',''" "list_all one_line
        ([syntheticPersonId p, sourceTractFIPS p, csv_quoted (sourceCountyName p), sourceStateAbbr p, ageBand p]
          @ map (flag_cell p) cols @ [''true''])"
        using s t by (simp_all add: csv_safe_tract_def plain_person_id plain_make_person one_line_csv_quoted
            list_all_iff plain_flag_cell) (simp_all add: one_line_def)
    qed
    ultimately show ?thesis by blast
  qed
  have "list_all2 csv_cell (deliverableHeader cols) (deliverableHeader cols)"
    using header_safe(1)[OF cols] by (auto simp: list_all2_same csv_cell_def list_all_iff)
  then have h: "splitCsvLine ?h = deliverableHeader cols"
    by (rule splitCsvLine_join) (simp add: deliverableHeader_def)
  have "one_line ?h" by (rule one_line_join) (simp_all add: header_safe(2)[OF cols], simp add: one_line_def)
  then have "list_all one_line (?h # map (person_line cols) ps)" using person by (auto simp: list_all_iff)
  from split_joined_lines[OF _ this] person h show ?thesis
    by (simp add: serializeCsv_def) (simp add: splitCsvLine_def)
qed

lemma allocateRows_total:
  "1 \<le> r \<Longrightarrow> n \<le> MAX_ROWS \<Longrightarrow> r * int (length ts) \<le> n \<Longrightarrow> \<exists>alloc. allocateRows lc ts r (Some n) = Inr alloc"
  by (simp add: allocateRows_def Let_def)

lemma generate_total:
  assumes "ts \<noteq> []" "opt_rowsPerTract opts = Some r" "1 \<le> r" "r * int (length ts) \<le> opt_rowCount opts"
    "opt_rowCount opts \<le> MAX_ROWS"
  shows "\<exists>ps. generateSyntheticPeople C lc ts opts = Inr ps \<and> int (length ps) = opt_rowCount opts"
proof -
  obtain alloc where al: "allocateRows lc ts r (Some (opt_rowCount opts)) = Inr alloc"
    using allocateRows_total assms by blast
  let ?as = "Some (flat_assignment alloc ts)"
  have as: "assignment lc ts opts = Inr ?as" by (simp add: assignment_def assms(2) al)
  obtain ps where ps: "res_map_list (\<lambda>i. res_bind (row_tract C ts opts ?as i) (\<lambda>t. Inr (make_person C opts i t)))
      [0..<nat (opt_rowCount opts)] = Inr ps"
    using res_map_list_total[of "[0..<nat (opt_rowCount opts)]"
        "\<lambda>i. res_bind (row_tract C ts opts ?as i) (\<lambda>t. Inr (make_person C opts i t))"] by (auto simp: row_tract_def)
  have "generateSyntheticPeople C lc ts opts = Inr ps"
    using assms(1,5) ps by (simp add: generateSyntheticPeople_def as)
  moreover have "0 \<le> opt_rowCount opts"
  proof -
    have "0 \<le> r * int (length ts)" using assms(3) by simp
    with assms(4) show ?thesis by linarith
  qed
  then have "int (length ps) = opt_rowCount opts" using res_map_list_nth[OF ps] by simp
  ultimately show ?thesis by blast
qed

section \<open>Properties\<close>

text \<open>
  C39: every purchased tract is in the file. In floor mode, with \<open>rowsPerTract = r\<close>, at least one row per
  tract, \<open>r\<close> times the number of tracts within the row count and the row count within \<open>MAX_ROWS\<close>,
  generation succeeds, makes exactly the rows asked for, and every tract of the slice has at least \<open>r\<close>
  rows.  Nothing is claimed without the floor, where a tract may draw no row at any density.
\<close>

theorem every_tract_represented:
  assumes "ts \<noteq> []" and "opt_rowsPerTract opts = Some r" and "1 \<le> r"
    and "r * int (length ts) \<le> opt_rowCount opts" and "opt_rowCount opts \<le> MAX_ROWS"
  shows "\<exists>ps. generateSyntheticPeople C lc ts opts = Inr ps \<and> int (length ps) = opt_rowCount opts \<and>
    (\<forall>t\<in>set ts. r \<le> int (length (filter (\<lambda>p. sourceTractFIPS p = tractFips t) ps)))"
proof -
  from generate_total[OF assms] obtain ps where
    ps: "generateSyntheticPeople C lc ts opts = Inr ps" "int (length ps) = opt_rowCount opts" by blast
  have "r \<le> int (length (filter (\<lambda>p. sourceTractFIPS p = tractFips t) ps))" if "t \<in> set ts" for t
    using generate_represented[OF ps(1) assms(2)] that by (auto simp: in_set_conv_nth)
  with ps show ?thesis by blast
qed

definition sample_options :: synthesis_options where
  "sample_options = \<lparr> opt_rowCount = 8, opt_rowsPerTract = Some 2, opt_seed = ''seed'', opt_columns = [''DIABETES'', ''SLEEP''] \<rparr>"

theorem every_tract_represented_witness:
  "\<exists>ps. generateSyntheticPeople sample_crypto str_le (sample_tracts None) sample_options = Inr ps \<and> int (length ps) = 8 \<and>
     list_all (\<lambda>t. 2 \<le> int (length (filter (\<lambda>p. sourceTractFIPS p = tractFips t) ps))) (sample_tracts None)"
proof -
  have "sample_tracts None \<noteq> []" "opt_rowsPerTract sample_options = Some 2" "(1 :: int) \<le> 2"
    "2 * int (length (sample_tracts None)) \<le> opt_rowCount sample_options" "opt_rowCount sample_options \<le> MAX_ROWS"
    by (simp_all add: sample_tracts_def sample_options_def MAX_ROWS_def)
  from every_tract_represented[OF this, of sample_crypto str_le] show ?thesis
    by (simp add: list_all_iff sample_options_def)
qed

text \<open>
  The allocation. It hands out exactly the total, keeps the floor for every tract, no two tracts
  differ by more than one row, and the extra rows go to the tracts first in the order of adult
  population with the FIPS code as the tiebreak.
\<close>

theorem allocation_is_even:
  assumes "ts \<noteq> []" and "1 \<le> r" and "r * int (length ts) \<le> n" and "n \<le> MAX_ROWS"
  shows "\<exists>alloc. allocateRows lc ts r (Some n) = Inr alloc \<and> length alloc = length ts \<and> int (sum_list alloc) = n \<and>
    (\<forall>i<length ts. r \<le> int (alloc ! i)) \<and>
    (\<forall>i<length ts. \<forall>j<length ts. alloc ! i \<le> alloc ! j + 1) \<and>
    (\<forall>j<length ts. \<forall>i\<le>j. alloc ! (remainder_order lc ts ! j) \<le> alloc ! (remainder_order lc ts ! i))"
proof -
  obtain alloc where al: "allocateRows lc ts r (Some n) = Inr alloc"
    using allocateRows_total assms by blast
  from allocateRows_props[OF this assms(1)] al show ?thesis by blast
qed

theorem allocation_is_even_witness:
  "\<exists>alloc. allocateRows str_le (sample_tracts None) 2 (Some 8) = Inr alloc \<and> sum_list alloc = 8"
  using allocation_is_even[of "sample_tracts None" 2 8 str_le] by (auto simp: sample_tracts_def MAX_ROWS_def)

text \<open>
  The population-weighted pick. For adult populations that are whole numbers with a sum of at
  most 2 ^ 53 and a draw on the 48-bit grid, the pick is a tract with adults, and it is the one whose
  slice of the cumulative population holds the scaled draw.
\<close>

theorem pickTract_weighted:
  assumes "map tract_weight ts = map of_nat ws" and "0 < sum_list ws" and "sum_list ws \<le> 2 ^ 53"
    and "u = of_nat n / 2 ^ 48" and "n < 2 ^ 48"
  shows "\<exists>k<length ts. pickTract (buildSampler ts) u = Inr (ts ! k) \<and> 0 < ws ! k \<and>
    of_nat (sum_list (take k ws)) \<le> fmul u (of_nat (sum_list ws)) \<and>
    fmul u (of_nat (sum_list ws)) < of_nat (sum_list (take k ws) + ws ! k)"
  by (rule pickTract_whole[OF assms])

theorem pickTract_weighted_witness:
  "\<exists>t\<in>set (sample_tracts None). pickTract (buildSampler (sample_tracts None)) (1 / 2) = Inr t"
proof -
  have "map tract_weight (sample_tracts None) = map of_nat [3900, 800, 2900]"
    by (simp add: sample_tracts_def sample_tract_def tract_weight_def)
  from pickTract_weighted[OF this, of "1 / 2" "2 ^ 47"] obtain k where "k < length (sample_tracts None)"
    "pickTract (buildSampler (sample_tracts None)) (1 / 2) = Inr (sample_tracts None ! k)" by auto
  then show ?thesis using nth_mem by blast
qed

text \<open>
  Draws are independent streams. Generating with another list of columns, everything else equal,
  changes no row's id, tract, age band or flag of a column that is in both lists.
\<close>

theorem draws_do_not_shift:
  assumes "generateSyntheticPeople C lc ts opts = Inr ps"
    and "generateSyntheticPeople C lc ts (opts \<lparr> opt_columns := cols \<rparr>) = Inr qs"
    and "set keys \<subseteq> set (opt_columns opts)" and "set keys \<subseteq> set cols"
  shows "list_all2 (same_draws keys) ps qs"
  using assms by (rule generate_same_draws)

theorem draws_do_not_shift_witness:
  "\<exists>ps qs. generateSyntheticPeople sample_crypto str_le (sample_tracts None) sample_options = Inr ps \<and>
     generateSyntheticPeople sample_crypto str_le (sample_tracts None) (sample_options \<lparr> opt_columns := [''CHD'', ''SLEEP''] \<rparr>) = Inr qs \<and>
     list_all2 (same_draws [''SLEEP'']) ps qs"
proof -
  let ?o = "sample_options \<lparr> opt_columns := [''CHD'', ''SLEEP''] \<rparr>"
  obtain ps qs where g: "generateSyntheticPeople sample_crypto str_le (sample_tracts None) sample_options = Inr ps"
    "generateSyntheticPeople sample_crypto str_le (sample_tracts None) ?o = Inr qs"
    using generate_total[of "sample_tracts None" sample_options 2 sample_crypto str_le]
      generate_total[of "sample_tracts None" ?o 2 sample_crypto str_le]
    by (auto simp: sample_tracts_def sample_options_def MAX_ROWS_def)
  with draws_do_not_shift[OF g, of "[''SLEEP'']"] show ?thesis by (auto simp: sample_options_def)
qed

text \<open>
  Row ids sort as they count. Up to the most rows the generator makes, a later row's id is
  greater in the code-unit order, so ids are distinct and sorting the file by id keeps its order.
\<close>

theorem row_ids_sort:
  assumes "i < j" and "int j < MAX_ROWS"
  shows "str_le (person_id i) (person_id j) \<and> person_id i \<noteq> person_id j"
  using assms by (intro person_id_less) (simp_all add: MAX_ROWS_def)

theorem row_ids_sort_witness: "person_id 8 = ''syn_000009'' \<and> str_le (person_id 8) (person_id 9)"
  using row_ids_sort[of 8 9] by (simp add: MAX_ROWS_def) code_simp

text \<open>
  The file reads back. For tracts whose codes are plain single-line text (county names may hold
  commas and quotes), splitting the generated file into lines and each line with the engine's own
  CSV splitter gives the header, one row of cells per person in order, and the end of file.
\<close>

theorem serialized_file_reads_back:
  assumes "generateSyntheticPeople C lc ts opts = Inr ps" and "list_all csv_safe_tract ts"
    and "set cols \<subseteq> set MEASURE_KEYS"
  shows "map splitCsvLine (split_at_char (CHR 0x0A) (serializeCsv ps cols))
     = deliverableHeader cols # map (row_cells cols) ps @ [[[]]]"
  using assms by (rule serialize_reads_back)

theorem serialized_file_reads_back_witness:
  "\<exists>ps. generateSyntheticPeople sample_crypto str_le (sample_tracts None) sample_options = Inr ps \<and>
     length (split_at_char (CHR 0x0A) (serializeCsv ps [''SLEEP''])) = 10"
proof -
  obtain ps where g: "generateSyntheticPeople sample_crypto str_le (sample_tracts None) sample_options = Inr ps"
    "int (length ps) = 8"
    using generate_total[of "sample_tracts None" sample_options 2 sample_crypto str_le]
    by (auto simp: sample_tracts_def sample_options_def MAX_ROWS_def)
  have "list_all csv_safe_tract (sample_tracts None)"
    by (simp add: sample_tracts_def sample_tract_def csv_safe_tract_def plain_field_def one_line_def quote_char_def)
  from serialized_file_reads_back[OF g(1) this, of "[''SLEEP'']"]
  have "map splitCsvLine (split_at_char (CHR 0x0A) (serializeCsv ps [''SLEEP'']))
      = deliverableHeader [''SLEEP''] # map (row_cells [''SLEEP'']) ps @ [[[]]]" by (simp add: MEASURE_KEYS_def)
  from arg_cong[OF this, of length] g show ?thesis by simp
qed

end
