(* ===== verification/Product.thy ===== *)
theory Product
  imports Synth
begin

text \<open>
  \<open>src/product.ts\<close>: how an untrusted request body becomes a query, the density it is quoted at, the
  hash of what was ordered, and the composition of a quote from validation, evaluation, statistics,
  price, commitment and sample.  Row counts and densities are whole numbers (\<open>int\<close>); the card's rate
  terms are numbers.
\<close>

datatype product_error =
    PriceFailed data_error
  | CommitFailed hash_error
  | NotIterable

record density_terms =
  rowsPerTractDefault :: int
  rowsPerTractMin :: int
  rowsPerTractMax :: int

section \<open>The request body\<close>

text \<open>\<open>typeof v === "object" && v !== null ? v : {}\<close>\<close>

definition as_object :: "jsval \<Rightarrow> jsval" where
  "as_object v = (if typeof v = ''object'' \<and> v \<noteq> JNull then v else JObj [])"

definition strArray :: "jsval \<Rightarrow> string list option" where
  "strArray v = (case v of JArr xs \<Rightarrow> Some (string_array v) | _ \<Rightarrow> None)"

definition readQuery :: "jsval \<Rightarrow> query" where
  "readQuery body =
     (let b = as_object body; th = getp b ''thresholds''
      in \<lparr> columns = js_set_of (case strArray (getp b ''columns'') of Some xs \<Rightarrow> xs | None \<Rightarrow> []),
           q_states = map_option js_set_of (strArray (getp b ''states'')),
           q_counties = map_option js_set_of (strArray (getp b ''counties'')),
           minPopulation = getp b ''minPopulation'',
           thresholds = (if typeof th = ''object'' \<and> th \<noteq> JNull then th else JUndef) \<rparr>)"

definition densityAsked :: "jsval \<Rightarrow> density_terms \<Rightarrow> int" where
  "densityAsked body density =
     (let asked = js_number (coalesce (getp (as_object body) ''rowsPerTract'') (JInt (rowsPerTractDefault density)));
          n = (case asked of Fin r \<Rightarrow> if 1 \<le> r then \<lfloor>r\<rfloor> else 1 | _ \<Rightarrow> 1)
      in min (max n (rowsPerTractMin density)) (rowsPerTractMax density))"

section \<open>The hash of the order\<close>

text \<open>
  \<open>[...v]\<close>: the elements of an array, the characters of a string (a character starts at every byte
  that does not continue one), and a TypeError for what is not iterable.
\<close>

fun code_points :: "string \<Rightarrow> string list" where
  "code_points [] = []"
| "code_points (c # s) =
     (case code_points s of
        [] \<Rightarrow> [[c]]
      | p # ps \<Rightarrow>
          if 128 \<le> (of_char (hd p) :: nat) \<and> (of_char (hd p) :: nat) < 192 then (c # p) # ps
          else [c] # p # ps)"

definition spread :: "jsval \<Rightarrow> (product_error, jsval list) res" where
  "spread v =
     (case v of
        JArr xs \<Rightarrow> Inr xs
      | JStr s \<Rightarrow> Inr (map JStr (code_points s))
      | _ \<Rightarrow> Inl NotIterable)"

text \<open>\<open>xs.sort()\<close> with the default comparison: by \<open>String(x)\<close>, undefined elements last.\<close>

definition js_sort :: "jsval list \<Rightarrow> jsval list" where
  "js_sort xs =
     sort_by (\<lambda>a b. str_le (js_string a) (js_string b)) (filter (\<lambda>x. x \<noteq> JUndef) xs)
     @ filter (\<lambda>x. x = JUndef) xs"

definition sorted_member :: "jsval \<Rightarrow> string \<Rightarrow> (product_error, jsval) res" where
  "sorted_member q k = res_bind (spread (coalesce (getp q k) (JArr []))) (\<lambda>xs. Inr (JArr (js_sort xs)))"

definition canonical_order :: "jsval \<Rightarrow> (product_error, jsval) res" where
  "canonical_order q =
     res_bind (sorted_member q ''columns'') (\<lambda>cols.
     res_bind (sorted_member q ''states'') (\<lambda>states.
     res_bind (sorted_member q ''counties'') (\<lambda>counties.
       Inr (JObj [(''columns'', cols), (''states'', states), (''counties'', counties),
                  (''minPopulation'', coalesce (getp q ''minPopulation'') JNull),
                  (''thresholds'', coalesce (getp q ''thresholds'') (JObj []))]))))"

definition criteriaHashOf :: "crypto \<Rightarrow> jsval \<Rightarrow> (product_error, string) res" where
  "criteriaHashOf C q =
     (if q = JNull \<or> typeof q \<noteq> ''object'' then Inr (sha256Ref C ''{}'')
      else res_bind (canonical_order q) (\<lambda>canonical.
             Inr (sha256Ref C (case json_stringify canonical of Some t \<Rightarrow> t | None \<Rightarrow> ''undefined''))))"

section \<open>The quote\<close>

text \<open>\<open>n.toLocaleString("en-US")\<close> of a whole number: groups of three digits from the right.\<close>

fun group_rev :: "string \<Rightarrow> string" where
  "group_rev (a # b # c # d # r) = a # b # c # CHR '','' # group_rev (d # r)"
| "group_rev s = s"

definition to_locale_string :: "int \<Rightarrow> string" where
  "to_locale_string n = (if n < 0 then ''-'' else '''') @ rev (group_rev (rev (string_of_nat (nat \<bar>n\<bar>))))"

record deliverable_shape =
  ds_unit :: string
  ds_rowsPerTract :: int
  ds_rowCount :: int
  ds_tractCount :: nat
  ds_everyTractRepresented :: bool
  ds_perTractStandardErrorPp :: "(string, rat) jsmap"
  ds_perTractRatesSupported :: bool
  ds_note :: string

record quote_body =
  qb_tractCount :: nat
  qb_priceable :: bool
  qb_price :: "price option"
  qb_zeroYieldStates :: "string list"
  qb_sample :: "(string, jsval) jsmap list"
  qb_stats :: aggregate_stats
  qb_deliverable :: "deliverable_shape option"
  qb_note :: string

record quote_accepted =
  qa_tractCount :: nat
  qa_rowsPerTract :: int
  qa_deliverableRowCount :: int
  qa_statsHash :: "string option"
  qa_criteriaHash :: string
  qa_summary :: string
  qa_body :: quote_body

datatype quote_facts =
    QuoteRefused "rejection list"
  | QuoteAccepted quote_accepted

text \<open>The mean of a measure, zero when there is none, and the precision of every purchased measure.\<close>

definition mean_or_zero :: "aggregate_stats \<Rightarrow> string \<Rightarrow> rat" where
  "mean_or_zero stats m = (case map_get (perMeasure stats) m of Some s \<Rightarrow> ms_mean s | None \<Rightarrow> 0)"

definition precision_table :: "aggregate_stats \<Rightarrow> string list \<Rightarrow> int \<Rightarrow> (string, rat) jsmap" where
  "precision_table stats cols rowsPerTract =
     fold (\<lambda>m acc. map_set m (perTractPrecisionPp (mean_or_zero stats m) rowsPerTract) acc) cols []"

definition EM_DASH :: string where
  "EM_DASH = [CHR 0xE2, CHR 0x80, CHR 0x94]"

definition deliverable_note :: "nat \<Rightarrow> int \<Rightarrow> string" where
  "deliverable_note tractCount rowsPerTract =
     ''Every one of the '' @ to_locale_string (int tractCount) @ '' matched tracts gets '' @ string_of_int rowsPerTract @
     '' '' @ ''row(s). One tract's rate at that density carries the standard error above, so this file is for '' @
     ''person-level work over the slice '' @ EM_DASH @ '' not for ranking individual tracts. For a tract's own rate, '' @
     ''read the published CDC PLACES value: it is this file's input and it is free.''"

definition deliverable_of :: "nat \<Rightarrow> int \<Rightarrow> aggregate_stats \<Rightarrow> string list \<Rightarrow> deliverable_shape" where
  "deliverable_of tractCount rowsPerTract stats cols = \<lparr>
     ds_unit = ''synthetic person, one row each'', ds_rowsPerTract = rowsPerTract,
     ds_rowCount = rowsPerTract * int tractCount, ds_tractCount = tractCount, ds_everyTractRepresented = True,
     ds_perTractStandardErrorPp = precision_table stats cols rowsPerTract,
     ds_perTractRatesSupported = False, ds_note = deliverable_note tractCount rowsPerTract \<rparr>"

definition quote_summary :: "int \<Rightarrow> nat \<Rightarrow> price option \<Rightarrow> string" where
  "quote_summary rowCount tractCount pr =
     ''I can provide a '' @ to_locale_string rowCount @ ''-row synthetic dataset over '' @
     to_locale_string (int tractCount) @ '' tracts '' @ EM_DASH @ '' every tract represented. '' @
     ''List price '' @ (case pr of Some p \<Rightarrow> listAmountDisplay p | None \<Rightarrow> EM_DASH) @ ''.''"

text \<open>The price, nothing for an empty slice, and the commitment, nothing for an empty slice.\<close>

definition price_of_slice :: "nat \<Rightarrow> string list \<Rightarrow> rate_card_terms \<Rightarrow> (product_error, price option) res" where
  "price_of_slice tractCount cols rateCard =
     (if tractCount = 0 then Inr None
      else case priceQuery tractCount cols rateCard of
             Inl e \<Rightarrow> Inl (PriceFailed e)
           | Inr p \<Rightarrow> Inr (Some p))"

definition commitment_of_slice ::
  "crypto \<Rightarrow> (string \<Rightarrow> string \<Rightarrow> bool) \<Rightarrow> nat \<Rightarrow> aggregate_stats \<Rightarrow> query \<Rightarrow> (product_error, string option) res" where
  "commitment_of_slice C lc tractCount stats q =
     (if tractCount = 0 then Inr None
      else case statsCommitment C lc stats q of
             Inl e \<Rightarrow> Inl (CommitFailed e)
           | Inr (statsHash, criteriaHash) \<Rightarrow> Inr (Some statsHash))"

definition composeQuote ::
  "crypto \<Rightarrow> (string \<Rightarrow> string \<Rightarrow> bool) \<Rightarrow> corpus \<Rightarrow> jsval \<Rightarrow> rate_card_terms \<Rightarrow> density_terms
     \<Rightarrow> (product_error, quote_facts) res" where
  "composeQuote C lc corpus body rateCard density =
     (let q = readQuery body; rejections = validateQuery q corpus
      in if rejections \<noteq> [] then Inr (QuoteRefused rejections)
         else
           (let matched = evaluateQuery q corpus;
                tractCount = length (m_tracts matched);
                rowsPerTract = densityAsked body density;
                stats = aggregateStats (m_tracts matched) (columns q)
            in res_bind (price_of_slice tractCount (columns q) rateCard) (\<lambda>pr.
               res_bind (commitment_of_slice C lc tractCount stats q) (\<lambda>statsHash.
               res_bind (criteriaHashOf C body) (\<lambda>criteriaHash.
               let rowCount = rowsPerTract * int tractCount
               in Inr (QuoteAccepted \<lparr>
                    qa_tractCount = tractCount, qa_rowsPerTract = rowsPerTract, qa_deliverableRowCount = rowCount,
                    qa_statsHash = statsHash, qa_criteriaHash = criteriaHash,
                    qa_summary = quote_summary rowCount tractCount pr,
                    qa_body = \<lparr>
                      qb_tractCount = tractCount, qb_priceable = (tractCount > 0), qb_price = pr,
                      qb_zeroYieldStates = zeroYieldStates matched,
                      qb_sample = sampleRows (m_tracts matched) (columns q) 5, qb_stats = stats,
                      qb_deliverable = (if tractCount = 0 then None
                        else Some (deliverable_of tractCount rowsPerTract stats (columns q))),
                      qb_note = (if tractCount = 0
                        then ''No tracts match. Nothing is priced, because an empty slice is not a product.''
                        else ''Free and non-committal. A committed quote is the one pinned into signed terms.'') \<rparr> \<rparr>))))))"

definition checkCardAgainstCorpus ::
  "corpus \<Rightarrow> int \<Rightarrow> int \<Rightarrow> (string, string list) jsmap \<Rightarrow> (string, string) jsmap option \<Rightarrow> (data_error, unit) res" where
  "checkCardAgainstCorpus corpus cardTracts cardStates cardUnavailable cardTiers =
     assertCardMatchesCorpus corpus cardTracts cardStates cardUnavailable cardTiers"


section \<open>Lemmas\<close>

lemma distinct_readQuery:
  "distinct (columns (readQuery body))" "distinct (or_empty (q_states (readQuery body)))"
  "distinct (or_empty (q_counties (readQuery body)))"
  by (auto simp: readQuery_def Let_def or_empty_def split: option.splits)

lemma densityAsked_bounds:
  assumes "rowsPerTractMin d \<le> rowsPerTractMax d"
  shows "rowsPerTractMin d \<le> densityAsked body d" "densityAsked body d \<le> rowsPerTractMax d"
  using assms by (auto simp: densityAsked_def Let_def)

lemma densityAsked_in_range:
  assumes "getp (as_object body) ''rowsPerTract'' = JNum (Fin r)" and "1 \<le> r"
    and "rowsPerTractMin d \<le> \<lfloor>r\<rfloor>" and "\<lfloor>r\<rfloor> \<le> rowsPerTractMax d"
  shows "densityAsked body d = \<lfloor>r\<rfloor>"
  using assms by (simp add: densityAsked_def js_number_def)

lemma composeQuote_refused:
  "composeQuote C lc corpus body rateCard density = Inr (QuoteRefused rs) \<longleftrightarrow>
     rs \<noteq> [] \<and> rs = validateQuery (readQuery body) corpus"
  by (auto simp: composeQuote_def Let_def res_bind_Inr_iff split: if_splits)

lemma composeQuote_accepted:
  assumes "composeQuote C lc corpus body rateCard density = Inr (QuoteAccepted qa)"
  defines "ts \<equiv> m_tracts (evaluateQuery (readQuery body) corpus)"
  shows "validateQuery (readQuery body) corpus = []" "qa_tractCount qa = length ts"
    "qa_rowsPerTract qa = densityAsked body density"
    "qa_deliverableRowCount qa = densityAsked body density * int (length ts)"
    "price_of_slice (length ts) (columns (readQuery body)) rateCard = Inr (qb_price (qa_body qa))"
    "commitment_of_slice C lc (length ts) (aggregateStats ts (columns (readQuery body))) (readQuery body)
       = Inr (qa_statsHash qa)"
    "criteriaHashOf C body = Inr (qa_criteriaHash qa)"
    "qb_stats (qa_body qa) = aggregateStats ts (columns (readQuery body))"
    "qb_sample (qa_body qa) = sampleRows ts (columns (readQuery body)) 5"
    "qb_deliverable (qa_body qa) = (if ts = [] then None
       else Some (deliverable_of (length ts) (densityAsked body density)
         (aggregateStats ts (columns (readQuery body))) (columns (readQuery body))))"
  using assms by (auto simp: composeQuote_def Let_def res_bind_Inr_iff split: if_splits)

lemma price_of_slice_total:
  assumes "set cols \<subseteq> set MEASURE_KEYS"
  shows "\<exists>p. price_of_slice n cols rc = Inr p \<and> (p = None \<longleftrightarrow> n = 0)"
proof -
  obtain p where "priceQuery n cols rc = Inr p" using assms priceQuery_error by blast
  then show ?thesis by (simp add: price_of_slice_def)
qed

lemma commitment_of_slice_total:
  "(\<exists>h. commitment_of_slice C lc n s q = Inr h) \<longleftrightarrow> n = 0 \<or> (\<exists>h. statsCommitment C lc s q = Inr h)"
  "commitment_of_slice C lc n s q = Inr h \<Longrightarrow> h = None \<longleftrightarrow> n = 0"
  by (auto simp: commitment_of_slice_def split: sum.splits if_splits prod.splits)

lemma composeQuote_total:
  assumes "validateQuery (readQuery body) corpus = []"
  defines "ts \<equiv> m_tracts (evaluateQuery (readQuery body) corpus)"
  shows "(\<exists>f. composeQuote C lc corpus body rateCard density = Inr f) \<longleftrightarrow>
    (ts = [] \<or> (\<exists>h. statsCommitment C lc (aggregateStats ts (columns (readQuery body))) (readQuery body) = Inr h)) \<and>
    (\<exists>h. criteriaHashOf C body = Inr h)"
proof -
  have "query_accepted (readQuery body) corpus"
    using assms(1) by (simp add: validateQuery_Nil query_problems_iff)
  then have "set (columns (readQuery body)) \<subseteq> set MEASURE_KEYS" by (simp add: query_accepted_def)
  from price_of_slice_total[OF this] obtain p where
    p: "price_of_slice (length ts) (columns (readQuery body)) rateCard = Inr p" by blast
  have "(\<exists>f. composeQuote C lc corpus body rateCard density = Inr f) \<longleftrightarrow>
      (\<exists>h. commitment_of_slice C lc (length ts) (aggregateStats ts (columns (readQuery body))) (readQuery body) = Inr h) \<and>
      (\<exists>h. criteriaHashOf C body = Inr h)"
    using p assms(1) unfolding composeQuote_def Let_def ts_def[symmetric] by (auto simp: res_bind_def split: sum.splits)
  then show ?thesis by (simp add: commitment_of_slice_total(1))
qed

lemma composeQuote_projection:
  assumes c: "corpus_ok c" and d: "corpus_ok d" and cd: "same_projection (columns (readQuery body)) c d"
  shows "composeQuote C lc c body rateCard density = composeQuote C lc d body rateCard density"
proof -
  let ?q = "readQuery body"
  have v: "validateQuery ?q c = validateQuery ?q d" by (rule same_projection_problems[OF c d cd])
  show ?thesis
  proof (cases "validateQuery ?q d = []")
    case False
    with v show ?thesis by (simp add: composeQuote_def)
  next
    case True
    with v have q: "query_accepted ?q c" "query_accepted ?q d" by (simp_all add: validateQuery_Nil query_problems_iff)
    note e = evaluate_same_projection[OF c d cd q]
    have l: "length (m_tracts (evaluateQuery ?q c)) = length (m_tracts (evaluateQuery ?q d))"
      using e(1) by (metis length_map)
    then have n: "m_tracts (evaluateQuery ?q c) = [] \<longleftrightarrow> m_tracts (evaluateQuery ?q d) = []"
      by (metis length_0_conv)
    show ?thesis
      unfolding composeQuote_def Let_def v l e(2) aggregate_projection[OF e(1)] sample_projection[OF e(1)] ..
  qed
qed



lemma insert_by_map_JStr:
  "insert_by (\<lambda>a b. str_le (js_string a) (js_string b)) (JStr x) (map JStr xs) = map JStr (insert_by str_le x xs)"
  by (induction xs) simp_all

lemma sort_by_map_JStr:
  "sort_by (\<lambda>a b. str_le (js_string a) (js_string b)) (map JStr xs) = map JStr (sort_strings xs)"
  unfolding sort_strings_def by (induction xs) (simp_all add: insert_by_map_JStr)

lemma js_sort_strings: "js_sort (map JStr xs) = map JStr (sort_strings xs)"
  by (simp add: js_sort_def filter_map comp_def sort_by_map_JStr)

text \<open>A query as the JSON object a buyer writes.\<close>

definition strings_js :: "string list \<Rightarrow> jsval" where
  "strings_js xs = JArr (map JStr xs)"

definition opt_member :: "string \<Rightarrow> jsval \<Rightarrow> (string \<times> jsval) list" where
  "opt_member k v = (if v = JUndef then [] else [(k, v)])"

definition query_js :: "query \<Rightarrow> jsval" where
  "query_js q = JObj ([(''columns'', strings_js (columns q))]
     @ opt_member ''states'' (case q_states q of None \<Rightarrow> JUndef | Some xs \<Rightarrow> strings_js xs)
     @ opt_member ''counties'' (case q_counties q of None \<Rightarrow> JUndef | Some xs \<Rightarrow> strings_js xs)
     @ opt_member ''minPopulation'' (minPopulation q)
     @ opt_member ''thresholds'' (thresholds q))"

definition query_written :: "query \<Rightarrow> bool" where
  "query_written q \<longleftrightarrow> distinct (columns q) \<and> distinct (or_empty (q_states q)) \<and> distinct (or_empty (q_counties q)) \<and>
     (thresholds q = JUndef \<or> typeof (thresholds q) = ''object'' \<and> thresholds q \<noteq> JNull)"

lemma string_array_strings_js [simp]: "strArray (strings_js xs) = Some xs"
  by (simp add: strArray_def strings_js_def string_array_def map_filter_simps) (induction xs; simp add: List.map_filter_simps)

lemma query_js_members:
  "getp (query_js q) ''columns'' = strings_js (columns q)"
  "getp (query_js q) ''states'' = (case q_states q of None \<Rightarrow> JUndef | Some xs \<Rightarrow> strings_js xs)"
  "getp (query_js q) ''counties'' = (case q_counties q of None \<Rightarrow> JUndef | Some xs \<Rightarrow> strings_js xs)"
  "getp (query_js q) ''minPopulation'' = minPopulation q"
  "getp (query_js q) ''thresholds'' = thresholds q"
  by (auto simp: query_js_def opt_member_def split: option.splits)

lemma as_object_query_js [simp]: "as_object (query_js q) = query_js q"
  by (simp add: as_object_def query_js_def typeof_def)

lemma strArray_JUndef [simp]: "strArray JUndef = None"
  by (simp add: strArray_def)

lemma readQuery_query_js: "query_written q \<Longrightarrow> readQuery (query_js q) = q"
  by (cases q) (auto simp: readQuery_def Let_def query_js_members query_written_def js_set_of_distinct or_empty_def
      typeof_def split: option.splits)

lemma criteriaHashOf_query_js:
  "criteriaHashOf C (query_js q) = Inr (sha256Ref C (the (json_stringify (JObj
     [(''columns'', strings_js (sort_strings (columns q))),
      (''states'', strings_js (sort_strings (or_empty (q_states q)))),
      (''counties'', strings_js (sort_strings (or_empty (q_counties q)))),
      (''minPopulation'', coalesce (minPopulation q) JNull),
      (''thresholds'', coalesce (thresholds q) (JObj []))]))))"
proof -
  have s: "sorted_member (query_js q) k = Inr (strings_js (sort_strings xs))"
    if "coalesce (getp (query_js q) k) (JArr []) = strings_js xs" for k xs
    using that by (simp add: sorted_member_def spread_def strings_js_def js_sort_strings)
  have e: "JArr [] = strings_js []" by (simp add: strings_js_def)
  have n: "\<not> nullish (strings_js xs)" for xs by (simp add: strings_js_def)
  have "sorted_member (query_js q) ''columns'' = Inr (strings_js (sort_strings (columns q)))"
    by (rule s) (simp add: query_js_members n)
  moreover have "sorted_member (query_js q) ''states'' = Inr (strings_js (sort_strings (or_empty (q_states q))))"
    by (rule s) (simp add: query_js_members n or_empty_def e split: option.split)
  moreover have "sorted_member (query_js q) ''counties'' = Inr (strings_js (sort_strings (or_empty (q_counties q))))"
    by (rule s) (simp add: query_js_members n or_empty_def e split: option.split)
  moreover have "query_js q \<noteq> JNull" "typeof (query_js q) = ''object''" by (simp_all add: query_js_def typeof_def)
  ultimately show ?thesis
    by (simp add: criteriaHashOf_def canonical_order_def query_js_members del: json_stringify.simps)
       (simp only: json_stringify.simps option.case option.sel)
qed



section \<open>Properties\<close>

definition sample_rate_card :: rate_card_terms where
  "sample_rate_card = \<lparr> baseCents = 100, perTractMicroCents = 0, perStandardColumnCents = 500,
     perPremiumColumnCents = 500, vintageMultiplierBps = 10000 \<rparr>"

definition sample_density :: density_terms where
  "sample_density = \<lparr> rowsPerTractDefault = 25, rowsPerTractMin = 1, rowsPerTractMax = 100 \<rparr>"

lemma sample_written: "query_written sample_query" "query_written fractional_query"
  by (simp_all add: query_written_def sample_query_def fractional_query_def or_empty_def typeof_def)

text \<open>
  C33: a quote tells nothing about what was not bought: for two loaded corpora that agree on every
  tract but for measures outside the requested columns, the whole answer to a request body is the
  same, refusals, price, statistics, precision figures, sample, commitment and texts included.
\<close>

theorem quote_hides_unpurchased_measures:
  assumes "corpus_ok c" and "corpus_ok d" and "same_projection (columns (readQuery body)) c d"
  shows "composeQuote C lc c body rateCard density = composeQuote C lc d body rateCard density"
  using assms by (rule composeQuote_projection)

theorem quote_hides_unpurchased_measures_witness:
  "composeQuote sample_crypto str_le (corpus_from (sample_tracts None)) (query_js sample_query) sample_rate_card sample_density
    = composeQuote sample_crypto str_le (corpus_from (sample_tracts (Some 30))) (query_js sample_query) sample_rate_card sample_density"
proof (rule quote_hides_unpurchased_measures[OF sample_tracts_ok(1) sample_tracts_ok(1)])
  show "same_projection (columns (readQuery (query_js sample_query))) (corpus_from (sample_tracts None))
      (corpus_from (sample_tracts (Some 30)))"
    unfolding readQuery_query_js[OF sample_written(1)] same_projection_def sample_tracts_ok(2) by code_simp
qed



text \<open>
  The shape of an accepted quote. The statistics, the sample, the commitment and the deliverable
  are of the same matched slice; the row count is the density times the tracts; there is a price, a
  commitment and a deliverable exactly when the slice is not empty.
\<close>

theorem accepted_quote_is_consistent:
  assumes "composeQuote C lc corpus body rateCard density = Inr (QuoteAccepted qa)"
    and "m_tracts (evaluateQuery (readQuery body) corpus) = ts"
  shows "qa_tractCount qa = length ts \<and> qa_deliverableRowCount qa = qa_rowsPerTract qa * int (length ts) \<and>
    qb_stats (qa_body qa) = aggregateStats ts (columns (readQuery body)) \<and>
    qb_sample (qa_body qa) = sampleRows ts (columns (readQuery body)) 5 \<and>
    (qa_statsHash qa = None \<longleftrightarrow> ts = []) \<and> (qb_price (qa_body qa) = None \<longleftrightarrow> ts = []) \<and>
    (qb_deliverable (qa_body qa) = None \<longleftrightarrow> ts = [])"
proof -
  note a = composeQuote_accepted[OF assms(1), unfolded assms(2)]
  have "query_accepted (readQuery body) corpus" using a(1) by (simp add: validateQuery_Nil query_problems_iff)
  then have "set (columns (readQuery body)) \<subseteq> set MEASURE_KEYS" by (simp add: query_accepted_def)
  from price_of_slice_total[OF this, of "length ts" rateCard] have p: "qb_price (qa_body qa) = None \<longleftrightarrow> ts = []"
    unfolding a(5) by auto
  have h: "qa_statsHash qa = None \<longleftrightarrow> ts = []" using commitment_of_slice_total(2)[OF a(6)] by simp
  show ?thesis using p h a(2-4) a(8-10) by simp
qed

lemma sample_quote:
  "\<exists>qa. composeQuote sample_crypto str_le (corpus_from (sample_tracts None)) (query_js sample_query)
     sample_rate_card sample_density = Inr (QuoteAccepted qa)"
proof -
  let ?c = "corpus_from (sample_tracts None)" and ?t = "sample_tract ''CA'' ''1'' 4000 (Some 12) None"
  note r = readQuery_query_js[OF sample_written(1)]
  have v: "validateQuery (readQuery (query_js sample_query)) ?c = []" unfolding r by (rule sample_query_valid)
  have m: "m_tracts (evaluateQuery (readQuery (query_js sample_query)) ?c) = [?t]" unfolding r by (rule sample_matched)
  have "hashable (scaled_stats str_le (aggregateStats [?t] (columns sample_query)))" by code_simp
  moreover have "hashable (criteria_of str_le sample_query)" by code_simp
  ultimately obtain f where f: "composeQuote sample_crypto str_le ?c (query_js sample_query) sample_rate_card sample_density = Inr f"
    using composeQuote_total[OF v, of sample_crypto str_le sample_rate_card sample_density]
    unfolding r statsCommitment_ok criteriaHashOf_query_js sample_matched by blast
  with v show ?thesis by (cases f) (auto simp: composeQuote_refused)
qed

theorem accepted_quote_is_consistent_witness:
  "\<exists>qa. composeQuote sample_crypto str_le (corpus_from (sample_tracts None)) (query_js sample_query)
      sample_rate_card sample_density = Inr (QuoteAccepted qa) \<and>
     qa_tractCount qa = 1 \<and> qa_statsHash qa \<noteq> None \<and> qb_price (qa_body qa) \<noteq> None"
proof -
  obtain qa where qa: "composeQuote sample_crypto str_le (corpus_from (sample_tracts None)) (query_js sample_query)
      sample_rate_card sample_density = Inr (QuoteAccepted qa)"
    using sample_quote by blast
  have m: "m_tracts (evaluateQuery (readQuery (query_js sample_query)) (corpus_from (sample_tracts None)))
      = [sample_tract ''CA'' ''1'' 4000 (Some 12) None]"
    unfolding readQuery_query_js[OF sample_written(1)] by (rule sample_matched)
  from accepted_quote_is_consistent[OF qa m] qa show ?thesis by auto
qed

text \<open>
  A query survives the wire: written as a JSON object and read back as an untrusted body, a query
  with distinct lists is itself, field by field.
\<close>

theorem query_reads_back:
  assumes "query_written q"
  shows "readQuery (query_js q) = q"
  using assms by (rule readQuery_query_js)

theorem query_reads_back_witness: "readQuery (query_js sample_query) = sample_query"
  using query_reads_back[OF sample_written(1)] .

text \<open>
  The density of a quote lies within the published bounds whatever the body holds, and a
  requested number within them is honoured, rounded down.
\<close>

theorem density_within_published_bounds:
  assumes "rowsPerTractMin d \<le> rowsPerTractMax d"
  shows "rowsPerTractMin d \<le> densityAsked body d \<and> densityAsked body d \<le> rowsPerTractMax d \<and>
    (\<forall>r. getp (as_object body) ''rowsPerTract'' = JNum (Fin r) \<and> 1 \<le> r \<and> rowsPerTractMin d \<le> \<lfloor>r\<rfloor> \<and> \<lfloor>r\<rfloor> \<le> rowsPerTractMax d
       \<longrightarrow> densityAsked body d = \<lfloor>r\<rfloor>)"
  using densityAsked_bounds[OF assms] densityAsked_in_range by blast

theorem density_within_published_bounds_witness:
  "densityAsked (JObj [(''rowsPerTract'', JNum (Fin (15 / 2)))]) sample_density = 7"
proof -
  have f: "\<lfloor>15 / 2 :: rat\<rfloor> = 7" by (simp add: floor_eq_iff)
  have "rowsPerTractMin sample_density \<le> rowsPerTractMax sample_density" by (simp add: sample_density_def)
  from conjunct2[OF conjunct2[OF density_within_published_bounds[OF this]], rule_format,
      of "JObj [(''rowsPerTract'', JNum (Fin (15 / 2)))]" "15 / 2"]
  show ?thesis by (simp add: as_object_def typeof_def f sample_density_def)
qed

text \<open>
  The order of the thresholds is part of the criteria hash although the order of the lists is not:
  two bodies with the same columns and bounds have different canonical texts.
\<close>

lemma criteria_hash_depends_on_threshold_order:
  "\<exists>a b t u. same_criteria (readQuery a) (readQuery b) \<and>
     canonical_order a = Inr t \<and> canonical_order b = Inr u \<and> json_stringify t \<noteq> json_stringify u"
proof -
  let ?th = "\<lambda>xs. JObj [(''columns'', strings_js [''CHD'', ''SLEEP'']), (''thresholds'', JObj xs)]"
  let ?a = "?th [(''CHD'', JObj [(''min'', JInt 1)]), (''SLEEP'', JObj [(''min'', JInt 2)])]"
  let ?b = "?th [(''SLEEP'', JObj [(''min'', JInt 2)]), (''CHD'', JObj [(''min'', JInt 1)])]"
  have s: "same_criteria (readQuery ?a) (readQuery ?b)"
    by (auto simp: same_criteria_def readQuery_def Let_def as_object_def typeof_def object_entries_def)
  have "case canonical_order ?a of Inl e \<Rightarrow> False | Inr t \<Rightarrow>
      (case canonical_order ?b of Inl e \<Rightarrow> False | Inr u \<Rightarrow> json_stringify t \<noteq> json_stringify u)"
    by code_simp
  with s show ?thesis by (auto split: sum.splits)
qed


end
