(* ===== verification/Store.thy ===== *)
theory Store
  imports Signing
begin

text \<open>
  \<open>src/engine/store.ts\<close>: the artifact store.  Its interface is the locale \<open>artifact_store\<close>; the two
  implementations of the file, the process-local map and the content-addressed directory, interpret
  it.  The file system is the map from paths to contents that \<open>writeFile\<close> updates and \<open>readFile\<close>
  reads, a missing file being the caught error; that the disk refuses a write is not modelled.
\<close>

record stored_artifact =
  sa_contentHash :: string
  sa_bytes :: nat
  sa_locator :: string

definition sha256Bytes :: "crypto \<Rightarrow> string \<Rightarrow> string" where
  "sha256Bytes C bytes = ''sha256:'' @ to_hex (sha256_digest C bytes)"

section \<open>The directory\<close>

text \<open>\<open>s.replace("sha256:", "")\<close>: the first occurrence is dropped.\<close>

fun drop_first_tag :: "string \<Rightarrow> string" where
  "drop_first_tag [] = []"
| "drop_first_tag (c # s) =
     (if starts_with ''sha256:'' (c # s) then drop 7 (c # s) else c # drop_first_tag s)"

text \<open>\<open>join(dir, name)\<close> of a normalized directory and a plain name.\<close>

definition fs_path :: "string \<Rightarrow> string \<Rightarrow> string" where
  "fs_path dir contentHash = dir @ ''/'' @ drop_first_tag contentHash"

type_synonym files = "(string, string) jsmap"

definition fs_put :: "crypto \<Rightarrow> string \<Rightarrow> files \<Rightarrow> string \<Rightarrow> string \<Rightarrow> string \<Rightarrow> files \<times> stored_artifact" where
  "fs_put C dir files bytes dealId filename =
     (let contentHash = sha256Bytes C bytes; path = fs_path dir contentHash
      in (map_set path bytes files,
          \<lparr> sa_contentHash = contentHash, sa_bytes = length bytes, sa_locator = path \<rparr>))"

definition fs_get :: "string \<Rightarrow> files \<Rightarrow> string \<Rightarrow> string option" where
  "fs_get dir files contentHash = map_get files (fs_path dir contentHash)"

section \<open>The process-local map\<close>

definition memory_put ::
  "crypto \<Rightarrow> (string, string) jsmap \<Rightarrow> string \<Rightarrow> string \<Rightarrow> string \<Rightarrow> (string, string) jsmap \<times> stored_artifact" where
  "memory_put C artifacts bytes dealId filename =
     (let contentHash = sha256Bytes C bytes
      in (map_set contentHash bytes artifacts,
          \<lparr> sa_contentHash = contentHash, sa_bytes = length bytes,
            sa_locator = ''memory:'' @ dealId @ ''/'' @ filename \<rparr>))"

definition memory_get :: "(string, string) jsmap \<Rightarrow> string \<Rightarrow> string option" where
  "memory_get artifacts contentHash = map_get artifacts contentHash"

section \<open>The interface\<close>

text \<open>A content reference as the store mints them.\<close>

definition content_ref :: "string \<Rightarrow> bool" where
  "content_ref h \<longleftrightarrow> starts_with ''sha256:'' h"

lemma content_ref_sha256Bytes [simp]: "content_ref (sha256Bytes C b)"
  unfolding content_ref_def sha256Bytes_def by (rule starts_with_append)

lemma sha256Bytes_Ref: "sha256Bytes C b = sha256Ref C b"
  by (simp add: sha256Bytes_def sha256Ref_def)

locale artifact_store =
  fixes C :: crypto
    and put :: "'s \<Rightarrow> string \<Rightarrow> string \<Rightarrow> string \<Rightarrow> 's \<times> stored_artifact"
    and get :: "'s \<Rightarrow> string \<Rightarrow> string option"
  assumes put_hash: "sa_contentHash (snd (put s b d f)) = sha256Bytes C b"
    and put_length: "sa_bytes (snd (put s b d f)) = length b"
    and get_put: "content_ref h \<Longrightarrow>
      get (fst (put s b d f)) h = (if h = sha256Bytes C b then Some b else get s h)"
begin

text \<open>Every stored artifact hashes to its name.\<close>

definition addressed :: "'s \<Rightarrow> bool" where
  "addressed s \<longleftrightarrow> (\<forall>h b. content_ref h \<and> get s h = Some b \<longrightarrow> sha256Bytes C b = h)"

lemma addressed_put: "addressed s \<Longrightarrow> addressed (fst (put s b d f))"
  by (auto simp: addressed_def get_put split: if_splits)

lemma served: "get (fst (put s b d f)) (sa_contentHash (snd (put s b d f))) = Some b"
  by (simp add: put_hash get_put)

text \<open>A run of puts.\<close>

definition puts :: "(string \<times> string \<times> string) list \<Rightarrow> 's \<Rightarrow> 's" where
  "puts ps s = fold (\<lambda>(b, d, f) s. fst (put s b d f)) ps s"

lemma puts_simps [simp]: "puts [] s = s" "puts ((b, d, f) # ps) s = puts ps (fst (put s b d f))"
  by (simp_all add: puts_def)

lemma addressed_puts: "addressed s \<Longrightarrow> addressed (puts ps s)"
  by (induction ps arbitrary: s) (auto simp: addressed_put)

lemma puts_keep: "content_ref h \<Longrightarrow> get s h \<noteq> None \<Longrightarrow> get (puts ps s) h \<noteq> None"
  by (induction ps arbitrary: s) (auto simp: get_put)

lemma put_then_served:
  assumes "addressed s"
  shows "\<exists>b'. get (puts ps (fst (put s b d f))) (sha256Bytes C b) = Some b' \<and> (b' = b \<or> collision C b' b)"
proof -
  have "get (fst (put s b d f)) (sha256Bytes C b) \<noteq> None" by (simp add: get_put)
  then obtain b' where g: "get (puts ps (fst (put s b d f))) (sha256Bytes C b) = Some b'"
    using puts_keep[of "sha256Bytes C b" "fst (put s b d f)" ps] by auto
  have "addressed (puts ps (fst (put s b d f)))" by (intro addressed_puts addressed_put assms)
  with g have "sha256Bytes C b' = sha256Bytes C b" by (auto simp: addressed_def)
  with g show ?thesis using sha256Ref_eq_cases by (auto simp: sha256Bytes_Ref)
qed

lemma served_hashes:
  "addressed s \<Longrightarrow> content_ref h \<Longrightarrow> get (puts ps s) h = Some b \<Longrightarrow> sha256Bytes C b = h"
  using addressed_puts[of s ps] by (simp add: addressed_def)

end

lemma drop_first_tag_ref: "content_ref h \<Longrightarrow> ''sha256:'' @ drop_first_tag h = h"
  by (cases h) (auto simp: content_ref_def starts_with_iff)

interpretation memory_store: artifact_store C "memory_put C" memory_get for C
  by unfold_locales (auto simp: memory_put_def memory_get_def Let_def map_get_set)

interpretation fs_store: artifact_store C "fs_put C dir" "fs_get dir" for C dir
proof unfold_locales
  fix h s b d f assume h: "content_ref h"
  have "drop_first_tag h = drop_first_tag (sha256Bytes C b) \<longleftrightarrow> h = sha256Bytes C b"
    using drop_first_tag_ref[OF h] drop_first_tag_ref[OF content_ref_sha256Bytes[of C b]] by metis
  then show "fs_get dir (fst (fs_put C dir s b d f)) h = (if h = sha256Bytes C b then Some b else fs_get dir s h)"
    by (simp add: fs_put_def fs_get_def fs_path_def Let_def map_get_set)
qed (simp_all add: fs_put_def Let_def)

section \<open>Properties\<close>

text \<open>
  An artifact outlives whatever is stored after it: in both stores, starting empty, after any
  earlier and any later puts, the hash a put answered still serves bytes, and they are the bytes put
  or an explicit collision with them; and whatever any reference serves hashes to that reference.
\<close>

theorem artifacts_stay_available:
  "(\<exists>b'. memory_get (memory_store.puts C later (fst (memory_put C (memory_store.puts C earlier []) b d f))) (sha256Bytes C b)
       = Some b' \<and> (b' = b \<or> collision C b' b))
   \<and> (\<exists>b'. fs_get dir (fs_store.puts C dir later (fst (fs_put C dir (fs_store.puts C dir earlier []) b d f))) (sha256Bytes C b)
       = Some b' \<and> (b' = b \<or> collision C b' b))
   \<and> (memory_get (memory_store.puts C earlier []) (''sha256:'' @ x) = None
       \<or> sha256Bytes C (the (memory_get (memory_store.puts C earlier []) (''sha256:'' @ x))) = ''sha256:'' @ x)"
proof -
  have m: "memory_store.addressed C []" by (simp add: memory_store.addressed_def memory_get_def)
  have f: "fs_store.addressed C dir []" by (simp add: fs_store.addressed_def fs_get_def)
  have "content_ref (''sha256:'' @ x)" unfolding content_ref_def by (rule starts_with_append)
  with memory_store.served_hashes[OF m this, of earlier] show ?thesis
    using memory_store.put_then_served[OF memory_store.addressed_puts[OF m]]
      fs_store.put_then_served[OF fs_store.addressed_puts[OF f]]
    by (cases "memory_get (memory_store.puts C earlier []) (''sha256:'' @ x)") auto
qed

end
