(* ===== verification/Deliver.thy ===== *)
theory Deliver
  imports Product Store
begin

text \<open>
  \<open>src/engine/deliver.ts\<close>: the seed of a deal, the generation of the deliverable and of its manifest,
  and the buyer's verification.  The storage is the interface of \<open>Store\<close>: its state is threaded
  through and its put operation is an argument.  A problem the verification reports and an error
  delivery is refused with are constructors carrying the values the message prints.
\<close>

datatype deliver_error =
    NothingToDeliver string
  | StatsUncommittable hash_error
  | SliceChanged string string
  | GenerationFailed synth_error
  | NotCalibrated "measure_calibration list"
  | ManifestUncanonical

definition GENERATOR_ALGORITHM :: string where
  "GENERATOR_ALGORITHM = ''stratified-marginal-bernoulli/v2''"

record generator_info =
  gi_algorithm :: string
  gi_prng :: string
  gi_weighting :: string
  gi_limitations :: "string list"

record delivery_manifest =
  dm_dealId :: string
  dm_productId :: string
  dm_criteria :: jsval
  dm_criteriaHash :: string
  dm_sourceStatsHash :: string
  dm_quotedStatsHash :: "string option"
  dm_statsMatchQuote :: bool
  dm_rowCount :: int
  dm_density :: jsval
  dm_columns :: "string list"
  dm_header :: "string list"
  dm_seed :: string
  dm_generator :: generator_info
  dm_calibration :: "measure_calibration list"
  dm_calibrated :: bool
  dm_artifact :: stored_artifact
  dm_generatedAt :: string

record delivery_result =
  dr_manifest :: delivery_manifest
  dr_manifestBytes :: string
  dr_deliveryHash :: string
  dr_bytes :: string

record delivery_input =
  di_dealId :: string
  di_productId :: string
  di_query :: query
  di_corpus :: corpus
  di_rowsPerTract :: int
  di_seed :: string
  di_artifactLocator :: "string option"
  di_quotedStatsHash :: "string option"
  di_now :: string

section \<open>The seed\<close>

definition deliverableSeed :: "crypto \<Rightarrow> string \<Rightarrow> string \<Rightarrow> string" where
  "deliverableSeed C secret dealId = to_hex (sha256_digest C (secret @ ''|'' @ dealId @ ''|v2''))"

section \<open>The manifest as JSON\<close>

definition opt_str :: "string option \<Rightarrow> jsval" where
  "opt_str v = (case v of Some s \<Rightarrow> JStr s | None \<Rightarrow> JNull)"

definition calibration_js :: "measure_calibration \<Rightarrow> jsval" where
  "calibration_js c = JObj [
     (''measure'', JStr (cal_measure c)), (''targetPercent'', JNum (Fin (targetPercent c))),
     (''realizedPercent'', JNum (Fin (realizedPercent c))), (''denominatorRows'', JInt (int (denominatorRows c))),
     (''tolerancePp'', JNum (Fin (tolerancePp c))), (''withinTolerance'', JBool (withinTolerance c))]"

definition generator_js :: "generator_info \<Rightarrow> jsval" where
  "generator_js g = JObj [
     (''algorithm'', JStr (gi_algorithm g)), (''prng'', JStr (gi_prng g)), (''weighting'', JStr (gi_weighting g)),
     (''limitations'', strings_js (gi_limitations g))]"

definition artifact_js :: "stored_artifact \<Rightarrow> jsval" where
  "artifact_js a = JObj [
     (''contentHash'', JStr (sa_contentHash a)), (''bytes'', JInt (int (sa_bytes a))), (''locator'', JStr (sa_locator a))]"

definition manifest_js :: "delivery_manifest \<Rightarrow> jsval" where
  "manifest_js m = JObj [
     (''dealId'', JStr (dm_dealId m)), (''productId'', JStr (dm_productId m)), (''criteria'', dm_criteria m),
     (''criteriaHash'', JStr (dm_criteriaHash m)), (''sourceStatsHash'', JStr (dm_sourceStatsHash m)),
     (''quotedStatsHash'', opt_str (dm_quotedStatsHash m)), (''statsMatchQuote'', JBool (dm_statsMatchQuote m)),
     (''rowCount'', JInt (dm_rowCount m)), (''density'', dm_density m), (''columns'', strings_js (dm_columns m)),
     (''header'', strings_js (dm_header m)), (''seed'', JStr (dm_seed m)), (''generator'', generator_js (dm_generator m)),
     (''calibration'', JArr (map calibration_js (dm_calibration m))), (''calibrated'', JBool (dm_calibrated m)),
     (''artifact'', artifact_js (dm_artifact m)), (''generatedAt'', JStr (dm_generatedAt m))]"

section \<open>Generation\<close>

definition manifest_criteria :: "query \<Rightarrow> jsval" where
  "manifest_criteria q = JObj [
     (''columns'', strings_js (sort_strings (columns q))),
     (''states'', strings_js (sort_strings (or_empty (q_states q)))),
     (''counties'', strings_js (sort_strings (or_empty (q_counties q)))),
     (''minPopulation'', coalesce (minPopulation q) JNull),
     (''thresholds'', coalesce (thresholds q) (JObj []))]"

definition density_js :: "int \<Rightarrow> nat \<Rightarrow> nat \<Rightarrow> (string, rat) jsmap \<Rightarrow> jsval" where
  "density_js rowsPerTract tractCount tractsWithRows precision = JObj [
     (''rowsPerTract'', JInt rowsPerTract), (''tractCount'', JInt (int tractCount)),
     (''tractsWithRows'', JInt (int tractsWithRows)), (''minRowsPerTract'', JInt rowsPerTract),
     (''perTractStandardErrorPp'', JObj (map (\<lambda>(m, v). (m, JNum (Fin v))) precision))]"

definition generator_limitations :: "int \<Rightarrow> string list" where
  "generator_limitations rowsPerTract = [
     ''Marginal prevalences are reproduced; the JOINT distribution is not. Measure flags are drawn '' @
     ''independently, so co-morbidity is absent. NOT sound for co-morbidity rates, multivariate '' @
     ''models, or any interaction term.'',
     ''Each row's flags are Bernoulli draws from ONE tract's published prevalence, so a tract represented by '' @
     string_of_int rowsPerTract @ '' row(s) admits only '' @ string_of_int (rowsPerTract + 1) @
     '' distinct rates for any measure. '' @
     ''This file is sound for slice-level marginals and for person-level work over many tracts; it is NOT '' @
     ''sound for ranking or comparing individual tracts. For a tract's own rate, read the published CDC '' @
     ''PLACES value '' @ EM_DASH @ '' it is this file's input, and no number of synthetic rows improves on it.'',
     ''age_band is illustrative, not estimated. PLACES publishes no age breakdown.'',
     ''ACCESS2 has an 18-64 denominator and is therefore always 0 for 65+ rows.'']"

definition generator_of :: "int \<Rightarrow> generator_info" where
  "generator_of rowsPerTract = \<lparr>
     gi_algorithm = GENERATOR_ALGORITHM,
     gi_prng = ''sha256(seed|rowIndex|field), top 48 bits / 2^48 '' @ EM_DASH @
       '' counter-based, every draw independently addressable'',
     gi_weighting = ''every tract gets '' @ string_of_int rowsPerTract @
       '' row(s); any remainder goes to the largest tracts first, by TotalPop18plus'',
     gi_limitations = generator_limitations rowsPerTract \<rparr>"

text \<open>Everything up to the put: the slice, its commitment, the people, the file and its calibration.\<close>

record delivery_content =
  dc_tracts :: "tract list"
  dc_stats :: aggregate_stats
  dc_statsHash :: string
  dc_criteriaHash :: string
  dc_people :: "person list"
  dc_bytes :: string
  dc_calibration :: "measure_calibration list"

definition delivery_options :: "delivery_input \<Rightarrow> nat \<Rightarrow> synthesis_options" where
  "delivery_options i n = \<lparr> opt_rowCount = di_rowsPerTract i * int n, opt_rowsPerTract = Some (di_rowsPerTract i),
     opt_seed = di_seed i, opt_columns = columns (di_query i) \<rparr>"

definition delivery_content_of ::
  "crypto \<Rightarrow> (string \<Rightarrow> string \<Rightarrow> bool) \<Rightarrow> delivery_input \<Rightarrow> (deliver_error, delivery_content) res" where
  "delivery_content_of C lc i =
     (let ts = m_tracts (evaluateQuery (di_query i) (di_corpus i)); cols = columns (di_query i)
      in if ts = [] then Inl (NothingToDeliver (di_dealId i))
         else let stats = aggregateStats ts cols
         in case statsCommitment C lc stats (di_query i) of
              Inl e \<Rightarrow> Inl (StatsUncommittable e)
            | Inr (statsHash, criteriaHash) \<Rightarrow>
                if di_quotedStatsHash i \<noteq> None \<and> di_quotedStatsHash i \<noteq> Some statsHash
                then Inl (SliceChanged (the (di_quotedStatsHash i)) statsHash)
                else case generateSyntheticPeople C lc ts (delivery_options i (length ts)) of
                  Inl e \<Rightarrow> Inl (GenerationFailed e)
                | Inr people \<Rightarrow>
                    (let calibration = calibrate people ts cols
                     in if \<not> isCalibrated calibration
                        then Inl (NotCalibrated (filter (\<lambda>c. \<not> withinTolerance c) calibration))
                        else Inr \<lparr> dc_tracts = ts, dc_stats = stats, dc_statsHash = statsHash,
                               dc_criteriaHash = criteriaHash, dc_people = people,
                               dc_bytes = serializeCsv people cols, dc_calibration = calibration \<rparr>))"

definition manifest_of :: "delivery_input \<Rightarrow> delivery_content \<Rightarrow> stored_artifact \<Rightarrow> delivery_manifest" where
  "manifest_of i c artifact =
     (let cols = columns (di_query i); n = length (dc_tracts c) in
      \<lparr> dm_dealId = di_dealId i, dm_productId = di_productId i,
        dm_criteria = manifest_criteria (di_query i), dm_criteriaHash = dc_criteriaHash c,
        dm_sourceStatsHash = dc_statsHash c, dm_quotedStatsHash = di_quotedStatsHash i, dm_statsMatchQuote = True,
        dm_rowCount = di_rowsPerTract i * int n,
        dm_density = density_js (di_rowsPerTract i) n (length (js_set_of (map sourceTractFIPS (dc_people c))))
          (precision_table (dc_stats c) cols (di_rowsPerTract i)),
        dm_columns = cols, dm_header = deliverableHeader cols, dm_seed = di_seed i,
        dm_generator = generator_of (di_rowsPerTract i), dm_calibration = dc_calibration c, dm_calibrated = True,
        dm_artifact = artifact, dm_generatedAt = di_now i \<rparr>)"

definition generateDelivery ::
  "crypto \<Rightarrow> (string \<Rightarrow> string \<Rightarrow> bool) \<Rightarrow> ('s \<Rightarrow> string \<Rightarrow> string \<Rightarrow> string \<Rightarrow> 's \<times> stored_artifact)
     \<Rightarrow> delivery_input \<Rightarrow> 's \<Rightarrow> 's \<times> (deliver_error, delivery_result) res" where
  "generateDelivery C lc put i storage =
     (case delivery_content_of C lc i of
        Inl e \<Rightarrow> (storage, Inl e)
      | Inr c \<Rightarrow>
          (let (storage', stored) = put storage (dc_bytes c) (di_dealId i) (di_dealId i @ ''.csv'');
               artifact = (case di_artifactLocator i of Some l \<Rightarrow> stored \<lparr> sa_locator := l \<rparr> | None \<Rightarrow> stored);
               manifest = manifest_of i c artifact
           in case jcs C (manifest_js manifest) of
                Inl e \<Rightarrow> (storage', Inl ManifestUncanonical)
              | Inr manifestBytes \<Rightarrow>
                  (storage', Inr \<lparr> dr_manifest = manifest, dr_manifestBytes = manifestBytes,
                     dr_deliveryHash = sha256Bytes C manifestBytes, dr_bytes = dc_bytes c \<rparr>)))"

section \<open>Verification\<close>

datatype delivery_problem =
    ReceivedHashDiffers string string
  | UnsupportedAlgorithm string
  | DensityInvalid
  | RegeneratedDiffers string string
  | StatsHashDiffers string string
  | AdmitsSubstitution
  | ReportsUncalibrated

record verification =
  vf_ok :: bool
  vf_problems :: "delivery_problem list"
  vf_regeneratedHash :: "string option"

definition isValidV2Density :: "jsval \<Rightarrow> bool" where
  "isValidV2Density value \<longleftrightarrow>
     typeof value = ''object'' \<and> value \<noteq> JNull \<and>
     (case getp value ''rowsPerTract'' of
        JNum n \<Rightarrow> num_is_finite n \<and> num_is_integer n \<and> \<not> num_lt n (Fin 1)
      | _ \<Rightarrow> False)"

text \<open>The density a valid record names.\<close>

definition rows_of_density :: "jsval \<Rightarrow> int" where
  "rows_of_density value = (case getp value ''rowsPerTract'' of JNum (Fin r) \<Rightarrow> \<lfloor>r\<rfloor> | _ \<Rightarrow> 0)"

definition verifyDelivery ::
  "crypto \<Rightarrow> (string \<Rightarrow> string \<Rightarrow> bool) \<Rightarrow> delivery_manifest \<Rightarrow> string \<Rightarrow> corpus \<Rightarrow> query
     \<Rightarrow> (deliver_error, verification) res" where
  "verifyDelivery C lc m received corpus q =
     (let contentHash = sa_contentHash (dm_artifact m);
          receivedHash = sha256Ref C received;
          supported = (gi_algorithm (dm_generator m) = GENERATOR_ALGORITHM);
          valid = isValidV2Density (dm_density m);
          p1 = (if receivedHash \<noteq> contentHash then [ReceivedHashDiffers receivedHash contentHash] else []);
          p2 = (if \<not> supported then [UnsupportedAlgorithm (gi_algorithm (dm_generator m))] else []);
          p3 = (if \<not> valid then [DensityInvalid] else []);
          ts = m_tracts (evaluateQuery q corpus)
      in if \<not> supported \<or> \<not> valid then
           Inr \<lparr> vf_ok = False, vf_problems = p1 @ p2 @ p3, vf_regeneratedHash = None \<rparr>
         else case generateSyntheticPeople C lc ts
                \<lparr> opt_rowCount = dm_rowCount m, opt_rowsPerTract = Some (rows_of_density (dm_density m)),
                  opt_seed = dm_seed m, opt_columns = dm_columns m \<rparr> of
           Inl e \<Rightarrow> Inl (GenerationFailed e)
         | Inr people \<Rightarrow>
             (let regeneratedHash = sha256Ref C (serializeCsv people (dm_columns m));
                  p4 = (if regeneratedHash \<noteq> contentHash then [RegeneratedDiffers regeneratedHash contentHash] else [])
              in case statsCommitment C lc (aggregateStats ts (dm_columns m)) q of
                   Inl e \<Rightarrow> Inl (StatsUncommittable e)
                 | Inr (statsHash, criteriaHash) \<Rightarrow>
                     (let p5 = (if statsHash \<noteq> dm_sourceStatsHash m
                                then [StatsHashDiffers statsHash (dm_sourceStatsHash m)] else []);
                          p6 = (if dm_quotedStatsHash m \<noteq> None \<and> dm_quotedStatsHash m \<noteq> Some (dm_sourceStatsHash m)
                                then [AdmitsSubstitution] else []);
                          p7 = (if \<not> dm_calibrated m then [ReportsUncalibrated] else []);
                          problems = p1 @ p4 @ p5 @ p6 @ p7
                      in Inr \<lparr> vf_ok = (problems = []), vf_problems = problems,
                               vf_regeneratedHash = Some regeneratedHash \<rparr>)))"


section \<open>Lemmas\<close>

lemma generate_needs_density:
  assumes "generateSyntheticPeople C lc ts opts = Inr ps" and "opt_rowsPerTract opts = Some r"
  shows "1 \<le> r"
  using assms by (auto simp: generateSyntheticPeople_def assignment_def allocateRows_def res_bind_Inr_iff split: if_splits)

lemma delivery_content_Inr:
  assumes "delivery_content_of C lc i = Inr c"
  shows "dc_tracts c = m_tracts (evaluateQuery (di_query i) (di_corpus i))" "dc_tracts c \<noteq> []"
    "dc_stats c = aggregateStats (dc_tracts c) (columns (di_query i))"
    "statsCommitment C lc (dc_stats c) (di_query i) = Inr (dc_statsHash c, dc_criteriaHash c)"
    "di_quotedStatsHash i = None \<or> di_quotedStatsHash i = Some (dc_statsHash c)"
    "generateSyntheticPeople C lc (dc_tracts c) (delivery_options i (length (dc_tracts c))) = Inr (dc_people c)"
    "dc_bytes c = serializeCsv (dc_people c) (columns (di_query i))"
    "dc_calibration c = calibrate (dc_people c) (dc_tracts c) (columns (di_query i))" "isCalibrated (dc_calibration c)"
    "1 \<le> di_rowsPerTract i"
proof -
  show g: "dc_tracts c = m_tracts (evaluateQuery (di_query i) (di_corpus i))" "dc_tracts c \<noteq> []"
    "dc_stats c = aggregateStats (dc_tracts c) (columns (di_query i))"
    "statsCommitment C lc (dc_stats c) (di_query i) = Inr (dc_statsHash c, dc_criteriaHash c)"
    "di_quotedStatsHash i = None \<or> di_quotedStatsHash i = Some (dc_statsHash c)"
    "generateSyntheticPeople C lc (dc_tracts c) (delivery_options i (length (dc_tracts c))) = Inr (dc_people c)"
    "dc_bytes c = serializeCsv (dc_people c) (columns (di_query i))"
    "dc_calibration c = calibrate (dc_people c) (dc_tracts c) (columns (di_query i))" "isCalibrated (dc_calibration c)"
    using assms by (auto simp: delivery_content_of_def Let_def split: if_splits sum.splits prod.splits)
  show "1 \<le> di_rowsPerTract i" using generate_needs_density[OF g(6)] by (simp add: delivery_options_def)
qed

lemma density_js_valid: "1 \<le> r \<Longrightarrow> isValidV2Density (density_js r n k p) \<and> rows_of_density (density_js r n k p) = r"
  by (simp add: isValidV2Density_def density_js_def typeof_def num_is_finite_def num_is_integer_def rows_of_density_def)


lemma generateDelivery_Inr:
  assumes "generateDelivery C lc put i s = (s', Inr r)"
  obtains c where "delivery_content_of C lc i = Inr c"
    "s' = fst (put s (dc_bytes c) (di_dealId i) (di_dealId i @ ''.csv''))"
    "sa_contentHash (dm_artifact (dr_manifest r)) =
       sa_contentHash (snd (put s (dc_bytes c) (di_dealId i) (di_dealId i @ ''.csv'')))"
    "dr_manifest r = manifest_of i c (dm_artifact (dr_manifest r))"
    "jcs C (manifest_js (dr_manifest r)) = Inr (dr_manifestBytes r)"
    "dr_deliveryHash r = sha256Bytes C (dr_manifestBytes r)" "dr_bytes r = dc_bytes c"
proof -
  from assms obtain c where c: "delivery_content_of C lc i = Inr c"
    by (auto simp: generateDelivery_def split: sum.splits)
  let ?p = "put s (dc_bytes c) (di_dealId i) (di_dealId i @ ''.csv'')"
  let ?a = "case di_artifactLocator i of Some l \<Rightarrow> snd ?p \<lparr> sa_locator := l \<rparr> | None \<Rightarrow> snd ?p"
  have h: "sa_contentHash ?a = sa_contentHash (snd ?p)" by (simp split: option.split)
  have m: "dm_artifact (manifest_of i c ?a) = ?a" by (simp add: manifest_of_def Let_def)
  from assms c obtain mb where mb: "jcs C (manifest_js (manifest_of i c ?a)) = Inr mb" and s': "s' = fst ?p"
    and r: "r = \<lparr> dr_manifest = manifest_of i c ?a, dr_manifestBytes = mb, dr_deliveryHash = sha256Bytes C mb, dr_bytes = dc_bytes c \<rparr>"
    by (auto simp: generateDelivery_def Let_def case_prod_beta split: sum.splits)
  show ?thesis using c s' mb r h m by (intro that[of c]) simp_all
qed

lemma verify_manifest_of:
  assumes c: "delivery_content_of C lc i = Inr c" and a: "sa_contentHash a = sha256Ref C (dc_bytes c)"
  shows "verifyDelivery C lc (manifest_of i c a) (dc_bytes c) (di_corpus i) (di_query i)
    = Inr \<lparr> vf_ok = True, vf_problems = [], vf_regeneratedHash = Some (sa_contentHash a) \<rparr>"
proof -
  note d = delivery_content_Inr[OF c]
  have opts: "\<lparr> opt_rowCount = di_rowsPerTract i * int (length (dc_tracts c)), opt_rowsPerTract = Some (di_rowsPerTract i),
      opt_seed = di_seed i, opt_columns = columns (di_query i) \<rparr> = delivery_options i (length (dc_tracts c))"
    by (simp add: delivery_options_def)
  note v = density_js_valid[OF d(10)]
  show ?thesis
    using d(2,5,6) a v d(4)[unfolded d(3)]
    by (auto simp: verifyDelivery_def manifest_of_def Let_def generator_of_def d(1)[symmetric] opts d(7))
qed

lemma verifyDelivery_ok:
  assumes "verifyDelivery C lc m received corpus q = Inr v" and "vf_ok v"
  defines "ts \<equiv> m_tracts (evaluateQuery q corpus)"
  obtains people criteriaHash where
    "generateSyntheticPeople C lc ts \<lparr> opt_rowCount = dm_rowCount m, opt_rowsPerTract = Some (rows_of_density (dm_density m)),
       opt_seed = dm_seed m, opt_columns = dm_columns m \<rparr> = Inr people"
    "sha256Ref C received = sa_contentHash (dm_artifact m)"
    "sha256Ref C (serializeCsv people (dm_columns m)) = sa_contentHash (dm_artifact m)"
    "statsCommitment C lc (aggregateStats ts (dm_columns m)) q = Inr (dm_sourceStatsHash m, criteriaHash)"
    "dm_quotedStatsHash m = None \<or> dm_quotedStatsHash m = Some (dm_sourceStatsHash m)"
    "gi_algorithm (dm_generator m) = GENERATOR_ALGORITHM" "isValidV2Density (dm_density m)"
  using assms unfolding verifyDelivery_def Let_def
  by (auto split: if_splits sum.splits prod.splits)

text \<open>A client of the storage interface: what was delivered can be fetched and verifies.\<close>

context artifact_store
begin

lemma delivered_verifies:
  assumes "generateDelivery C lc put i s = (s', Inr r)"
  shows "verifyDelivery C lc (dr_manifest r) (dr_bytes r) (di_corpus i) (di_query i)
      = Inr \<lparr> vf_ok = True, vf_problems = [], vf_regeneratedHash = Some (sa_contentHash (dm_artifact (dr_manifest r))) \<rparr>"
    "get s' (sa_contentHash (dm_artifact (dr_manifest r))) = Some (dr_bytes r)"
proof -
  from assms obtain c where c: "delivery_content_of C lc i = Inr c"
    "s' = fst (put s (dc_bytes c) (di_dealId i) (di_dealId i @ ''.csv''))"
    "sa_contentHash (dm_artifact (dr_manifest r)) =
       sa_contentHash (snd (put s (dc_bytes c) (di_dealId i) (di_dealId i @ ''.csv'')))"
    "dr_manifest r = manifest_of i c (dm_artifact (dr_manifest r))" "dr_bytes r = dc_bytes c"
    by (rule generateDelivery_Inr)
  have h: "sa_contentHash (dm_artifact (dr_manifest r)) = sha256Ref C (dc_bytes c)"
    using c(3) by (simp add: put_hash sha256Bytes_Ref)
  from verify_manifest_of[OF c(1) h] c(4,5)
  show "verifyDelivery C lc (dr_manifest r) (dr_bytes r) (di_corpus i) (di_query i)
      = Inr \<lparr> vf_ok = True, vf_problems = [], vf_regeneratedHash = Some (sa_contentHash (dm_artifact (dr_manifest r))) \<rparr>"
    by simp
  show "get s' (sa_contentHash (dm_artifact (dr_manifest r))) = Some (dr_bytes r)"
    unfolding c(2,3,5) by (rule served)
qed

end



section \<open>Properties\<close>

text \<open>A one-tract slice whose only measure is published as zero, so that its file calibrates.\<close>

definition quiet_query :: query where
  "quiet_query = \<lparr> columns = [''DIABETES''], q_states = None, q_counties = None, minPopulation = JUndef, thresholds = JUndef \<rparr>"

definition quiet_tract :: tract where
  "quiet_tract = sample_tract ''CA'' ''1'' 4000 (Some 0) None"

definition quiet_delivery :: "string option \<Rightarrow> delivery_input" where
  "quiet_delivery quoted = \<lparr> di_dealId = ''deal_1'', di_productId = ''p'', di_query = quiet_query,
     di_corpus = corpus_from [quiet_tract], di_rowsPerTract = 1, di_seed = ''s'',
     di_artifactLocator = Some ''http://s/data.csv'', di_quotedStatsHash = quoted, di_now = ''2026-01-01T00:00:00.000Z'' \<rparr>"

lemma quiet_slice: "m_tracts (evaluateQuery quiet_query (corpus_from [quiet_tract])) = [quiet_tract]"
proof -
  have "tracts (corpus_from [quiet_tract]) = [quiet_tract]" by (simp add: tracts_corpus_from quiet_tract_def)
  then show ?thesis
    by (simp add: evaluateQuery_def tract_passes_def quiet_query_def or_empty_def object_entries_def)
      (simp add: quiet_tract_def sample_tract_def tract_value_def map_get_def MEASURE_KEYS_def)
qed

lemma quiet_people:
  "generateSyntheticPeople C lc [quiet_tract] (delivery_options (quiet_delivery x) 1)
     = Inr [make_person C (delivery_options (quiet_delivery x) 1) 0 quiet_tract]"
  by (simp add: generateSyntheticPeople_def delivery_options_def quiet_delivery_def MAX_ROWS_def assignment_def
      allocateRows_def row_tract_def flat_assignment_def remainder_order_def)

lemma quiet_flag: "draw_flag C s i quiet_tract b ''DIABETES'' = False"
  using uniform_grid[of C s i "''DIABETES''"]
  by (auto simp: draw_flag_def quiet_tract_def sample_tract_def tract_value_def map_get_def MEASURE_KEYS_def fdiv_def)

lemma quiet_calibrated:
  "isCalibrated (calibrate [make_person C (delivery_options (quiet_delivery x) 1) 0 quiet_tract] [quiet_tract] (columns quiet_query))"
  by (simp add: isCalibrated_def calibrate_def quiet_query_def calibrate_measure_def Let_def make_person_def
      delivery_options_def quiet_delivery_def quiet_flag map_get_set case_prod_beta calibrationTolerancePp_def)
    (simp add: weigh_tract_def rows_by_tract_def tract_value_def map_get_def fsub_def Let_def quiet_tract_def sample_tract_def
      MEASURE_KEYS_def fmul_def fadd_def fdiv_def le_max_iff_disj)

lemma quiet_hash: "\<exists>h a. statsCommitment C str_le (aggregateStats [quiet_tract] (columns quiet_query)) quiet_query = Inr (h, a)"
proof -
  have "hashable (scaled_stats str_le (aggregateStats [quiet_tract] (columns quiet_query)))"
    "hashable (criteria_of str_le quiet_query)" by code_simp+
  then show ?thesis using statsCommitment_ok by fastforce
qed

lemma quiet_content:
  assumes "statsCommitment C str_le (aggregateStats [quiet_tract] (columns quiet_query)) quiet_query = Inr (h, a)"
    and "quoted = None \<or> quoted = Some h"
  shows "\<exists>c. delivery_content_of C str_le (quiet_delivery quoted) = Inr c"
proof -
  have d: "di_query (quiet_delivery quoted) = quiet_query" "di_corpus (quiet_delivery quoted) = corpus_from [quiet_tract]"
    "di_quotedStatsHash (quiet_delivery quoted) = quoted"
    by (simp_all add: quiet_delivery_def)
  show ?thesis
    using assms quiet_people[of C str_le quoted] quiet_calibrated[of C quoted]
    by (auto simp: delivery_content_of_def Let_def d quiet_slice)
qed

lemma quiet_generated:
  assumes "statsCommitment sample_crypto str_le (aggregateStats [quiet_tract] (columns quiet_query)) quiet_query = Inr (h, a)"
    and "quoted = None \<or> quoted = Some h"
  shows "\<exists>s' r. generateDelivery sample_crypto str_le (memory_put sample_crypto) (quiet_delivery quoted) [] = (s', Inr r)"
proof -
  from quiet_content[OF assms] obtain c where c: "delivery_content_of sample_crypto str_le (quiet_delivery quoted) = Inr c" by blast
  have "jcs sample_crypto (manifest_js m) = Inr (the (json_stringify (manifest_js m)))" for m
    by (simp add: jcs_def sample_crypto_def manifest_js_def)
  with c show ?thesis by (auto simp: generateDelivery_def Let_def case_prod_beta)
qed

text \<open>
  C12: what the seller delivers, the buyer accepts. A delivery generated into the process-local store
  verifies without a problem when the buyer, holding the same corpus and query, checks the file
  against the manifest and regenerates it from the published seed; and the store serves exactly the
  delivered bytes under the manifest's content hash.
\<close>

theorem delivery_verifies:
  assumes "generateDelivery C lc (memory_put C) i s = (s', Inr r)"
  shows "verifyDelivery C lc (dr_manifest r) (dr_bytes r) (di_corpus i) (di_query i)
      = Inr \<lparr> vf_ok = True, vf_problems = [], vf_regeneratedHash = Some (sa_contentHash (dm_artifact (dr_manifest r))) \<rparr>
    \<and> memory_get s' (sa_contentHash (dm_artifact (dr_manifest r))) = Some (dr_bytes r)"
  using memory_store.delivered_verifies[OF assms] by blast

theorem delivery_verifies_witness:
  "\<exists>s' r v. generateDelivery sample_crypto str_le (memory_put sample_crypto) (quiet_delivery None) [] = (s', Inr r) \<and>
     verifyDelivery sample_crypto str_le (dr_manifest r) (dr_bytes r) (corpus_from [quiet_tract]) quiet_query = Inr v \<and> vf_ok v"
proof -
  from quiet_hash[of sample_crypto] obtain h a where
    "statsCommitment sample_crypto str_le (aggregateStats [quiet_tract] (columns quiet_query)) quiet_query = Inr (h, a)" by blast
  from quiet_generated[OF this, of None] obtain s' r where
    g: "generateDelivery sample_crypto str_le (memory_put sample_crypto) (quiet_delivery None) [] = (s', Inr r)" by blast
  have d: "di_corpus (quiet_delivery None) = corpus_from [quiet_tract]" "di_query (quiet_delivery None) = quiet_query"
    by (simp_all add: quiet_delivery_def)
  from delivery_verifies[OF g] g show ?thesis unfolding d by auto
qed

text \<open>
  A buyer that accepts holds the right file. If the verification answers ok, the received bytes
  are byte for byte the file regenerated from the manifest's seed over the buyer's own corpus, or an
  explicit collision with it; the manifest's statistics are those of the buyer's slice; and the
  quoted commitment, when there is one, is the delivered one.
\<close>

theorem accepted_file_is_the_regenerated_one:
  assumes "verifyDelivery C lc m received corpus q = Inr v" and "vf_ok v"
    and "m_tracts (evaluateQuery q corpus) = ts"
  shows "\<exists>people criteriaHash.
    generateSyntheticPeople C lc ts \<lparr> opt_rowCount = dm_rowCount m, opt_rowsPerTract = Some (rows_of_density (dm_density m)),
       opt_seed = dm_seed m, opt_columns = dm_columns m \<rparr> = Inr people \<and>
    (received = serializeCsv people (dm_columns m) \<or> collision C received (serializeCsv people (dm_columns m))) \<and>
    statsCommitment C lc (aggregateStats ts (dm_columns m)) q = Inr (dm_sourceStatsHash m, criteriaHash) \<and>
    (dm_quotedStatsHash m = None \<or> dm_quotedStatsHash m = Some (dm_sourceStatsHash m))"
proof -
  from verifyDelivery_ok[OF assms(1,2), unfolded assms(3)] obtain people criteriaHash where
    v: "generateSyntheticPeople C lc ts \<lparr> opt_rowCount = dm_rowCount m, opt_rowsPerTract = Some (rows_of_density (dm_density m)),
       opt_seed = dm_seed m, opt_columns = dm_columns m \<rparr> = Inr people"
    "sha256Ref C received = sa_contentHash (dm_artifact m)"
    "sha256Ref C (serializeCsv people (dm_columns m)) = sa_contentHash (dm_artifact m)"
    "statsCommitment C lc (aggregateStats ts (dm_columns m)) q = Inr (dm_sourceStatsHash m, criteriaHash)"
    "dm_quotedStatsHash m = None \<or> dm_quotedStatsHash m = Some (dm_sourceStatsHash m)" by metis
  from v(2,3) have "sha256Ref C received = sha256Ref C (serializeCsv people (dm_columns m))" by simp
  from sha256Ref_eq_cases[OF this] v(1,4,5) show ?thesis by blast
qed

theorem accepted_file_is_the_regenerated_one_witness:
  "\<exists>s' r people. generateDelivery sample_crypto str_le (memory_put sample_crypto) (quiet_delivery None) [] = (s', Inr r) \<and>
     (dr_bytes r = serializeCsv people [''DIABETES''] \<or> collision sample_crypto (dr_bytes r) (serializeCsv people [''DIABETES'']))"
proof -
  from quiet_hash[of sample_crypto] obtain h a where
    "statsCommitment sample_crypto str_le (aggregateStats [quiet_tract] (columns quiet_query)) quiet_query = Inr (h, a)" by blast
  from quiet_generated[OF this, of None] obtain s' r where
    g: "generateDelivery sample_crypto str_le (memory_put sample_crypto) (quiet_delivery None) [] = (s', Inr r)" by blast
  from memory_store.delivered_verifies(1)[OF g] obtain v where
    v: "verifyDelivery sample_crypto str_le (dr_manifest r) (dr_bytes r) (di_corpus (quiet_delivery None)) (di_query (quiet_delivery None)) = Inr v" "vf_ok v"
    by auto
  have "dm_columns (dr_manifest r) = [''DIABETES'']"
    by (rule generateDelivery_Inr[OF g]) (simp add: manifest_of_def Let_def quiet_delivery_def quiet_query_def, metis (no_types, lifting) delivery_manifest.select_convs(10))
  with accepted_file_is_the_regenerated_one[OF v refl] g show ?thesis by auto
qed


text \<open>The statistics of a delivery made under the hash of an accepted quote are those of the quote.\<close>

lemma quoted_hash_is_of_the_slice:
  assumes "composeQuote C lc corpus body rateCard density = Inr (QuoteAccepted qa)" and "qa_statsHash qa = Some h"
  shows "sha256 C (scaled_stats lc (aggregateStats (m_tracts (evaluateQuery (readQuery body) corpus)) (columns (readQuery body))))
    = Inr h"
proof -
  note a = composeQuote_accepted[OF assms(1)]
  have "qa_statsHash qa \<noteq> None" using assms(2) by simp
  with commitment_of_slice_total(2)[OF a(6)] have "length (m_tracts (evaluateQuery (readQuery body) corpus)) \<noteq> 0" by blast
  with a(6) assms(2) obtain x where
    "statsCommitment C lc (aggregateStats (m_tracts (evaluateQuery (readQuery body) corpus)) (columns (readQuery body)))
       (readQuery body) = Inr (h, x)"
    by (auto simp: commitment_of_slice_def split: sum.splits)
  then show ?thesis by (simp add: statsCommitment_Inr)
qed

lemma content_matches_quoted_hash:
  assumes "delivery_content_of C lc i = Inr c" and "di_quotedStatsHash i = Some h"
  shows "sha256 C (scaled_stats lc (aggregateStats (m_tracts (evaluateQuery (di_query i) (di_corpus i))) (columns (di_query i))))
    = Inr h"
proof -
  note d = delivery_content_Inr[OF assms(1)]
  from d(4) have "sha256 C (scaled_stats lc (dc_stats c)) = Inr (dc_statsHash c)" by (simp add: statsCommitment_Inr)
  with d(1,3,5) assms(2) show ?thesis by simp
qed

lemma generateDelivery_Inl:
  assumes "generateDelivery C lc put i s = (s', Inl e)"
  shows "s' = s \<or> (e = ManifestUncanonical \<and> (\<exists>c. delivery_content_of C lc i = Inr c))"
  using assms by (auto simp: generateDelivery_def Let_def case_prod_beta split: sum.splits)

text \<open>
  C9: the quoted slice is the delivered one. Over whatever the corpus has become, a delivery made under
  the statistics hash of a quote is made only of a slice whose statistics are, up to canonical form, the
  ones the quote committed to, an explicit collision of the digest aside. Every refusal but one leaves
  the store as it was; the one that comes after the file has been put, a manifest without canonical
  form, also comes only for the quoted slice. So nothing of any other slice is ever stored or returned.
\<close>

theorem quoted_slice_is_delivered:
  assumes "composeQuote C lc corpus body rateCard density = Inr (QuoteAccepted qa)" and "qa_statsHash qa = Some h"
    and "di_query i = readQuery body" and "di_quotedStatsHash i = Some h"
    and "scaled_stats lc (aggregateStats (m_tracts (evaluateQuery (readQuery body) corpus)) (columns (readQuery body))) = quoted"
    and "scaled_stats lc (aggregateStats (m_tracts (evaluateQuery (readQuery body) (di_corpus i))) (columns (readQuery body))) = delivered"
    and "generateDelivery C lc put i s = (s', res)"
  shows "(\<exists>e. res = Inl e \<and> s' = s) \<or>
    ((res = Inl ManifestUncanonical \<or> (\<exists>r. res = Inr r)) \<and>
     (canon quoted = canon delivered \<or>
      (\<exists>x y. encode quoted ''$'' = Inr x \<and> encode delivered ''$'' = Inr y \<and> collision C x y)))"
proof -
  have same: "canon quoted = canon delivered \<or>
      (\<exists>x y. encode quoted ''$'' = Inr x \<and> encode delivered ''$'' = Inr y \<and> collision C x y)"
    if "delivery_content_of C lc i = Inr c" for c
    using sha256_eq_iff[OF quoted_hash_is_of_the_slice[OF assms(1,2)] content_matches_quoted_hash[OF that assms(4), unfolded assms(3)]]
    unfolding assms(5,6) by simp
  show ?thesis
  proof (cases res)
    case (Inl e)
    then show ?thesis using generateDelivery_Inl[OF assms(7)[unfolded Inl]] same by blast
  next
    case (Inr r)
    from generateDelivery_Inr[OF assms(7)[unfolded Inr]] obtain c where "delivery_content_of C lc i = Inr c" by blast
    from same[OF this] Inr show ?thesis by blast
  qed
qed

text \<open>The two statistics of the witness are those of the same slice.\<close>

lemma quiet_written: "query_written quiet_query"
  by (simp add: query_written_def quiet_query_def or_empty_def)

lemma quiet_quote:
  "\<exists>qa h. composeQuote sample_crypto str_le (corpus_from [quiet_tract]) (query_js quiet_query) sample_rate_card sample_density
     = Inr (QuoteAccepted qa) \<and> qa_statsHash qa = Some h"
proof -
  let ?c = "corpus_from [quiet_tract]"
  note r = readQuery_query_js[OF quiet_written]
  have "tracts ?c = [quiet_tract]" by (simp add: tracts_corpus_from quiet_tract_def)
  have "validateQuery quiet_query ?c = []"
    by (simp add: validateQuery_Nil query_problems_iff query_accepted_def quiet_query_def or_empty_def object_entries_def MEASURE_KEYS_def)
  then have v: "validateQuery (readQuery (query_js quiet_query)) ?c = []" by (simp add: r)
  obtain h a where "statsCommitment sample_crypto str_le (aggregateStats [quiet_tract] (columns quiet_query)) quiet_query = Inr (h, a)"
    using quiet_hash by blast
  then obtain f where f: "composeQuote sample_crypto str_le ?c (query_js quiet_query) sample_rate_card sample_density = Inr f"
    using composeQuote_total[OF v, of sample_crypto str_le sample_rate_card sample_density]
    unfolding r criteriaHashOf_query_js quiet_slice by blast
  obtain qa where qa: "f = QuoteAccepted qa" using f v by (cases f) (auto simp: composeQuote_refused)
  with f have "qa_statsHash qa \<noteq> None"
    using commitment_of_slice_total(2)[OF composeQuote_accepted(6), of sample_crypto str_le ?c "query_js quiet_query"] 
    unfolding r quiet_slice by fastforce
  with f qa show ?thesis by auto
qed

theorem quoted_slice_is_delivered_witness:
  "\<exists>qa h s' r. composeQuote sample_crypto str_le (corpus_from [quiet_tract]) (query_js quiet_query) sample_rate_card sample_density
       = Inr (QuoteAccepted qa) \<and> qa_statsHash qa = Some h \<and>
     generateDelivery sample_crypto str_le (memory_put sample_crypto) (quiet_delivery (Some h)) [] = (s', Inr r) \<and>
     (canon (scaled_stats str_le (aggregateStats [quiet_tract] (columns quiet_query))) =
        canon (scaled_stats str_le (aggregateStats
          (m_tracts (evaluateQuery quiet_query (di_corpus (quiet_delivery (Some h))))) (columns quiet_query))) \<or>
      (\<exists>x y. encode (scaled_stats str_le (aggregateStats [quiet_tract] (columns quiet_query))) ''$'' = Inr x \<and>
         encode (scaled_stats str_le (aggregateStats
          (m_tracts (evaluateQuery quiet_query (di_corpus (quiet_delivery (Some h))))) (columns quiet_query))) ''$'' = Inr y \<and>
         collision sample_crypto x y))"
proof -
  obtain qa h where q: "composeQuote sample_crypto str_le (corpus_from [quiet_tract]) (query_js quiet_query) sample_rate_card
      sample_density = Inr (QuoteAccepted qa)" "qa_statsHash qa = Some h"
    using quiet_quote by blast
  note r = readQuery_query_js[OF quiet_written]
  have d: "di_query (quiet_delivery (Some h)) = readQuery (query_js quiet_query)"
    "di_quotedStatsHash (quiet_delivery (Some h)) = Some h"
    by (simp_all add: quiet_delivery_def r)
  obtain k a where k: "statsCommitment sample_crypto str_le (aggregateStats [quiet_tract] (columns quiet_query)) quiet_query = Inr (k, a)"
    using quiet_hash by blast
  then have "k = h" using quoted_hash_is_of_the_slice[OF q] by (simp add: statsCommitment_Inr r quiet_slice)
  with quiet_generated[OF k, of "Some h"] obtain s' res where
    g: "generateDelivery sample_crypto str_le (memory_put sample_crypto) (quiet_delivery (Some h)) [] = (s', Inr res)" by auto
  from quoted_slice_is_delivered[OF q d refl refl g] q g
  show ?thesis unfolding r quiet_slice
    by (intro exI[of _ qa] exI[of _ h] exI[of _ s'] exI[of _ res]) auto
qed


end
