(* ===== verification/CardParams.thy ===== *)
theory CardParams
  imports Signing
begin

text \<open>
  \<open>src/card-params.json\<close>: the product disclosure as it is in the file, member by member and in the
  order of the file.  The Agent Card publishes it (\<open>Card\<close>), and the seller's constructor, its start-up
  check and its deliveries read their rates, densities, tiers and product from it (\<open>Seller\<close>).
\<close>

section \<open>The product disclosure\<close>

definition card_measures :: "jsval list" where
  "card_measures =
    [JObj [(''key'', JStr ''DIABETES''),
       (''label'', JStr ''Diagnosed diabetes''),
       (''tier'', JStr ''premium''),
       (''denominator'', JStr ''adults-18-plus''),
       (''unavailableStates'', JArr [JStr ''PA'',
         JStr ''KY'']),
       (''definition'', JStr ''% of adults 18+ ever told by a doctor they have diabetes (excludes gestational).'')],
     JObj [(''key'', JStr ''BPHIGH''),
       (''label'', JStr ''High blood pressure''),
       (''tier'', JStr ''premium''),
       (''denominator'', JStr ''adults-18-plus''),
       (''unavailableStates'', JArr [JStr ''PA'',
         JStr ''KY'']),
       (''definition'', JStr ''% of adults 18+ ever told they have high blood pressure or hypertension.'')],
     JObj [(''key'', JStr ''CHD''),
       (''label'', JStr ''Coronary heart disease''),
       (''tier'', JStr ''premium''),
       (''denominator'', JStr ''adults-18-plus''),
       (''unavailableStates'', JArr [JStr ''PA'',
         JStr ''KY'']),
       (''definition'', JStr ''% of adults 18+ ever told they have angina or coronary heart disease.'')],
     JObj [(''key'', JStr ''DEPRESSION''),
       (''label'', JStr ''Depression''),
       (''tier'', JStr ''premium''),
       (''denominator'', JStr ''adults-18-plus''),
       (''unavailableStates'', JArr [JStr ''PA'',
         JStr ''KY'']),
       (''definition'', JStr ''% of adults 18+ ever told they have a depressive disorder.'')],
     JObj [(''key'', JStr ''OBESITY''),
       (''label'', JStr ''Obesity''),
       (''tier'', JStr ''standard''),
       (''denominator'', JStr ''adults-18-plus''),
       (''unavailableStates'', JArr [JStr ''PA'',
         JStr ''KY'']),
       (''definition'', JStr ''% of adults 18+ with body mass index 30.0+, from self-reported height and weight.'')],
     JObj [(''key'', JStr ''CSMOKING''),
       (''label'', JStr ''Current smoking''),
       (''tier'', JStr ''standard''),
       (''denominator'', JStr ''adults-18-plus''),
       (''unavailableStates'', JArr [JStr ''PA'',
         JStr ''KY'']),
       (''definition'', JStr ''% of adults 18+ who have smoked 100+ cigarettes in their life and now smoke every day or some days.'')],
     JObj [(''key'', JStr ''ACCESS2''),
       (''label'', JStr ''No health insurance (ages 18-64)''),
       (''tier'', JStr ''standard''),
       (''denominator'', JStr ''adults-18-64''),
       (''unavailableStates'', JArr [JStr ''PA'',
         JStr ''KY'']),
       (''definition'', JStr ''% of adults aged 18-64 with no health insurance. NOTE the narrower 18-64 denominator: unlike every other measure here this EXCLUDES ages 65+, who are near-universally Medicare-covered.'')],
     JObj [(''key'', JStr ''SLEEP''),
       (''label'', JStr ''Short sleep duration''),
       (''tier'', JStr ''standard''),
       (''denominator'', JStr ''adults-18-plus''),
       (''unavailableStates'', JArr []),
       (''definition'', JStr ''% of adults 18+ reporting fewer than 7 hours of sleep per 24-hour period.'')]]"

definition card_dataset :: json where
  "card_dataset =
    [(''datasetId'', JStr ''cdc-places-2025-tract''),
     (''title'', JStr (''CDC PLACES '' @ [CHR 0xE2, CHR 0x80, CHR 0x94] @ '' Census Tract Data, 2025 release (GIS-Friendly Format)'')),
     (''publisher'', JStr ''Centers for Disease Control and Prevention (PLACES)''),
     (''sellerIsPublisher'', JBool False),
     (''upstreamLicenceAsserted'', JBool False),
     (''grain'', JStr ''us-census-tract''),
     (''unitOfObservation'', JStr ''modelled prevalence estimate, % of adults, per tract''),
     (''containsIndividuals'', JBool False),
     (''estimateBasis'', JStr (''BRFSS survey combined with census demographics; modelled, not measured '' @ [CHR 0xE2, CHR 0x80, CHR 0x94] @ '' every published measure ships with a 95% CI'')),
     (''vintage'', JObj [(''release'', JStr ''2025''),
       (''surveyYear'', JNull),
       (''denominatorVintage'', JNull),
       (''tractGeographyVintage'', JNull)]),
     (''coverage'', JObj [(''tracts'', JInt 83522),
       (''states'', JInt 51),
       (''counties'', JInt 3143),
       (''totalPopulation'', JInt 331444902),
       (''totalPop18plus'', JInt 258340151),
       (''note'', JStr ''50 states plus the District of Columbia. No US territories.'')]),
     (''measures'', JArr card_measures),
     (''querySurface'', JObj [(''filters'', JArr [JStr ''states'',
         JStr ''counties'',
         JStr ''minPopulation'',
         JStr ''thresholds'']),
       (''thresholdRule'', JStr (''a threshold may be set only on a measure being purchased '' @ [CHR 0xE2, CHR 0x80, CHR 0x94] @ '' filtering on an unpurchased column would let a buyer probe the data for free'')),
       (''tractInclusionRule'', JStr ''a tract is included only if EVERY purchased measure has a published value for it; CDC-suppressed values exclude the tract and are never zero-filled''),
       (''availabilityIsExhaustive'', JStr (''in the 2025 release, suppression of the eight sold measures is entirely state-level '' @ [CHR 0xE2, CHR 0x80, CHR 0x94] @ '' zero tracts are partially suppressed. measures[].unavailableStates therefore describes availability completely, so a buyer can determine buyability from this card alone with no residual per-tract surprise. Re-verify on any future release before relying on it.'')),
       (''rejectionCodes'', JArr [JStr ''NO_COLUMNS_REQUESTED'',
         JStr ''UNKNOWN_COLUMN'',
         JStr ''STATE_NOT_AVAILABLE'',
         JStr ''COUNTY_FILTER_UNSUPPORTED'',
         JStr ''POPULATION_FILTER_UNSUPPORTED'',
         JStr ''THRESHOLD_FILTER_UNSUPPORTED'',
         JStr ''THRESHOLD_ON_UNREQUESTED_COLUMN'',
         JStr ''THRESHOLD_RANGE_EMPTY''])])]"

definition card_sample :: json where
  "card_sample =
    [(''price'', JStr ''free''),
     (''rows'', JInt 5),
     (''content'', JStr ''real, unmodified, published CDC tract rows''),
     (''perturbed'', JBool False),
     (''selection'', JStr (''first matches in file order '' @ [CHR 0xE2, CHR 0x80, CHR 0x94] @ '' reproducible, so the sample commitment is verifiable after the fact'')),
     (''alsoReturned'', JArr [JStr ''aggregate statistics over the WHOLE matched slice'',
       JStr (''statsHash '' @ [CHR 0xE2, CHR 0x80, CHR 0x94] @ '' committed before payment and re-checked at delivery''),
       JStr ''the itemised list price''])]"

definition card_deliverable :: json where
  "card_deliverable =
    [(''productId'', JStr ''cdc-places-2025-synthetic-individuals''),
     (''kind'', JStr ''synthetic-individual-records''),
     (''derivedFrom'', JStr ''cdc-places-2025-tract''),
     (''containsRealIndividuals'', JBool False),
     (''mediaType'', JStr ''text/csv''),
     (''manifestMediaType'', JStr ''application/json''),
     (''columns'', JStr ''synthetic_person_id, source_tract_fips, source_county_name, source_state_abbr, age_band, one flag per purchased measure, is_synthetic''),
     (''perRowMarker'', JObj [(''column'', JStr ''is_synthetic''),
       (''value'', JStr ''true''),
       (''onEveryRow'', JBool True)]),
     (''provenanceSemantics'', JStr (''source_tract_fips is the tract whose published percentages supplied this row's probabilities '' @ [CHR 0xE2, CHR 0x80, CHR 0x94] @ '' provenance, NOT residence. It asserts nothing about where anyone lives.'')),
     (''method'', JStr ''every tract in the slice receives rowsPerTract rows; any remainder goes to the largest tracts first by TotalPop18plus. Within a tract, each measure flag is an independent Bernoulli draw from that tract's published prevalence.''),
     (''determinism'', JStr ''stratified-marginal-bernoulli/v2, seeded per deal; the seed is published in the manifest''),
     (''buyerCanRegenerate'', JBool True),
     (''limitations'', JArr [JStr (''Marginal prevalences are reproduced; the JOINT distribution is not. Measure flags are drawn independently, so co-morbidity is absent. NOT sound for co-morbidity rates, multivariate models, or any interaction term '' @ [CHR 0xE2, CHR 0x80, CHR 0x94] @ '' a model trained on this systematically understates joint risk.''),
       JStr (''Per-tract resolution is a function of ROWS PER TRACT, not of tracts purchased. Every tract in a purchased slice is guaranteed rowsPerTract rows; each row's flags are Bernoulli draws from that one tract's published prevalence, so a tract represented by r rows admits only r+1 distinct rates and its rate carries a standard error of 100*sqrt(p(1-p)/r) percentage points '' @ [CHR 0xE2, CHR 0x80, CHR 0x94] @ '' at r=1 every tract reads exactly 0% or 100%, and at r=25 with p=12% it is still +/-6.5pp. Sound for slice-level marginals and for person-level work aggregated over many tracts; NOT sound for ranking or comparing individual tracts at any density this product offers.''),
       JStr (''The tract-level prevalences this file is generated FROM are the public CDC PLACES release, free to download, and they are the ceiling on its accuracy: no number of synthetic rows improves on its own input. If what you need is a tract's rate, read the published value. What this product adds is the thing the release does not contain '' @ [CHR 0xE2, CHR 0x80, CHR 0x94] @ '' individual-level records, one row per person, with age bands and per-person condition flags whose marginals match the published rates by construction, generated deterministically from a published seed so the file can be reproduced and audited.''),
       JStr ''Fit for: microsimulation and agent-based models that need a population rather than a rate; capacity, catchment and queueing models over candidate sites; power analysis and study design needing person-level variance; privacy-safe person-level test data for pipelines that cannot hold real records. Not fit for: estimating or ranking tract prevalence (the free source is better), co-morbidity or any interaction term, age-specific rates.'',
       JStr ''age_band is illustrative, not estimated. PLACES publishes no age breakdown, so nothing calibrates it. It exists because the generator must know who is 65+ in order not to flag them uninsured.'',
       JStr ''ACCESS2 has an 18-64 denominator and is therefore always 0 for 65+ rows.'']),
     (''verification'', JObj [(''method'', JStr ''buyer recomputes prevalences from the delivered bytes and compares against the manifest's calibration targets''),
       (''tolerancePpFormula'', JStr ''max(1, 4 * sqrt(p*(1-p)/n) * 100)''),
       (''sigmaMultiple'', JInt 4),
       (''floorPp'', JInt 1),
       (''whyVarianceAware'', JStr ''a flat band is 3 sigma for a rare measure and barely 2 sigma for a common one, so it would fail an honest generator on high-prevalence columns''),
       (''slabSubstitutionCaughtBy'', JStr ''exact comparison of the delivered manifest's sourceStatsHash against the statsHash committed at quote time'')]),
     (''rowCountRule'', JStr ''rowsPerTract x matchedTractCount''),
     (''rowsPerTractDefault'', JInt 25),
     (''rowsPerTractMin'', JInt 1),
     (''rowsPerTractMax'', JInt 100),
     (''maxRowCount'', JInt 999999),
     (''perTractPrecision'', JObj [(''formula'', JStr ''standardErrorPp = 100 * sqrt(p * (1 - p) / rowsPerTract)''),
       (''sigmaMultiple'', JInt 1),
       (''unit'', JStr ''hundredths of a percentage point (integers, because this card is hashed)''),
       (''workedAtP12Hundredths'', JObj [(''1'', JInt 3250),
         (''3'', JInt 1876),
         (''10'', JInt 1028),
         (''25'', JInt 650)]),
       (''note'', JStr ''One sigma. Multiply by 3 for a 99.7% band. No offered density makes a single tract's rate rankable.'')])]"

definition card_rateCard :: json where
  "card_rateCard =
    [(''model'', JStr ''query-derived/v1''),
     (''asset'', JStr ''USDC''),
     (''decimals'', JInt 6),
     (''computationUnit'', JStr ''integer USD cents; converted to USDC minor units by x10000''),
     (''baseCents'', JInt 100),
     (''perTractMicroCents'', JInt 0),
     (''perStandardColumnCents'', JInt 500),
     (''perPremiumColumnCents'', JInt 500),
     (''vintageMultiplierBps'', JInt 10000),
     (''formula'', JStr ''tractsCents = round(tractCount * perTractMicroCents / 1000); subtotalCents = baseCents + tractsCents + standardColumnCount * perStandardColumnCents + premiumColumnCount * perPremiumColumnCents; listCents = round(subtotalCents * vintageMultiplierBps / 10000); listAmountMinor = listCents * 10000''),
     (''rounding'', JStr ''half-up to whole cents at the per-tract term and again at the vintage multiplier; USDC minor units are never rounded''),
     (''columnChargeIndependentOfTractCount'', JBool True),
     (''unknownColumnChargedAs'', JStr (''standard '' @ [CHR 0xE2, CHR 0x80, CHR 0x94] @ '' but validateQuery rejects unknown keys before pricing is reached'')),
     (''workedExample'', JObj [(''computedAgainst'', JStr ''cdc-places-2025-tract, full release''),
       (''query'', JStr ''states=[CA], counties=[Alameda, San Francisco], minPopulation=2000, thresholds={DIABETES:{min:9}}, columns=[DIABETES, BPHIGH, OBESITY, ACCESS2]''),
       (''tractCount'', JInt 362),
       (''breakdownCents'', JObj [(''base'', JInt 100),
         (''tracts'', JInt 0),
         (''standardColumns'', JInt 1000),
         (''premiumColumns'', JInt 1000),
         (''subtotal'', JInt 2100)]),
       (''listAmountMinor'', JStr ''21000000''),
       (''listAmountDisplay'', JStr ''$21.00'')])]"

definition card_terms :: json where
  "card_terms =
    [(''template'', JStr ''fixed_outcome/v1''),
     (''resale'', JBool False),
     (''retentionDays'', JInt 365),
     (''attribution'', JNull),
     (''permittedPurpose'', JNull),
     (''deliverySeconds'', JInt 3600),
     (''acceptanceSeconds'', JInt 3600),
     (''partialDelivery'', JBool False),
     (''partialPayment'', JBool False),
     (''feesChargedByThirdParties'', JArr []),
     (''silencePastAcceptanceWindow'', JStr (''auto-confirms in the seller'' @ [CHR 0xE2, CHR 0x80, CHR 0x99] @ ''s favour at the delivery-confirmation window (fixed_outcome/v1 '' @ [CHR 0xC2, CHR 0xA7] @ ''3): a timely explicit on-chain rejection is what preserves the buyer'' @ [CHR 0xE2, CHR 0x80, CHR 0x99] @ ''s refund path'')),
     (''prohibitedUse'', JStr ''not for clinical, epidemiological, eligibility, or policy decisions about any real person. The rows are manufactured and the joint distribution is wrong (see deliverable.limitations).''),
     (''usageRightsEnforcement'', JStr ''contractual and auditable, NOT technical. resale, retentionDays and prohibitedUse are pinned in the signed agreement and every breach is attributable, but the software cannot prevent copying, resale, retention or misuse after delivery. Do not read these fields as DRM.''),
     (''negotiationDimensions'', JObj [(''implemented'', JArr [JStr ''geography'',
         JStr ''measures'',
         JStr ''prevalenceThresholds'',
         JStr ''price'']),
       (''fixedForThisVersion'', JArr [JStr ''resale=false'',
         JStr ''retentionDays=365'']),
       (''notRepresentableYet'', JArr [JStr ''permittedPurpose'',
         JStr ''copyPermission'',
         JStr ''deletionOrRemovalDuty'',
         JStr ''jurisdiction'',
         JStr ''exclusivity''])]),
     (''note'', JStr (''deliverySeconds/acceptanceSeconds are advisory here: under fixed_outcome/v1 the five deadline windows are platform configuration read back through the funding interaction ('' @ [CHR 0xC2, CHR 0xA7] @ ''3.1), not terms the parties set. retentionDays is the buyer'' @ [CHR 0xE2, CHR 0x80, CHR 0x99] @ ''s retention right '' @ [CHR 0xE2, CHR 0x80, CHR 0x94] @ '' a license term, not an artifact-availability promise; availability is declared per deal in the signed terms document.''))]"

definition card_access :: json where
  "card_access =
    [(''model'', JStr ''per-deal capability token, minted at delivery; the evidence URL carries it''),
     (''revocation'', JStr (''revoked on refund outcomes (CANCELLED, or RESOLVED with sellerBps=0); held for the terms document'' @ [CHR 0xE2, CHR 0x80, CHR 0x99] @ ''s artifactAvailability window otherwise'')),
     (''durability'', JStr (''demo-grade, process-local storage '' @ [CHR 0xE2, CHR 0x80, CHR 0x94] @ '' disclosed, not promised away''))]"

definition card_termsDocument :: json where
  "card_termsDocument =
    [(''format'', JStr ''kite-example-data-deal-terms/v1''),
     (''commitment'', JStr (''the contract'' @ [CHR 0xE2, CHR 0x80, CHR 0x99] @ ''s acceptanceCriteria embeds the document'' @ [CHR 0xE2, CHR 0x80, CHR 0x99] @ ''s JCS sha256 and a content-addressed locator; termsHash ('' @ [CHR 0xC2, CHR 0xA7] @ ''4.1) therefore covers it transitively'')),
     (''note'', JStr ''demo-private convention, not Extension protocol'')]"

definition cardParams :: json where
  "cardParams =
    [(''dataset'', JObj card_dataset),
     (''prePurchaseSample'', JObj card_sample),
     (''deliverable'', JObj card_deliverable),
     (''rateCard'', JObj card_rateCard),
     (''terms'', JObj card_terms),
     (''artifactAccess'', JObj card_access),
     (''disclosedRisk'', JStr (''Off-chain delivery cannot be disproved on chain. A buyer that receives good data can reject it on protocol and keep the file. Under fixed_outcome/v1 that rejection is answerable: the seller may appeal (REJECTED '' @ [CHR 0xE2, CHR 0x86, CHR 0x92] @ '' DISPUTED) and a third-party arbiter decides the split, and every command in the path is signed, public and permanently recorded. This example exercises the dispute paths against a fake Runtime in its test suite; its live validation covers the accepted path only.'')),
     (''termsDocument'', JObj card_termsDocument)]"

end
