(* ===== verification/Seller.thy ===== *)
theory Seller
  imports Extension Deliver CardParams
begin

text \<open>
  \<open>src/seller.ts\<close>: the seller's business layer, \<open>DataSeller\<close>.  Its process-local state is the record
  \<open>seller\<close>: the negotiations, the accepted quotes and the deals, each an insertion-ordered map, the
  artifact store and the history counter.  Every operation is a function from the state to the
  state after it and a result, the state changes made before a throw included.

  What the process is configured with is the record \<open>seller_config\<close>.  An operation reads the clock
  once (\<open>now\<close>, milliseconds) and takes its random bytes as an argument.  The arrays a negotiation,
  its quote and a deal share are values: the code appends to a shared array only while \<open>quote\<close> runs.
  \<open>prepareDelivery\<close> suspends once, at the put of the artifact, so it is two operations,
  \<open>prepareDelivery_begin\<close> and \<open>prepareDelivery_finish\<close>; others may run in between.
\<close>

section \<open>Time\<close>

text \<open>\<open>new Date(ms).toISOString()\<close> for the years 0 to 9999, and \<open>nowIso\<close>, which drops the milliseconds.\<close>

definition pad_int :: "nat \<Rightarrow> int \<Rightarrow> string" where
  "pad_int n i = pad_start n (CHR ''0'') (string_of_int i)"

definition iso_seconds :: "int \<Rightarrow> string" where
  "iso_seconds ms =
     (let z = ms div 86400000 + 719468; t = ms mod 86400000 div 1000;
          era = z div 146097; doe = z mod 146097;
          yoe = (doe - doe div 1460 + doe div 36524 - doe div 146096) div 365;
          doy = doe - (365 * yoe + yoe div 4 - yoe div 100);
          mp = (5 * doy + 2) div 153;
          d = doy - (153 * mp + 2) div 5 + 1;
          m = (if mp < 10 then mp + 3 else mp - 9);
          y = yoe + era * 400 + (if m \<le> 2 then 1 else 0)
      in pad_int 4 y @ ''-'' @ pad_int 2 m @ ''-'' @ pad_int 2 d @ ''T'' @ pad_int 2 (t div 3600) @ '':'' @
         pad_int 2 (t div 60 mod 60) @ '':'' @ pad_int 2 (t mod 60))"

definition to_iso :: "int \<Rightarrow> string" where
  "to_iso ms = iso_seconds ms @ ''.'' @ pad_int 3 (ms mod 1000) @ ''Z''"

definition nowIso :: "int \<Rightarrow> string" where
  "nowIso ms = iso_seconds ms @ ''Z''"

section \<open>Constants\<close>

definition seg_edge :: "char \<Rightarrow> bool" where
  "seg_edge c \<longleftrightarrow> is_digit c \<or> (97 \<le> (of_char c :: nat) \<and> (of_char c :: nat) \<le> 122)"

definition did_segment :: "string \<Rightarrow> bool" where
  "did_segment s \<longleftrightarrow>
     s \<noteq> [] \<and> seg_edge (hd s) \<and> seg_edge (last s) \<and>
     list_all (\<lambda>c. seg_edge c \<or> c = CHR ''_'' \<or> c = CHR ''-'') s"

definition BUYER_DID_PATTERN :: "string \<Rightarrow> bool" where
  "BUYER_DID_PATTERN s \<longleftrightarrow>
     (case split_at_char (CHR '':'') s of
        [a, b, org, name] \<Rightarrow> a = ''did'' \<and> b = ''kite'' \<and> did_segment org \<and> did_segment name
      | _ \<Rightarrow> False)"

definition GENERATOR_VERSION :: string where
  "GENERATOR_VERSION = ''stratified-marginal-bernoulli/v2 (data-seller-agent 0.0.1)''"

definition VERIFIER_BUNDLE_FILES :: "string list" where
  "VERIFIER_BUNDLE_FILES =
     [''verifier.ts'', ''engine/deliver.ts'', ''engine/synth.ts'', ''engine/places.ts'', ''engine/hash.ts'', ''engine/store.ts'']"

text \<open>The bytes hashed: every file after its name and its length; \<open>read\<close> is \<open>readFileSync\<close>.\<close>

definition bundle_bytes :: "(string \<Rightarrow> string) \<Rightarrow> string" where
  "bundle_bytes read =
     concat (map (\<lambda>f. f @ '':'' @ string_of_nat (length (read f)) @ '':'' @ read f) VERIFIER_BUNDLE_FILES)"

definition verifierBundleHash :: "crypto \<Rightarrow> (string \<Rightarrow> string) \<Rightarrow> string" where
  "verifierBundleHash C read = ''sha256:'' @ to_hex (sha256_digest C (bundle_bytes read))"

definition MAX_OPEN_NEGOTIATIONS :: nat where
  "MAX_OPEN_NEGOTIATIONS = 1024"

definition MAX_RECLAIMABLE_DEALS :: nat where
  "MAX_RECLAIMABLE_DEALS = 1024"

definition RECLAIMABLE_DEAL_TTL_MS :: int where
  "RECLAIMABLE_DEAL_TTL_MS = 15 * 60 * 1000"

definition MAX_HISTORY_ENTRIES_PER_DEAL :: nat where
  "MAX_HISTORY_ENTRIES_PER_DEAL = 512"

text \<open>
  What the constructor and \<open>boot\<close> read of the disclosure: \<open>Number(rc[...])\<close> of each rate and density,
  and \<open>String(...)\<close> of the product and of each measure's key and tier.  The readers are defined on any
  disclosure; they answer \<open>None\<close> where a member is no finite number (no whole number for a density),
  which the file does not have.
\<close>

definition finite_number :: "jsval \<Rightarrow> rat option" where
  "finite_number v = (case js_number v of Fin r \<Rightarrow> Some r | _ \<Rightarrow> None)"

definition whole_number :: "jsval \<Rightarrow> int option" where
  "whole_number v = (case finite_number v of Some r \<Rightarrow> if r = of_int \<lfloor>r\<rfloor> then Some \<lfloor>r\<rfloor> else None | None \<Rightarrow> None)"

definition rates_of_card :: "jsval \<Rightarrow> rate_card_terms option" where
  "rates_of_card rc =
     (case finite_number (getp rc ''baseCents'') of None \<Rightarrow> None | Some b \<Rightarrow>
      case finite_number (getp rc ''perTractMicroCents'') of None \<Rightarrow> None | Some t \<Rightarrow>
      case finite_number (getp rc ''perStandardColumnCents'') of None \<Rightarrow> None | Some s \<Rightarrow>
      case finite_number (getp rc ''perPremiumColumnCents'') of None \<Rightarrow> None | Some p \<Rightarrow>
      case finite_number (getp rc ''vintageMultiplierBps'') of None \<Rightarrow> None | Some v \<Rightarrow>
        Some \<lparr> baseCents = b, perTractMicroCents = t, perStandardColumnCents = s,
          perPremiumColumnCents = p, vintageMultiplierBps = v \<rparr>)"

definition density_of_card :: "jsval \<Rightarrow> density_terms option" where
  "density_of_card d =
     (case whole_number (getp d ''rowsPerTractDefault'') of None \<Rightarrow> None | Some n \<Rightarrow>
      case whole_number (getp d ''rowsPerTractMin'') of None \<Rightarrow> None | Some lo \<Rightarrow>
      case whole_number (getp d ''rowsPerTractMax'') of None \<Rightarrow> None | Some hi \<Rightarrow>
        Some \<lparr> rowsPerTractDefault = n, rowsPerTractMin = lo, rowsPerTractMax = hi \<rparr>)"

definition measures_of_card :: "jsval \<Rightarrow> jsval list" where
  "measures_of_card dataset = (case getp dataset ''measures'' of JArr ms \<Rightarrow> ms | _ \<Rightarrow> [])"

text \<open>\<open>Object.fromEntries(measures.map((m) => [String(m["key"]), String(m["tier"])]))\<close>\<close>

definition tiers_of_card :: "jsval \<Rightarrow> (string, string) jsmap" where
  "tiers_of_card dataset =
     fold (\<lambda>m. map_set (js_string (getp m ''key'')) (js_string (getp m ''tier''))) (measures_of_card dataset) []"

definition CARD_RATES :: rate_card_terms where
  "CARD_RATES = the (rates_of_card (member cardParams ''rateCard''))"

definition CARD_DENSITY :: density_terms where
  "CARD_DENSITY = the (density_of_card (member cardParams ''deliverable''))"

definition CARD_PRODUCT :: string where
  "CARD_PRODUCT = js_string (getp (member cardParams ''deliverable'') ''productId'')"

lemma finite_number_num [simp]: "finite_number (JNum (Fin r)) = Some r"
  by (simp add: finite_number_def js_number_def)

lemma whole_number_int [simp]: "whole_number (JInt k) = Some k"
  by (simp add: whole_number_def)

lemma card_parts:
  "member cardParams ''rateCard'' = JObj card_rateCard" "member cardParams ''deliverable'' = JObj card_deliverable"
  "member cardParams ''dataset'' = JObj card_dataset"
  by (simp_all add: cardParams_def)

lemma published_rates:
  "getp (JObj card_rateCard) ''baseCents'' = JInt 100" "getp (JObj card_rateCard) ''perTractMicroCents'' = JInt 0"
  "getp (JObj card_rateCard) ''perStandardColumnCents'' = JInt 500"
  "getp (JObj card_rateCard) ''perPremiumColumnCents'' = JInt 500"
  "getp (JObj card_rateCard) ''vintageMultiplierBps'' = JInt 10000"
  by (simp_all add: card_rateCard_def)

lemma published_density:
  "getp (JObj card_deliverable) ''rowsPerTractDefault'' = JInt 25" "getp (JObj card_deliverable) ''rowsPerTractMin'' = JInt 1"
  "getp (JObj card_deliverable) ''rowsPerTractMax'' = JInt 100"
  by (simp_all add: card_deliverable_def)

lemma rates_of_published:
  "rates_of_card (member cardParams ''rateCard'') = Some \<lparr> baseCents = 100, perTractMicroCents = 0,
     perStandardColumnCents = 500, perPremiumColumnCents = 500, vintageMultiplierBps = 10000 \<rparr>"
  by (simp only: card_parts rates_of_card_def published_rates finite_number_num option.case) simp

lemma CARD_RATES_eq:
  "CARD_RATES = \<lparr> baseCents = 100, perTractMicroCents = 0, perStandardColumnCents = 500,
     perPremiumColumnCents = 500, vintageMultiplierBps = 10000 \<rparr>"
  by (simp add: CARD_RATES_def rates_of_published)

lemma CARD_DENSITY_eq: "CARD_DENSITY = \<lparr> rowsPerTractDefault = 25, rowsPerTractMin = 1, rowsPerTractMax = 100 \<rparr>"
  by (simp only: CARD_DENSITY_def card_parts density_of_card_def published_density whole_number_int option.case option.sel)

section \<open>State\<close>

datatype history_phase = Negotiation | Formation | Funding | Fulfillment | Settling

datatype history_direction = BuyerToSeller | SellerToBuyer | BuyerToRuntime | SellerToRuntime | RuntimeToSeller | System

datatype seller_error =
    InvalidBuyer
  | QuoteFailed product_error
  | TermsUnhashable signing_error
  | UnknownDeal string
  | NoAcceptedQuote string
  | NothingPinned
  | OtherQuoteSelected string
  | OtherBuyer string string
  | UnknownNegotiation string
  | RetryMismatch string
  | QuoteUnavailable string
  | NoLongerPrices
  | CountersignFailed extension_error
  | NotAcceptedYet string
  | DeliveryFailed deliver_error
  | NoPreparedDelivery string
  | TypeErrorThrown

text \<open>A summary is a text, or the message of the error that was caught.\<close>

datatype summary = Said string | MessageOf seller_error

record history_entry =
  he_sequence :: nat
  he_at :: int
  he_phase :: history_phase
  he_direction :: history_direction
  he_kind :: string
  he_summary :: summary
  he_state :: "string option"
  he_payload :: "jsval option"

record history_input =
  hi_phase :: history_phase
  hi_direction :: history_direction
  hi_kind :: string
  hi_summary :: summary
  hi_state :: "string option"
  hi_payload :: "json option"

datatype negotiation_state = QUOTED | REFUSED | AGREEMENT_STARTED

record negotiation =
  ng_negotiationId :: string
  ng_buyerAgentId :: string
  ng_state :: negotiation_state
  ng_queryBody :: jsval
  ng_createdAt :: int
  ng_updatedAt :: int
  ng_termsDocumentHash :: "string option"
  ng_dealIds :: "string list"
  ng_history :: "history_entry list"

record quote_record =
  qr_negotiationId :: string
  qr_buyerAgentId :: string
  qr_termsDocument :: terms_document
  qr_termsDocumentHash :: string
  qr_queryBody :: jsval
  qr_facts :: quote_accepted
  qr_issuedAt :: int
  qr_history :: "history_entry list"

datatype deal_state = PROPOSED_LOCAL | ACCEPTED_LOCAL | DELIVERED_LOCAL

record deal =
  dl_dealId :: string
  dl_negotiationId :: string
  dl_state :: deal_state
  dl_runtimeState :: "string option"
  dl_runtimeRevision :: "rat option"
  dl_termsDocumentHash :: string
  dl_buyerAddress :: string
  dl_contract :: json
  dl_createdAt :: int
  dl_updatedAt :: int
  dl_history :: "history_entry list"
  dl_capabilityToken :: "string option"
  dl_capabilityRevoked :: bool
  dl_manifest :: "delivery_manifest option"
  dl_manifestBytes :: "string option"
  dl_deliveryHash :: "string option"
  dl_csvBytes :: "string option"

record seller =
  negotiations :: "(string, negotiation) jsmap"
  quotes :: "(string, quote_record) jsmap"
  deals :: "(string, deal) jsmap"
  artifacts :: "(string, string) jsmap"
  historySequence :: nat

record seller_config =
  sx_crypto :: crypto
  sx_localeCompare :: "string \<Rightarrow> string \<Rightarrow> bool"
  sx_env :: environment
  sx_privateKey :: string
  sx_publicUrl :: string
  sx_seedSecret :: string
  sx_verifierHash :: string
  sx_corpus :: corpus
  sx_corpusHash :: string

definition new_seller :: seller where
  "new_seller = \<lparr> negotiations = [], quotes = [], deals = [], artifacts = [], historySequence = 0 \<rparr>"

definition seller_keyId :: "seller_config \<Rightarrow> string" where
  "seller_keyId X = keyIdOf (sx_crypto X) (SELLER_AGENT_ID (sx_env X)) (sx_privateKey X)"

definition seller_address :: "seller_config \<Rightarrow> string" where
  "seller_address X = addressOfPrivateKey (sx_crypto X) (sx_privateKey X)"

text \<open>An operation: the state after it, and what it returns or throws.\<close>

type_synonym 'a operation = "seller \<Rightarrow> seller \<times> (seller_error, 'a) res"

definition andThen :: "'a operation \<Rightarrow> ('a \<Rightarrow> 'b operation) \<Rightarrow> 'b operation" where
  "andThen m f s = (case m s of (s', Inl e) \<Rightarrow> (s', Inl e) | (s', Inr x) \<Rightarrow> f x s')"

definition throw :: "seller_error \<Rightarrow> 'a operation" where
  "throw e s = (s, Inl e)"

definition pure :: "'a \<Rightarrow> 'a operation" where
  "pure x s = (s, Inr x)"

definition lift :: "(seller_error, 'a) res \<Rightarrow> 'a operation" where
  "lift r s = (s, r)"

fun map_error :: "('e \<Rightarrow> 'f) \<Rightarrow> ('e, 'a) res \<Rightarrow> ('f, 'a) res" where
  "map_error g (Inl e) = Inl (g e)"
| "map_error g (Inr x) = Inr x"

fun deal_state_name :: "deal_state \<Rightarrow> string" where
  "deal_state_name PROPOSED_LOCAL = ''PROPOSED_LOCAL''"
| "deal_state_name ACCEPTED_LOCAL = ''ACCEPTED_LOCAL''"
| "deal_state_name DELIVERED_LOCAL = ''DELIVERED_LOCAL''"


section \<open>Pruning\<close>

text \<open>
  The loop over \<open>negotiations.keys()\<close>: it ends as soon as the map is within its limit, and skips what
  a deal still refers to.
\<close>

fun prune_keys :: "string list \<Rightarrow> string list \<Rightarrow> seller \<Rightarrow> seller" where
  "prune_keys referenced [] s = s"
| "prune_keys referenced (k # ks) s =
     (if length (negotiations s) \<le> MAX_OPEN_NEGOTIATIONS then s
      else if k \<in> set referenced then prune_keys referenced ks s
      else prune_keys referenced ks
             (s \<lparr> negotiations := map_delete k (negotiations s), quotes := map_delete k (quotes s) \<rparr>))"

definition pruneNegotiations :: "string \<Rightarrow> seller \<Rightarrow> seller" where
  "pruneNegotiations justIssued s =
     (if length (negotiations s) \<le> MAX_OPEN_NEGOTIATIONS then s
      else prune_keys (map dl_negotiationId (map_values (deals s)) @ [justIssued]) (map_keys (negotiations s)) s)"

definition isReclaimableDeal :: "deal \<Rightarrow> bool" where
  "isReclaimableDeal d \<longleftrightarrow>
     (case dl_runtimeState d of Some r \<Rightarrow> r \<in> {''PROPOSED'', ''EXPIRED'', ''CANCELLED''} | None \<Rightarrow> True) \<and>
     (dl_state d = PROPOSED_LOCAL \<or> dl_state d = ACCEPTED_LOCAL)"

definition unlink_deal :: "string \<Rightarrow> negotiation \<Rightarrow> negotiation" where
  "unlink_deal dealId n =
     (let ids = filter (\<lambda>i. i \<noteq> dealId) (ng_dealIds n)
      in n \<lparr> ng_dealIds := ids, ng_state := (if ids = [] then QUOTED else ng_state n) \<rparr>)"

definition deleteDeal :: "string \<Rightarrow> seller \<Rightarrow> seller" where
  "deleteDeal dealId s =
     (case map_get (deals s) dealId of
        None \<Rightarrow> s
      | Some d \<Rightarrow>
          (let s' = s \<lparr> deals := map_delete dealId (deals s) \<rparr>
           in case map_get (negotiations s) (dl_negotiationId d) of
                None \<Rightarrow> s'
              | Some n \<Rightarrow>
                  s' \<lparr> negotiations := map_set (dl_negotiationId d) (unlink_deal dealId n) (negotiations s) \<rparr>))"

definition expired :: "int \<Rightarrow> deal \<Rightarrow> bool" where
  "expired now d \<longleftrightarrow> now - dl_updatedAt d > RECLAIMABLE_DEAL_TTL_MS"

text \<open>The loop over the deals: the state after it and the ids that stay reclaimable, oldest first.\<close>

fun prune_scan :: "int \<Rightarrow> (string \<times> deal) list \<Rightarrow> string list \<Rightarrow> seller \<Rightarrow> seller \<times> string list" where
  "prune_scan now [] reclaimable s = (s, reclaimable)"
| "prune_scan now ((k, d) # ds) reclaimable s =
     (if \<not> isReclaimableDeal d then prune_scan now ds reclaimable s
      else if expired now d then prune_scan now ds reclaimable (deleteDeal k s)
      else prune_scan now ds (reclaimable @ [k]) s)"

definition pruneDeals :: "int \<Rightarrow> seller \<Rightarrow> seller" where
  "pruneDeals now s =
     (let (s', reclaimable) = prune_scan now (deals s) [] s;
          excess = length reclaimable - (MAX_RECLAIMABLE_DEALS - 1)
      in fold deleteDeal (take excess reclaimable) s')"

definition storeSizes :: "seller \<Rightarrow> nat \<times> nat \<times> nat" where
  "storeSizes s = (length (negotiations s), length (quotes s), length (deals s))"

section \<open>Start-up\<close>

text \<open>
  \<open>boot\<close> after the corpus has been read: the check of the card against it. \<open>boot_check\<close> is the check
  under any dataset disclosure, \<open>boot\<close> the one under the file's.
\<close>

definition boot_check :: "jsval \<Rightarrow> corpus \<Rightarrow> (data_error, unit) res" where
  "boot_check dataset c =
     (let tiers = tiers_of_card dataset
      in checkCardAgainstCorpus c (int (total_tracts (totals c))) (int (total_states (totals c)))
           (map (\<lambda>(m, t). (m, or_empty (map_get (unavailableStates c) m))) tiers) (Some tiers))"

definition boot :: "corpus \<Rightarrow> (data_error, unit) res" where
  "boot = boot_check (member cardParams ''dataset'')"

definition identityBlock :: "seller_config \<Rightarrow> json" where
  "identityBlock X =
     [(''sellerAgentId'', JStr (SELLER_AGENT_ID (sx_env X))), (''sellerAddress'', JStr (seller_address X)),
      (''sellerKeyId'', JStr (seller_keyId X)), (''payoutAddress'', JStr (SELLER_PAYOUT_ADDRESS (sx_env X))),
      (''coordinationEndpoint'', JStr (coordinationEndpoint (sx_env X))),
      (''note'', JStr (''in-band identity exchange is a demo stand-in for Kite Identity DID resolution ('' @
         [CHR 0xC2, CHR 0xA7] @ ''8)''))]"

section \<open>History\<close>

definition historyEntry :: "int \<Rightarrow> history_input \<Rightarrow> seller \<Rightarrow> seller \<times> history_entry" where
  "historyEntry now i s =
     (let n = Suc (historySequence s)
      in (s \<lparr> historySequence := n \<rparr>,
          \<lparr> he_sequence = n, he_at = now, he_phase = hi_phase i, he_direction = hi_direction i,
            he_kind = hi_kind i, he_summary = hi_summary i, he_state = hi_state i,
            he_payload = map_option (\<lambda>p. json_copy (JObj p)) (hi_payload i) \<rparr>))"

definition keep_last :: "nat \<Rightarrow> 'a list \<Rightarrow> 'a list" where
  "keep_last n xs = drop (length xs - n) xs"

definition put_deal :: "string \<Rightarrow> deal \<Rightarrow> seller \<Rightarrow> seller" where
  "put_deal dealId d s = s \<lparr> deals := map_set dealId d (deals s) \<rparr>"

definition recordInteraction :: "int \<Rightarrow> string \<Rightarrow> history_input \<Rightarrow> history_entry operation" where
  "recordInteraction now dealId i s =
     (case map_get (deals s) dealId of
        None \<Rightarrow> (s, Inl (UnknownDeal dealId))
      | Some d \<Rightarrow>
          (let (s', e) = historyEntry now i s
           in (put_deal dealId (d \<lparr> dl_history := keep_last MAX_HISTORY_ENTRIES_PER_DEAL (dl_history d @ [e]),
                            dl_updatedAt := he_at e \<rparr>) s', Inr e)))"

definition runtimeStatePhase :: "string \<Rightarrow> history_phase" where
  "runtimeStatePhase st =
     (if st \<in> {''PROPOSED'', ''COMMITTED''} then Formation
      else if st \<in> {''FUNDING'', ''FUNDED'', ''FULFILLING''} then Funding
      else if st = ''DELIVERED'' then Fulfillment
      else Settling)"

definition finite_revision :: "jsval \<Rightarrow> rat option" where
  "finite_revision v = (case js_number v of Fin r \<Rightarrow> Some r | _ \<Rightarrow> None)"

definition observeRuntimeStatus :: "int \<Rightarrow> string \<Rightarrow> json \<Rightarrow> string option \<Rightarrow> unit operation" where
  "observeRuntimeStatus now dealId status summary s =
     (case map_get (deals s) dealId of
        None \<Rightarrow> (s, Inl (UnknownDeal dealId))
      | Some d \<Rightarrow>
          (let st = text_of (member status ''state''); revision = finite_revision (member status ''revision'')
           in if st = [] then (s, Inr ())
              else
                (let s' = put_deal dealId (d \<lparr> dl_runtimeState := Some st,
                       dl_runtimeRevision := (if revision \<noteq> None then revision else dl_runtimeRevision d) \<rparr>) s
                 in if dl_runtimeState d = Some st then (s', Inr ())
                    else andThen (recordInteraction now dealId
                      \<lparr> hi_phase = runtimeStatePhase st, hi_direction = RuntimeToSeller, hi_kind = ''runtime-state'',
                        hi_summary = Said (case summary of Some t \<Rightarrow> t | None \<Rightarrow> ''Coordination Runtime reported '' @ st),
                        hi_state = Some st, hi_payload = Some status \<rparr>) (\<lambda>_. pure ()) s')))"


section \<open>Quotes\<close>

text \<open>The facts of a quote as the objects the history records.\<close>

fun rejection_name :: "rejection_code \<Rightarrow> string" where
  "rejection_name NO_COLUMNS_REQUESTED = ''NO_COLUMNS_REQUESTED''"
| "rejection_name UNKNOWN_COLUMN = ''UNKNOWN_COLUMN''"
| "rejection_name STATE_NOT_AVAILABLE = ''STATE_NOT_AVAILABLE''"
| "rejection_name COUNTY_FILTER_UNSUPPORTED = ''COUNTY_FILTER_UNSUPPORTED''"
| "rejection_name POPULATION_FILTER_UNSUPPORTED = ''POPULATION_FILTER_UNSUPPORTED''"
| "rejection_name THRESHOLD_FILTER_UNSUPPORTED = ''THRESHOLD_FILTER_UNSUPPORTED''"
| "rejection_name THRESHOLD_ON_UNREQUESTED_COLUMN = ''THRESHOLD_ON_UNREQUESTED_COLUMN''"
| "rejection_name THRESHOLD_RANGE_EMPTY = ''THRESHOLD_RANGE_EMPTY''"

definition rejection_js :: "rejection \<Rightarrow> jsval" where
  "rejection_js r = JObj [(''code'', JStr (rejection_name (code r))), (''detail'', JStr (detail r))]"

definition price_js :: "price \<Rightarrow> jsval" where
  "price_js p = JObj [
     (''tractCount'', JInt (int (pr_tractCount p))),
     (''breakdownCents'', JObj [(''base'', JRat (br_base p)), (''tracts'', JInt (br_tracts p)),
        (''standardColumns'', JRat (br_standardColumns p)), (''premiumColumns'', JRat (br_premiumColumns p)),
        (''subtotal'', JRat (br_subtotal p))]),
     (''listCents'', JInt (listCents p)), (''listAmountMinor'', JStr (listAmountMinor p)),
     (''listAmountDisplay'', JStr (listAmountDisplay p))]"

definition measure_js :: "measure_stats \<Rightarrow> jsval" where
  "measure_js m = JObj [(''min'', JRat (ms_min m)), (''max'', JRat (ms_max m)), (''mean'', JRat (ms_mean m)),
     (''median'', JRat (ms_median m)), (''n'', JInt (int (ms_n m)))]"

definition stats_js :: "aggregate_stats \<Rightarrow> jsval" where
  "stats_js a = JObj [
     (''tractCount'', JInt (int (as_tractCount a))), (''totalPopulation'', JRat (as_totalPopulation a)),
     (''totalPop18plus'', JRat (as_totalPop18plus a)),
     (''perMeasure'', JObj (map (\<lambda>(m, v). (m, measure_js v)) (perMeasure a)))]"

definition deliverable_js :: "deliverable_shape \<Rightarrow> jsval" where
  "deliverable_js d = JObj [
     (''unit'', JStr (ds_unit d)), (''rowsPerTract'', JInt (ds_rowsPerTract d)), (''rowCount'', JInt (ds_rowCount d)),
     (''tractCount'', JInt (int (ds_tractCount d))), (''everyTractRepresented'', JBool (ds_everyTractRepresented d)),
     (''perTractStandardErrorPp'', JObj (map (\<lambda>(m, v). (m, JRat v)) (ds_perTractStandardErrorPp d))),
     (''perTractRatesSupported'', JBool (ds_perTractRatesSupported d)), (''note'', JStr (ds_note d))]"

definition or_null :: "('a \<Rightarrow> jsval) \<Rightarrow> 'a option \<Rightarrow> jsval" where
  "or_null f v = (case v of Some x \<Rightarrow> f x | None \<Rightarrow> JNull)"

definition quote_body_js :: "quote_body \<Rightarrow> jsval" where
  "quote_body_js b = JObj [(''accepted'', JBool True), (''rejections'', JArr []),
     (''tractCount'', JInt (int (qb_tractCount b))), (''priceable'', JBool (qb_priceable b)),
     (''price'', or_null price_js (qb_price b)), (''zeroYieldStates'', strings_js (qb_zeroYieldStates b)),
     (''sample'', JArr (map JObj (qb_sample b))), (''stats'', stats_js (qb_stats b)),
     (''deliverable'', or_null deliverable_js (qb_deliverable b)), (''note'', JStr (qb_note b))]"

text \<open>\<open>Math.max(...xs)\<close> of at least one number.\<close>

fun max_of :: "rat list \<Rightarrow> rat" where
  "max_of [] = 0"
| "max_of (x # xs) = fold max xs x"

definition price_amount :: "price \<Rightarrow> string" where
  "price_amount p = to_fixed 2 (fdiv (of_int (listCents p)) 100)"

definition seller_quote :: "seller_config \<Rightarrow> jsval \<Rightarrow> (product_error, quote_facts) res" where
  "seller_quote X body =
     composeQuote (sx_crypto X) (sx_localeCompare X) (sx_corpus X) body CARD_RATES CARD_DENSITY"

definition usage_of :: "deliverable_shape \<Rightarrow> usage_terms" where
  "usage_of d = \<lparr> ut_resale = False, ut_retentionDays = 365,
     ut_prohibitedUse = ''not for clinical, epidemiological, eligibility, or policy decisions about any real person'',
     ut_limitations = ''marginal prevalences are reproduced; the joint distribution is not'' #
       (if ds_note d \<noteq> [] then [ds_note d] else []) \<rparr>"

definition terms_of_quote :: "seller_config \<Rightarrow> quote_accepted \<Rightarrow> string \<Rightarrow> price \<Rightarrow> deliverable_shape \<Rightarrow> terms_document" where
  "terms_of_quote X qa statsHash p d = \<lparr>
     td_format = ''kite-example-data-deal-terms/v1'', td_criteriaHash = qa_criteriaHash qa, td_statsHash = statsHash,
     td_rowsPerTract = of_int (qa_rowsPerTract qa), td_totalRows = of_int (qa_deliverableRowCount qa),
     td_tractCount = of_nat (qa_tractCount qa),
     td_perTractStandardErrorPp = max_of (map_values (ds_perTractStandardErrorPp d)),
     td_method = ''stratified-marginal-bernoulli/v2'',
     td_seedDisclosure = ''seed published in the delivery manifest'', td_generatorVersion = GENERATOR_VERSION,
     td_corpusHash = sx_corpusHash X, td_verifierHash = sx_verifierHash X, td_usage = usage_of d,
     td_artifactAvailability = ''served until 14 days after a seller-favour settlement; revoked on refund outcomes; demo-grade process-local storage'',
     td_priceBreakdownCents = \<lparr> pb_base = br_base p, pb_tracts = of_int (br_tracts p),
       pb_standardColumns = br_standardColumns p, pb_premiumColumns = br_premiumColumns p,
       pb_subtotal = br_subtotal p \<rparr>,
     td_priceAmount = price_amount p \<rparr>"

definition query_entry :: "string \<Rightarrow> jsval \<Rightarrow> history_input" where
  "query_entry buyerAgentId queryBody =
     \<lparr> hi_phase = Negotiation, hi_direction = BuyerToSeller, hi_kind = ''query'',
       hi_summary = Said ''Buyer requested a priced data slice'', hi_state = None,
       hi_payload = Some [(''buyerAgentId'', JStr buyerAgentId), (''body'', queryBody)] \<rparr>"

definition answer_entry :: "string \<Rightarrow> json \<Rightarrow> history_input" where
  "answer_entry text payload =
     \<lparr> hi_phase = Negotiation, hi_direction = SellerToBuyer, hi_kind = ''quote'', hi_summary = Said text,
       hi_state = None, hi_payload = Some payload \<rparr>"

text \<open>The negotiation with its second entry, put into the map, and the pruning that follows.\<close>

definition store_negotiation :: "int \<Rightarrow> negotiation \<Rightarrow> history_input \<Rightarrow> seller \<Rightarrow> seller \<times> negotiation" where
  "store_negotiation now n i s =
     (let (s', e) = historyEntry now i s;
          n' = n \<lparr> ng_updatedAt := he_at e, ng_history := ng_history n @ [e] \<rparr>
      in (s' \<lparr> negotiations := map_set (ng_negotiationId n) n' (negotiations s') \<rparr>, n'))"

definition new_negotiation :: "int \<Rightarrow> string \<Rightarrow> string \<Rightarrow> jsval \<Rightarrow> history_entry \<Rightarrow> negotiation" where
  "new_negotiation now negotiationId buyerAgentId queryBody e =
     \<lparr> ng_negotiationId = negotiationId, ng_buyerAgentId = buyerAgentId, ng_state = REFUSED, ng_queryBody = queryBody,
       ng_createdAt = now, ng_updatedAt = now, ng_termsDocumentHash = None, ng_dealIds = [], ng_history = [e] \<rparr>"

definition quoted_payload :: "quote_accepted \<Rightarrow> terms_document \<Rightarrow> string \<Rightarrow> json" where
  "quoted_payload qa doc docHash =
     [(''accepted'', JBool True), (''summary'', JStr (qa_summary qa)), (''body'', quote_body_js (qa_body qa)),
      (''termsDocumentHash'', JStr docHash), (''termsDocument'', JObj (terms_members doc))]"

text \<open>The last part of \<open>quote\<close>, for a slice that has a price: the terms document and the record.\<close>

definition issue_quote ::
  "seller_config \<Rightarrow> int \<Rightarrow> negotiation \<Rightarrow> quote_accepted \<Rightarrow> terms_document \<Rightarrow> string \<Rightarrow> seller
     \<Rightarrow> seller \<times> negotiation \<times> quote_record" where
  "issue_quote X now n qa doc docHash s =
     (let (s', n') = store_negotiation now (n \<lparr> ng_state := QUOTED, ng_termsDocumentHash := Some docHash \<rparr>)
            (answer_entry (''Seller quoted '' @ td_priceAmount doc @ '' USDC for '' @
               string_of_int (qa_deliverableRowCount qa) @ '' rows'') (quoted_payload qa doc docHash)) s;
          r = \<lparr> qr_negotiationId = ng_negotiationId n, qr_buyerAgentId = ng_buyerAgentId n, qr_termsDocument = doc,
                qr_termsDocumentHash = docHash, qr_queryBody = ng_queryBody n, qr_facts = qa,
                qr_issuedAt = ng_createdAt n, qr_history = ng_history n' \<rparr>
      in (pruneNegotiations (ng_negotiationId n) (s' \<lparr> quotes := map_set (ng_negotiationId n) r (quotes s') \<rparr>), n', r))"

text \<open>A refusal and an empty slice are recorded without a quote.\<close>

definition record_refusal :: "int \<Rightarrow> negotiation \<Rightarrow> history_input \<Rightarrow> seller \<Rightarrow> seller \<times> negotiation" where
  "record_refusal now n i s =
     (let (s', n') = store_negotiation now n i s in (pruneNegotiations (ng_negotiationId n) s', n'))"

definition answer_without_quote :: "int \<Rightarrow> negotiation \<Rightarrow> history_input \<Rightarrow> (negotiation \<times> quote_record option) operation" where
  "answer_without_quote now n i s = (fst (record_refusal now n i s), Inr (snd (record_refusal now n i s), None))"

definition price_slice ::
  "seller_config \<Rightarrow> int \<Rightarrow> negotiation \<Rightarrow> quote_accepted \<Rightarrow> string \<Rightarrow> price \<Rightarrow> deliverable_shape
     \<Rightarrow> (negotiation \<times> quote_record option) operation" where
  "price_slice X now n qa statsHash p d s =
     (let doc = terms_of_quote X qa statsHash p d
      in case termsDocumentHashOf (sx_crypto X) doc of
           Inl e \<Rightarrow> (s, Inl (TermsUnhashable e))
         | Inr docHash \<Rightarrow>
             (let (s', n', r) = issue_quote X now n qa doc docHash s in (s', Inr (n', Some r))))"

definition empty_answer :: "quote_accepted \<Rightarrow> history_input" where
  "empty_answer qa = answer_entry ''Seller returned an empty, unpriceable result without issuing a quote''
     [(''accepted'', JBool True), (''body'', quote_body_js (qa_body qa))]"

definition quote_facts_step ::
  "seller_config \<Rightarrow> int \<Rightarrow> negotiation \<Rightarrow> quote_facts \<Rightarrow> (negotiation \<times> quote_record option) operation" where
  "quote_facts_step X now n facts =
     (case facts of
        QuoteRefused rejections \<Rightarrow>
          answer_without_quote now n
            (answer_entry ''Seller refused the query with named rejection codes''
               [(''accepted'', JBool False), (''rejections'', JArr (map rejection_js rejections))])
      | QuoteAccepted qa \<Rightarrow>
          if qa_tractCount qa = 0 then answer_without_quote now n (empty_answer qa)
          else
            (case qa_statsHash qa of
               None \<Rightarrow> answer_without_quote now n (empty_answer qa)
             | Some statsHash \<Rightarrow>
                 (case qb_price (qa_body qa) of
                    None \<Rightarrow> throw TypeErrorThrown
                  | Some p \<Rightarrow>
                      (case qb_deliverable (qa_body qa) of
                         None \<Rightarrow> throw TypeErrorThrown
                       | Some d \<Rightarrow> price_slice X now n qa statsHash p d))))"

definition quote ::
  "seller_config \<Rightarrow> int \<Rightarrow> string \<Rightarrow> string \<Rightarrow> jsval \<Rightarrow> (quote_facts \<times> negotiation \<times> quote_record option) operation" where
  "quote X now random buyerAgentId body s =
     (if \<not> BUYER_DID_PATTERN buyerAgentId then (s, Inl InvalidBuyer)
      else
        (let negotiationId = ''neg_'' @ to_hex random;
             queryBody = json_copy (as_object body);
             (s', e) = historyEntry now (query_entry buyerAgentId queryBody) s;
             n = new_negotiation now negotiationId buyerAgentId queryBody e
         in case seller_quote X queryBody of
              Inl err \<Rightarrow> (s', Inl (QuoteFailed err))
            | Inr facts \<Rightarrow> andThen (quote_facts_step X now n facts) (\<lambda>(n', r). pure (facts, n', r)) s'))"

definition termsDocumentByHash :: "seller \<Rightarrow> string \<Rightarrow> terms_document option" where
  "termsDocumentByHash s h =
     map_option qr_termsDocument (find (\<lambda>r. qr_termsDocumentHash r = h) (map_values (quotes s)))"

definition acceptanceCriteriaFor :: "seller_config \<Rightarrow> quote_record \<Rightarrow> string" where
  "acceptanceCriteriaFor X r = buildAcceptanceCriteria (qr_termsDocumentHash r) (sx_publicUrl X)"


section \<open>Proposals\<close>

definition selectedQuote :: "seller \<Rightarrow> string \<Rightarrow> json \<Rightarrow> (seller_error, quote_record) res" where
  "selectedQuote s negotiationId contract =
     (case map_get (quotes s) negotiationId of
        None \<Rightarrow> Inl (NoAcceptedQuote negotiationId)
      | Some r \<Rightarrow>
          (case parseAcceptanceCriteria (text_of (member contract ''acceptanceCriteria'')) of
             None \<Rightarrow> Inl NothingPinned
           | Some commitment \<Rightarrow>
               if ac_termsDocumentHash commitment \<noteq> qr_termsDocumentHash r then Inl (OtherQuoteSelected negotiationId)
               else if \<not> strict_eq (member contract ''buyerAgentId'') (JStr (qr_buyerAgentId r))
               then Inl (OtherBuyer negotiationId (qr_buyerAgentId r))
               else Inr r))"

definition link_deal :: "string \<Rightarrow> int \<Rightarrow> negotiation \<Rightarrow> negotiation" where
  "link_deal dealId now n =
     n \<lparr> ng_state := AGREEMENT_STARTED, ng_updatedAt := now, ng_dealIds := set_add dealId (ng_dealIds n) \<rparr>"

definition linkNegotiation :: "string \<Rightarrow> string \<Rightarrow> int \<Rightarrow> unit operation" where
  "linkNegotiation negotiationId dealId now s =
     (case map_get (negotiations s) negotiationId of
        None \<Rightarrow> (s, Inl (UnknownNegotiation negotiationId))
      | Some n \<Rightarrow> (s \<lparr> negotiations := map_set negotiationId (link_deal dealId now n) (negotiations s) \<rparr>, Inr ()))"

text \<open>\<open>{ ...entry, payload: JSON.parse(JSON.stringify(entry.payload)) }\<close>\<close>

definition copy_entry :: "history_entry \<Rightarrow> history_entry" where
  "copy_entry e = e \<lparr> he_payload := map_option json_copy (he_payload e) \<rparr>"

definition new_deal :: "string \<Rightarrow> string \<Rightarrow> json \<Rightarrow> string \<Rightarrow> int \<Rightarrow> quote_record \<Rightarrow> deal" where
  "new_deal dealId negotiationId contract buyerAddress now r = \<lparr>
     dl_dealId = dealId, dl_negotiationId = negotiationId, dl_state = PROPOSED_LOCAL,
     dl_runtimeState = None, dl_runtimeRevision = None, dl_termsDocumentHash = qr_termsDocumentHash r,
     dl_buyerAddress = buyerAddress, dl_contract = contract, dl_createdAt = now, dl_updatedAt = now,
     dl_history = map copy_entry (qr_history r), dl_capabilityToken = None, dl_capabilityRevoked = False,
     dl_manifest = None, dl_manifestBytes = None, dl_deliveryHash = None, dl_csvBytes = None \<rparr>"

definition formation :: "history_direction \<Rightarrow> string \<Rightarrow> string \<Rightarrow> string \<Rightarrow> json \<Rightarrow> history_input" where
  "formation direction kind text st payload =
     \<lparr> hi_phase = Formation, hi_direction = direction, hi_kind = kind, hi_summary = Said text,
       hi_state = Some st, hi_payload = Some payload \<rparr>"

definition proposal_payload :: "string \<Rightarrow> json \<Rightarrow> json" where
  "proposal_payload buyerAddress contract = [(''buyerAddress'', JStr buyerAddress), (''contract'', JObj contract)]"

definition deal_now :: "string \<Rightarrow> deal operation" where
  "deal_now dealId s = (case map_get (deals s) dealId of Some d \<Rightarrow> (s, Inr d) | None \<Rightarrow> (s, Inl (UnknownDeal dealId)))"

text \<open>The deal of a quote is stored and linked to its negotiation.\<close>

definition open_deal :: "int \<Rightarrow> string \<Rightarrow> string \<Rightarrow> json \<Rightarrow> string \<Rightarrow> quote_record \<Rightarrow> unit operation" where
  "open_deal now dealId negotiationId contract buyerAddress r s =
     linkNegotiation negotiationId dealId now
       (put_deal dealId (new_deal dealId negotiationId contract buyerAddress now r) s)"

definition propose ::
  "seller_config \<Rightarrow> int \<Rightarrow> string \<Rightarrow> string \<Rightarrow> json \<Rightarrow> string \<Rightarrow> deal operation" where
  "propose X now random negotiationId contract buyerAddress s =
     (let s1 = pruneDeals now s; dealId = ''deal_'' @ to_hex random
      in andThen (lift (selectedQuote s1 negotiationId contract)) (\<lambda>r.
         andThen (open_deal now dealId negotiationId contract buyerAddress r) (\<lambda>_.
         andThen (recordInteraction now dealId
           (formation BuyerToSeller ''submit-proposal'' ''Buyer submitted a signed proposal based on the selected quote''
              ''PROPOSED_LOCAL'' (proposal_payload buyerAddress contract))) (\<lambda>_.
         andThen (lift (map_error TermsUnhashable (termsHashOf (sx_crypto X) contract))) (\<lambda>termsHash.
         andThen (recordInteraction now dealId
           (formation SellerToBuyer ''proposal-ack'' ''Seller validated the quote reference and acknowledged the proposal''
              ''PROPOSED_LOCAL'' [(''dealId'', JStr dealId), (''termsHash'', JStr termsHash)])) (\<lambda>_.
         deal_now dealId))))) s1)"

definition get_deal :: "seller \<Rightarrow> string \<Rightarrow> deal option" where
  "get_deal s dealId = map_get (deals s) dealId"

definition registerLiveDeal ::
  "int \<Rightarrow> string \<Rightarrow> string \<Rightarrow> json \<Rightarrow> string \<Rightarrow> deal operation" where
  "registerLiveDeal now dealId negotiationId contract buyerAddress s =
     (let s1 = pruneDeals now s
      in andThen (lift (selectedQuote s1 negotiationId contract)) (\<lambda>r.
         case map_get (deals s1) dealId of
           Some existing \<Rightarrow>
             if dl_negotiationId existing \<noteq> negotiationId \<or> dl_termsDocumentHash existing \<noteq> qr_termsDocumentHash r \<or>
                js_lower (dl_buyerAddress existing) \<noteq> js_lower buyerAddress
             then throw (RetryMismatch dealId) else pure existing
         | None \<Rightarrow>
             andThen (open_deal now dealId negotiationId contract buyerAddress r) (\<lambda>_.
             andThen (recordInteraction now dealId
               (formation BuyerToRuntime ''proposal'' ''Buyer submitted the signed proposal to the Coordination Runtime''
                  ''PROPOSED'' (proposal_payload buyerAddress contract))) (\<lambda>_.
             deal_now dealId))) s1)"

section \<open>Acceptance\<close>

definition recomputeFor :: "seller_config \<Rightarrow> quote_record \<Rightarrow> (seller_error, recomputed_quote) res" where
  "recomputeFor X r =
     res_bind (map_error QuoteFailed (seller_quote X (qr_queryBody r))) (\<lambda>facts.
       case facts of
         QuoteRefused _ \<Rightarrow> Inl NoLongerPrices
       | QuoteAccepted qa \<Rightarrow>
           (case (qa_statsHash qa, qb_price (qa_body qa)) of
              (Some statsHash, Some p) \<Rightarrow>
                res_bind (map_error QuoteFailed (criteriaHashOf (sx_crypto X) (qr_queryBody r))) (\<lambda>criteriaHash.
                  Inr \<lparr> rq_priceAmount = price_amount p, rq_criteriaHash = criteriaHash, rq_statsHash = statsHash \<rparr>)
            | _ \<Rightarrow> Inl NoLongerPrices))"

definition state_shown :: "deal \<Rightarrow> string" where
  "state_shown d = (case dl_runtimeState d of Some r \<Rightarrow> r | None \<Rightarrow> deal_state_name (dl_state d))"

definition countersign ::
  "seller_config \<Rightarrow> string \<Rightarrow> deal \<Rightarrow> json \<Rightarrow> quote_record \<Rightarrow> string \<Rightarrow> jsnum option \<Rightarrow> (seller_error, json) res" where
  "countersign X dealId d proposal r buyerAgreementSig chainId =
     res_bind (recomputeFor X r) (\<lambda>own.
       map_error CountersignFailed (acceptTerms (sx_crypto X) (sx_env X)
         \<lparr> ai_contract = proposal, ai_buyerAddress = dl_buyerAddress d, ai_dealId = dealId,
           ai_buyerAgreementSig = buyerAgreementSig, ai_privateKey = sx_privateKey X, ai_keyId = seller_keyId X,
           ai_sellerAddress = seller_address X, ai_chainId = chainId,
           ai_validation = \<lparr> tv_termsDocument = qr_termsDocument r, tv_recomputed = own \<rparr> \<rparr>))"

text \<open>\<open>deal.contract = accepted; deal.state = "ACCEPTED_LOCAL"\<close> of the deal as it is now.\<close>

definition adopt_contract :: "string \<Rightarrow> json \<Rightarrow> seller \<Rightarrow> seller" where
  "adopt_contract dealId accepted s =
     (case map_get (deals s) dealId of
        None \<Rightarrow> s
      | Some d \<Rightarrow> put_deal dealId (d \<lparr> dl_contract := accepted, dl_state := ACCEPTED_LOCAL \<rparr>) s)"

definition acceptance_request :: "deal \<Rightarrow> string \<Rightarrow> string \<Rightarrow> history_input" where
  "acceptance_request d dealId buyerAgreementSig =
     formation BuyerToSeller ''acceptance-request'' ''Buyer requested the seller's countersignature''
       (state_shown d) [(''dealId'', JStr dealId), (''buyerAgreementSig'', JStr buyerAgreementSig)]"

definition accept ::
  "seller_config \<Rightarrow> int \<Rightarrow> string \<Rightarrow> string \<Rightarrow> jsnum option \<Rightarrow> json option \<Rightarrow> json operation" where
  "accept X now dealId buyerAgreementSig chainId proposedContract s =
     (case map_get (deals s) dealId of
        None \<Rightarrow> (s, Inl (UnknownDeal dealId))
      | Some d \<Rightarrow>
          (let proposal = (case proposedContract of Some c \<Rightarrow> c | None \<Rightarrow> dl_contract d)
           in case map_get (quotes s) (dl_negotiationId d) of
                None \<Rightarrow> (s, Inl (QuoteUnavailable (dl_negotiationId d)))
              | Some r \<Rightarrow>
                  andThen (recordInteraction now dealId (acceptance_request d dealId buyerAgreementSig)) (\<lambda>_ s1.
                  case countersign X dealId d proposal r buyerAgreementSig chainId of
                    Inl e \<Rightarrow>
                      andThen (recordInteraction now dealId
                        \<lparr> hi_phase = Formation, hi_direction = SellerToBuyer, hi_kind = ''acceptance-refused'',
                          hi_summary = MessageOf e, hi_state = Some (state_shown d), hi_payload = None \<rparr>)
                        (\<lambda>_. throw e) s1
                  | Inr accepted \<Rightarrow>
                      andThen (recordInteraction now dealId
                        (formation SellerToBuyer ''acceptance-result'' ''Seller countersigned the agreement''
                           ''ACCEPTED_LOCAL'' [(''contract'', JObj accepted)]))
                        (\<lambda>_. pure accepted) (adopt_contract dealId accepted s1)) s))"


section \<open>Delivery\<close>

definition delivery_base :: "string \<Rightarrow> string" where
  "delivery_base publicUrl =
     (if publicUrl \<noteq> [] \<and> last publicUrl = CHR ''/'' then butlast publicUrl else publicUrl)"

definition artifact_url :: "seller_config \<Rightarrow> string \<Rightarrow> string \<Rightarrow> string \<Rightarrow> string" where
  "artifact_url X dealId file cap =
     delivery_base (sx_publicUrl X) @ ''/deliveries/'' @ dealId @ ''/'' @ file @ ''?cap='' @ cap"

definition delivery_input_of :: "seller_config \<Rightarrow> int \<Rightarrow> string \<Rightarrow> string \<Rightarrow> quote_record \<Rightarrow> delivery_input" where
  "delivery_input_of X now dealId csvUrl r = \<lparr>
     di_dealId = dealId, di_productId = CARD_PRODUCT, di_query = readQuery (qr_queryBody r),
     di_corpus = sx_corpus X, di_rowsPerTract = \<lfloor>td_rowsPerTract (qr_termsDocument r)\<rfloor>,
     di_seed = deliverableSeed (sx_crypto X) (sx_seedSecret X) dealId, di_artifactLocator = Some csvUrl,
     di_quotedStatsHash = Some (td_statsHash (qr_termsDocument r)), di_now = to_iso now \<rparr>"

text \<open>What is still to be written into the deal once the artifact has been put.\<close>

record pending_delivery =
  pd_dealId :: string
  pd_cap :: string
  pd_out :: delivery_result

definition prepareDelivery_begin :: "seller_config \<Rightarrow> int \<Rightarrow> string \<Rightarrow> string \<Rightarrow> pending_delivery operation" where
  "prepareDelivery_begin X now random dealId s =
     (case map_get (deals s) dealId of
        None \<Rightarrow> (s, Inl (UnknownDeal dealId))
      | Some d \<Rightarrow>
          if dl_state d = PROPOSED_LOCAL then (s, Inl (NotAcceptedYet dealId))
          else
            (case map_get (quotes s) (dl_negotiationId d) of
               None \<Rightarrow> (s, Inl (QuoteUnavailable (dl_negotiationId d)))
             | Some r \<Rightarrow>
                 (let cap = to_hex random;
                      i = delivery_input_of X now dealId (artifact_url X dealId ''data.csv'' cap) r;
                      (store, out) = generateDelivery (sx_crypto X) (sx_localeCompare X) (memory_put (sx_crypto X)) i (artifacts s);
                      s' = s \<lparr> artifacts := store \<rparr>
                  in case out of
                       Inl e \<Rightarrow> (s', Inl (DeliveryFailed e))
                     | Inr result \<Rightarrow> (s', Inr \<lparr> pd_dealId = dealId, pd_cap = cap, pd_out = result \<rparr>))))"

definition with_delivery :: "pending_delivery \<Rightarrow> deal \<Rightarrow> deal" where
  "with_delivery p d = d \<lparr>
     dl_capabilityToken := Some (pd_cap p), dl_manifest := Some (dr_manifest (pd_out p)),
     dl_manifestBytes := Some (dr_manifestBytes (pd_out p)), dl_deliveryHash := Some (dr_deliveryHash (pd_out p)),
     dl_csvBytes := Some (dr_bytes (pd_out p)), dl_state := DELIVERED_LOCAL \<rparr>"

record prepared_delivery =
  pp_deal :: deal
  pp_termsHash :: string
  pp_manifestUrl :: string
  pp_csvUrl :: string
  pp_envelope :: json
  pp_deliveryHash :: string

definition prepared_entry :: "delivery_result \<Rightarrow> history_input" where
  "prepared_entry out =
     \<lparr> hi_phase = Fulfillment, hi_direction = System, hi_kind = ''delivery-prepared'',
       hi_summary = Said (''Seller generated '' @ string_of_int (dm_rowCount (dr_manifest out)) @
         '' rows and committed the delivery hash''),
       hi_state = Some ''DELIVERED_LOCAL'',
       hi_payload = Some [(''deliveryHash'', JStr (dr_deliveryHash out)),
         (''rowCount'', JInt (dm_rowCount (dr_manifest out))),
         (''contentHash'', JStr (sa_contentHash (dm_artifact (dr_manifest out))))] \<rparr>"

definition evidence_of :: "seller_config \<Rightarrow> string \<Rightarrow> string \<Rightarrow> pending_delivery \<Rightarrow> (seller_error, json) res" where
  "evidence_of X dealId termsHash p =
     map_error CountersignFailed (evidenceEnvelope (sx_crypto X) (sx_env X)
       \<lparr> ei_dealId = dealId, ei_termsHash = termsHash, ei_manifestHash = dr_deliveryHash (pd_out p),
         ei_manifestUrl = artifact_url X dealId ''manifest.json'' (pd_cap p),
         ei_manifestBytes = length (dr_manifestBytes (pd_out p)),
         ei_privateKey = sx_privateKey X, ei_keyId = seller_keyId X \<rparr>)"

text \<open>
  A deal pruned during the suspension is no longer in the map: its object is written to, but nothing
  refers to it any more, and recording the interaction throws.
\<close>

definition write_delivery :: "int \<Rightarrow> pending_delivery \<Rightarrow> deal operation" where
  "write_delivery now p s =
     (let dealId = pd_dealId p
      in case map_get (deals s) dealId of
           None \<Rightarrow> (s, Inl (UnknownDeal dealId))
         | Some d \<Rightarrow>
             andThen (recordInteraction now dealId (prepared_entry (pd_out p))) (\<lambda>_. deal_now dealId)
               (put_deal dealId (with_delivery p d) s))"

definition prepareDelivery_finish :: "seller_config \<Rightarrow> int \<Rightarrow> pending_delivery \<Rightarrow> prepared_delivery operation" where
  "prepareDelivery_finish X now p =
     andThen (write_delivery now p) (\<lambda>d.
     andThen (lift (map_error TermsUnhashable (termsHashOf (sx_crypto X) (dl_contract d)))) (\<lambda>termsHash.
     andThen (lift (evidence_of X (pd_dealId p) termsHash p)) (\<lambda>envelope.
     pure \<lparr> pp_deal = d, pp_termsHash = termsHash,
            pp_manifestUrl = artifact_url X (pd_dealId p) ''manifest.json'' (pd_cap p),
            pp_csvUrl = artifact_url X (pd_dealId p) ''data.csv'' (pd_cap p),
            pp_envelope = envelope, pp_deliveryHash = dr_deliveryHash (pd_out p) \<rparr>)))"

definition prepareDelivery :: "seller_config \<Rightarrow> int \<Rightarrow> string \<Rightarrow> string \<Rightarrow> prepared_delivery operation" where
  "prepareDelivery X now random dealId =
     andThen (prepareDelivery_begin X now random dealId) (prepareDelivery_finish X now)"

definition commandFor ::
  "seller_config \<Rightarrow> int \<Rightarrow> string \<Rightarrow> string \<Rightarrow> settlement_anchors \<Rightarrow> string \<Rightarrow> jsnum \<Rightarrow> seller \<Rightarrow> (seller_error, json) res" where
  "commandFor X now random dealId anchors evidenceId expectedRevision s =
     (case map_get (deals s) dealId of
        Some d \<Rightarrow>
          (case dl_deliveryHash d of
             None \<Rightarrow> Inl (NoPreparedDelivery dealId)
           | Some deliveryHash \<Rightarrow>
               res_bind (map_error TermsUnhashable (termsHashOf (sx_crypto X) (dl_contract d))) (\<lambda>termsHash.
               map_error CountersignFailed (deliveredCommand (sx_crypto X) (sx_env X) random (nowIso now)
                 \<lparr> dv_dealId = dealId, dv_expectedRevision = expectedRevision, dv_termsHash = termsHash,
                   dv_evidenceId = evidenceId, dv_deliveryHash = deliveryHash, dv_anchors = anchors,
                   dv_privateKey = sx_privateKey X, dv_keyId = seller_keyId X \<rparr>)))
      | None \<Rightarrow> Inl (NoPreparedDelivery dealId))"

definition demo_evidence :: "string \<Rightarrow> string option \<Rightarrow> string" where
  "demo_evidence dealId evidenceId = (case evidenceId of Some e \<Rightarrow> e | None \<Rightarrow> ''ev_demo_'' @ dealId)"

text \<open>The part of \<open>deliver\<close> after \<open>prepareDelivery\<close> returned.\<close>

definition deliver_command ::
  "seller_config \<Rightarrow> int \<Rightarrow> string \<Rightarrow> string \<Rightarrow> settlement_anchors option \<Rightarrow> string option \<Rightarrow> string \<Rightarrow> json operation" where
  "deliver_command X now random dealId anchors evidenceId deliveryHash =
     andThen (\<lambda>s. (s, commandFor X now random dealId
         (case anchors of Some a \<Rightarrow> a | None \<Rightarrow> demoAnchors (sx_crypto X) dealId)
         (demo_evidence dealId evidenceId) (Fin 2) s)) (\<lambda>command.
     andThen (recordInteraction now dealId
       \<lparr> hi_phase = Fulfillment, hi_direction = SellerToBuyer, hi_kind = ''delivery'',
         hi_summary = Said ''Seller returned the signed delivery and evidence artifacts'',
         hi_state = Some ''DELIVERED_LOCAL'',
         hi_payload = Some [(''dealId'', JStr dealId), (''deliveryHash'', JStr deliveryHash),
           (''evidenceId'', JStr (demo_evidence dealId evidenceId))] \<rparr>)
       (\<lambda>_. pure command))"

definition deliver ::
  "seller_config \<Rightarrow> int \<Rightarrow> string \<Rightarrow> string \<Rightarrow> string \<Rightarrow> settlement_anchors option \<Rightarrow> string option
     \<Rightarrow> (prepared_delivery \<times> json) operation" where
  "deliver X now capRandom idRandom dealId anchors evidenceId =
     andThen (prepareDelivery X now capRandom dealId) (\<lambda>p.
     andThen (deliver_command X now idRandom dealId anchors evidenceId (pp_deliveryHash p)) (\<lambda>command.
     pure (p, command)))"

section \<open>The download gate\<close>

definition artifactFor :: "seller \<Rightarrow> string \<Rightarrow> string \<Rightarrow> string option \<Rightarrow> string option" where
  "artifactFor s dealId file cap =
     (case map_get (deals s) dealId of
        None \<Rightarrow> None
      | Some d \<Rightarrow>
          if dl_capabilityToken d = None \<or> dl_capabilityRevoked d \<or> cap = None \<or> cap \<noteq> dl_capabilityToken d then None
          else if file = ''manifest.json'' then dl_manifestBytes d
          else if file = ''data.csv'' then dl_csvBytes d
          else None)"

definition revokeCapability :: "int \<Rightarrow> string \<Rightarrow> unit operation" where
  "revokeCapability now dealId s =
     (case map_get (deals s) dealId of
        None \<Rightarrow> (s, Inr ())
      | Some d \<Rightarrow>
          if dl_capabilityRevoked d then (s, Inr ())
          else andThen (recordInteraction now dealId
            \<lparr> hi_phase = Settling, hi_direction = System, hi_kind = ''capability-revoked'',
              hi_summary = Said ''Artifact access was revoked after a refund outcome'',
              hi_state = Some (state_shown d), hi_payload = None \<rparr>) (\<lambda>_. pure ())
            (put_deal dealId (d \<lparr> dl_capabilityRevoked := True \<rparr>) s))"

section \<open>The records the pages show\<close>

record buyer_record =
  by_buyerAgentId :: string
  by_firstSeenAt :: int
  by_updatedAt :: int
  by_negotiations :: "negotiation list"
  by_deals :: "deal list"

text \<open>\<open>ensure\<close>, then the change the caller makes to the record it returns.\<close>

definition ensure_buyer :: "string \<Rightarrow> int \<Rightarrow> (string, buyer_record) jsmap \<Rightarrow> buyer_record" where
  "ensure_buyer b t buyers =
     (case map_get buyers b of
        Some r \<Rightarrow> r \<lparr> by_firstSeenAt := min (by_firstSeenAt r) t, by_updatedAt := max (by_updatedAt r) t \<rparr>
      | None \<Rightarrow> \<lparr> by_buyerAgentId = b, by_firstSeenAt = t, by_updatedAt = t, by_negotiations = [], by_deals = [] \<rparr>)"

definition add_negotiation :: "negotiation \<Rightarrow> (string, buyer_record) jsmap \<Rightarrow> (string, buyer_record) jsmap" where
  "add_negotiation n buyers =
     (let r = ensure_buyer (ng_buyerAgentId n) (ng_createdAt n) buyers
      in map_set (ng_buyerAgentId n)
           (r \<lparr> by_negotiations := by_negotiations r @ [n], by_updatedAt := max (by_updatedAt r) (ng_updatedAt n) \<rparr>) buyers)"

definition add_deal :: "deal \<Rightarrow> (string, buyer_record) jsmap \<Rightarrow> (string, buyer_record) jsmap" where
  "add_deal d buyers =
     (let b = text_of (member (dl_contract d) ''buyerAgentId''); r = ensure_buyer b (dl_createdAt d) buyers
      in map_set b (r \<lparr> by_deals := by_deals r @ [d], by_updatedAt := max (by_updatedAt r) (dl_updatedAt d) \<rparr>) buyers)"

text \<open>Newest first; ISO times of the same form compare as their instants.\<close>

definition newest_first :: "('a \<Rightarrow> int) \<Rightarrow> 'a list \<Rightarrow> 'a list" where
  "newest_first f = sort_by (\<lambda>a b. f b \<le> f a)"

definition buyerRecords :: "seller \<Rightarrow> buyer_record list" where
  "buyerRecords s =
     (let buyers = fold add_deal (map_values (deals s)) (fold add_negotiation (map_values (negotiations s)) [])
      in newest_first by_updatedAt (map (\<lambda>r. r \<lparr> by_negotiations := newest_first ng_updatedAt (by_negotiations r),
                                                by_deals := newest_first dl_updatedAt (by_deals r) \<rparr>) (map_values buyers)))"

definition buyerRecord :: "seller \<Rightarrow> string \<Rightarrow> buyer_record option" where
  "buyerRecord s b = find (\<lambda>r. by_buyerAgentId r = b) (buyerRecords s)"

definition dealRecords :: "seller \<Rightarrow> deal list" where
  "dealRecords s = map_values (deals s)"

end
