(* ===== verification/SellerInv.thy ===== *)
theory SellerInv
  imports Seller
begin

text \<open>
  The invariant of the seller's state and its preservation by every operation of \<open>Seller\<close>, whatever
  the interleaving: the step relation has one rule per operation, and a delivery that is suspended
  is kept beside the state.  From it follow what a reachable seller guarantees.
\<close>

section \<open>The invariant\<close>

text \<open>The entries of a history are numbered upwards, within the counter.\<close>

definition entries_ok :: "nat \<Rightarrow> history_entry list \<Rightarrow> bool" where
  "entries_ok n h \<longleftrightarrow> sorted_wrt (<) (map he_sequence h) \<and> (\<forall>e\<in>set h. he_sequence e \<le> n)"

text \<open>What the seller recomputes for a quote it issued.\<close>

definition quote_context :: "quote_record \<Rightarrow> terms_validation_context" where
  "quote_context r = \<lparr> tv_termsDocument = qr_termsDocument r,
     tv_recomputed = \<lparr> rq_priceAmount = td_priceAmount (qr_termsDocument r),
       rq_criteriaHash = td_criteriaHash (qr_termsDocument r), rq_statsHash = td_statsHash (qr_termsDocument r) \<rparr> \<rparr>"

text \<open>A prepared delivery: the served file and manifest belong together and the buyer's check accepts them.\<close>

definition delivered_ok :: "seller_config \<Rightarrow> quote_record \<Rightarrow> delivery_manifest \<Rightarrow> string \<Rightarrow> string \<Rightarrow> string \<Rightarrow> bool" where
  "delivered_ok X r m mb h b \<longleftrightarrow>
     jcs (sx_crypto X) (manifest_js m) = Inr mb \<and> h = sha256Bytes (sx_crypto X) mb \<and>
     dm_quotedStatsHash m = Some (td_statsHash (qr_termsDocument r)) \<and>
     (\<exists>v. verifyDelivery (sx_crypto X) (sx_localeCompare X) m b (sx_corpus X) (readQuery (qr_queryBody r)) = Inr v \<and> vf_ok v)"

definition delivery_ok :: "seller_config \<Rightarrow> quote_record \<Rightarrow> deal \<Rightarrow> bool" where
  "delivery_ok X r d \<longleftrightarrow>
     (dl_deliveryHash d = None \<longrightarrow> dl_capabilityToken d = None \<and> dl_state d \<noteq> DELIVERED_LOCAL) \<and>
     (\<forall>h. dl_deliveryHash d = Some h \<longrightarrow>
        (\<exists>m mb b. dl_manifest d = Some m \<and> dl_manifestBytes d = Some mb \<and> dl_csvBytes d = Some b \<and>
           delivered_ok X r m mb h b \<and> dl_state d \<noteq> PROPOSED_LOCAL))"

definition deal_body_ok :: "seller_config \<Rightarrow> nat \<Rightarrow> quote_record \<Rightarrow> deal \<Rightarrow> bool" where
  "deal_body_ok X n r d \<longleftrightarrow>
     entries_ok n (dl_history d) \<and> length (dl_history d) \<le> MAX_HISTORY_ENTRIES_PER_DEAL \<and>
     dl_termsDocumentHash d = qr_termsDocumentHash r \<and>
     (dl_state d \<noteq> PROPOSED_LOCAL \<longrightarrow> terms_acceptable (sx_crypto X) (sx_env X) (dl_contract d) (quote_context r)) \<and>
     delivery_ok X r d"

definition deal_ok :: "seller_config \<Rightarrow> seller \<Rightarrow> string \<Rightarrow> deal \<Rightarrow> bool" where
  "deal_ok X s k d \<longleftrightarrow> dl_dealId d = k \<and>
     (\<exists>r n. map_get (quotes s) (dl_negotiationId d) = Some r \<and> map_get (negotiations s) (dl_negotiationId d) = Some n \<and>
        k \<in> set (ng_dealIds n) \<and> deal_body_ok X (historySequence s) r d)"

definition quote_ok :: "seller_config \<Rightarrow> seller \<Rightarrow> string \<Rightarrow> quote_record \<Rightarrow> bool" where
  "quote_ok X s k r \<longleftrightarrow> qr_negotiationId r = k \<and>
     (\<exists>n. map_get (negotiations s) k = Some n \<and> ng_buyerAgentId n = qr_buyerAgentId r \<and>
        ng_termsDocumentHash n = Some (qr_termsDocumentHash r)) \<and>
     entries_ok (historySequence s) (qr_history r) \<and> length (qr_history r) = 2 \<and>
     seller_quote X (qr_queryBody r) = Inr (QuoteAccepted (qr_facts r)) \<and>
     termsDocumentHashOf (sx_crypto X) (qr_termsDocument r) = Inr (qr_termsDocumentHash r) \<and>
     (\<exists>h p d. qa_statsHash (qr_facts r) = Some h \<and> qb_price (qa_body (qr_facts r)) = Some p \<and>
        qb_deliverable (qa_body (qr_facts r)) = Some d \<and> qr_termsDocument r = terms_of_quote X (qr_facts r) h p d)"

definition negotiation_ok :: "seller \<Rightarrow> string \<Rightarrow> negotiation \<Rightarrow> bool" where
  "negotiation_ok s k n \<longleftrightarrow> ng_negotiationId n = k \<and> distinct (ng_dealIds n) \<and>
     (\<forall>i\<in>set (ng_dealIds n). \<exists>d. map_get (deals s) i = Some d \<and> dl_negotiationId d = k) \<and>
     (ng_state n = AGREEMENT_STARTED \<longleftrightarrow> ng_dealIds n \<noteq> []) \<and> (ng_state n = REFUSED \<longleftrightarrow> map_get (quotes s) k = None)"

text \<open>A suspended delivery fits the deal it will be written to, if that is still there.\<close>

definition pending_ok :: "seller_config \<Rightarrow> seller \<Rightarrow> pending_delivery \<Rightarrow> bool" where
  "pending_ok X s p \<longleftrightarrow>
     (\<forall>d. map_get (deals s) (pd_dealId p) = Some d \<longrightarrow> dl_state d \<noteq> PROPOSED_LOCAL \<and>
        (\<exists>r. map_get (quotes s) (dl_negotiationId d) = Some r \<and>
           delivered_ok X r (dr_manifest (pd_out p)) (dr_manifestBytes (pd_out p)) (dr_deliveryHash (pd_out p)) (dr_bytes (pd_out p))))"

definition seller_inv :: "seller_config \<Rightarrow> pending_delivery set \<Rightarrow> seller \<Rightarrow> bool" where
  "seller_inv X P s \<longleftrightarrow>
     map_ok (negotiations s) \<and> map_ok (quotes s) \<and> map_ok (deals s) \<and>
     (\<forall>k n. map_get (negotiations s) k = Some n \<longrightarrow> negotiation_ok s k n) \<and>
     (\<forall>k r. map_get (quotes s) k = Some r \<longrightarrow> quote_ok X s k r) \<and>
     (\<forall>k d. map_get (deals s) k = Some d \<longrightarrow> deal_ok X s k d) \<and>
     (\<forall>p\<in>P. pending_ok X s p)"

lemma seller_inv_new: "seller_inv X {} new_seller"
  by (simp add: seller_inv_def new_seller_def)

lemma seller_invD:
  assumes "seller_inv X P s"
  shows "map_ok (negotiations s)" "map_ok (quotes s)" "map_ok (deals s)"
    "map_get (negotiations s) k = Some n \<Longrightarrow> negotiation_ok s k n"
    "map_get (quotes s) k = Some r \<Longrightarrow> quote_ok X s k r"
    "map_get (deals s) k = Some d \<Longrightarrow> deal_ok X s k d"
    "p \<in> P \<Longrightarrow> pending_ok X s p"
  using assms by (auto simp: seller_inv_def)

section \<open>Histories\<close>

lemma entries_ok_mono: "entries_ok n h \<Longrightarrow> n \<le> m \<Longrightarrow> entries_ok m h"
  by (force simp: entries_ok_def)

lemma entries_ok_snoc: "entries_ok n h \<Longrightarrow> n < he_sequence e \<Longrightarrow> entries_ok (he_sequence e) (h @ [e])"
  by (force simp: entries_ok_def sorted_wrt_append)

lemma entries_ok_drop: "entries_ok n h \<Longrightarrow> entries_ok n (drop k h)"
  by (auto simp: entries_ok_def drop_map[symmetric] dest: in_set_dropD intro: sorted_wrt_drop)

lemma entries_ok_keep_last: "entries_ok n h \<Longrightarrow> entries_ok n (keep_last k h)"
  by (simp add: keep_last_def entries_ok_drop)

lemma length_keep_last [simp]: "length (keep_last k h) = min k (length h)"
  by (simp add: keep_last_def)

lemma copy_entry_sequence [simp]: "he_sequence (copy_entry e) = he_sequence e"
  by (simp add: copy_entry_def)

lemma entries_ok_copy [simp]: "entries_ok n (map copy_entry h) \<longleftrightarrow> entries_ok n h"
  by (simp add: entries_ok_def comp_def)

section \<open>The primitive changes\<close>

text \<open>The operations compose a few changes of the state, and each of them keeps the invariant.\<close>

lemma inv_sequence:
  assumes "seller_inv X P s" and "historySequence s \<le> n"
  shows "seller_inv X P (s \<lparr> historySequence := n \<rparr>)"
  using assms entries_ok_mono[OF _ assms(2)]
  by (simp add: seller_inv_def negotiation_ok_def quote_ok_def deal_ok_def deal_body_ok_def pending_ok_def) blast

lemma inv_artifacts [simp]: "seller_inv X P (s \<lparr> artifacts := a \<rparr>) = seller_inv X P s"
  by (simp add: seller_inv_def negotiation_ok_def quote_ok_def deal_ok_def deal_body_ok_def pending_ok_def)

lemma inv_pending_less: "seller_inv X P s \<Longrightarrow> Q \<subseteq> P \<Longrightarrow> seller_inv X Q s"
  by (auto simp: seller_inv_def)

lemma inv_pending_add: "seller_inv X P s \<Longrightarrow> pending_ok X s p \<Longrightarrow> seller_inv X (insert p P) s"
  by (simp add: seller_inv_def)

text \<open>A deal is replaced by another version of itself.\<close>

lemma inv_update_deal:
  assumes inv: "seller_inv X P s" and d: "map_get (deals s) k = Some d"
    and same: "dl_dealId d' = dl_dealId d" "dl_negotiationId d' = dl_negotiationId d"
    and st: "dl_state d \<noteq> PROPOSED_LOCAL \<Longrightarrow> dl_state d' \<noteq> PROPOSED_LOCAL"
    and body: "\<And>r. map_get (quotes s) (dl_negotiationId d) = Some r \<Longrightarrow> quote_ok X s (dl_negotiationId d) r \<Longrightarrow>
       deal_body_ok X (historySequence s) r d \<Longrightarrow> deal_body_ok X (historySequence s) r d'"
  shows "seller_inv X P (put_deal k d' s)"
proof -
  note i = seller_invD[OF inv]
  have n: "negotiation_ok (put_deal k d' s) j n" if "map_get (negotiations s) j = Some n" for j n
    using i(4)[OF that] d same by (fastforce simp: negotiation_ok_def put_deal_def map_get_set)
  have q: "quote_ok X (put_deal k d' s) j r" if "map_get (quotes s) j = Some r" for j r
    using i(5)[OF that] by (simp add: quote_ok_def put_deal_def)
  have e: "deal_ok X (put_deal k d' s) k d'"
    using i(6)[OF d] same body i(5) by (fastforce simp: deal_ok_def put_deal_def)
  have e': "deal_ok X (put_deal k d' s) j x" if "map_get (deals s) j = Some x" for j x
    using i(6)[OF that] by (simp add: deal_ok_def put_deal_def)
  have p: "pending_ok X (put_deal k d' s) p" if "p \<in> P" for p
    using i(7)[OF that] d same st by (auto simp: pending_ok_def put_deal_def map_get_set)
  show ?thesis
    using i(1-3) n q e e' p by (auto simp: seller_inv_def put_deal_def map_get_set split: if_splits)
qed


lemma deal_body_mono: "deal_body_ok X n r d \<Longrightarrow> n \<le> m \<Longrightarrow> deal_body_ok X m r d"
  by (auto simp: deal_body_ok_def intro: entries_ok_mono)

text \<open>A deal goes away, and its negotiation forgets it.\<close>

lemma inv_delete_deal:
  assumes inv: "seller_inv X P s"
  shows "seller_inv X P (deleteDeal k s)"
proof (cases "map_get (deals s) k")
  case None
  then show ?thesis using inv by (simp add: deleteDeal_def)
next
  case (Some d)
  note i = seller_invD[OF inv]
  from i(6)[OF Some] obtain r n where r: "map_get (quotes s) (dl_negotiationId d) = Some r"
    and n: "map_get (negotiations s) (dl_negotiationId d) = Some n" and kn: "k \<in> set (ng_dealIds n)"
    by (auto simp: deal_ok_def)
  let ?g = "dl_negotiationId d" and ?t = "deleteDeal k s"
  have t: "?t = s \<lparr> deals := map_delete k (deals s), negotiations := map_set ?g (unlink_deal k n) (negotiations s) \<rparr>"
    using Some n by (simp add: deleteDeal_def Let_def)
  have ng: "negotiation_ok ?t j m" if "map_get (negotiations ?t) j = Some m" for j m
  proof (cases "j = ?g")
    case True
    with that have m: "m = unlink_deal k n" by (simp add: t map_get_set)
    show ?thesis using i(4)[OF n] r unfolding m True
      by (auto simp: t negotiation_ok_def unlink_deal_def Let_def map_get_delete filter_empty_conv)
  next
    case False
    with that have m: "map_get (negotiations s) j = Some m" by (simp add: t map_get_set)
    have "k \<notin> set (ng_dealIds m)" using i(4)[OF m] Some False by (auto simp: negotiation_ok_def)
    then show ?thesis using i(4)[OF m] by (auto simp: t negotiation_ok_def map_get_delete)
  qed
  have q: "quote_ok X ?t j x" if "map_get (quotes ?t) j = Some x" for j x
    using i(5)[of j x] that n by (auto simp: t quote_ok_def map_get_set unlink_deal_def Let_def)
  have dl: "deal_ok X ?t j x" if "map_get (deals ?t) j = Some x" for j x
    using i(6)[of j x] that n kn by (auto simp: t deal_ok_def map_get_set map_get_delete unlink_deal_def Let_def split: if_splits)
  have p: "pending_ok X ?t p" if "p \<in> P" for p
    using i(7)[OF that] by (auto simp: t pending_ok_def map_get_delete)
  show ?thesis using i(1-3) ng q dl p by (auto simp: seller_inv_def t)
qed

text \<open>A negotiation no deal refers to goes away, and its quote with it.\<close>

lemma inv_evict:
  assumes inv: "seller_inv X P s" and free: "\<And>i d. map_get (deals s) i = Some d \<Longrightarrow> dl_negotiationId d \<noteq> k"
  shows "seller_inv X P (s \<lparr> negotiations := map_delete k (negotiations s), quotes := map_delete k (quotes s) \<rparr>)"
  (is "seller_inv X P ?t")
proof -
  note i = seller_invD[OF inv]
  have ng: "negotiation_ok ?t j m" if "map_get (negotiations ?t) j = Some m" for j m
    using i(4)[of j m] that by (auto simp: negotiation_ok_def map_get_delete split: if_splits)
  have q: "quote_ok X ?t j x" if "map_get (quotes ?t) j = Some x" for j x
    using i(5)[of j x] that by (auto simp: quote_ok_def map_get_delete split: if_splits)
  have dl: "deal_ok X ?t j x" if "map_get (deals ?t) j = Some x" for j x
    using i(6)[of j x] free[of j x] that by (auto simp: deal_ok_def map_get_delete)
  have p: "pending_ok X ?t p" if "p \<in> P" for p
    using i(7)[OF that] free by (fastforce simp: pending_ok_def map_get_delete)
  show ?thesis using i(1-3) ng q dl p by (auto simp: seller_inv_def)
qed

text \<open>A new negotiation, with or without a quote.\<close>

lemma inv_new_negotiation:
  assumes inv: "seller_inv X P s" and fresh: "map_get (negotiations s) k = None"
    and n: "ng_negotiationId n = k" "ng_dealIds n = []" "ng_state n = REFUSED"
  shows "seller_inv X P (s \<lparr> negotiations := map_set k n (negotiations s) \<rparr>)" (is "seller_inv X P ?t")
proof -
  note i = seller_invD[OF inv]
  have nq: "map_get (quotes s) k = None" using i(5)[of k] fresh by (cases "map_get (quotes s) k") (auto simp: quote_ok_def)
  have ng: "negotiation_ok ?t j m" if "map_get (negotiations ?t) j = Some m" for j m
    using i(4)[of j m] that n nq by (auto simp: negotiation_ok_def map_get_set split: if_splits)
  have q: "quote_ok X ?t j x" if "map_get (quotes ?t) j = Some x" for j x
    using i(5)[of j x] that fresh by (auto simp: quote_ok_def map_get_set)
  have dl: "deal_ok X ?t j x" if "map_get (deals ?t) j = Some x" for j x
    using i(6)[of j x] fresh that by (fastforce simp: deal_ok_def map_get_set)
  have p: "pending_ok X ?t p" if "p \<in> P" for p
    using i(7)[OF that] by (auto simp: pending_ok_def)
  show ?thesis using i(1-3) ng q dl p by (auto simp: seller_inv_def)
qed

lemma inv_new_quote:
  assumes inv: "seller_inv X P s" and fresh: "map_get (negotiations s) k = None"
    and n: "ng_negotiationId n = k" "ng_dealIds n = []" "ng_state n = QUOTED"
    and r: "quote_ok X (s \<lparr> negotiations := map_set k n (negotiations s) \<rparr>) k r"
  shows "seller_inv X P (s \<lparr> negotiations := map_set k n (negotiations s), quotes := map_set k r (quotes s) \<rparr>)"
    (is "seller_inv X P ?t")
proof -
  note i = seller_invD[OF inv]
  have ng: "negotiation_ok ?t j m" if "map_get (negotiations ?t) j = Some m" for j m
    using i(4)[of j m] that n by (auto simp: negotiation_ok_def map_get_set split: if_splits)
  have q: "quote_ok X ?t j x" if "map_get (quotes ?t) j = Some x" for j x
    using i(5)[of j x] that fresh r by (auto simp: quote_ok_def map_get_set split: if_splits)
  have dl: "deal_ok X ?t j x" if "map_get (deals ?t) j = Some x" for j x
    using i(6)[of j x] fresh that by (fastforce simp: deal_ok_def map_get_set)
  have nd: "dl_negotiationId d \<noteq> k" if "map_get (deals s) j = Some d" for j d
    using i(6)[OF that] fresh by (auto simp: deal_ok_def)
  have p: "pending_ok X ?t p" if "p \<in> P" for p
    using i(7)[OF that] nd by (fastforce simp: pending_ok_def map_get_set)
  show ?thesis using i(1-3) ng q dl p by (auto simp: seller_inv_def)
qed

text \<open>A new deal of a stored quote.\<close>

lemma inv_open_deal:
  assumes inv: "seller_inv X P s" and fresh: "map_get (deals s) k = None"
    and r: "map_get (quotes s) g = Some r" and nopend: "k \<notin> pd_dealId ` P"
    and o: "open_deal now k g contract buyer r s = (s', res)"
  shows "seller_inv X P s' \<and> res = Inr ()"
proof -
  note i = seller_invD[OF inv]
  from i(5)[OF r] obtain n where n: "map_get (negotiations s) g = Some n" by (auto simp: quote_ok_def)
  let ?d = "new_deal k g contract buyer now r" and ?n = "link_deal k now n"
  have s': "s' = s \<lparr> deals := map_set k ?d (deals s), negotiations := map_set g ?n (negotiations s) \<rparr>" "res = Inr ()"
    using o n by (auto simp: open_deal_def linkNegotiation_def put_deal_def)
  have kn: "k \<notin> set (ng_dealIds m)" if "map_get (negotiations s) j = Some m" for j m
    using i(4)[OF that] fresh by (auto simp: negotiation_ok_def)
  have ng: "negotiation_ok s' j m" if "map_get (negotiations s') j = Some m" for j m
  proof (cases "j = g")
    case True
    with that have m: "m = ?n" by (simp add: s' map_get_set)
    show ?thesis using i(4)[OF n] kn[OF n] r unfolding m True
      by (auto simp: s' negotiation_ok_def link_deal_def set_add_def map_get_set new_deal_def)
  next
    case False
    with that have "map_get (negotiations s) j = Some m" by (simp add: s' map_get_set)
    then show ?thesis using i(4) kn by (fastforce simp: s' negotiation_ok_def map_get_set)
  qed
  have q: "quote_ok X s' j x" if "map_get (quotes s') j = Some x" for j x
    using i(5)[of j x] that n by (auto simp: s' quote_ok_def map_get_set link_deal_def)
  have body: "deal_body_ok X (historySequence s) r ?d"
    using i(5)[OF r] by (simp add: deal_body_ok_def new_deal_def quote_ok_def MAX_HISTORY_ENTRIES_PER_DEAL_def delivery_ok_def)
  have dl: "deal_ok X s' j x" if "map_get (deals s') j = Some x" for j x
  proof (cases "j = k")
    case True
    with that have "x = ?d" by (simp add: s' map_get_set)
    then show ?thesis using body r by (auto simp: True s' deal_ok_def map_get_set new_deal_def link_deal_def set_add_def)
  next
    case False
    with that have "map_get (deals s) j = Some x" by (simp add: s' map_get_set)
    from i(6)[OF this] n show ?thesis by (auto simp: s' deal_ok_def map_get_set link_deal_def set_add_def)
  qed
  have p: "pending_ok X s' p" if "p \<in> P" for p
    using i(7)[OF that] nopend that by (auto simp: s' pending_ok_def map_get_set)
  show ?thesis using i(1-3) ng q dl p by (auto simp: seller_inv_def s')
qed


section \<open>Every operation keeps the invariant\<close>

lemma fst_pure [simp]: "fst (pure x s) = s" by (simp add: pure_def)

lemma fst_throw [simp]: "fst (throw e s) = s" by (simp add: throw_def)

lemma fst_lift [simp]: "fst (lift r s) = s" by (simp add: lift_def)

text \<open>An operation that keeps the invariant, and the sequence of two.\<close>

definition keeps :: "seller_config \<Rightarrow> pending_delivery set \<Rightarrow> 'a operation \<Rightarrow> bool" where
  "keeps X P m \<longleftrightarrow> (\<forall>s. seller_inv X P s \<longrightarrow> seller_inv X P (fst (m s)))"

lemma keepsD: "keeps X P m \<Longrightarrow> seller_inv X P s \<Longrightarrow> seller_inv X P (fst (m s))"
  by (simp add: keeps_def)

lemma keeps_andThen [inv_intros]:
  assumes "keeps X P m" and "\<And>x. keeps X P (f x)"
  shows "keeps X P (andThen m f)"
  unfolding keeps_def
proof (intro allI impI)
  fix s assume "seller_inv X P s"
  with assms(1) have "seller_inv X P (fst (m s))" by (rule keepsD)
  with assms(2) show "seller_inv X P (fst (andThen m f s))"
    by (cases "m s") (auto simp: andThen_def keeps_def split: sum.splits)
qed

lemma keeps_pure [inv_intros]: "keeps X P (pure x)" "keeps X P (throw e)" "keeps X P (lift r)" "keeps X P (deal_now k)"
  by (simp_all add: keeps_def pure_def throw_def lift_def deal_now_def split: option.split)

lemma andThen_keeps:
  assumes "seller_inv X P (fst (m s))" and "\<And>x. keeps X P (f x)"
  shows "seller_inv X P (fst (andThen m f s))"
  using assms by (cases "m s") (auto simp: andThen_def keeps_def split: sum.splits)

lemma andThen_Inr: "m s = (s', Inr x) \<Longrightarrow> andThen m f s = f x s'"
  by (simp add: andThen_def)

lemma andThen_lift: "andThen (lift r) f s = (case r of Inl e \<Rightarrow> (s, Inl e) | Inr x \<Rightarrow> f x s)"
  by (simp add: andThen_def lift_def split: sum.split)

lemma historyEntry_eqs:
  "fst (historyEntry now i s) = s \<lparr> historySequence := Suc (historySequence s) \<rparr>"
  "he_sequence (snd (historyEntry now i s)) = Suc (historySequence s)"
  by (simp_all add: historyEntry_def Let_def)

text \<open>Appending to the history of a deal, of which a field may have been changed just before.\<close>

definition logged :: "int \<Rightarrow> history_entry \<Rightarrow> deal \<Rightarrow> deal" where
  "logged now e d = d \<lparr> dl_history := keep_last MAX_HISTORY_ENTRIES_PER_DEAL (dl_history d @ [e]), dl_updatedAt := now \<rparr>"

lemma recordInteraction_some:
  assumes "map_get (deals s) k = Some d"
  shows "recordInteraction now k i s =
    (put_deal k (logged now (snd (historyEntry now i s)) d) (fst (historyEntry now i s)), Inr (snd (historyEntry now i s)))"
  using assms by (simp add: recordInteraction_def historyEntry_def Let_def logged_def)

lemma record_andThen:
  "map_get (deals s) k = Some d \<Longrightarrow>
     andThen (recordInteraction now k i) f s = f (snd (historyEntry now i s)) (fst (recordInteraction now k i s))"
  by (simp add: recordInteraction_some andThen_def)

lemma recordInteraction_none: "map_get (deals s) k = None \<Longrightarrow> recordInteraction now k i s = (s, Inl (UnknownDeal k))"
  by (simp add: recordInteraction_def)

lemma deal_body_logged:
  assumes "deal_body_ok X n r d"
  shows "deal_body_ok X (Suc n) r (logged now (snd (historyEntry now i (s \<lparr> historySequence := n \<rparr>))) d)"
proof -
  let ?e = "snd (historyEntry now i (s \<lparr> historySequence := n \<rparr>))"
  have "he_sequence ?e = Suc n" by (simp add: historyEntry_eqs)
  with assms entries_ok_snoc[of n "dl_history d" ?e] have "entries_ok (Suc n) (dl_history d @ [?e])"
    by (simp add: deal_body_ok_def)
  then have "entries_ok (Suc n) (dl_history (logged now ?e d))"
    by (simp add: logged_def entries_ok_keep_last)
  then show ?thesis using assms by (simp add: deal_body_ok_def logged_def delivery_ok_def)
qed

lemma inv_record:
  assumes "seller_inv X P s"
  shows "seller_inv X P (fst (recordInteraction now k i s))"
proof (cases "map_get (deals s) k")
  case None
  then show ?thesis using assms by (simp add: recordInteraction_none)
next
  case (Some d)
  let ?s = "s \<lparr> historySequence := Suc (historySequence s) \<rparr>" and ?e = "snd (historyEntry now i s)"
  have inv: "seller_inv X P ?s" by (rule inv_sequence[OF assms]) simp
  have "seller_inv X P (put_deal k (logged now ?e d) ?s)"
  proof (rule inv_update_deal[OF inv])
    fix r assume r: "map_get (quotes ?s) (dl_negotiationId d) = Some r"
    with seller_invD(6)[OF assms Some] have "deal_body_ok X (historySequence s) r d" by (auto simp: deal_ok_def)
    from deal_body_logged[OF this, of now i s]
    show "deal_body_ok X (historySequence ?s) r (logged now ?e d)" by simp
  qed (use Some in \<open>auto simp: logged_def\<close>)
  then show ?thesis by (simp add: recordInteraction_some[OF Some] historyEntry_eqs)
qed

lemma keeps_record [inv_intros]: "keeps X P (recordInteraction now k i)"
  by (simp add: keeps_def inv_record)

lemma inv_prune_keys:
  assumes "seller_inv X P s" and "\<And>i d. map_get (deals s) i = Some d \<Longrightarrow> dl_negotiationId d \<in> set refs"
  shows "seller_inv X P (prune_keys refs ks s)"
  using assms
proof (induction refs ks s rule: prune_keys.induct)
  case (2 refs k ks s)
  let ?t = "s \<lparr> negotiations := map_delete k (negotiations s), quotes := map_delete k (quotes s) \<rparr>"
  have "seller_inv X P ?t" if "k \<notin> set refs"
    by (rule inv_evict[OF 2(3)]) (use 2(4) that in blast)
  moreover have "map_get (deals ?t) i = map_get (deals s) i" for i by simp
  ultimately show ?case using 2 by simp
qed simp

lemma deal_reference: "map_get (deals s) i = Some d \<Longrightarrow> dl_negotiationId d \<in> set (map dl_negotiationId (map_values (deals s)))"
  by (force simp: map_get_def map_values_def dest: map_of_SomeD)

lemma inv_pruneNegotiations: "seller_inv X P s \<Longrightarrow> seller_inv X P (pruneNegotiations k s)"
  using deal_reference[of s] by (auto simp: pruneNegotiations_def intro!: inv_prune_keys)

lemma inv_prune_scan: "seller_inv X P s \<Longrightarrow> seller_inv X P (fst (prune_scan now ds ks s))"
  by (induction now ds ks s rule: prune_scan.induct) (auto simp: inv_delete_deal)

lemma inv_fold_delete: "seller_inv X P s \<Longrightarrow> seller_inv X P (fold deleteDeal ks s)"
  by (induction ks arbitrary: s) (auto simp: inv_delete_deal)

lemma inv_pruneDeals: "seller_inv X P s \<Longrightarrow> seller_inv X P (pruneDeals now s)"
  using inv_prune_scan[of X P s now "deals s" "[]"]
  by (auto simp: pruneDeals_def Let_def inv_fold_delete split: prod.split)

text \<open>Pruning deals only takes deals away.\<close>

lemma deleteDeal_get: "map_get (deals (deleteDeal j s)) k = (if k = j then None else map_get (deals s) k)"
  by (auto simp: deleteDeal_def Let_def map_get_delete split: option.split)

lemma deleteDeal_quotes [simp]: "quotes (deleteDeal j s) = quotes s" "historySequence (deleteDeal j s) = historySequence s"
  by (auto simp: deleteDeal_def Let_def split: option.split)

lemma prune_scan_get:
  "map_get (deals (fst (prune_scan now ds ks s))) k \<in> {None, map_get (deals s) k}"
  "quotes (fst (prune_scan now ds ks s)) = quotes s" "historySequence (fst (prune_scan now ds ks s)) = historySequence s"
  by (induction now ds ks s rule: prune_scan.induct) (auto simp: deleteDeal_get split: if_splits)

lemma fold_delete_get:
  "map_get (deals (fold deleteDeal ks s)) k = (if k \<in> set ks then None else map_get (deals s) k)"
  "quotes (fold deleteDeal ks s) = quotes s" "historySequence (fold deleteDeal ks s) = historySequence s"
  by (induction ks arbitrary: s) (auto simp: deleteDeal_get)

lemma pruneDeals_get:
  "map_get (deals (pruneDeals now s)) k \<in> {None, map_get (deals s) k}" "quotes (pruneDeals now s) = quotes s"
  "historySequence (pruneDeals now s) = historySequence s"
  using prune_scan_get[of now "deals s" "[]" s]
  by (simp_all add: pruneDeals_def Let_def fold_delete_get case_prod_beta)


lemma inv_observe: "seller_inv X P s \<Longrightarrow> seller_inv X P (fst (observeRuntimeStatus now k status t s))"
proof (cases "map_get (deals s) k")
  case None
  then show "seller_inv X P s \<Longrightarrow> ?thesis" by (simp add: observeRuntimeStatus_def)
next
  case (Some d)
  assume inv: "seller_inv X P s"
  have "seller_inv X P (put_deal k (d \<lparr> dl_runtimeState := a, dl_runtimeRevision := b \<rparr>) s)" for a b
    by (rule inv_update_deal[OF inv Some]) (auto simp: deal_body_ok_def delivery_ok_def)
  note u = this[where b = "dl_runtimeRevision d", simplified] this
  show ?thesis using inv Some u
    unfolding observeRuntimeStatus_def Let_def by (auto intro!: andThen_keeps inv_record inv_intros)
qed

lemma inv_revoke: "seller_inv X P s \<Longrightarrow> seller_inv X P (fst (revokeCapability now k s))"
proof (cases "map_get (deals s) k")
  case None
  then show "seller_inv X P s \<Longrightarrow> ?thesis" by (simp add: revokeCapability_def)
next
  case (Some d)
  assume inv: "seller_inv X P s"
  have "seller_inv X P (put_deal k (d \<lparr> dl_capabilityRevoked := a \<rparr>) s)" for a
    by (rule inv_update_deal[OF inv Some]) (auto simp: deal_body_ok_def delivery_ok_def)
  then show ?thesis using inv Some
    unfolding revokeCapability_def by (auto intro!: andThen_keeps inv_record inv_intros)
qed

lemma selectedQuote_Inr:
  assumes "selectedQuote s g contract = Inr r"
  shows "map_get (quotes s) g = Some r" "member contract ''buyerAgentId'' = JStr (qr_buyerAgentId r)"
    "\<exists>c. parseAcceptanceCriteria (text_of (member contract ''acceptanceCriteria'')) = Some c \<and>
       ac_termsDocumentHash c = qr_termsDocumentHash r"
  using assms by (auto simp: selectedQuote_def split: option.splits if_splits)

lemma inv_propose:
  assumes inv: "seller_inv X P s" and fresh: "map_get (deals s) (''deal_'' @ to_hex random) = None"
    and np: "''deal_'' @ to_hex random \<notin> pd_dealId ` P"
  shows "seller_inv X P (fst (propose X now random g contract buyer s))"
proof -
  let ?s = "pruneDeals now s" and ?k = "''deal_'' @ to_hex random"
  have i: "seller_inv X P ?s" by (rule inv_pruneDeals[OF inv])
  have f: "map_get (deals ?s) ?k = None" using pruneDeals_get(1)[of now s ?k] fresh by auto
  have o: "seller_inv X P (fst (open_deal now ?k g contract buyer r ?s))" if "selectedQuote ?s g contract = Inr r" for r
    by (rule inv_open_deal[OF i f selectedQuote_Inr(1)[OF that] np, THEN conjunct1]) (rule prod.collapse[symmetric])
  show ?thesis
  proof (cases "selectedQuote ?s g contract")
    case (Inr r)
    show ?thesis unfolding propose_def Let_def
      by (subst andThen_lift, simp only: Inr sum.case, rule andThen_keeps, rule o[OF Inr], intro inv_intros)
  qed (use i in \<open>simp add: propose_def andThen_lift\<close>)
qed

lemma inv_register:
  assumes inv: "seller_inv X P s"
    and np: "map_get (deals (pruneDeals now s)) k = None \<Longrightarrow> k \<notin> pd_dealId ` P"
  shows "seller_inv X P (fst (registerLiveDeal now k g contract buyer s))"
proof -
  let ?s = "pruneDeals now s"
  have i: "seller_inv X P ?s" by (rule inv_pruneDeals[OF inv])
  have o: "seller_inv X P (fst (open_deal now k g contract buyer r ?s))"
    if "selectedQuote ?s g contract = Inr r" "map_get (deals ?s) k = None" for r
    by (rule inv_open_deal[OF i that(2) selectedQuote_Inr(1)[OF that(1)] np[OF that(2)], THEN conjunct1])
      (rule prod.collapse[symmetric])
  show ?thesis
  proof (cases "selectedQuote ?s g contract")
    case (Inr r)
    show ?thesis
    proof (cases "map_get (deals ?s) k")
      case None
      show ?thesis unfolding registerLiveDeal_def Let_def None option.case
        by (subst andThen_lift, simp only: Inr sum.case, rule andThen_keeps, rule o[OF Inr None], intro inv_intros)
    qed (use Inr i in \<open>simp add: registerLiveDeal_def andThen_lift\<close>)
  qed (use i in \<open>simp add: registerLiveDeal_def andThen_lift\<close>)
qed

section \<open>Quotes\<close>

lemma seller_quote_parts:
  assumes "seller_quote X body = Inr (QuoteAccepted qa)" and "qa_statsHash qa = Some h"
  obtains p d where "qb_price (qa_body qa) = Some p" "qb_deliverable (qa_body qa) = Some d"
    "criteriaHashOf (sx_crypto X) body = Inr (qa_criteriaHash qa)"
proof -
  note c = composeQuote_accepted[OF assms(1)[unfolded seller_quote_def]]
  have ne: "m_tracts (evaluateQuery (readQuery body) (sx_corpus X)) \<noteq> []"
    using c(6) assms(2) by (auto simp: commitment_of_slice_def)
  with c(5) obtain p where "qb_price (qa_body qa) = Some p"
    by (cases "qb_price (qa_body qa)") (auto simp: price_of_slice_def split: sum.splits)
  moreover obtain d where "qb_deliverable (qa_body qa) = Some d" using c(10) ne by auto
  ultimately show ?thesis using c(7) that by blast
qed

text \<open>What a quote promised is what its recomputation finds.\<close>

lemma recompute_quote:
  assumes "quote_ok X s k r"
  shows "recomputeFor X r = Inr (tv_recomputed (quote_context r))"
proof -
  from assms obtain h p d where q: "seller_quote X (qr_queryBody r) = Inr (QuoteAccepted (qr_facts r))"
    and p: "qa_statsHash (qr_facts r) = Some h" "qb_price (qa_body (qr_facts r)) = Some p"
      "qb_deliverable (qa_body (qr_facts r)) = Some d" "qr_termsDocument r = terms_of_quote X (qr_facts r) h p d"
    by (auto simp: quote_ok_def)
  from seller_quote_parts[OF q p(1)] have "criteriaHashOf (sx_crypto X) (qr_queryBody r) = Inr (qa_criteriaHash (qr_facts r))" by blast
  then show ?thesis using q p by (simp add: recomputeFor_def quote_context_def terms_of_quote_def)
qed

lemma store_negotiation_eq:
  "store_negotiation now n i s =
     (let e = snd (historyEntry now i s); n' = n \<lparr> ng_updatedAt := he_at e, ng_history := ng_history n @ [e] \<rparr>
      in (s \<lparr> historySequence := Suc (historySequence s), negotiations := map_set (ng_negotiationId n) n' (negotiations s) \<rparr>, n'))"
  by (simp add: store_negotiation_def historyEntry_def Let_def)

lemma inv_refusal:
  assumes "seller_inv X P s" and "map_get (negotiations s) (ng_negotiationId n) = None"
    and "ng_dealIds n = []" "ng_state n = REFUSED"
  shows "seller_inv X P (fst (record_refusal now n i s))"
proof -
  have "seller_inv X P (s \<lparr> historySequence := Suc (historySequence s) \<rparr>)" by (rule inv_sequence[OF assms(1)]) simp
  from inv_new_negotiation[OF this, of "ng_negotiationId n" "n \<lparr> ng_updatedAt := u, ng_history := v \<rparr>" for u v] assms
  show ?thesis
    by (simp add: record_refusal_def store_negotiation_eq Let_def inv_pruneNegotiations)
qed

lemma inv_issue:
  assumes inv: "seller_inv X P s" and fresh: "map_get (negotiations s) (ng_negotiationId n) = None"
    and n: "ng_dealIds n = []" "ng_history n = [e]" "he_sequence e \<le> historySequence s"
    and q: "seller_quote X (ng_queryBody n) = Inr (QuoteAccepted qa)" "qa_statsHash qa = Some h"
      "qb_price (qa_body qa) = Some p" "qb_deliverable (qa_body qa) = Some d"
    and doc: "doc = terms_of_quote X qa h p d" "termsDocumentHashOf (sx_crypto X) doc = Inr dh"
  shows "seller_inv X P (fst (issue_quote X now n qa doc dh s))"
proof -
  let ?k = "ng_negotiationId n" and ?s = "s \<lparr> historySequence := Suc (historySequence s) \<rparr>"
  have i: "seller_inv X P ?s" by (rule inv_sequence[OF inv]) simp
  have ent: "entries_ok (Suc (historySequence s)) [e, e']" if "he_sequence e' = Suc (historySequence s)" for e'
    using n(3) that by (simp add: entries_ok_def)
  let ?e' = "snd (historyEntry now (answer_entry (''Seller quoted '' @ td_priceAmount doc @ '' USDC for '' @
    string_of_int (qa_deliverableRowCount qa) @ '' rows'') (quoted_payload qa doc dh)) s)"
  let ?n = "n \<lparr> ng_state := QUOTED, ng_termsDocumentHash := Some dh, ng_updatedAt := he_at ?e', ng_history := [e, ?e'] \<rparr>"
  let ?r = "\<lparr> qr_negotiationId = ?k, qr_buyerAgentId = ng_buyerAgentId n, qr_termsDocument = doc, qr_termsDocumentHash = dh,
    qr_queryBody = ng_queryBody n, qr_facts = qa, qr_issuedAt = ng_createdAt n, qr_history = [e, ?e'] \<rparr>"
  have "quote_ok X (?s \<lparr> negotiations := map_set ?k ?n (negotiations ?s) \<rparr>) ?k ?r"
    using q doc ent[of ?e'] by (simp add: quote_ok_def map_get_set historyEntry_eqs)
  from inv_new_quote[OF i _ _ _ _ this] fresh n
  have "seller_inv X P (?s \<lparr> negotiations := map_set ?k ?n (negotiations ?s), quotes := map_set ?k ?r (quotes ?s) \<rparr>)" by simp
  from inv_pruneNegotiations[OF this, of ?k] show ?thesis
    by (simp add: issue_quote_def store_negotiation_eq Let_def n)
qed


lemma inv_quote_facts:
  assumes inv: "seller_inv X P s" and fresh: "map_get (negotiations s) (ng_negotiationId n) = None"
    and n: "ng_dealIds n = []" "ng_state n = REFUSED" "ng_history n = [e]" "he_sequence e \<le> historySequence s"
    and q: "seller_quote X (ng_queryBody n) = Inr facts"
  shows "seller_inv X P (fst (quote_facts_step X now n facts s))"
proof -
  have r: "seller_inv X P (fst (answer_without_quote now n i s))" for i
    using inv_refusal[OF inv fresh n(1,2)] by (simp add: answer_without_quote_def)
  have ps: "seller_inv X P (fst (price_slice X now n qa h p d s))"
    if "facts = QuoteAccepted qa" "qa_statsHash qa = Some h" "qb_price (qa_body qa) = Some p"
      "qb_deliverable (qa_body qa) = Some d" for qa h p d
    using inv inv_issue[OF inv fresh n(1,3,4) q[unfolded that(1)] that(2-4) refl]
    by (auto simp: price_slice_def Let_def case_prod_beta split: sum.split)
  show ?thesis unfolding quote_facts_step_def
    using r ps inv by (auto split: quote_facts.split option.split)
qed

lemma inv_quote:
  assumes inv: "seller_inv X P s" and fresh: "map_get (negotiations s) (''neg_'' @ to_hex random) = None"
  shows "seller_inv X P (fst (quote X now random buyer body s))"
proof (cases "BUYER_DID_PATTERN buyer")
  case True
  let ?b = "json_copy (as_object body)"
  let ?e = "snd (historyEntry now (query_entry buyer ?b) s)"
  let ?s = "s \<lparr> historySequence := Suc (historySequence s) \<rparr>"
  let ?n = "new_negotiation now (''neg_'' @ to_hex random) buyer ?b ?e"
  have i: "seller_inv X P ?s" by (rule inv_sequence[OF inv]) simp
  have e: "quote X now random buyer body s =
      (case seller_quote X ?b of Inl err \<Rightarrow> (?s, Inl (QuoteFailed err))
       | Inr facts \<Rightarrow> andThen (quote_facts_step X now ?n facts) (\<lambda>(n', r). pure (facts, n', r)) ?s)"
    using True unfolding quote_def Let_def case_prod_beta historyEntry_eqs by (simp only: not_True_eq_False if_False)
  show ?thesis
  proof (cases "seller_quote X ?b")
    case (Inr facts)
    have "seller_inv X P (fst (quote_facts_step X now ?n facts ?s))"
      by (rule inv_quote_facts[OF i, where e = ?e]) (use fresh Inr in \<open>simp_all add: new_negotiation_def historyEntry_eqs\<close>)
    then show ?thesis unfolding e Inr sum.case
      by (rule andThen_keeps) (simp add: case_prod_beta inv_intros)
  qed (use i e in simp)
qed (use inv in \<open>simp add: quote_def\<close>)

section \<open>Acceptance\<close>

lemma map_error_Inr [simp]: "map_error g r = Inr x \<longleftrightarrow> r = Inr x"
  by (cases r) simp_all

lemma terms_acceptable_signatures [simp]:
  "terms_acceptable C env (map_set ''signatures'' v c) ctx = terms_acceptable C env c ctx"
  by (simp add: terms_acceptable_def sub_member_def)

lemma countersign_acceptable:
  assumes "countersign X k d proposal r sig chainId = Inr c" and "quote_ok X s g r"
  shows "terms_acceptable (sx_crypto X) (sx_env X) c (quote_context r)"
proof -
  let ?i = "\<lparr> ai_contract = proposal, ai_buyerAddress = dl_buyerAddress d, ai_dealId = k,
           ai_buyerAgreementSig = sig, ai_privateKey = sx_privateKey X, ai_keyId = seller_keyId X,
           ai_sellerAddress = seller_address X, ai_chainId = chainId, ai_validation = quote_context r \<rparr>"
  have v: "\<lparr> tv_termsDocument = qr_termsDocument r, tv_recomputed = tv_recomputed (quote_context r) \<rparr> = quote_context r"
    by (simp add: quote_context_def)
  have "acceptTerms (sx_crypto X) (sx_env X) ?i = Inr c"
    using assms(1) unfolding countersign_def recompute_quote[OF assms(2)] res_bind_simps v map_error_Inr .
  then show ?thesis
  proof (rule acceptTerms_Inr)
    fix h ps own assume t: "terms_acceptable (sx_crypto X) (sx_env X) (ai_contract ?i) (ai_validation ?i)"
      and c: "c = map_set ''signatures'' (JArr [JObj (map_set ''agreementSig'' (JStr (ai_buyerAgreementSig ?i)) (members_of ps)),
              acceptance_signature (sx_crypto X) (sx_env X) ?i h own]) (ai_contract ?i)"
    from t show ?thesis unfolding c terms_acceptable_signatures by simp
  qed
qed

lemma inv_adopt:
  assumes inv: "seller_inv X P s" and d: "map_get (deals s) k = Some d" and r: "map_get (quotes s) (dl_negotiationId d) = Some r"
    and c: "terms_acceptable (sx_crypto X) (sx_env X) c (quote_context r)"
  shows "seller_inv X P (adopt_contract k c s)"
proof -
  have "seller_inv X P (put_deal k (d \<lparr> dl_contract := c, dl_state := ACCEPTED_LOCAL \<rparr>) s)"
    by (rule inv_update_deal[OF inv d]) (use r c in \<open>auto simp: deal_body_ok_def delivery_ok_def\<close>)
  then show ?thesis by (simp add: adopt_contract_def d)
qed

lemma recordInteraction_frame:
  "quotes (fst (recordInteraction now k i s)) = quotes s"
  "negotiations (fst (recordInteraction now k i s)) = negotiations s"
  "artifacts (fst (recordInteraction now k i s)) = artifacts s"
  by (cases "map_get (deals s) k"; simp add: recordInteraction_none recordInteraction_some put_deal_def historyEntry_eqs)+

lemma recordInteraction_get:
  "map_get (deals (fst (recordInteraction now k i s))) j =
     (if j = k then map_option (logged now (snd (historyEntry now i s))) (map_get (deals s) j) else map_get (deals s) j)"
  by (cases "map_get (deals s) k"; simp add: recordInteraction_none recordInteraction_some put_deal_def historyEntry_eqs map_get_set)

lemma inv_accept:
  assumes inv: "seller_inv X P s"
  shows "seller_inv X P (fst (accept X now k sig chainId proposed s))"
proof (cases "map_get (deals s) k")
  case None
  then show ?thesis using inv by (simp add: accept_def)
next
  case (Some d)
  from seller_invD(6)[OF inv Some] obtain r where r: "map_get (quotes s) (dl_negotiationId d) = Some r"
    by (auto simp: deal_ok_def)
  note q = seller_invD(5)[OF inv r]
  let ?i = "acceptance_request d k sig"
  let ?s = "fst (recordInteraction now k ?i s)" and ?e = "snd (historyEntry now ?i s)"
  let ?c = "countersign X k d (case proposed of Some c \<Rightarrow> c | None \<Rightarrow> dl_contract d) r sig chainId"
  have i: "seller_inv X P ?s" by (rule inv_record[OF inv])
  have d1: "map_get (deals ?s) k = Some (logged now ?e d)" by (simp add: recordInteraction_get Some)
  have r1: "map_get (quotes ?s) (dl_negotiationId (logged now ?e d)) = Some r"
    by (simp add: recordInteraction_frame logged_def r)
  have a: "seller_inv X P (adopt_contract k c ?s)" if "?c = Inr c" for c
    by (rule inv_adopt[OF i d1 r1 countersign_acceptable[OF that q]])
  show ?thesis
  proof (cases ?c)
    case (Inl e)
    show ?thesis unfolding accept_def Some option.case Let_def r
      by (subst record_andThen[OF Some], simp only: Inl sum.case, rule andThen_keeps, rule inv_record[OF i], intro inv_intros)
  next
    case (Inr c)
    show ?thesis unfolding accept_def Some option.case Let_def r
      by (subst record_andThen[OF Some], simp only: Inr sum.case, rule andThen_keeps, rule inv_record[OF a[OF Inr]], intro inv_intros)
  qed
qed


section \<open>Delivery\<close>

lemma generated_delivered_ok:
  assumes g: "generateDelivery (sx_crypto X) (sx_localeCompare X) (memory_put (sx_crypto X)) (delivery_input_of X now k url r) st = (st', Inr out)"
  shows "delivered_ok X r (dr_manifest out) (dr_manifestBytes out) (dr_deliveryHash out) (dr_bytes out)"
proof -
  from g obtain c where "dr_manifest out = manifest_of (delivery_input_of X now k url r) c (dm_artifact (dr_manifest out))"
    and o: "jcs (sx_crypto X) (manifest_js (dr_manifest out)) = Inr (dr_manifestBytes out)"
      "dr_deliveryHash out = sha256Bytes (sx_crypto X) (dr_manifestBytes out)"
    by (rule generateDelivery_Inr)
  from this(1) have "dm_quotedStatsHash (dr_manifest out) = di_quotedStatsHash (delivery_input_of X now k url r)"
    by (metis (no_types, lifting) delivery_manifest.select_convs(6) manifest_of_def)
  then have "dm_quotedStatsHash (dr_manifest out) = Some (td_statsHash (qr_termsDocument r))"
    by (simp add: delivery_input_of_def)
  with o memory_store.delivered_verifies[OF g] show ?thesis
    by (auto simp: delivered_ok_def delivery_input_of_def)
qed

lemma begin_cases:
  assumes "prepareDelivery_begin X now random k s = (s', res)"
  obtains (refused) e where "s' = s" "res = Inl e"
  | (failed) a e where "s' = s \<lparr> artifacts := a \<rparr>" "res = Inl e"
  | (begun) a d r out url where "s' = s \<lparr> artifacts := a \<rparr>" "map_get (deals s) k = Some d" "dl_state d \<noteq> PROPOSED_LOCAL"
      "map_get (quotes s) (dl_negotiationId d) = Some r"
      "res = Inr \<lparr> pd_dealId = k, pd_cap = to_hex random, pd_out = out \<rparr>"
      "generateDelivery (sx_crypto X) (sx_localeCompare X) (memory_put (sx_crypto X)) (delivery_input_of X now k url r) (artifacts s)
         = (a, Inr out)"
  using assms unfolding prepareDelivery_begin_def Let_def
  by (auto split: option.splits if_splits prod.splits sum.splits)

lemma inv_begin:
  assumes inv: "seller_inv X P s" and b: "prepareDelivery_begin X now random k s = (s', res)"
  shows "seller_inv X P s' \<and> (\<forall>p. res = Inr p \<longrightarrow> seller_inv X (insert p P) s')"
  using b
proof (cases rule: begin_cases)
  case (begun a d r out url)
  have "pending_ok X s \<lparr> pd_dealId = k, pd_cap = to_hex random, pd_out = out \<rparr>"
    using begun(2-4) generated_delivered_ok[OF begun(6)] by (simp add: pending_ok_def)
  then show ?thesis using inv begun(1,5) by (auto intro: inv_pending_add)
qed (use inv in auto)

lemma inv_write:
  assumes inv: "seller_inv X P s" and p: "p \<in> P"
  shows "seller_inv X P (fst (write_delivery now p s))"
proof (cases "map_get (deals s) (pd_dealId p)")
  case None
  then show ?thesis using inv by (simp add: write_delivery_def)
next
  case (Some d)
  from seller_invD(7)[OF inv p] Some obtain r0 where st: "dl_state d \<noteq> PROPOSED_LOCAL"
    and r0: "map_get (quotes s) (dl_negotiationId d) = Some r0"
    and ok: "delivered_ok X r0 (dr_manifest (pd_out p)) (dr_manifestBytes (pd_out p)) (dr_deliveryHash (pd_out p)) (dr_bytes (pd_out p))"
    by (auto simp: pending_ok_def)
  have "seller_inv X P (put_deal (pd_dealId p) (with_delivery p d) s)"
    by (rule inv_update_deal[OF inv Some]) (use r0 ok st in \<open>auto simp: with_delivery_def deal_body_ok_def delivery_ok_def\<close>)
  then show ?thesis unfolding write_delivery_def Let_def Some option.case
    by (rule andThen_keeps[OF inv_record]) (intro inv_intros)
qed

lemma inv_finish: "seller_inv X P s \<Longrightarrow> p \<in> P \<Longrightarrow> seller_inv X P (fst (prepareDelivery_finish X now p s))"
  unfolding prepareDelivery_finish_def by (rule andThen_keeps[OF inv_write]) (assumption | intro inv_intros)+

lemma inv_deliver_command: "seller_inv X P s \<Longrightarrow> seller_inv X P (fst (deliver_command X now random k anchors ev h s))"
  unfolding deliver_command_def by (rule andThen_keeps) (simp, intro inv_intros)

section \<open>Reachable states\<close>

text \<open>
  A request may do any of the operations at any time.  Fresh random bytes do not repeat an id that is
  in use, and a deal id is not registered anew while its own delivery is suspended.
\<close>

inductive seller_step :: "seller_config \<Rightarrow> seller \<times> pending_delivery set \<Rightarrow> seller \<times> pending_delivery set \<Rightarrow> bool" for X where
  quote_step: "map_get (negotiations s) (''neg_'' @ to_hex random) = None \<Longrightarrow>
    seller_step X (s, P) (fst (quote X now random buyer body s), P)"
| propose_step: "map_get (deals s) (''deal_'' @ to_hex random) = None \<Longrightarrow> ''deal_'' @ to_hex random \<notin> pd_dealId ` P \<Longrightarrow>
    seller_step X (s, P) (fst (propose X now random g contract buyerAddress s), P)"
| register_step: "(map_get (deals (pruneDeals now s)) k = None \<Longrightarrow> k \<notin> pd_dealId ` P) \<Longrightarrow>
    seller_step X (s, P) (fst (registerLiveDeal now k g contract buyerAddress s), P)"
| accept_step: "seller_step X (s, P) (fst (accept X now k sig chainId proposed s), P)"
| observe_step: "seller_step X (s, P) (fst (observeRuntimeStatus now k status summary s), P)"
| record_step: "seller_step X (s, P) (fst (recordInteraction now k i s), P)"
| begin_step: "prepareDelivery_begin X now random k s = (s', Inr p) \<Longrightarrow> seller_step X (s, P) (s', insert p P)"
| begin_failed: "prepareDelivery_begin X now random k s = (s', Inl e) \<Longrightarrow> seller_step X (s, P) (s', P)"
| finish_step: "p \<in> P \<Longrightarrow> seller_step X (s, P) (fst (prepareDelivery_finish X now p s), P - {p})"
| command_step: "seller_step X (s, P) (fst (deliver_command X now random k anchors ev h s), P)"
| revoke_step: "seller_step X (s, P) (fst (revokeCapability now k s), P)"

inductive reachable :: "seller_config \<Rightarrow> seller \<times> pending_delivery set \<Rightarrow> bool" for X where
  start: "reachable X (new_seller, {})"
| later: "reachable X sp \<Longrightarrow> seller_step X sp sp' \<Longrightarrow> reachable X sp'"

inductive_cases seller_stepE: "seller_step X (s, P) (s', P')"

lemma step_inv: "seller_step X (s, P) (s', P') \<Longrightarrow> seller_inv X P s \<Longrightarrow> seller_inv X P' s'"
proof (erule seller_stepE, goal_cases)
  case 9
  then show ?case by (auto intro!: inv_pending_less[OF inv_finish])
qed (auto simp: inv_quote inv_propose inv_register inv_accept inv_observe inv_record inv_revoke inv_deliver_command
      dest: inv_begin)

lemma reachable_inv: "reachable X sp \<Longrightarrow> seller_inv X (snd sp) (fst sp)"
proof (induction rule: reachable.induct)
  case start
  show ?case by (simp add: seller_inv_new)
next
  case (later sp sp')
  then show ?case by (cases sp, cases sp') (auto dest: step_inv)
qed

end
