(* ===== verification/Machine.thy ===== *)
theory Machine
  imports Prelude
begin

text \<open>
  Transition systems: a step relation with an invariant, and a step relation that another one
  refines.  The components with a state machine (the seller, the runtime binding) interpret these.
\<close>

locale machine =
  fixes step :: "'s \<Rightarrow> 's \<Rightarrow> bool" and good :: "'s \<Rightarrow> bool"
  assumes keeps_good: "step s t \<Longrightarrow> good s \<Longrightarrow> good t"
begin

lemma run_good: "step\<^sup>*\<^sup>* s t \<Longrightarrow> good s \<Longrightarrow> good t"
  by (induction rule: rtranclp_induct) (auto intro: keeps_good)

text \<open>What every step keeps, once it holds in a good state, holds for the rest of the run.\<close>

lemma run_stable:
  assumes "step\<^sup>*\<^sup>* s t" and "good s" and "Q s"
    and "\<And>u v. step u v \<Longrightarrow> good u \<Longrightarrow> Q u \<Longrightarrow> Q v"
  shows "Q t"
  using assms(1-3)
proof (induction rule: rtranclp_induct)
  case (step u v)
  then show ?case using run_good assms(4) by blast
qed

end

locale refinement = machine step good
  for step :: "'s \<Rightarrow> 's \<Rightarrow> bool" and good :: "'s \<Rightarrow> bool" +
  fixes abs :: "'s \<Rightarrow> 'a" and astep :: "'a \<Rightarrow> 'a \<Rightarrow> bool"
  assumes simulates: "step s t \<Longrightarrow> good s \<Longrightarrow> astep (abs s) (abs t)"
begin

lemma run_simulates: "step\<^sup>*\<^sup>* s t \<Longrightarrow> good s \<Longrightarrow> astep\<^sup>*\<^sup>* (abs s) (abs t)"
proof (induction rule: rtranclp_induct)
  case (step u v)
  have "good u" by (rule run_good[OF step(1) step(4)])
  from simulates[OF step(2) this] step(3)[OF step(4)] show ?case by (simp add: rtranclp.rtrancl_into_rtrancl)
qed simp

end

section \<open>Labelled systems\<close>

text \<open>
  A run with the labels of its steps.  A refinement of labelled systems includes the traces: what is seen of
  a concrete run is a run of the abstract system, with the same labels in the same order.
\<close>

inductive labelled_run :: "('l \<Rightarrow> 's \<Rightarrow> 's \<Rightarrow> bool) \<Rightarrow> 'l list \<Rightarrow> 's \<Rightarrow> 's \<Rightarrow> bool" for step where
  stop: "labelled_run step [] s s"
| more: "step l s t \<Longrightarrow> labelled_run step ls t u \<Longrightarrow> labelled_run step (l # ls) s u"

locale labelled_refinement =
  fixes step :: "'l \<Rightarrow> 's \<Rightarrow> 's \<Rightarrow> bool" and good :: "'s \<Rightarrow> bool"
    and abs :: "'s \<Rightarrow> 'a" and astep :: "'l \<Rightarrow> 'a \<Rightarrow> 'a \<Rightarrow> bool"
  assumes keeps_good: "step l s t \<Longrightarrow> good s \<Longrightarrow> good t"
    and simulates: "step l s t \<Longrightarrow> good s \<Longrightarrow> astep l (abs s) (abs t)"
begin

lemma run_good: "labelled_run step ls s t \<Longrightarrow> good s \<Longrightarrow> good t"
  by (induction rule: labelled_run.induct) (auto intro: keeps_good)

lemma traces_included: "labelled_run step ls s t \<Longrightarrow> good s \<Longrightarrow> labelled_run astep ls (abs s) (abs t)"
  by (induction rule: labelled_run.induct) (auto intro: labelled_run.intros keeps_good simulates)

end

end
