(* ===== verification/SellerLife.thy ===== *)
theory SellerLife
  imports SellerInv Machine
begin

text \<open>
  What each operation may change of a deal, and the abstract lifecycle every deal follows: the steps
  of the seller refine the steps of the lifecycle.
\<close>

section \<open>What an operation changes of a deal\<close>

text \<open>A deal without its history and without what the Runtime reported.\<close>

definition core :: "deal \<Rightarrow> deal" where
  "core d = d \<lparr> dl_history := [], dl_updatedAt := 0, dl_runtimeState := None, dl_runtimeRevision := None \<rparr>"

definition cores :: "seller \<Rightarrow> string \<Rightarrow> deal option" where
  "cores s k = map_option core (map_get (deals s) k)"

definition calm :: "'a operation \<Rightarrow> bool" where
  "calm m \<longleftrightarrow> (\<forall>s. cores (fst (m s)) = cores s)"

lemma calmD: "calm m \<Longrightarrow> cores (fst (m s)) = cores s"
  by (simp add: calm_def)

lemma calm_andThen: "calm m \<Longrightarrow> (\<And>x. calm (f x)) \<Longrightarrow> calm (andThen m f)"
  unfolding calm_def by (auto simp: andThen_def split: prod.split sum.split) (metis fst_conv)+

lemma andThen_calm: "(\<And>x. calm (f x)) \<Longrightarrow> cores (fst (andThen m f s)) = cores (fst (m s))"
  by (cases "m s") (auto simp: andThen_def calm_def split: sum.splits)

lemma core_logged [simp]: "core (logged now e d) = core d"
  by (simp add: core_def logged_def)

lemma calm_record: "calm (recordInteraction now k i)"
  by (auto simp: calm_def cores_def recordInteraction_get option.map_comp comp_def)

lemma calm_simple: "calm (pure x)" "calm (throw e)" "calm (lift r)" "calm (deal_now k)"
  by (simp_all add: calm_def pure_def throw_def lift_def deal_now_def split: option.split)

lemmas calm_intros = calm_andThen calm_record calm_simple

lemma cores_put: "cores (put_deal k d s) = (cores s)(k := Some (core d))"
  by (auto simp: cores_def put_deal_def map_get_set)

lemma cores_same: "map_get (deals s) k = Some d \<Longrightarrow> core d' = core d \<Longrightarrow> cores (put_deal k d' s) = cores s"
  by (auto simp: cores_put cores_def)

lemma calm_observe: "cores (fst (observeRuntimeStatus now k status t s)) = cores s"
proof (cases "map_get (deals s) k")
  case (Some d)
  have "cores (put_deal k (d \<lparr> dl_runtimeState := a, dl_runtimeRevision := b \<rparr>) s) = cores s" for a b
    by (rule cores_same[OF Some]) (simp add: core_def)
  note u = this[where b = "dl_runtimeRevision d", simplified] this
  show ?thesis unfolding observeRuntimeStatus_def Let_def Some option.case
    using u by (auto simp: andThen_calm[OF calm_simple(1)] calmD[OF calm_record])
qed (simp add: observeRuntimeStatus_def)

lemma calm_deliver_command: "cores (fst (deliver_command X now random k anchors ev h s)) = cores s"
  unfolding deliver_command_def by (subst andThen_calm) (auto intro!: calm_intros)

lemma revoke_cores:
  "cores (fst (revokeCapability now k s)) =
     (cores s)(k := map_option (\<lambda>d. d \<lparr> dl_capabilityRevoked := True \<rparr>) (cores s k))"
proof (cases "map_get (deals s) k")
  case None
  then show ?thesis by (auto simp: revokeCapability_def cores_def)
next
  case (Some d)
  show ?thesis
  proof (cases "dl_capabilityRevoked d")
    case True
    then show ?thesis using Some by (auto simp: revokeCapability_def cores_def core_def)
  next
    case False
    show ?thesis unfolding revokeCapability_def Some option.case if_not_P[OF False]
      by (subst andThen_calm[OF calm_simple(1)], subst calmD[OF calm_record])
        (cases d, simp add: cores_put cores_def Some core_def)
  qed
qed

lemma prune_keys_deals [simp]: "deals (prune_keys refs ks s) = deals s"
  by (induction refs ks s rule: prune_keys.induct) auto

lemma pruneNegotiations_deals [simp]: "deals (pruneNegotiations k s) = deals s"
  by (simp add: pruneNegotiations_def)

lemma quote_facts_deals: "deals (fst (quote_facts_step X now n facts s)) = deals s"
  by (auto simp: quote_facts_step_def answer_without_quote_def record_refusal_def store_negotiation_eq Let_def
      price_slice_def issue_quote_def throw_def split: quote_facts.split option.split sum.split)

lemma fst_andThen_pure: "fst (andThen m (\<lambda>(a, b). pure (f a b)) s) = fst (m s)"
  by (cases "m s") (auto simp: andThen_def pure_def split: sum.split)

lemma quote_deals: "deals (fst (quote X now random buyer body s)) = deals s"
  by (auto simp: quote_def Let_def case_prod_beta historyEntry_eqs fst_andThen_pure quote_facts_deals split: sum.split)

text \<open>Pruning takes away only deals still in formation.\<close>

lemma prune_scan_formation:
  assumes "map_get (deals s) k = Some d" and "map_ok ds" and "\<And>j x. map_get ds j = Some x \<Longrightarrow> map_get (deals s) j = Some x"
    and "\<not> isReclaimableDeal d" and "k \<notin> set ks"
  shows "map_get (deals (fst (prune_scan now ds ks s))) k = Some d \<and> k \<notin> set (snd (prune_scan now ds ks s))"
  using assms
proof (induction now ds ks s rule: prune_scan.induct)
  case (2 now j x ds ks s)
  from "2.prems"(2) have ok: "map_ok ds" "map_get ds j = None"
    by (auto simp: map_ok_def map_get_def map_of_eq_None_iff)
  have x: "map_get (deals s) j = Some x" using "2.prems"(3)[of j x] by (simp add: map_get_def)
  have sub: "map_get (deals s) i = Some y" "i \<noteq> j" if "map_get ds i = Some y" for i y
  proof -
    show "i \<noteq> j" using that ok(2) by auto
    then show "map_get (deals s) i = Some y" using "2.prems"(3)[of i y] that by (simp add: map_get_def)
  qed
  have kj: "k \<noteq> j" if "isReclaimableDeal x" using "2.prems"(1,4) x that by auto
  show ?case
  proof (cases "isReclaimableDeal x")
    case False
    then show ?thesis using 2(1)[OF False "2.prems"(1) ok(1) sub(1) "2.prems"(4,5)] by simp
  next
    case True
    show ?thesis
    proof (cases "expired now x")
      case True
      have "map_get (deals (deleteDeal j s)) k = Some d" using "2.prems"(1) kj \<open>isReclaimableDeal x\<close> by (simp add: deleteDeal_get)
      moreover have "map_get (deals (deleteDeal j s)) i = Some y" if "map_get ds i = Some y" for i y
        using sub[OF that] by (simp add: deleteDeal_get)
      ultimately show ?thesis using 2(2)[OF _ True _ ok(1) _ "2.prems"(4,5)] \<open>isReclaimableDeal x\<close> True by simp
    next
      case False
      then show ?thesis
        using 2(3)[OF _ False "2.prems"(1) ok(1) sub(1) "2.prems"(4)] "2.prems"(5) kj \<open>isReclaimableDeal x\<close> by simp
    qed
  qed
qed simp

lemma pruneDeals_keeps:
  assumes "map_ok (deals s)" and "map_get (deals s) k = Some d" and "\<not> isReclaimableDeal d"
  shows "map_get (deals (pruneDeals now s)) k = Some d"
  using prune_scan_formation[of s k d "deals s" "[]" now] assms
  by (auto simp: pruneDeals_def Let_def case_prod_beta fold_delete_get dest: in_set_takeD)

lemma pruneDeals_cores:
  assumes "map_ok (deals s)"
  shows "cores (pruneDeals now s) k = cores s k \<or>
    (cores (pruneDeals now s) k = None \<and> (\<exists>d. cores s k = Some d \<and> dl_state d \<noteq> DELIVERED_LOCAL))"
proof (cases "map_get (deals s) k")
  case None
  then show ?thesis using pruneDeals_get(1)[of now s k] by (auto simp: cores_def)
next
  case (Some d)
  show ?thesis
  proof (cases "isReclaimableDeal d")
    case True
    then have "dl_state (core d) \<noteq> DELIVERED_LOCAL" by (auto simp: isReclaimableDeal_def core_def)
    then show ?thesis using pruneDeals_get(1)[of now s k] Some by (auto simp: cores_def)
  qed (use pruneDeals_keeps[OF assms Some] Some in \<open>simp add: cores_def\<close>)
qed


lemma open_deal_cores:
  "cores (fst (open_deal now k g contract buyer r s)) = (cores s)(k := Some (core (new_deal k g contract buyer now r)))"
proof -
  have "deals (fst (linkNegotiation g k now t)) = deals t" for t
    by (simp add: linkNegotiation_def split: option.split)
  then have "cores (fst (linkNegotiation g k now t)) = cores t" for t by (simp add: cores_def fun_eq_iff)
  then show ?thesis by (simp add: open_deal_def cores_put)
qed

lemma propose_cores:
  "cores (fst (propose X now random g contract buyer s)) = cores (pruneDeals now s) \<or>
   (\<exists>r. cores (fst (propose X now random g contract buyer s)) =
      (cores (pruneDeals now s))(''deal_'' @ to_hex random := Some (core (new_deal (''deal_'' @ to_hex random) g contract buyer now r))))"
proof (cases "selectedQuote (pruneDeals now s) g contract")
  case (Inl e)
  then show ?thesis unfolding propose_def Let_def by (subst andThen_lift, simp only: Inl sum.case, simp)
next
  case (Inr r)
  have "cores (fst (propose X now random g contract buyer s)) =
      cores (fst (open_deal now (''deal_'' @ to_hex random) g contract buyer r (pruneDeals now s)))"
    unfolding propose_def Let_def by (subst andThen_lift, simp only: Inr sum.case, rule andThen_calm, intro calm_intros)
  then show ?thesis unfolding open_deal_cores by blast
qed

lemma register_cores:
  "cores (fst (registerLiveDeal now k g contract buyer s)) = cores (pruneDeals now s) \<or>
   (cores (pruneDeals now s) k = None \<and> (\<exists>r. cores (fst (registerLiveDeal now k g contract buyer s)) =
      (cores (pruneDeals now s))(k := Some (core (new_deal k g contract buyer now r)))))"
proof (cases "selectedQuote (pruneDeals now s) g contract")
  case (Inl e)
  then show ?thesis unfolding registerLiveDeal_def Let_def by (subst andThen_lift, simp only: Inl sum.case, simp)
next
  case (Inr r)
  show ?thesis
  proof (cases "map_get (deals (pruneDeals now s)) k")
    case None
    have "cores (fst (registerLiveDeal now k g contract buyer s)) =
        cores (fst (open_deal now k g contract buyer r (pruneDeals now s)))"
      unfolding registerLiveDeal_def Let_def None option.case
      by (subst andThen_lift, simp only: Inr sum.case, rule andThen_calm, intro calm_intros)
    moreover have "cores (pruneDeals now s) k = None" using None by (simp add: cores_def)
    ultimately show ?thesis unfolding open_deal_cores by blast
  next
    case (Some d)
    then show ?thesis by (auto simp: registerLiveDeal_def Inr andThen_lift)
  qed
qed

lemma adopt_cores:
  "cores (adopt_contract k c s) = (cores s)(k := map_option (\<lambda>d. d \<lparr> dl_contract := c, dl_state := ACCEPTED_LOCAL \<rparr>) (cores s k))"
proof (cases "map_get (deals s) k")
  case (Some d)
  then show ?thesis by (cases d) (simp add: adopt_contract_def cores_put, simp add: cores_def core_def)
qed (auto simp: adopt_contract_def cores_def)

text \<open>An acceptance either changes nothing but the history or adopts a countersigned contract.\<close>

lemma accept_cases:
  obtains (refused) e where "snd (accept X now k sig chainId proposed s) = Inl e" "cores (fst (accept X now k sig chainId proposed s)) = cores s"
  | (accepted) d r c where "snd (accept X now k sig chainId proposed s) = Inr c" "map_get (deals s) k = Some d"
      "map_get (quotes s) (dl_negotiationId d) = Some r"
      "countersign X k d (case proposed of Some c \<Rightarrow> c | None \<Rightarrow> dl_contract d) r sig chainId = Inr c"
      "cores (fst (accept X now k sig chainId proposed s)) =
         (cores s)(k := map_option (\<lambda>d. d \<lparr> dl_contract := c, dl_state := ACCEPTED_LOCAL \<rparr>) (cores s k))"
proof (cases "map_get (deals s) k")
  case None
  then show ?thesis by (intro refused) (auto simp: accept_def)
next
  case (Some d)
  show ?thesis
  proof (cases "map_get (quotes s) (dl_negotiationId d)")
    case None
    then show ?thesis using Some by (intro refused) (auto simp: accept_def Let_def)
  next
    case (Some r)
    let ?s = "fst (recordInteraction now k (acceptance_request d k sig) s)"
    let ?c = "countersign X k d (case proposed of Some c \<Rightarrow> c | None \<Rightarrow> dl_contract d) r sig chainId"
    note d = \<open>map_get (deals s) k = Some d\<close>
    have c: "cores ?s = cores s" by (rule calmD[OF calm_record])
    have dk: "\<exists>x. map_get (deals ?s) k = Some x" by (simp add: recordInteraction_get d)
    show ?thesis
    proof (cases ?c)
      case (Inl e)
      have a: "accept X now k sig chainId proposed s = andThen (recordInteraction now k
          \<lparr> hi_phase = Formation, hi_direction = SellerToBuyer, hi_kind = ''acceptance-refused'',
            hi_summary = MessageOf e, hi_state = Some (state_shown d), hi_payload = None \<rparr>) (\<lambda>_. throw e) ?s"
        unfolding accept_def d option.case Let_def Some by (subst record_andThen[OF d], simp only: Inl sum.case)
      have "cores (fst (accept X now k sig chainId proposed s)) = cores s"
        unfolding a by (subst andThen_calm[OF calm_simple(2)], subst calmD[OF calm_record], rule c)
      moreover obtain x where "map_get (deals ?s) k = Some x" using dk by blast
      ultimately show ?thesis by (intro refused[of e]) (auto simp: a record_andThen throw_def)
    next
      case (Inr con)
      have a: "accept X now k sig chainId proposed s = andThen (recordInteraction now k
          (formation SellerToBuyer ''acceptance-result'' ''Seller countersigned the agreement''
             ''ACCEPTED_LOCAL'' [(''contract'', JObj con)])) (\<lambda>_. pure con) (adopt_contract k con ?s)"
        unfolding accept_def d option.case Let_def Some by (subst record_andThen[OF d], simp only: Inr sum.case)
      have "cores (fst (accept X now k sig chainId proposed s)) =
         (cores s)(k := map_option (\<lambda>d. d \<lparr> dl_contract := con, dl_state := ACCEPTED_LOCAL \<rparr>) (cores s k))"
        unfolding a by (subst andThen_calm[OF calm_simple(1)], subst calmD[OF calm_record], simp add: adopt_cores c)
      moreover obtain x where "map_get (deals (adopt_contract k con ?s)) k = Some x"
        using dk by (auto simp: adopt_contract_def put_deal_def map_get_set)
      ultimately show ?thesis using d Some Inr by (intro accepted[of con d r]) (auto simp: a record_andThen pure_def)
    qed
  qed
qed

lemma begin_deals: "prepareDelivery_begin X now random k s = (s', res) \<Longrightarrow> deals s' = deals s"
  by (erule begin_cases) auto

lemma finish_cores:
  "cores (fst (prepareDelivery_finish X now p s)) =
     (cores s)(pd_dealId p := map_option (with_delivery p) (cores s (pd_dealId p)))"
proof -
  have f: "cores (fst (prepareDelivery_finish X now p s)) = cores (fst (write_delivery now p s))"
    unfolding prepareDelivery_finish_def by (rule andThen_calm) (intro calm_intros)
  show ?thesis
  proof (cases "map_get (deals s) (pd_dealId p)")
    case None
    then show ?thesis by (auto simp: f write_delivery_def cores_def)
  next
    case (Some d)
    have "cores (fst (write_delivery now p s)) = cores (put_deal (pd_dealId p) (with_delivery p d) s)"
      unfolding write_delivery_def Let_def Some option.case
      by (subst andThen_calm[OF calm_simple(4)], rule calmD[OF calm_record])
    then show ?thesis by (cases d) (simp add: f cores_put, simp add: cores_def Some core_def with_delivery_def)
  qed
qed


section \<open>The lifecycle of a deal\<close>

text \<open>The changes of one deal, its history apart.\<close>

inductive core_step :: "deal option \<Rightarrow> deal option \<Rightarrow> bool" where
  same: "core_step a a"
| dropped: "dl_state d \<noteq> DELIVERED_LOCAL \<Longrightarrow> core_step (Some d) None"
| opened: "(\<And>d. a = Some d \<Longrightarrow> dl_state d \<noteq> DELIVERED_LOCAL) \<Longrightarrow> dl_state d' = PROPOSED_LOCAL \<Longrightarrow>
    dl_capabilityToken d' = None \<Longrightarrow> \<not> dl_capabilityRevoked d' \<Longrightarrow> core_step a (Some d')"
| agreed: "core_step (Some d) (Some (d \<lparr> dl_contract := c, dl_state := ACCEPTED_LOCAL \<rparr>))"
| served: "dl_state d \<noteq> PROPOSED_LOCAL \<Longrightarrow> core_step (Some d) (Some (with_delivery p d))"
| revoked: "core_step (Some d) (Some (d \<lparr> dl_capabilityRevoked := True \<rparr>))"

lemma core_sel [simp]:
  "dl_state (core d) = dl_state d" "dl_capabilityToken (core d) = dl_capabilityToken d"
  "dl_capabilityRevoked (core d) = dl_capabilityRevoked d" "dl_contract (core d) = dl_contract d"
  "dl_deliveryHash (core d) = dl_deliveryHash d" "dl_negotiationId (core d) = dl_negotiationId d"
  by (simp_all add: core_def)

lemma new_deal_sel [simp]:
  "dl_state (new_deal k g c b t r) = PROPOSED_LOCAL" "dl_capabilityToken (new_deal k g c b t r) = None"
  "\<not> dl_capabilityRevoked (new_deal k g c b t r)"
  by (simp_all add: new_deal_def)

lemma prune_core_step:
  assumes "seller_inv X P s"
  shows "core_step (cores s k) (cores (pruneDeals now s) k)"
    and "cores (pruneDeals now s) k = None \<Longrightarrow> cores s k = Some d \<Longrightarrow> dl_state d \<noteq> DELIVERED_LOCAL"
  using pruneDeals_cores[OF seller_invD(3)[OF assms], of now k] by (auto intro: core_step.intros)

lemma opened_after_prune:
  assumes "seller_inv X P s" and "cores (pruneDeals now s) k = None"
  shows "core_step (cores s k) (Some (core (new_deal k g c b now r)))"
  by (rule core_step.opened) (use prune_core_step(2)[OF assms] in auto)

lemma prune_and_open:
  assumes inv: "seller_inv X P s"
    and f: "f = cores (pruneDeals now s) \<or> (cores (pruneDeals now s) j = None \<and>
      (\<exists>r. f = (cores (pruneDeals now s))(j := Some (core (new_deal j g c b now r)))))"
  shows "core_step (cores s k) (f k)"
proof (cases "f k = cores (pruneDeals now s) k")
  case False
  with f obtain r where j: "k = j" "cores (pruneDeals now s) j = None" "f k = Some (core (new_deal j g c b now r))"
    by (auto split: if_splits)
  show ?thesis unfolding j(3) using opened_after_prune[OF inv] j(1,2) by simp
qed (simp add: prune_core_step(1)[OF inv])

lemmas seller_step_cases =
  seller_stepE[consumes 1, case_names quote propose register accept observe log_entry suspend failed finish send revoke]

lemma step_core:
  assumes "seller_step X (s, P) (s', P')" and inv: "seller_inv X P s"
  shows "core_step (cores s k) (cores s' k)"
  using assms(1)
proof (cases rule: seller_step_cases)
  case (quote random now buyer body)
  then show ?thesis by (simp add: cores_def quote_deals core_step.same)
next
  case (propose random now g contract buyer)
  have "cores (pruneDeals now s) (''deal_'' @ to_hex random) = None"
    using propose(1) pruneDeals_get(1)[of now s "''deal_'' @ to_hex random"] by (auto simp: cores_def)
  with propose_cores[of X now random g contract buyer s] show ?thesis
    unfolding propose(3) by (intro prune_and_open[OF inv]) blast
next
  case (register now j g contract buyer)
  show ?thesis unfolding register(2) by (rule prune_and_open[OF inv register_cores])
next
  case (accept now j sig chainId proposed)
  show ?thesis unfolding accept(1)
  proof (rule accept_cases[of X now j sig chainId proposed s], goal_cases)
    case (1 e)
    then show ?case by (simp add: core_step.same)
  next
    case (2 d r c)
    show ?case unfolding 2(5) by (cases "cores s j") (auto intro: core_step.intros)
  qed
next
  case (finish p now)
  have "dl_state d \<noteq> PROPOSED_LOCAL" if "cores s (pd_dealId p) = Some d" for d
    using that seller_invD(7)[OF inv finish(1)] by (auto simp: cores_def pending_ok_def)
  then show ?thesis unfolding finish(2) finish_cores
    by (cases "cores s (pd_dealId p)") (auto intro: core_step.intros)
next
  case (revoke now j)
  show ?thesis unfolding revoke(1) revoke_cores by (cases "cores s j") (auto intro: core_step.intros)
qed (auto simp: calm_observe calm_deliver_command calmD[OF calm_record] cores_def begin_deals intro: core_step.same)

text \<open>The abstract machine: a stage, and what the capability allows.\<close>

datatype stage = Offered | Agreed | Served

datatype capability = Ungranted | Granted string | Withdrawn

datatype lifecycle = NoDeal | Live stage capability

fun stage_of :: "deal_state \<Rightarrow> stage" where
  "stage_of PROPOSED_LOCAL = Offered"
| "stage_of ACCEPTED_LOCAL = Agreed"
| "stage_of DELIVERED_LOCAL = Served"

definition capability_of :: "deal \<Rightarrow> capability" where
  "capability_of d =
     (if dl_capabilityRevoked d then Withdrawn
      else case dl_capabilityToken d of None \<Rightarrow> Ungranted | Some c \<Rightarrow> Granted c)"

definition lifecycle_of :: "seller \<Rightarrow> string \<Rightarrow> lifecycle" where
  "lifecycle_of s k =
     (case map_get (deals s) k of
        None \<Rightarrow> NoDeal
      | Some d \<Rightarrow> Live (stage_of (dl_state d)) (capability_of d))"

inductive lifecycle_step :: "lifecycle \<Rightarrow> lifecycle \<Rightarrow> bool" where
  idle: "lifecycle_step l l"
| offer: "lifecycle_step NoDeal (Live Offered Ungranted)"
| renew: "st \<noteq> Served \<Longrightarrow> lifecycle_step (Live st a) (Live Offered Ungranted)"
| reclaim: "st \<noteq> Served \<Longrightarrow> lifecycle_step (Live st a) NoDeal"
| agree: "lifecycle_step (Live st a) (Live Agreed a)"
| serve: "st \<noteq> Offered \<Longrightarrow> a \<noteq> Withdrawn \<Longrightarrow> lifecycle_step (Live st a) (Live Served (Granted c))"
| serve_withdrawn: "st \<noteq> Offered \<Longrightarrow> lifecycle_step (Live st Withdrawn) (Live Served Withdrawn)"
| withdraw: "lifecycle_step (Live st a) (Live st Withdrawn)"

definition core_life :: "deal option \<Rightarrow> lifecycle" where
  "core_life c = (case c of None \<Rightarrow> NoDeal | Some d \<Rightarrow> Live (stage_of (dl_state d)) (capability_of d))"

lemma lifecycle_cores: "lifecycle_of s k = core_life (cores s k)"
  by (simp add: lifecycle_of_def core_life_def cores_def capability_of_def split: option.split)

lemma stage_of_eq [simp]: "stage_of t = Served \<longleftrightarrow> t = DELIVERED_LOCAL" "stage_of t = Offered \<longleftrightarrow> t = PROPOSED_LOCAL"
  by (cases t; simp)+

lemma core_step_life: "core_step a b \<Longrightarrow> lifecycle_step (core_life a) (core_life b)"
proof (induction rule: core_step.induct)
  case (opened a d')
  then have b: "core_life (Some d') = Live Offered Ungranted" by (simp add: core_life_def capability_of_def)
  show ?case unfolding b using opened(1) by (cases a) (auto simp: core_life_def intro: lifecycle_step.intros)
next
  case (served d p)
  then show ?case
    by (cases "dl_capabilityRevoked d")
      (auto simp: core_life_def with_delivery_def capability_of_def split: option.split intro: lifecycle_step.intros)
qed (auto simp: core_life_def capability_of_def intro: lifecycle_step.intros)

lemma step_lifecycle:
  "seller_step X (s, P) (s', P') \<Longrightarrow> seller_inv X P s \<Longrightarrow> lifecycle_step (lifecycle_of s k) (lifecycle_of s' k)"
  unfolding lifecycle_cores by (rule core_step_life) (rule step_core)

interpretation seller_life: refinement "seller_step X" "\<lambda>(s, P). seller_inv X P s" "\<lambda>(s, P). lifecycle_of s k" lifecycle_step
  for X k
  by unfold_locales (auto intro: step_inv step_lifecycle)

lemma reachable_run: "reachable X sp \<longleftrightarrow> (seller_step X)\<^sup>*\<^sup>* (new_seller, {}) sp"
proof
  show "reachable X sp \<Longrightarrow> (seller_step X)\<^sup>*\<^sup>* (new_seller, {}) sp"
    by (induction rule: reachable.induct) (auto intro: rtranclp.rtrancl_into_rtrancl)
  show "(seller_step X)\<^sup>*\<^sup>* (new_seller, {}) sp \<Longrightarrow> reachable X sp"
    by (induction rule: rtranclp_induct) (auto intro: reachable.intros)
qed

end
