(* ===== verification/SellerRun.thy ===== *)
theory SellerRun
  imports SellerLife
begin

text \<open>
  When the operations of the seller succeed: a proposal that selects a stored quote is taken, a
  contract that carries the quote and the buyer's signatures is countersigned, an accepted deal is
  delivered.  A concrete run shows that a delivered deal is reachable.
\<close>

section \<open>Proposals\<close>

lemma open_deal_stored:
  assumes "seller_inv X P s" and "map_get (quotes s) g = Some r"
  obtains s1 where "open_deal now k g contract buyer r s = (s1, Inr ())" "quotes s1 = quotes s"
    "map_get (deals s1) k = Some (new_deal k g contract buyer now r)"
proof -
  from seller_invD(5)[OF assms] obtain n where "map_get (negotiations s) g = Some n" by (auto simp: quote_ok_def)
  then show ?thesis
    by (intro that[of "fst (open_deal now k g contract buyer r s)"])
      (auto simp: open_deal_def linkNegotiation_def put_deal_def map_get_set)
qed

lemma selectedQuote_ok:
  assumes "map_get (quotes s) g = Some r"
    and "parseAcceptanceCriteria (text_of (member contract ''acceptanceCriteria'')) = Some c"
    and "ac_termsDocumentHash c = qr_termsDocumentHash r" and "member contract ''buyerAgentId'' = JStr (qr_buyerAgentId r)"
  shows "selectedQuote s g contract = Inr r"
  using assms by (simp add: selectedQuote_def)

lemma logged_sel [simp]:
  "dl_state (logged now e d) = dl_state d" "dl_contract (logged now e d) = dl_contract d"
  "dl_buyerAddress (logged now e d) = dl_buyerAddress d" "dl_negotiationId (logged now e d) = dl_negotiationId d"
  "dl_capabilityToken (logged now e d) = dl_capabilityToken d" "dl_capabilityRevoked (logged now e d) = dl_capabilityRevoked d"
  "dl_manifestBytes (logged now e d) = dl_manifestBytes d" "dl_csvBytes (logged now e d) = dl_csvBytes d"
  by (simp_all add: logged_def)

lemma propose_taken:
  assumes inv: "seller_inv X P s" and r: "map_get (quotes s) g = Some r"
    and sel: "parseAcceptanceCriteria (text_of (member contract ''acceptanceCriteria'')) = Some c"
      "ac_termsDocumentHash c = qr_termsDocumentHash r" "member contract ''buyerAgentId'' = JStr (qr_buyerAgentId r)"
    and h: "termsHashOf (sx_crypto X) contract = Inr h"
  obtains s' d where "propose X now random g contract buyer s = (s', Inr d)" "quotes s' = quotes s"
    "map_get (deals s') (''deal_'' @ to_hex random) = Some d" "dl_state d = PROPOSED_LOCAL" "dl_contract d = contract"
    "dl_buyerAddress d = buyer" "dl_negotiationId d = g" "\<not> dl_capabilityRevoked d"
proof -
  let ?s = "pruneDeals now s" and ?k = "''deal_'' @ to_hex random"
  have q: "map_get (quotes ?s) g = Some r" using r by (simp add: pruneDeals_get)
  note sq = selectedQuote_ok[OF q sel]
  obtain s1 where o: "open_deal now ?k g contract buyer r ?s = (s1, Inr ())" "quotes s1 = quotes ?s"
    "map_get (deals s1) ?k = Some (new_deal ?k g contract buyer now r)"
    using open_deal_stored[OF inv_pruneDeals[OF inv] q] by blast
  let ?i = "formation BuyerToSeller ''submit-proposal'' ''Buyer submitted a signed proposal based on the selected quote''
              ''PROPOSED_LOCAL'' (proposal_payload buyer contract)"
  let ?j = "formation SellerToBuyer ''proposal-ack'' ''Seller validated the quote reference and acknowledged the proposal''
              ''PROPOSED_LOCAL'' [(''dealId'', JStr ?k), (''termsHash'', JStr h)]"
  let ?s2 = "fst (recordInteraction now ?k ?i s1)"
  let ?s3 = "fst (recordInteraction now ?k ?j ?s2)"
  let ?d2 = "logged now (snd (historyEntry now ?i s1)) (new_deal ?k g contract buyer now r)"
  let ?d3 = "logged now (snd (historyEntry now ?j ?s2)) ?d2"
  have d2: "map_get (deals ?s2) ?k = Some ?d2" unfolding recordInteraction_get o(3) by simp
  have d3: "map_get (deals ?s3) ?k = Some ?d3" unfolding recordInteraction_get[of now ?k ?j ?s2] d2 by simp
  have "propose X now random g contract buyer s = (?s3, Inr ?d3)"
    unfolding propose_def Let_def
    by (subst andThen_lift, simp only: sq sum.case, subst andThen_Inr, rule o(1), subst record_andThen, rule o(3),
      subst andThen_lift, simp only: h map_error.simps sum.case, subst record_andThen, rule d2, simp only: deal_now_def d3 option.case)
  then show ?thesis
    by (rule that[OF _ _ d3]) (simp_all add: recordInteraction_frame o(2) pruneDeals_get new_deal_def)
qed

section \<open>Acceptance\<close>

lemma accept_countersigns:
  assumes inv: "seller_inv X P s" and crypto: "curve_ok (sx_crypto X)" "digests_ok (sx_crypto X)"
    and d: "map_get (deals s) k = Some d" and r: "map_get (quotes s) (dl_negotiationId d) = Some r"
    and t: "terms_acceptable (sx_crypto X) (sx_env X) (dl_contract d) (quote_context r)"
    and h: "termsHashOf (sx_crypto X) (dl_contract d) = Inr h"
    and sg: "member (dl_contract d) ''signatures'' = JArr [JObj ps]"
      "getp (JObj ps) ''signerAgentId'' = JStr buyer" "member (dl_contract d) ''buyerAgentId'' = JStr buyer"
      "getp (JObj ps) ''sig'' = JStr (sign (sx_crypto X) bk (termsSigningBytes h))"
      "dl_buyerAddress d = addressOfPrivateKey (sx_crypto X) bk"
    and as: "signStruct (sx_crypto X) bk (agreementDomain (Fin (of_int DEMO_CHAIN_ID))) (TYPE_STRINGS Agreement)
      (agreementStruct k h (js_string (sub_member (dl_contract d) ''price'' ''amount'')) (dl_buyerAddress d) (seller_address X)) = Inr sig"
  shows "\<exists>c. countersign X k d (dl_contract d) r sig None = Inr c"
proof -
  let ?i = "\<lparr> ai_contract = dl_contract d, ai_buyerAddress = dl_buyerAddress d, ai_dealId = k,
     ai_buyerAgreementSig = sig, ai_privateKey = sx_privateKey X, ai_keyId = seller_keyId X,
     ai_sellerAddress = seller_address X, ai_chainId = None, ai_validation = quote_context r \<rparr>"
  have v: "\<lparr> tv_termsDocument = qr_termsDocument r, tv_recomputed = tv_recomputed (quote_context r) \<rparr> = quote_context r"
    by (simp add: quote_context_def)
  have "\<exists>c. acceptTerms (sx_crypto X) (sx_env X) ?i = Inr c"
    by (rule acceptTerms_total[OF crypto, where h = h and ps = ps and buyer = buyer and bk = bk])
      (use t h sg as in \<open>simp_all add: accepted_domain_def accepted_struct_def\<close>)
  then show ?thesis
    unfolding countersign_def recompute_quote[OF seller_invD(5)[OF inv r]] res_bind_simps v map_error_Inr .
qed

lemma accept_result:
  assumes d: "map_get (deals s) k = Some d" and r: "map_get (quotes s) (dl_negotiationId d) = Some r"
    and c: "countersign X k d (case proposed of Some c \<Rightarrow> c | None \<Rightarrow> dl_contract d) r sig chainId = Inr c"
  obtains s' d' where "accept X now k sig chainId proposed s = (s', Inr c)" "quotes s' = quotes s"
    "map_get (deals s') k = Some d'" "dl_state d' = ACCEPTED_LOCAL" "dl_contract d' = c" "dl_negotiationId d' = dl_negotiationId d"
    "dl_capabilityRevoked d' = dl_capabilityRevoked d" "dl_buyerAddress d' = dl_buyerAddress d"
proof -
  let ?i = "acceptance_request d k sig"
  let ?s = "fst (recordInteraction now k ?i s)" and ?d = "logged now (snd (historyEntry now ?i s)) d"
  let ?j = "formation SellerToBuyer ''acceptance-result'' ''Seller countersigned the agreement''
             ''ACCEPTED_LOCAL'' [(''contract'', JObj c)]"
  let ?t = "put_deal k (?d \<lparr> dl_contract := c, dl_state := ACCEPTED_LOCAL \<rparr>) ?s"
  have d1: "map_get (deals ?s) k = Some ?d" unfolding recordInteraction_get d by simp
  have t: "map_get (deals ?t) k = Some (?d \<lparr> dl_contract := c, dl_state := ACCEPTED_LOCAL \<rparr>)" by (simp add: put_deal_def map_get_set)
  have a: "accept X now k sig chainId proposed s = (fst (recordInteraction now k ?j ?t), Inr c)"
    unfolding accept_def d option.case Let_def r
    by (subst record_andThen, rule d, simp only: c sum.case adopt_contract_def d1 option.case, subst record_andThen, rule t, simp only: pure_def)
  have b: "map_get (deals (fst (recordInteraction now k ?j ?t))) k =
      Some (logged now (snd (historyEntry now ?j ?t)) (?d \<lparr> dl_contract := c, dl_state := ACCEPTED_LOCAL \<rparr>))"
    unfolding recordInteraction_get t by simp
  show ?thesis by (rule that[OF a _ b]) (simp_all add: recordInteraction_frame put_deal_def)
qed

section \<open>Delivery\<close>

lemma begin_delivers:
  assumes d: "map_get (deals s) k = Some d" "dl_state d \<noteq> PROPOSED_LOCAL" and r: "map_get (quotes s) (dl_negotiationId d) = Some r"
    and g: "generateDelivery (sx_crypto X) (sx_localeCompare X) (memory_put (sx_crypto X))
      (delivery_input_of X now k (artifact_url X k ''data.csv'' (to_hex random)) r) (artifacts s) = (a, Inr out)"
  shows "prepareDelivery_begin X now random k s =
    (s \<lparr> artifacts := a \<rparr>, Inr \<lparr> pd_dealId = k, pd_cap = to_hex random, pd_out = out \<rparr>)"
  using d r g by (simp add: prepareDelivery_begin_def)

lemma finish_writes:
  assumes d: "map_get (deals s) (pd_dealId p) = Some d"
  obtains d' where "map_get (deals (fst (prepareDelivery_finish X now p s))) (pd_dealId p) = Some d'"
    "core d' = core (with_delivery p d)"
proof -
  have "cores (fst (prepareDelivery_finish X now p s)) (pd_dealId p) = Some (with_delivery p (core d))"
    using d by (simp add: finish_cores) (simp add: cores_def)
  moreover have "with_delivery p (core d) = core (with_delivery p d)" by (cases d) (simp add: with_delivery_def core_def)
  ultimately show ?thesis using that by (auto simp: cores_def)
qed

section \<open>A run\<close>

text \<open>One tract whose measure is published as zero, and a buyer who asks for one row of it.\<close>

definition quiet_seller :: seller_config where
  "quiet_seller = \<lparr> sx_crypto = sample_crypto, sx_localeCompare = str_le, sx_env = (\<lambda>_. None), sx_privateKey = ''s'',
     sx_publicUrl = ''http://s'', sx_seedSecret = ''x'', sx_verifierHash = verifierBundleHash sample_crypto (\<lambda>_. []),
     sx_corpus = corpus_from [quiet_tract], sx_corpusHash = ''c'' \<rparr>"

definition quiet_body :: jsval where
  "quiet_body = JObj [(''columns'', JArr [JStr ''DIABETES'']), (''rowsPerTract'', JInt 1)]"

definition quiet_buyer :: string where
  "quiet_buyer = ''did:kite:b:x''"

lemma quiet_readQuery: "readQuery quiet_body = quiet_query"
  by (simp add: readQuery_def quiet_body_def quiet_query_def as_object_def typeof_def strArray_def string_array_def)

lemma quiet_copy: "json_copy (as_object quiet_body) = quiet_body"
  by (simp add: quiet_body_def as_object_def typeof_def num_is_finite_def)

lemma quiet_density: "densityAsked quiet_body CARD_DENSITY = 1"
  by (simp add: densityAsked_def quiet_body_def as_object_def typeof_def CARD_DENSITY_eq js_number_def)

lemma quiet_criteria: "\<exists>h. criteriaHashOf C quiet_body = Inr h"
  by (simp add: criteriaHashOf_def quiet_body_def typeof_def canonical_order_def sorted_member_def spread_def)

lemma quiet_jcs: "\<exists>b. jcs sample_crypto (JObj es) = Inr b"
  by (simp add: jcs_def sample_crypto_def)

lemma andThen_at: "m s = (s', Inr x) \<Longrightarrow> f x s' = t \<Longrightarrow> andThen m f s = t"
  by (simp add: andThen_def)

lemma quiet_price:
  assumes "priceQuery 1 [''DIABETES''] CARD_RATES = Inr p"
  shows "price_amount p = ''6.00''"
proof -
  have c: "CARD_RATES = whole_card 100 0 500 500 10000" by (simp add: CARD_RATES_eq whole_card_def)
  have sold: "set [''DIABETES''] \<subseteq> set MEASURE_KEYS" by (simp add: MEASURE_KEYS_def)
  have "count_tier Standard [''DIABETES''] = 0" "count_tier Premium [''DIABETES''] = 1"
    using count_tier_filter[OF sold, of Standard] count_tier_filter[OF sold, of Premium]
    by (simp_all add: SOLD_MEASURES_def map_get_def)
  then have sub: "formula_subtotal 1 [''DIABETES''] 100 0 500 500 = 600"
    by (simp add: formula_subtotal_def div_half_up_def)
  have cents: "div_half_up (formula_subtotal 1 [''DIABETES''] 100 0 500 500 * 10000) 10000 = 600"
    unfolding sub by (simp add: div_half_up_def)
  have "listCents p = 600"
  proof -
    have "formula_subtotal 1 [''DIABETES''] 100 0 500 500 * 10000 \<le> 2 ^ 50" unfolding sub by simp
    from priceQuery_whole[OF sold _ _ _ _ _ _ this] cents assms show ?thesis unfolding c by auto
  qed
  moreover have "''$'' @ to_fixed 2 (fdiv (of_int 600) 100) = dollars 600" by (rule to_fixed_cents) simp_all
  moreover have "dollars 600 = ''$6.00''" by code_simp
  ultimately show ?thesis by (simp add: price_amount_def)
qed

lemma quiet_seller_quote:
  obtains qa h p d where "seller_quote quiet_seller quiet_body = Inr (QuoteAccepted qa)" "qa_statsHash qa = Some h"
    "qb_price (qa_body qa) = Some p" "qb_deliverable (qa_body qa) = Some d" "qa_rowsPerTract qa = 1" "qa_tractCount qa = 1"
    "price_amount p = ''6.00''"
    "\<exists>a. statsCommitment sample_crypto str_le (aggregateStats [quiet_tract] (columns quiet_query)) quiet_query = Inr (h, a)"
proof -
  let ?c = "corpus_from [quiet_tract]"
  have "validateQuery quiet_query ?c = []"
    by (simp add: validateQuery_Nil query_problems_iff query_accepted_def quiet_query_def or_empty_def object_entries_def MEASURE_KEYS_def)
  then have v: "validateQuery (readQuery quiet_body) ?c = []" by (simp add: quiet_readQuery)
  obtain h a where st: "statsCommitment sample_crypto str_le (aggregateStats [quiet_tract] (columns quiet_query)) quiet_query = Inr (h, a)"
    using quiet_hash by blast
  then obtain f where f: "composeQuote sample_crypto str_le ?c quiet_body CARD_RATES CARD_DENSITY = Inr f"
    using composeQuote_total[OF v, of sample_crypto str_le CARD_RATES CARD_DENSITY] quiet_criteria
    unfolding quiet_readQuery quiet_slice by blast
  obtain qa where qa: "f = QuoteAccepted qa" using f v by (cases f) (auto simp: composeQuote_refused)
  note q = composeQuote_accepted[OF f[unfolded qa]]
  have h: "qa_statsHash qa = Some h" using q(6) st by (simp add: quiet_readQuery quiet_slice commitment_of_slice_def)
  have sq: "seller_quote quiet_seller quiet_body = Inr (QuoteAccepted qa)"
    using f qa by (simp add: seller_quote_def quiet_seller_def)
  from seller_quote_parts[OF sq h] obtain p d where pd: "qb_price (qa_body qa) = Some p" "qb_deliverable (qa_body qa) = Some d" by blast
  have "price_of_slice 1 (columns quiet_query) CARD_RATES = Inr (Some p)"
    using q(5) pd(1) by (simp add: quiet_readQuery quiet_slice)
  then have "priceQuery 1 [''DIABETES''] CARD_RATES = Inr p"
    by (simp add: price_of_slice_def split: sum.splits) (simp add: quiet_query_def)
  then have "price_amount p = ''6.00''" by (rule quiet_price)
  then show ?thesis
    using that[OF sq h pd] q(2,3) st by (simp add: quiet_readQuery quiet_slice quiet_density)
qed

lemma quiet_one_person:
  "generateSyntheticPeople C lc [quiet_tract] \<lparr> opt_rowCount = 1, opt_rowsPerTract = Some 1, opt_seed = sd, opt_columns = columns quiet_query \<rparr>
     = Inr [make_person C \<lparr> opt_rowCount = 1, opt_rowsPerTract = Some 1, opt_seed = sd, opt_columns = columns quiet_query \<rparr> 0 quiet_tract]"
  by (simp add: generateSyntheticPeople_def MAX_ROWS_def assignment_def
      allocateRows_def row_tract_def flat_assignment_def remainder_order_def)

lemma quiet_one_calibrated:
  "isCalibrated (calibrate [make_person C \<lparr> opt_rowCount = 1, opt_rowsPerTract = Some 1, opt_seed = sd,
     opt_columns = columns quiet_query \<rparr> 0 quiet_tract] [quiet_tract] (columns quiet_query))"
  by (simp add: isCalibrated_def calibrate_def quiet_query_def calibrate_measure_def Let_def make_person_def
      quiet_flag map_get_set case_prod_beta calibrationTolerancePp_def)
    (simp add: weigh_tract_def rows_by_tract_def tract_value_def map_get_def fsub_def Let_def quiet_tract_def sample_tract_def
      MEASURE_KEYS_def fmul_def fadd_def fdiv_def le_max_iff_disj)

lemma quiet_generation:
  assumes "statsCommitment sample_crypto str_le (aggregateStats [quiet_tract] (columns quiet_query)) quiet_query = Inr (h, a)"
    and i: "di_query i = quiet_query" "di_corpus i = corpus_from [quiet_tract]" "di_rowsPerTract i = 1"
      "di_quotedStatsHash i = Some h"
  shows "\<exists>s' r. generateDelivery sample_crypto str_le (memory_put sample_crypto) i s = (s', Inr r)"
proof -
  have o: "delivery_options i 1 = \<lparr> opt_rowCount = 1, opt_rowsPerTract = Some 1, opt_seed = di_seed i, opt_columns = columns quiet_query \<rparr>"
    by (simp add: delivery_options_def i)
  have "\<exists>c. delivery_content_of sample_crypto str_le i = Inr c"
    using assms(1) quiet_one_person[of sample_crypto str_le "di_seed i"] quiet_one_calibrated[of sample_crypto "di_seed i"]
    by (auto simp: delivery_content_of_def Let_def i quiet_slice o[simplified])
  moreover have "jcs sample_crypto (manifest_js m) = Inr (the (json_stringify (manifest_js m)))" for m
    by (simp add: jcs_def sample_crypto_def manifest_js_def)
  ultimately show ?thesis by (auto simp: generateDelivery_def Let_def case_prod_beta)
qed

lemma quiet_quoted:
  obtains s1 r n facts where "quote quiet_seller 0 ''r'' quiet_buyer quiet_body new_seller = (s1, Inr (facts, n, Some r))"
    "map_get (quotes s1) ''neg_72'' = Some r" "deals s1 = []" "qr_buyerAgentId r = quiet_buyer" "qr_queryBody r = quiet_body"
    "td_rowsPerTract (qr_termsDocument r) = 1" "td_priceAmount (qr_termsDocument r) = ''6.00''"
    "termsDocumentHashOf sample_crypto (qr_termsDocument r) = Inr (qr_termsDocumentHash r)"
    "\<exists>a. statsCommitment sample_crypto str_le (aggregateStats [quiet_tract] (columns quiet_query)) quiet_query =
       Inr (td_statsHash (qr_termsDocument r), a)"
proof -
  obtain qa h p d where q: "seller_quote quiet_seller quiet_body = Inr (QuoteAccepted qa)" "qa_statsHash qa = Some h"
    "qb_price (qa_body qa) = Some p" "qb_deliverable (qa_body qa) = Some d" "qa_rowsPerTract qa = 1" "qa_tractCount qa = 1"
    "price_amount p = ''6.00''"
    "\<exists>a. statsCommitment sample_crypto str_le (aggregateStats [quiet_tract] (columns quiet_query)) quiet_query = Inr (h, a)"
    by (rule quiet_seller_quote)
  let ?doc = "terms_of_quote quiet_seller qa h p d"
  obtain dh where dh: "termsDocumentHashOf sample_crypto ?doc = Inr dh"
    using quiet_jcs[of "terms_members ?doc"] by (auto simp: termsDocumentHashOf_def)
  have did: "BUYER_DID_PATTERN quiet_buyer" by code_simp
  have id: "''neg_'' @ to_hex ''r'' = ''neg_72''" by code_simp
  have c: "sx_crypto quiet_seller = sample_crypto" by (simp add: quiet_seller_def)
  let ?e = "snd (historyEntry 0 (query_entry quiet_buyer quiet_body) new_seller)"
  let ?s = "new_seller \<lparr> historySequence := 1 \<rparr>"
  let ?n = "new_negotiation 0 ''neg_72'' quiet_buyer quiet_body ?e"
  let ?iss = "issue_quote quiet_seller 0 ?n qa ?doc dh ?s"
  have st: "quote_facts_step quiet_seller 0 ?n (QuoteAccepted qa) ?s =
      (fst ?iss, Inr (fst (snd ?iss), Some (snd (snd ?iss))))"
    by (simp add: quote_facts_step_def q price_slice_def c dh case_prod_beta Let_def)
  have hs: "fst (historyEntry 0 (query_entry quiet_buyer quiet_body) new_seller) = ?s"
    by (simp add: historyEntry_eqs new_seller_def)
  have qt: "quote quiet_seller 0 ''r'' quiet_buyer quiet_body new_seller =
      (fst ?iss, Inr (QuoteAccepted qa, fst (snd ?iss), Some (snd (snd ?iss))))"
    unfolding quote_def Let_def case_prod_beta quiet_copy id hs
    by (simp only: did not_True_eq_False if_False q(1) sum.case, rule andThen_at, rule st, simp add: pure_def)
  have f: "map_get (quotes (fst ?iss)) ''neg_72'' = Some (snd (snd ?iss))" "deals (fst ?iss) = []"
    "qr_buyerAgentId (snd (snd ?iss)) = quiet_buyer" "qr_queryBody (snd (snd ?iss)) = quiet_body"
    "qr_termsDocument (snd (snd ?iss)) = ?doc" "qr_termsDocumentHash (snd (snd ?iss)) = dh"
    by (simp_all add: issue_quote_def store_negotiation_eq Let_def new_negotiation_def new_seller_def map_set_def
        pruneNegotiations_def MAX_OPEN_NEGOTIATIONS_def map_get_def)
  have t: "td_rowsPerTract ?doc = 1" "td_priceAmount ?doc = ''6.00''" "td_statsHash ?doc = h"
    using q(5,7) by (simp_all add: terms_of_quote_def)
  show ?thesis
    by (rule that[OF qt f(1-4)]) (use t q(8) dh in \<open>simp_all only: f(5,6)\<close>)
qed


definition quiet_contract :: "string \<Rightarrow> string \<Rightarrow> json" where
  "quiet_contract docHash sig =
     map_set ''signatures'' (JArr [JObj [(''signerAgentId'', JStr quiet_buyer), (''sig'', JStr sig)]])
       (map_set ''price'' (JObj [(''asset'', JStr ''USDC''), (''amount'', JStr ''6.00'')]) (sample_unsigned docHash))"

lemma quiet_contract_members:
  "member (quiet_contract dh sig) ''signatures'' = JArr [JObj [(''signerAgentId'', JStr quiet_buyer), (''sig'', JStr sig)]]"
  "member (quiet_contract dh sig) ''buyerAgentId'' = JStr quiet_buyer"
  "member (quiet_contract dh sig) ''acceptanceCriteria'' = JStr (buildAcceptanceCriteria dh ''http://s'')"
  "js_string (sub_member (quiet_contract dh sig) ''price'' ''amount'') = ''6.00''"
  unfolding quiet_contract_def sub_member_def member_map_set by (simp_all add: sample_unsigned_def quiet_buyer_def)

lemma quiet_pinned:
  assumes "termsDocumentHashOf sample_crypto doc = Inr dh"
  shows "\<exists>c. parseAcceptanceCriteria (text_of (member (quiet_contract dh sig) ''acceptanceCriteria'')) = Some c \<and>
    ac_termsDocumentHash c = dh"
proof -
  have "no_space (locator_base ''http://s'')" by code_simp
  from parse_build[OF terms_hash_well_formed[OF sample_crypto_ok(1) assms] this] show ?thesis
    by (simp add: quiet_contract_members text_of_def)
qed

lemma quiet_acceptable:
  assumes "termsDocumentHashOf sample_crypto (qr_termsDocument r) = Inr dh" and "td_priceAmount (qr_termsDocument r) = ''6.00''"
  shows "terms_acceptable sample_crypto (\<lambda>_. None) (quiet_contract dh sig) (quote_context r)"
proof -
  obtain c where c: "parseAcceptanceCriteria (text_of (member (quiet_contract dh sig) ''acceptanceCriteria'')) = Some c"
    "ac_termsDocumentHash c = dh" using quiet_pinned[OF assms(1)] by blast
  have m: "member (quiet_contract dh sig) k = (if k = ''signatures''
      then JArr [JObj [(''signerAgentId'', JStr quiet_buyer), (''sig'', JStr sig)]] else if k = ''price''
      then JObj [(''asset'', JStr ''USDC''), (''amount'', JStr ''6.00'')] else member (sample_unsigned dh) k)" for k
    by (simp add: quiet_contract_def)
  show ?thesis
    unfolding terms_acceptable_def sub_member_def c(1) using c(2) assms
    unfolding m by (simp add: sample_unsigned_def quote_context_def text_of_def js_trim_def is_ws_def SELLER_AGENT_ID_def env_or_def)
qed

lemma quiet_seller_sel [simp]:
  "sx_crypto quiet_seller = sample_crypto" "sx_localeCompare quiet_seller = str_le" "sx_env quiet_seller = (\<lambda>_. None)"
  "sx_corpus quiet_seller = corpus_from [quiet_tract]" "sx_privateKey quiet_seller = ''s''"
  by (simp_all add: quiet_seller_def)

lemma quiet_agreement:
  assumes "well_formed_ref h"
  shows "\<exists>sig. signStruct sample_crypto ''b'' (agreementDomain (Fin (of_int DEMO_CHAIN_ID))) (TYPE_STRINGS Agreement)
      (agreementStruct k h ''6.00'' (addressOfPrivateKey sample_crypto ''b'') (seller_address quiet_seller)) = Inr sig"
proof -
  have af: "address_form (addressOfPrivateKey sample_crypto x)" for x
    using address_of_pubkey_form[OF sample_crypto_ok(1)] by (simp add: addressOfPrivateKey_def)
  have usdc: "usdcBaseUnits ''6.00'' = Inr 6000000" by code_simp
  from agreement_preimage_total[OF assms usdc _ _ af[of "''b''"] af[of "''s''"], where c = DEMO_CHAIN_ID and C = sample_crypto and d = k]
  show ?thesis by (auto simp: signStruct_def seller_address_def DEMO_CHAIN_ID_def simp del: TYPE_STRINGS.simps)
qed

text \<open>The buyer takes the quote and proposes.\<close>

definition quiet_key :: string where
  "quiet_key = ''deal_'' @ to_hex ''d''"

lemma quiet_proposed:
  obtains s d r h sig where "reachable quiet_seller (s, {})" "map_get (deals s) quiet_key = Some d"
    "dl_state d = PROPOSED_LOCAL" "\<not> dl_capabilityRevoked d" "map_get (quotes s) (dl_negotiationId d) = Some r"
    "terms_acceptable sample_crypto (\<lambda>_. None) (dl_contract d) (quote_context r)"
    "termsHashOf sample_crypto (dl_contract d) = Inr h"
    "dl_contract d = quiet_contract (qr_termsDocumentHash r) (sign sample_crypto ''b'' (termsSigningBytes h))"
    "dl_buyerAddress d = addressOfPrivateKey sample_crypto ''b''"
    "signStruct sample_crypto ''b'' (agreementDomain (Fin (of_int DEMO_CHAIN_ID))) (TYPE_STRINGS Agreement)
      (agreementStruct quiet_key h (js_string (sub_member (dl_contract d) ''price'' ''amount'')) (dl_buyerAddress d)
        (seller_address quiet_seller)) = Inr sig"
    "qr_queryBody r = quiet_body" "td_rowsPerTract (qr_termsDocument r) = 1"
    "\<exists>a. statsCommitment sample_crypto str_le (aggregateStats [quiet_tract] (columns quiet_query)) quiet_query =
       Inr (td_statsHash (qr_termsDocument r), a)"
proof -
  let ?X = quiet_seller
  obtain s1 r n facts where q: "quote ?X 0 ''r'' quiet_buyer quiet_body new_seller = (s1, Inr (facts, n, Some r))"
    "map_get (quotes s1) ''neg_72'' = Some r" "deals s1 = []" "qr_buyerAgentId r = quiet_buyer" "qr_queryBody r = quiet_body"
    "td_rowsPerTract (qr_termsDocument r) = 1" "td_priceAmount (qr_termsDocument r) = ''6.00''"
    "termsDocumentHashOf sample_crypto (qr_termsDocument r) = Inr (qr_termsDocumentHash r)"
    "\<exists>a. statsCommitment sample_crypto str_le (aggregateStats [quiet_tract] (columns quiet_query)) quiet_query =
       Inr (td_statsHash (qr_termsDocument r), a)"
    by (rule quiet_quoted)
  let ?dh = "qr_termsDocumentHash r"
  have "map_get (negotiations new_seller) (''neg_'' @ to_hex ''r'') = None" by (simp add: new_seller_def)
  from reachable.later[OF reachable.start seller_step.quote_step[OF this, where X = ?X and now = 0 and buyer = quiet_buyer and body = quiet_body]]
  have r1: "reachable ?X (s1, {})" unfolding q(1) fst_conv .
  note i1 = reachable_inv[OF r1, simplified]
  have one: "termsHashOf sample_crypto (quiet_contract ?dh x) = termsHashOf sample_crypto (quiet_contract ?dh [])" for x
    by (simp add: quiet_contract_def termsHashOf_signatures)
  obtain h where h0: "termsHashOf sample_crypto (quiet_contract ?dh []) = Inr h"
    using quiet_jcs[of "omit [''signatures'', ''termsHash''] (quiet_contract ?dh [])"] by (auto simp: termsHashOf_def)
  have h: "termsHashOf sample_crypto (quiet_contract ?dh x) = Inr h" for x unfolding one[of x] by (rule h0)
  let ?c = "quiet_contract ?dh (sign sample_crypto ''b'' (termsSigningBytes h))"
  let ?buyer = "addressOfPrivateKey sample_crypto ''b''"
  obtain c where c: "parseAcceptanceCriteria (text_of (member ?c ''acceptanceCriteria'')) = Some c" "ac_termsDocumentHash c = ?dh"
    using quiet_pinned[OF q(8)] by blast
  have bc: "member ?c ''buyerAgentId'' = JStr (qr_buyerAgentId r)" by (simp add: quiet_contract_members q(4))
  have hx: "termsHashOf (sx_crypto ?X) ?c = Inr h" using h by simp
  obtain s2 d2 where p: "propose ?X 0 ''d'' ''neg_72'' ?c ?buyer s1 = (s2, Inr d2)" "quotes s2 = quotes s1"
    "map_get (deals s2) quiet_key = Some d2" "dl_state d2 = PROPOSED_LOCAL" "dl_contract d2 = ?c" "dl_buyerAddress d2 = ?buyer"
    "dl_negotiationId d2 = ''neg_72''" "\<not> dl_capabilityRevoked d2"
    unfolding quiet_key_def by (rule propose_taken[OF i1 q(2) c bc hx])
  have f1: "map_get (deals s1) (''deal_'' @ to_hex ''d'') = None" by (simp add: q(3))
  from reachable.later[OF r1 seller_step.propose_step[OF f1, where X = ?X and P = "{}" and now = 0 and g = "''neg_72''" and contract = ?c and buyerAddress = ?buyer]]
  have r2: "reachable ?X (s2, {})" unfolding p(1) fst_conv by simp
  note i2 = reachable_inv[OF r2, simplified]
  have qr2: "map_get (quotes s2) (dl_negotiationId d2) = Some r" using p(2,7) q(2) by simp
  have wf: "well_formed_ref h" using h sha256Ref_well_formed[OF sample_crypto_ok(1)] by (auto simp: termsHashOf_def res_bind_Inr_iff)
  obtain sig where sig: "signStruct sample_crypto ''b'' (agreementDomain (Fin (of_int DEMO_CHAIN_ID))) (TYPE_STRINGS Agreement)
      (agreementStruct quiet_key h ''6.00'' ?buyer (seller_address ?X)) = Inr sig"
    using quiet_agreement[OF wf] by blast
  show ?thesis
    by (rule that[OF r2 p(3,4,8) qr2, where h = h and sig = sig])
      (use quiet_acceptable[OF q(8,7)] h sig q(5,6,9) in \<open>simp_all add: p(5,6) quiet_contract_members\<close>)
qed

text \<open>Both sign, and the seller can deliver.\<close>

lemma quiet_accepted:
  obtains s d r h st out where "reachable quiet_seller (s, {})" "map_get (deals s) quiet_key = Some d"
    "dl_state d = ACCEPTED_LOCAL" "\<not> dl_capabilityRevoked d" "map_get (quotes s) (dl_negotiationId d) = Some r"
    "termsHashOf sample_crypto (dl_contract d) = Inr h" "dl_buyerAddress d = addressOfPrivateKey sample_crypto ''b''"
    "generateDelivery sample_crypto str_le (memory_put sample_crypto)
       (delivery_input_of quiet_seller 0 quiet_key (artifact_url quiet_seller quiet_key ''data.csv'' (to_hex ''t'')) r) (artifacts s) = (st, Inr out)"
proof -
  let ?X = quiet_seller and ?k = quiet_key
  obtain s2 d2 r h sig where p: "reachable quiet_seller (s2, {})" "map_get (deals s2) quiet_key = Some d2"
    "dl_state d2 = PROPOSED_LOCAL" "\<not> dl_capabilityRevoked d2" "map_get (quotes s2) (dl_negotiationId d2) = Some r"
    "terms_acceptable sample_crypto (\<lambda>_. None) (dl_contract d2) (quote_context r)"
    "termsHashOf sample_crypto (dl_contract d2) = Inr h"
    "dl_contract d2 = quiet_contract (qr_termsDocumentHash r) (sign sample_crypto ''b'' (termsSigningBytes h))"
    "dl_buyerAddress d2 = addressOfPrivateKey sample_crypto ''b''"
    "signStruct sample_crypto ''b'' (agreementDomain (Fin (of_int DEMO_CHAIN_ID))) (TYPE_STRINGS Agreement)
      (agreementStruct quiet_key h (js_string (sub_member (dl_contract d2) ''price'' ''amount'')) (dl_buyerAddress d2)
        (seller_address quiet_seller)) = Inr sig"
    "qr_queryBody r = quiet_body" "td_rowsPerTract (qr_termsDocument r) = 1"
    "\<exists>a. statsCommitment sample_crypto str_le (aggregateStats [quiet_tract] (columns quiet_query)) quiet_query =
       Inr (td_statsHash (qr_termsDocument r), a)"
    by (rule quiet_proposed)
  note r2 = p(1) and i2 = reachable_inv[OF p(1), simplified] and qr2 = p(5)
  obtain con where con: "countersign ?X ?k d2 (dl_contract d2) r sig None = Inr con"
    using accept_countersigns[OF i2 _ _ p(2) qr2, where h = h and bk = "''b''" and buyer = quiet_buyer and sig = sig]
      p(6-10) sample_crypto_ok
    by (fastforce simp: quiet_contract_members)
  obtain s3 d3 where a: "accept ?X 0 ?k sig None None s2 = (s3, Inr con)" "quotes s3 = quotes s2" "map_get (deals s3) ?k = Some d3"
    "dl_state d3 = ACCEPTED_LOCAL" "dl_negotiationId d3 = dl_negotiationId d2" "dl_capabilityRevoked d3 = dl_capabilityRevoked d2"
    "dl_buyerAddress d3 = dl_buyerAddress d2"
    by (rule accept_result[OF p(2) qr2, where proposed = None and chainId = None and X = ?X and sig = sig and c = con and now = 0])
      (use con in simp)
  from reachable.later[OF r2 seller_step.accept_step[where now = 0 and k = ?k and sig = sig and chainId = None and proposed = None]]
  have r3: "reachable ?X (s3, {})" unfolding a(1) fst_conv .
  have qr3: "map_get (quotes s3) (dl_negotiationId d3) = Some r" using a(2,5) qr2 by simp
  obtain h' where h': "termsHashOf sample_crypto (dl_contract d3) = Inr h'"
    using quiet_jcs[of "omit [''signatures'', ''termsHash''] (dl_contract d3)"] by (auto simp: termsHashOf_def)
  let ?i = "delivery_input_of ?X 0 ?k (artifact_url ?X ?k ''data.csv'' (to_hex ''t'')) r"
  obtain st out where gen: "generateDelivery sample_crypto str_le (memory_put sample_crypto) ?i (artifacts s3) = (st, Inr out)"
    using p(13) quiet_generation[of "td_statsHash (qr_termsDocument r)" _ ?i "artifacts s3"]
    by (auto simp: delivery_input_of_def p(11,12) quiet_readQuery)
  have "\<not> dl_capabilityRevoked d3" "dl_buyerAddress d3 = addressOfPrivateKey sample_crypto ''b''" using p(4,9) a(6,7) by simp_all
  from that[OF r3 a(3,4) this(1) qr3 h' this(2) gen] show ?thesis .
qed

lemma quiet_run:
  obtains s k d cap where "reachable quiet_seller (s, {})" "map_get (deals s) k = Some d"
    "dl_state d = DELIVERED_LOCAL" "dl_capabilityToken d = Some cap" "\<not> dl_capabilityRevoked d"
    "\<exists>b. dl_csvBytes d = Some b"
proof -
  let ?X = quiet_seller and ?k = quiet_key
  obtain s3 d3 r h st out where r3: "reachable ?X (s3, {})" and a: "map_get (deals s3) ?k = Some d3" "dl_state d3 = ACCEPTED_LOCAL"
    and nr: "\<not> dl_capabilityRevoked d3" and qr3: "map_get (quotes s3) (dl_negotiationId d3) = Some r"
    and gen: "generateDelivery sample_crypto str_le (memory_put sample_crypto)
       (delivery_input_of ?X 0 ?k (artifact_url ?X ?k ''data.csv'' (to_hex ''t'')) r) (artifacts s3) = (st, Inr out)"
    by (rule quiet_accepted) blast
  let ?p = "\<lparr> pd_dealId = ?k, pd_cap = to_hex ''t'', pd_out = out \<rparr>"
  have b: "prepareDelivery_begin ?X 0 ''t'' ?k s3 = (s3 \<lparr> artifacts := st \<rparr>, Inr ?p)"
    by (rule begin_delivers[OF a(1) _ qr3]) (use gen in \<open>simp_all add: a(2)\<close>)
  have r4: "reachable ?X (s3 \<lparr> artifacts := st \<rparr>, {?p})"
    by (rule reachable.later[OF r3 seller_step.begin_step[OF b]])
  let ?s5 = "fst (prepareDelivery_finish ?X 0 ?p (s3 \<lparr> artifacts := st \<rparr>))"
  have r5: "reachable ?X (?s5, {})"
    using reachable.later[OF r4 seller_step.finish_step[of ?p]] by simp
  obtain d5 where d5: "map_get (deals ?s5) ?k = Some d5" "core d5 = core (with_delivery ?p d3)"
    using finish_writes[of "s3 \<lparr> artifacts := st \<rparr>" ?p d3 ?X 0] a(1) by auto
  have "dl_csvBytes (core d5) = dl_csvBytes (core (with_delivery ?p d3))" using d5(2) by simp
  then have csv: "\<exists>b. dl_csvBytes d5 = Some b" by (simp add: core_def with_delivery_def)
  from arg_cong[OF d5(2), of dl_state] arg_cong[OF d5(2), of dl_capabilityToken] arg_cong[OF d5(2), of dl_capabilityRevoked]
  have "dl_state d5 = DELIVERED_LOCAL" "dl_capabilityToken d5 = Some (to_hex ''t'')" "\<not> dl_capabilityRevoked d5"
    using nr by (simp_all add: with_delivery_def)
  then show ?thesis using that[OF r5 d5(1)] csv by blast
qed

end
