(* ===== verification/SellerProps.thy ===== *)
theory SellerProps
  imports SellerRun
begin

text \<open>
  The properties of the seller: the lifecycle of a deal, what the download gate hands out, that the
  stores stay linked and bounded, that what was quoted is countersigned, and that a failed
  acceptance changes nothing.
\<close>

section \<open>Bounds\<close>

definition reclaimables :: "seller \<Rightarrow> string set" where
  "reclaimables s = {k. \<exists>d. map_get (deals s) k = Some d \<and> isReclaimableDeal d}"

lemma prune_scan_reclaimables:
  assumes "map_ok ds" and "\<And>k x. map_get ds k = Some x \<Longrightarrow> map_get (deals s) k = Some x"
    and "reclaimables s \<subseteq> set ks \<union> {k. \<exists>x. map_get ds k = Some x}"
  shows "reclaimables (fst (prune_scan now ds ks s)) \<subseteq> set (snd (prune_scan now ds ks s))"
  using assms
proof (induction now ds ks s rule: prune_scan.induct)
  case (1 now ks s)
  then show ?case by simp
next
  case (2 now j x ds ks s)
  have ok: "map_ok ds" "map_get ds j = None"
    using "2.prems"(1) by (auto simp: map_ok_def map_get_def map_of_eq_None_iff)
  have x: "map_get (deals s) j = Some x" using "2.prems"(2)[of j x] by (simp add: map_get_def)
  have sub: "map_get (deals s) i = Some y" "i \<noteq> j" if "map_get ds i = Some y" for i y
  proof -
    show "i \<noteq> j" using that ok(2) by auto
    then show "map_get (deals s) i = Some y" using "2.prems"(2)[of i y] that by (simp add: map_get_def)
  qed
  have r: "reclaimables s \<subseteq> insert j (set ks \<union> {k. \<exists>x. map_get ds k = Some x})"
    using "2.prems"(3) by (auto simp: map_get_def split: if_splits)
  show ?case
  proof (cases "isReclaimableDeal x")
    case False
    then have "reclaimables s \<subseteq> set ks \<union> {k. \<exists>x. map_get ds k = Some x}"
      using r x by (auto simp: reclaimables_def)
    with 2(1)[OF False ok(1) sub(1)] show ?thesis using False by simp
  next
    case True
    show ?thesis
    proof (cases "expired now x")
      case e: True
      have "reclaimables (deleteDeal j s) \<subseteq> set ks \<union> {k. \<exists>x. map_get ds k = Some x}"
        using r by (auto simp: reclaimables_def deleteDeal_get)
      moreover have "map_get (deals (deleteDeal j s)) i = Some y" if "map_get ds i = Some y" for i y
        using sub[OF that] by (simp add: deleteDeal_get)
      ultimately show ?thesis using 2(2)[OF _ e ok(1)] True e by simp
    next
      case e: False
      have "reclaimables s \<subseteq> set (ks @ [j]) \<union> {k. \<exists>x. map_get ds k = Some x}" using r by auto
      with 2(3)[OF _ e ok(1) sub(1)] show ?thesis using True e by simp
    qed
  qed
qed

lemma pruneDeals_bound:
  assumes "map_ok (deals s)"
  shows "finite (reclaimables (pruneDeals now s)) \<and> card (reclaimables (pruneDeals now s)) < MAX_RECLAIMABLE_DEALS"
proof -
  let ?p = "prune_scan now (deals s) [] s"
  let ?n = "length (snd ?p) - (MAX_RECLAIMABLE_DEALS - 1)"
  have "reclaimables (fst ?p) \<subseteq> set (snd ?p)"
    by (rule prune_scan_reclaimables[OF assms]) (auto simp: reclaimables_def)
  then have "reclaimables (pruneDeals now s) \<subseteq> set (snd ?p) - set (take ?n (snd ?p))"
    by (auto simp: reclaimables_def pruneDeals_def Let_def case_prod_beta fold_delete_get split: if_splits)
  also have "\<dots> \<subseteq> set (drop ?n (snd ?p))"
    by (metis Diff_subset_conv append_take_drop_id set_append subset_refl)
  finally have s: "reclaimables (pruneDeals now s) \<subseteq> set (drop ?n (snd ?p))" .
  have "card (set (drop ?n (snd ?p))) \<le> length (snd ?p) - ?n" by (metis card_length length_drop)
  with s card_mono[OF finite_set s] finite_subset[OF s] show ?thesis
    by (simp add: MAX_RECLAIMABLE_DEALS_def)
qed

definition steady :: "'a operation \<Rightarrow> bool" where
  "steady m \<longleftrightarrow> (\<forall>s. reclaimables (fst (m s)) = reclaimables s)"

lemma steady_andThen: "steady m \<Longrightarrow> (\<And>x. steady (f x)) \<Longrightarrow> steady (andThen m f)"
  unfolding steady_def by (auto simp: andThen_def split: prod.split sum.split) (metis fst_conv)+

lemma andThen_steady: "(\<And>x. steady (f x)) \<Longrightarrow> reclaimables (fst (andThen m f s)) = reclaimables (fst (m s))"
  by (cases "m s") (auto simp: andThen_def steady_def split: sum.splits)

lemma reclaimable_logged [simp]: "isReclaimableDeal (logged now e d) = isReclaimableDeal d"
  by (simp add: isReclaimableDeal_def logged_def)

lemma steady_record: "steady (recordInteraction now k i)"
  by (auto simp: steady_def reclaimables_def recordInteraction_get)

lemma steady_simple: "steady (pure x)" "steady (throw e)" "steady (lift r)" "steady (deal_now k)"
  by (simp_all add: steady_def pure_def throw_def lift_def deal_now_def split: option.split)

lemmas steady_intros = steady_andThen steady_record steady_simple

lemma open_deal_reclaimables:
  "reclaimables (fst (open_deal now k g contract buyer r s)) \<subseteq> insert k (reclaimables s)"
  by (auto simp: reclaimables_def open_deal_def linkNegotiation_def put_deal_def map_get_set split: option.splits if_splits)

lemma propose_reclaimables:
  "reclaimables (fst (propose X now random g contract buyer s)) \<subseteq>
     insert (''deal_'' @ to_hex random) (reclaimables (pruneDeals now s))"
proof (cases "selectedQuote (pruneDeals now s) g contract")
  case (Inl e)
  show ?thesis unfolding propose_def Let_def by (subst andThen_lift, simp only: Inl sum.case fst_conv, blast)
next
  case (Inr r)
  have "reclaimables (fst (propose X now random g contract buyer s)) =
      reclaimables (fst (open_deal now (''deal_'' @ to_hex random) g contract buyer r (pruneDeals now s)))"
    unfolding propose_def Let_def by (subst andThen_lift, simp only: Inr sum.case, rule andThen_steady, intro steady_intros)
  then show ?thesis using open_deal_reclaimables by blast
qed

lemma register_reclaimables:
  "reclaimables (fst (registerLiveDeal now k g contract buyer s)) \<subseteq> insert k (reclaimables (pruneDeals now s))"
proof (cases "selectedQuote (pruneDeals now s) g contract")
  case (Inl e)
  show ?thesis unfolding registerLiveDeal_def Let_def by (subst andThen_lift, simp only: Inl sum.case fst_conv, blast)
next
  case (Inr r)
  show ?thesis
  proof (cases "map_get (deals (pruneDeals now s)) k")
    case None
    have "reclaimables (fst (registerLiveDeal now k g contract buyer s)) =
        reclaimables (fst (open_deal now k g contract buyer r (pruneDeals now s)))"
      unfolding registerLiveDeal_def Let_def None option.case
      by (subst andThen_lift, simp only: Inr sum.case, rule andThen_steady, intro steady_intros)
    then show ?thesis using open_deal_reclaimables by blast
  next
    case (Some d)
    then show ?thesis by (auto simp: registerLiveDeal_def Inr andThen_lift)
  qed
qed

lemma card_insert_bound:
  "R \<subseteq> insert k S \<Longrightarrow> finite S \<and> card S < n \<Longrightarrow> card R \<le> n"
proof -
  assume a: "R \<subseteq> insert k S" "finite S \<and> card S < n"
  have "card R \<le> card (insert k S)" using a by (intro card_mono) auto
  also have "\<dots> \<le> Suc (card S)" using a by (simp add: card_insert_if)
  finally show ?thesis using a by simp
qed

text \<open>The loop over the negotiations ends within the limit or has only referenced ones left.\<close>

lemma prune_keys_bound:
  assumes "set (map_keys (negotiations s)) \<subseteq> set ks \<union> set refs"
  shows "length (negotiations (prune_keys refs ks s)) \<le> MAX_OPEN_NEGOTIATIONS \<or>
    set (map_keys (negotiations (prune_keys refs ks s))) \<subseteq> set refs"
  using assms
proof (induction refs ks s rule: prune_keys.induct)
  case (2 refs k ks s)
  then show ?case by (auto simp: map_keys_delete)
qed auto

lemma pruneNegotiations_bound:
  assumes "map_ok (negotiations s)"
  shows "length (negotiations (pruneNegotiations k s)) \<le> max MAX_OPEN_NEGOTIATIONS (Suc (length (deals s)))"
proof (cases "length (negotiations s) \<le> MAX_OPEN_NEGOTIATIONS")
  case False
  let ?refs = "map dl_negotiationId (map_values (deals s)) @ [k]"
  have ok: "map_ok (negotiations (prune_keys refs ks t))" if "map_ok (negotiations t)" for refs ks t
    using that by (induction refs ks t rule: prune_keys.induct) auto
  from prune_keys_bound[of s "map_keys (negotiations s)" ?refs] show ?thesis
  proof
    assume "set (map_keys (negotiations (prune_keys ?refs (map_keys (negotiations s)) s))) \<subseteq> set ?refs"
    then have "card (set (map_keys (negotiations (prune_keys ?refs (map_keys (negotiations s)) s)))) \<le> length ?refs"
      by (meson card_length card_mono finite_set le_trans)
    moreover have "distinct (map_keys (negotiations (prune_keys ?refs (map_keys (negotiations s)) s)))"
      using ok[OF assms] by (simp add: map_ok_def map_keys_def)
    ultimately show ?thesis using False
      by (simp add: pruneNegotiations_def distinct_card map_values_def)
  qed (simp add: pruneNegotiations_def, auto simp: pruneNegotiations_def)
qed (simp add: pruneNegotiations_def)


lemma quote_facts_pruned:
  assumes "map_ok (negotiations s)" and "snd (quote_facts_step X now n facts s) = Inr x"
  shows "\<exists>t. fst (quote_facts_step X now n facts s) = pruneNegotiations (ng_negotiationId n) t \<and>
    map_ok (negotiations t) \<and> deals t = deals s"
  using assms
  by (auto simp: quote_facts_step_def answer_without_quote_def record_refusal_def store_negotiation_eq Let_def
      price_slice_def issue_quote_def throw_def split: quote_facts.splits option.splits sum.splits if_splits
      intro!: exI conjI)

lemma quote_bound:
  assumes "map_ok (negotiations s)" and "snd (quote X now random buyer body s) = Inr x"
  shows "length (negotiations (fst (quote X now random buyer body s))) \<le> max MAX_OPEN_NEGOTIATIONS (Suc (length (deals s)))"
proof -
  let ?s = "s \<lparr> historySequence := Suc (historySequence s) \<rparr>"
  from assms(2) obtain facts n where f: "fst (quote X now random buyer body s) = fst (quote_facts_step X now n facts ?s)"
    "\<exists>y. snd (quote_facts_step X now n facts ?s) = Inr y"
    unfolding quote_def Let_def case_prod_beta historyEntry_eqs
    by (auto simp: andThen_def pure_def split: if_splits sum.splits prod.splits) (metis fst_conv snd_conv)
  then obtain t where "fst (quote X now random buyer body s) = pruneNegotiations (ng_negotiationId n) t"
    "map_ok (negotiations t)" "deals t = deals s"
    using quote_facts_pruned[of ?s X now n facts] assms(1) by auto
  then show ?thesis using pruneNegotiations_bound by metis
qed

section \<open>Properties\<close>

text \<open>
  C3: the store of the seller refines the lifecycle of a deal. Whatever the interleaving of requests and
  suspended deliveries, for every deal id the change one step makes is a step of the lifecycle: a
  deal is offered before it is agreed and agreed before it is served; a capability is granted only
  when it is served; a withdrawn capability stays withdrawn as long as the deal is stored; and a
  served deal is never reclaimed.
\<close>

theorem seller_refines_lifecycle:
  assumes "reachable X (s, P)" and "seller_step X (s, P) (s', P')"
  shows "lifecycle_step (lifecycle_of s k) (lifecycle_of s' k)"
  using seller_life.simulates[OF assms(2)] reachable_inv[OF assms(1)] by simp

theorem seller_refines_lifecycle_witness:
  "\<exists>s s' k cap. lifecycle_of s k = Live Served (Granted cap) \<and> lifecycle_step (lifecycle_of s k) (lifecycle_of s' k) \<and>
     lifecycle_of s' k = Live Served Withdrawn"
proof -
  obtain s k d cap where r: "reachable quiet_seller (s, {})" and d: "map_get (deals s) k = Some d"
    "dl_state d = DELIVERED_LOCAL" "dl_capabilityToken d = Some cap" "\<not> dl_capabilityRevoked d"
    by (rule quiet_run) blast
  let ?s' = "fst (revokeCapability 0 k s)"
  have "cores ?s' k = Some (core d \<lparr> dl_capabilityRevoked := True \<rparr>)" using d by (simp add: revoke_cores) (simp add: cores_def)
  then have "lifecycle_of ?s' k = Live Served Withdrawn"
    using d(2) by (simp add: lifecycle_cores core_life_def capability_of_def)
  moreover have "lifecycle_of s k = Live Served (Granted cap)"
    using d by (simp add: lifecycle_of_def capability_of_def)
  ultimately show ?thesis
    using seller_refines_lifecycle[OF r seller_step.revoke_step, of k 0 k] by blast
qed

text \<open>
  C1: what the download gate hands out is what was agreed. In every reachable state a file it serves
  belongs to a deal whose contract the seller validated against the quote it issued, under the
  deal's current token and not revoked; the manifest served beside it is the one whose digest is the
  delivery hash, it names the statistics the quote committed to, and the buyer's verification
  accepts the file.
\<close>

theorem served_file_is_the_agreed_one:
  assumes "reachable X (s, P)" and "artifactFor s k ''data.csv'' cap = Some b"
  shows "\<exists>d r m mb v. map_get (deals s) k = Some d \<and> cap = dl_capabilityToken d \<and> \<not> dl_capabilityRevoked d \<and>
    map_get (quotes s) (dl_negotiationId d) = Some r \<and>
    terms_acceptable (sx_crypto X) (sx_env X) (dl_contract d) (quote_context r) \<and>
    artifactFor s k ''manifest.json'' cap = Some mb \<and> jcs (sx_crypto X) (manifest_js m) = Inr mb \<and>
    dl_deliveryHash d = Some (sha256Bytes (sx_crypto X) mb) \<and>
    dm_quotedStatsHash m = Some (td_statsHash (qr_termsDocument r)) \<and>
    verifyDelivery (sx_crypto X) (sx_localeCompare X) m b (sx_corpus X) (readQuery (qr_queryBody r)) = Inr v \<and> vf_ok v"
proof -
  have inv: "seller_inv X P s" using reachable_inv[OF assms(1)] by simp
  from assms(2) obtain d where d: "map_get (deals s) k = Some d" "cap = dl_capabilityToken d" "\<not> dl_capabilityRevoked d"
    "dl_capabilityToken d \<noteq> None" "dl_csvBytes d = Some b"
    by (auto simp: artifactFor_def split: option.splits if_splits)
  from seller_invD(6)[OF inv d(1)] obtain r where r: "map_get (quotes s) (dl_negotiationId d) = Some r"
    "deal_body_ok X (historySequence s) r d" by (auto simp: deal_ok_def)
  from r(2) d(4) obtain h where h: "dl_deliveryHash d = Some h" by (auto simp: deal_body_ok_def delivery_ok_def)
  with r(2) d(5) obtain m mb where m: "dl_manifestBytes d = Some mb" "delivered_ok X r m mb h b" "dl_state d \<noteq> PROPOSED_LOCAL"
    by (auto simp: deal_body_ok_def delivery_ok_def)
  have a: "artifactFor s k ''manifest.json'' cap = Some mb" using d m(1) by (simp add: artifactFor_def)
  have t: "terms_acceptable (sx_crypto X) (sx_env X) (dl_contract d) (quote_context r)" using r(2) m(3) by (simp add: deal_body_ok_def)
  show ?thesis using d r(1) t a h m(2) unfolding delivered_ok_def by blast
qed

theorem served_file_is_the_agreed_one_witness:
  "\<exists>s k d r. reachable quiet_seller (s, {}) \<and> map_get (deals s) k = Some d \<and> map_get (quotes s) (dl_negotiationId d) = Some r \<and>
     terms_acceptable sample_crypto (\<lambda>_. None) (dl_contract d) (quote_context r)"
proof -
  obtain s k d cap b where r: "reachable quiet_seller (s, {})" and d: "map_get (deals s) k = Some d"
    "dl_capabilityToken d = Some cap" "\<not> dl_capabilityRevoked d" "dl_csvBytes d = Some b"
    by (rule quiet_run) blast
  have "artifactFor s k ''data.csv'' (Some cap) = Some b" using d by (simp add: artifactFor_def)
  from served_file_is_the_agreed_one[OF r this] r show ?thesis by auto
qed

text \<open>
  C27: the stores stay linked. In every reachable state the quote and the negotiation of every stored deal
  are still there (neither is ever evicted under it), the negotiation lists the deal, the deal pins
  the quote's document, recomputing the quote gives exactly the price and the hashes of that
  document, and the deal's history has at most 512 entries, numbered upwards.
\<close>

theorem stores_stay_linked:
  assumes "reachable X (s, P)" and "map_get (deals s) k = Some d"
  shows "\<exists>r n. map_get (quotes s) (dl_negotiationId d) = Some r \<and> map_get (negotiations s) (dl_negotiationId d) = Some n \<and>
    k \<in> set (ng_dealIds n) \<and> ng_state n = AGREEMENT_STARTED \<and> dl_termsDocumentHash d = qr_termsDocumentHash r \<and>
    termsDocumentHashOf (sx_crypto X) (qr_termsDocument r) = Inr (qr_termsDocumentHash r) \<and>
    recomputeFor X r = Inr \<lparr> rq_priceAmount = td_priceAmount (qr_termsDocument r),
      rq_criteriaHash = td_criteriaHash (qr_termsDocument r), rq_statsHash = td_statsHash (qr_termsDocument r) \<rparr> \<and>
    length (dl_history d) \<le> 512 \<and> sorted_wrt (<) (map he_sequence (dl_history d))"
proof -
  have inv: "seller_inv X P s" using reachable_inv[OF assms(1)] by simp
  from seller_invD(6)[OF inv assms(2)] obtain r n where
    r: "map_get (quotes s) (dl_negotiationId d) = Some r" "map_get (negotiations s) (dl_negotiationId d) = Some n"
      "k \<in> set (ng_dealIds n)" "deal_body_ok X (historySequence s) r d" by (auto simp: deal_ok_def)
  note q = seller_invD(5)[OF inv r(1)]
  have "ng_state n = AGREEMENT_STARTED" using seller_invD(4)[OF inv r(2)] r(3) by (auto simp: negotiation_ok_def)
  moreover have "recomputeFor X r = Inr \<lparr> rq_priceAmount = td_priceAmount (qr_termsDocument r),
      rq_criteriaHash = td_criteriaHash (qr_termsDocument r), rq_statsHash = td_statsHash (qr_termsDocument r) \<rparr>"
    using recompute_quote[OF q] by (simp add: quote_context_def)
  moreover have "termsDocumentHashOf (sx_crypto X) (qr_termsDocument r) = Inr (qr_termsDocumentHash r)" using q by (simp add: quote_ok_def)
  ultimately show ?thesis using r by (auto simp: deal_body_ok_def entries_ok_def MAX_HISTORY_ENTRIES_PER_DEAL_def)
qed

theorem stores_stay_linked_witness:
  "\<exists>(s :: seller) k d r. map_get (deals s) k = Some d \<and> map_get (quotes s) (dl_negotiationId d) = Some r \<and> dl_state d = DELIVERED_LOCAL"
proof -
  obtain s k d cap where r: "reachable quiet_seller (s, {})" and d: "map_get (deals s) k = Some d" "dl_state d = DELIVERED_LOCAL"
    by (rule quiet_run) blast
  from stores_stay_linked[OF r d(1)] obtain q where "map_get (quotes s) (dl_negotiationId d) = Some q" by (elim exE conjE)
  with d show ?thesis by blast
qed

text \<open>
  C28: the stores stay bounded. Taking a proposal, locally or from the Runtime, leaves at most 1024 deals
  that are still in formation, and answering a query leaves at most 1024 negotiations, or one more
  than there are deals when that is more: the rest is pinned by deals that were paid for.
\<close>

theorem stores_stay_bounded:
  assumes "reachable X (s, P)"
  shows "card (reclaimables (fst (propose X now random g contract buyer s))) \<le> 1024 \<and>
    card (reclaimables (fst (registerLiveDeal now k g contract buyer s))) \<le> 1024 \<and>
    (snd (quote X now random b body s) = Inr x \<longrightarrow>
      length (negotiations (fst (quote X now random b body s))) \<le> max 1024 (Suc (length (deals s))))"
  using card_insert_bound[OF propose_reclaimables pruneDeals_bound] card_insert_bound[OF register_reclaimables pruneDeals_bound]
    quote_bound[of s X now random b body x] reachable_inv[OF assms]
  by (simp add: seller_inv_def MAX_RECLAIMABLE_DEALS_def MAX_OPEN_NEGOTIATIONS_def)

theorem stores_stay_bounded_witness:
  "\<exists>s1 x. quote quiet_seller 0 ''r'' quiet_buyer quiet_body new_seller = (s1, Inr x) \<and> length (negotiations s1) \<le> 1024"
proof -
  obtain s1 facts n r where q: "quote quiet_seller 0 ''r'' quiet_buyer quiet_body new_seller = (s1, Inr (facts, n, Some r))"
    by (rule quiet_quoted)
  have e: "deals new_seller = []" by (simp add: new_seller_def)
  from stores_stay_bounded[OF reachable.start, of quiet_seller 0 "''r''" _ _ _ _ quiet_buyer quiet_body "(facts, n, Some r)"] q
  show ?thesis unfolding e by auto
qed


text \<open>
  C8: the download gate answers exactly under a grant: in a reachable state a file is served if and only
  if the lifecycle of the deal holds a granted capability, the caller presents that very token, and
  the file is the manifest or the data. Nothing is served before delivery, after a revocation, or to
  another token.
\<close>

theorem gate_opens_only_under_a_grant:
  assumes "reachable X (s, P)"
  shows "artifactFor s k file cap \<noteq> None \<longleftrightarrow>
    (\<exists>st c. lifecycle_of s k = Live st (Granted c) \<and> cap = Some c \<and> file \<in> {''manifest.json'', ''data.csv''})"
proof (cases "map_get (deals s) k")
  case None
  then show ?thesis by (simp add: artifactFor_def lifecycle_of_def)
next
  case (Some d)
  have inv: "seller_inv X P s" using reachable_inv[OF assms] by simp
  have b: "\<exists>mb b. dl_manifestBytes d = Some mb \<and> dl_csvBytes d = Some b" if "dl_capabilityToken d \<noteq> None"
    using seller_invD(6)[OF inv Some] that by (cases "dl_deliveryHash d") (auto simp: deal_ok_def deal_body_ok_def delivery_ok_def)
  show ?thesis using b Some
    by (cases "dl_capabilityToken d") (auto simp: artifactFor_def lifecycle_of_def capability_of_def)
qed

theorem gate_opens_only_under_a_grant_witness:
  "\<exists>s k cap. artifactFor s k ''data.csv'' (Some cap) \<noteq> None \<and> artifactFor s k ''data.csv'' None = None"
proof -
  obtain s k d cap where r: "reachable quiet_seller (s, {})" and d: "map_get (deals s) k = Some d"
    "dl_capabilityToken d = Some cap" "\<not> dl_capabilityRevoked d"
    by (rule quiet_run) blast
  have "lifecycle_of s k = Live (stage_of (dl_state d)) (Granted cap)" using d by (simp add: lifecycle_of_def capability_of_def)
  then show ?thesis using gate_opens_only_under_a_grant[OF r, of k "''data.csv''"] by blast
qed

text \<open>
  The seller honours what it quoted. In a reachable state, when the contract of a deal carries what the
  quote committed to, is signed by the buyer over its terms hash, and the buyer's agreement signature
  is over the struct of this deal, the acceptance returns a countersigned contract and the deal is
  stored as accepted with it.
\<close>

theorem quoted_terms_are_countersigned:
  assumes "reachable X (s, P)" and "curve_ok (sx_crypto X)" "digests_ok (sx_crypto X)"
    and "map_get (deals s) k = Some d" and "map_get (quotes s) (dl_negotiationId d) = Some r"
    and "terms_acceptable (sx_crypto X) (sx_env X) (dl_contract d) (quote_context r)"
    and "termsHashOf (sx_crypto X) (dl_contract d) = Inr h"
    and "member (dl_contract d) ''signatures'' = JArr [JObj ps]"
    and "getp (JObj ps) ''signerAgentId'' = JStr buyer" and "member (dl_contract d) ''buyerAgentId'' = JStr buyer"
    and "getp (JObj ps) ''sig'' = JStr (sign (sx_crypto X) bk (termsSigningBytes h))"
    and "dl_buyerAddress d = addressOfPrivateKey (sx_crypto X) bk"
    and "signStruct (sx_crypto X) bk (agreementDomain (Fin (of_int DEMO_CHAIN_ID))) (TYPE_STRINGS Agreement)
      (agreementStruct k h (js_string (sub_member (dl_contract d) ''price'' ''amount'')) (dl_buyerAddress d) (seller_address X)) = Inr sig"
  shows "\<exists>s' c d'. accept X now k sig None None s = (s', Inr c) \<and> map_get (deals s') k = Some d' \<and>
    dl_state d' = ACCEPTED_LOCAL \<and> dl_contract d' = c"
proof -
  have inv: "seller_inv X P s" using reachable_inv[OF assms(1)] by simp
  obtain c where "countersign X k d (dl_contract d) r sig None = Inr c"
    using accept_countersigns[OF inv assms(2-13)] by blast
  then have "countersign X k d (case None of Some c \<Rightarrow> c | None \<Rightarrow> dl_contract d) r sig None = Inr c" by simp
  then show ?thesis by (rule accept_result[OF assms(4,5), where now = now]) blast
qed

theorem quoted_terms_are_countersigned_witness:
  "\<exists>s s' sig c. reachable quiet_seller (s, {}) \<and> accept quiet_seller 0 quiet_key sig None None s = (s', Inr c)"
proof -
  obtain s d r h sig where p: "reachable quiet_seller (s, {})" "map_get (deals s) quiet_key = Some d"
    "dl_state d = PROPOSED_LOCAL" "\<not> dl_capabilityRevoked d" "map_get (quotes s) (dl_negotiationId d) = Some r"
    "terms_acceptable sample_crypto (\<lambda>_. None) (dl_contract d) (quote_context r)"
    "termsHashOf sample_crypto (dl_contract d) = Inr h"
    "dl_contract d = quiet_contract (qr_termsDocumentHash r) (sign sample_crypto ''b'' (termsSigningBytes h))"
    "dl_buyerAddress d = addressOfPrivateKey sample_crypto ''b''"
    "signStruct sample_crypto ''b'' (agreementDomain (Fin (of_int DEMO_CHAIN_ID))) (TYPE_STRINGS Agreement)
      (agreementStruct quiet_key h (js_string (sub_member (dl_contract d) ''price'' ''amount'')) (dl_buyerAddress d)
        (seller_address quiet_seller)) = Inr sig"
    by (rule quiet_proposed) blast
  have "\<exists>s' c d'. accept quiet_seller 0 quiet_key sig None None s = (s', Inr c) \<and> map_get (deals s') quiet_key = Some d' \<and>
    dl_state d' = ACCEPTED_LOCAL \<and> dl_contract d' = c"
    by (rule quoted_terms_are_countersigned[OF p(1) _ _ p(2,5), where h = h and bk = "''b''" and buyer = quiet_buyer
        and ps = "[(''signerAgentId'', JStr quiet_buyer), (''sig'', JStr (sign sample_crypto ''b'' (termsSigningBytes h)))]"])
      (use p(6-10) sample_crypto_ok in \<open>simp_all add: quiet_contract_members\<close>)
  with p(1) show ?thesis by blast
qed

text \<open>
  An acceptance that is refused changes no deal: no contract, state, token or artifact, only the
  history of the deal. In particular a retry whose contract does not validate cannot overwrite the
  contract already recorded.
\<close>

theorem refused_acceptance_changes_nothing:
  assumes "snd (accept X now k sig chainId proposed s) = Inl e"
  shows "cores (fst (accept X now k sig chainId proposed s)) j = cores s j"
  by (rule accept_cases[of X now k sig chainId proposed s]) (use assms in simp_all)

theorem refused_acceptance_changes_nothing_witness:
  "snd (accept quiet_seller 0 ''deal_1'' ''sig'' None None new_seller) = Inl (UnknownDeal ''deal_1'') \<and>
   cores (fst (accept quiet_seller 0 ''deal_1'' ''sig'' None None new_seller)) ''deal_1'' = None"
proof -
  have a: "accept quiet_seller 0 ''deal_1'' ''sig'' None None new_seller = (new_seller, Inl (UnknownDeal ''deal_1''))"
    by (simp add: accept_def new_seller_def)
  have "snd (accept quiet_seller 0 ''deal_1'' ''sig'' None None new_seller) = Inl (UnknownDeal ''deal_1'')" by (simp add: a)
  from refused_acceptance_changes_nothing[OF this, of "''deal_1''"] show ?thesis by (simp add: a) (simp add: cores_def new_seller_def)
qed

text \<open>The bytes of the verifier bundle determine its files.\<close>

lemma digits_no_colon: "CHR '':'' \<notin> set (string_of_nat n)"
proof
  assume "CHR '':'' \<in> set (string_of_nat n)"
  then have "is_digit (CHR '':'')" using string_of_nat_digits by blast
  then show False by (simp add: is_digit_def)
qed

lemma split_colon:
  assumes "CHR '':'' \<notin> set a" "CHR '':'' \<notin> set b" and "a @ CHR '':'' # x = b @ CHR '':'' # y"
  shows "a = b \<and> x = y"
proof -
  have t: "takeWhile (\<lambda>c. c \<noteq> CHR '':'') (z @ CHR '':'' # w) = z" if "CHR '':'' \<notin> set z" for z w
    using that by (induction z) auto
  have "a = b" using arg_cong[OF assms(3), of "takeWhile (\<lambda>c. c \<noteq> CHR '':'')"] t[OF assms(1)] t[OF assms(2)] by simp
  with assms(3) show ?thesis by simp
qed

lemma chunk_inject:
  assumes "f @ '':'' @ string_of_nat (length x) @ '':'' @ x @ u = f @ '':'' @ string_of_nat (length y) @ '':'' @ y @ v"
  shows "x = y \<and> u = v"
proof -
  have "string_of_nat (length x) = string_of_nat (length y) \<and> x @ u = y @ v"
    by (rule split_colon[OF digits_no_colon digits_no_colon]) (use assms in simp)
  then have "length x = length y" "x @ u = y @ v" by simp_all
  then show ?thesis by (metis append_eq_append_conv)
qed

lemma bundle_inject:
  assumes "bundle_bytes f = bundle_bytes g" and "n \<in> set VERIFIER_BUNDLE_FILES"
  shows "f n = g n"
proof -
  have "\<forall>n\<in>set ns. f n = g n"
    if "concat (map (\<lambda>m. m @ '':'' @ string_of_nat (length (f m)) @ '':'' @ f m) ns) =
        concat (map (\<lambda>m. m @ '':'' @ string_of_nat (length (g m)) @ '':'' @ g m) ns)" for ns
    using that
  proof (induction ns)
    case (Cons m ns)
    have "f m = g m \<and>
        concat (map (\<lambda>m. m @ '':'' @ string_of_nat (length (f m)) @ '':'' @ f m) ns) =
        concat (map (\<lambda>m. m @ '':'' @ string_of_nat (length (g m)) @ '':'' @ g m) ns)"
      by (rule chunk_inject[of m]) (use Cons.prems in \<open>simp only: list.map concat.simps append_assoc\<close>)
    note t = this
    show ?case using t[THEN conjunct1] Cons.IH[OF t[THEN conjunct2]] by (simp only: list.set ball_simps)
  qed simp
  from this[OF assms(1)[unfolded bundle_bytes_def]] assms(2) show ?thesis by blast
qed

text \<open>
  The hash the terms document pins as the verifier pins all six files of the verifier: two source
  directories with the same hash have the same content in every one of the six files, or their
  length-prefixed concatenations are an explicit collision of the digest.
\<close>

theorem verifier_hash_pins_the_files:
  assumes "verifierBundleHash C f = verifierBundleHash C g"
  shows "(\<forall>n\<in>set VERIFIER_BUNDLE_FILES. f n = g n) \<or> collision C (bundle_bytes f) (bundle_bytes g)"
  using assms bundle_inject[of f g]
  by (auto simp: verifierBundleHash_def collision_def to_hex_inject)

theorem verifier_hash_pins_the_files_witness:
  "collision sample_crypto (bundle_bytes (\<lambda>n. replicate 30 CHR ''x'')) (bundle_bytes (\<lambda>n. replicate 29 CHR ''x'' @ ''y''))"
proof -
  have "verifierBundleHash sample_crypto (\<lambda>n. replicate 30 CHR ''x'') = verifierBundleHash sample_crypto (\<lambda>n. replicate 29 CHR ''x'' @ ''y'')"
    by code_simp
  moreover have "''verifier.ts'' \<in> set VERIFIER_BUNDLE_FILES" "replicate 30 CHR ''x'' \<noteq> replicate 29 CHR ''x'' @ ''y''"
    by (simp_all add: VERIFIER_BUNDLE_FILES_def numeral_nat)
  ultimately show ?thesis using verifier_hash_pins_the_files by blast
qed

end
