(* ===== verification/Encoding.thy ===== *)
theory Encoding
  imports Crypto
begin

text \<open>
  Text encodings of byte strings that the network-facing files use: \<open>Buffer.toString("base64")\<close> and
  \<open>Buffer.from(s, "base64")\<close> (\<open>coordination.ts\<close>, \<open>binding.ts\<close>, \<open>server.ts\<close>), and
  \<open>encodeURIComponent\<close> (\<open>binding.ts\<close>, \<open>home.ts\<close>).
\<close>

section \<open>Base64\<close>

definition b64_char :: "nat \<Rightarrow> char" where
  "b64_char d =
     (if d < 26 then char_of (65 + d) else if d < 52 then char_of (71 + d)
      else if d < 62 then char_of (d - 4) else if d = 62 then CHR ''+'' else CHR ''/'')"

text \<open>Reading accepts the URL-safe alphabet too.\<close>

definition b64_val :: "char \<Rightarrow> nat option" where
  "b64_val c =
     (let n = of_char c :: nat
      in if 65 \<le> n \<and> n \<le> 90 then Some (n - 65)
         else if 97 \<le> n \<and> n \<le> 122 then Some (n - 71)
         else if 48 \<le> n \<and> n \<le> 57 then Some (n + 4)
         else if n = 43 \<or> n = 45 then Some 62
         else if n = 47 \<or> n = 95 then Some 63
         else None)"

fun base64 :: "string \<Rightarrow> string" where
  "base64 [] = []"
| "base64 [a] = (let n = of_char a in [b64_char (n div 4), b64_char (n mod 4 * 16), CHR ''='', CHR ''=''])"
| "base64 [a, b] =
     (let n = of_char a; m = of_char b
      in [b64_char (n div 4), b64_char (n mod 4 * 16 + m div 16), b64_char (m mod 16 * 4), CHR ''=''])"
| "base64 (a # b # c # r) =
     (let n = of_char a; m = of_char b; k = of_char c
      in b64_char (n div 4) # b64_char (n mod 4 * 16 + m div 16) # b64_char (m mod 16 * 4 + k div 64) #
         b64_char (k mod 64) # base64 r)"

text \<open>The sextets of a text back to bytes; a single left-over sextet is dropped.\<close>

fun bytes_of_sextets :: "nat list \<Rightarrow> string" where
  "bytes_of_sextets (a # b # c # d # r) =
     char_of (a * 4 + b div 16) # char_of (b mod 16 * 16 + c div 4) # char_of (c mod 4 * 64 + d) # bytes_of_sextets r"
| "bytes_of_sextets [a, b, c] = [char_of (a * 4 + b div 16), char_of (b mod 16 * 16 + c div 4)]"
| "bytes_of_sextets [a, b] = [char_of (a * 4 + b div 16)]"
| "bytes_of_sextets _ = []"

text \<open>The first \<open>=\<close> ends the text; before it, every character outside the alphabet is skipped.\<close>

definition b64_sextets :: "string \<Rightarrow> nat list" where
  "b64_sextets s = List.map_filter b64_val (takeWhile (\<lambda>c. c \<noteq> CHR ''='') s)"

definition base64_decode :: "string \<Rightarrow> string" where
  "base64_decode s = bytes_of_sextets (b64_sextets s)"

lemma b64_val_char [simp]:
  assumes "d < 64"
  shows "b64_val (b64_char d) = Some d"
proof -
  consider "d < 26" | "26 \<le> d" "d < 52" | "52 \<le> d" "d < 62" | "d = 62" | "d = 63" using assms by linarith
  then show ?thesis
  proof cases
    case 1
    then have "(of_char (b64_char d) :: nat) = 65 + d" by (simp add: b64_char_def)
    with 1 show ?thesis by (simp add: b64_val_def)
  next
    case 2
    then have "(of_char (b64_char d) :: nat) = 71 + d" by (simp add: b64_char_def)
    with 2 show ?thesis by (simp add: b64_val_def)
  next
    case 3
    then have "(of_char (b64_char d) :: nat) = d - 4" by (simp add: b64_char_def)
    moreover have "48 \<le> d - 4" "d - 4 \<le> 57" "d - 4 + 4 = d" using 3 by linarith+
    ultimately show ?thesis by (simp add: b64_val_def)
  qed (simp_all add: b64_char_def b64_val_def)
qed

lemma b64_val_pad [simp]: "b64_val (CHR ''='') = None"
  by (simp add: b64_val_def)

lemma b64_sextets_simps [simp]:
  "b64_sextets [] = []" "b64_sextets (CHR ''='' # r) = []"
  "d < 64 \<Longrightarrow> b64_sextets (b64_char d # r) = d # b64_sextets r"
proof -
  show "b64_sextets [] = []" "b64_sextets (CHR ''='' # r) = []" by (simp_all add: b64_sextets_def map_filter_simps)
  assume d: "d < 64"
  then have "b64_char d \<noteq> CHR ''=''" by (metis b64_val_char b64_val_pad option.distinct(1))
  with d show "b64_sextets (b64_char d # r) = d # b64_sextets r" by (simp add: b64_sextets_def map_filter_simps)
qed

lemma byte_lt: "(of_char c :: nat) < 256"
  by (rule nat_of_char_less_256)

lemma byte_quotients [simp]:
  "(of_char c :: nat) div 4 < 64" "(of_char c :: nat) div 16 < 16" "(of_char c :: nat) div 64 < 4"
  using byte_lt[of c] by linarith+

lemma sextet_lt [simp]:
  "(n :: nat) mod 4 * 16 < 64" "(k :: nat) mod 16 * 4 < 64"
  "(n :: nat) mod 4 * 16 + of_char c div 16 < 64" "(k :: nat) mod 16 * 4 + of_char c div 64 < 64"
  using byte_quotients[of c] by linarith+

lemma bytes_back:
  assumes "m < 256" and "j < 256"
  shows "(n :: nat) div 4 * 4 + (n mod 4 * 16 + m div 16) div 16 = n"
    and "((n :: nat) mod 4 * 16 + m div 16) mod 16 * 16 + (m mod 16 * 4 + j div 64) div 4 = m"
    and "((m :: nat) mod 16 * 4 + j div 64) mod 4 * 64 + j mod 64 = j"
proof -
  have q: "m div 16 < 16" "j div 64 < 4" using assms by linarith+
  have a: "(x * 16 + y) div 16 = x" "(x * 16 + y) mod 16 = y" if "y < 16" for x y :: nat using that by simp_all
  have b: "(x * 4 + y) div 4 = x" "(x * 4 + y) mod 4 = y" if "y < 4" for x y :: nat using that by simp_all
  show "n div 4 * 4 + (n mod 4 * 16 + m div 16) div 16 = n" by (simp only: a[OF q(1)] div_mult_mod_eq)
  show "(n mod 4 * 16 + m div 16) mod 16 * 16 + (m mod 16 * 4 + j div 64) div 4 = m"
    by (simp only: a[OF q(1)] b[OF q(2)] div_mult_mod_eq)
  show "(m mod 16 * 4 + j div 64) mod 4 * 64 + j mod 64 = j" by (simp only: b[OF q(2)] div_mult_mod_eq)
qed

lemma base64_decode_base64 [simp]: "base64_decode (base64 s) = s"
proof (induction s rule: base64.induct)
  case 1
  then show ?case by (simp add: base64_decode_def)
next
  case (2 a)
  show ?case
    using bytes_back(1)[of 0 0 "of_char a"]
    by (simp add: base64_decode_def Let_def)
next
  case (3 a b)
  show ?case
    using bytes_back(1,2)[OF byte_lt[of b], of 0 "of_char a"]
    by (simp add: base64_decode_def Let_def)
next
  case (4 a b c r)
  have "b64_sextets (base64 (a # b # c # r)) =
      (of_char a div 4) # (of_char a mod 4 * 16 + of_char b div 16) # (of_char b mod 16 * 4 + of_char c div 64) #
      (of_char c mod 64) # b64_sextets (base64 r)"
    by (simp add: Let_def)
  then show ?case
    using 4 bytes_back(1,2)[OF byte_lt[of b] byte_lt[of c], of "of_char a"] bytes_back(3)[OF byte_lt[of b] byte_lt[of c]]
    by (simp only: base64_decode_def bytes_of_sextets.simps char_of_char)
qed

lemma base64_inject [simp]: "base64 s = base64 t \<longleftrightarrow> s = t"
  by (metis base64_decode_base64)

lemma b64_char_range: "(of_char (b64_char d) :: nat) < 128" if "d < 64"
  using that by (auto simp: b64_char_def)

section \<open>\<open>encodeURIComponent\<close>\<close>

definition uri_unreserved :: "char \<Rightarrow> bool" where
  "uri_unreserved c \<longleftrightarrow>
     (let n = of_char c :: nat
      in (65 \<le> n \<and> n \<le> 90) \<or> (97 \<le> n \<and> n \<le> 122) \<or> (48 \<le> n \<and> n \<le> 57) \<or>
         c \<in> {CHR ''-'', CHR ''_'', CHR ''.'', CHR ''!'', CHR ''~'', CHR ''*'', CHR 0x27, CHR ''('', CHR '')''})"

definition upper_hex :: "nat \<Rightarrow> char" where
  "upper_hex d = (if d < 10 then char_of (48 + d) else char_of (55 + d))"

definition uri_byte :: "char \<Rightarrow> string" where
  "uri_byte c =
     (if uri_unreserved c then [c]
      else [CHR ''%'', upper_hex (of_char c div 16), upper_hex (of_char c mod 16)])"

definition encodeURIComponent :: "string \<Rightarrow> string" where
  "encodeURIComponent s = concat (map uri_byte s)"

lemma of_char_upper_hex: "d < 16 \<Longrightarrow> (of_char (upper_hex d) :: nat) = (if d < 10 then 48 + d else 55 + d)"
  by (simp add: upper_hex_def)

lemma upper_hex_inject: "a < 16 \<Longrightarrow> b < 16 \<Longrightarrow> upper_hex a = upper_hex b \<Longrightarrow> a = b"
  by (drule arg_cong[where f = "of_char :: char \<Rightarrow> nat"]) (auto simp: of_char_upper_hex split: if_splits)

lemma percent_reserved [simp]: "\<not> uri_unreserved (CHR ''%'')"
  by (simp add: uri_unreserved_def)

lemma uri_byte_prefix: "uri_byte c @ r = uri_byte d @ r' \<Longrightarrow> c = d \<and> r = r'"
proof -
  assume eq: "uri_byte c @ r = uri_byte d @ r'"
  show ?thesis
  proof (cases "uri_unreserved c"; cases "uri_unreserved d")
    assume "\<not> uri_unreserved c" "\<not> uri_unreserved d"
    with eq have h: "upper_hex (of_char c div 16) = upper_hex (of_char d div 16)"
      "upper_hex (of_char c mod 16) = upper_hex (of_char d mod 16)" "r = r'" by (simp_all add: uri_byte_def)
    have "(of_char c :: nat) div 16 = of_char d div 16" "(of_char c :: nat) mod 16 = of_char d mod 16"
      using h(1,2) by (auto intro!: upper_hex_inject)
    then have "(of_char c :: nat) = of_char d" by (metis div_mult_mod_eq)
    with h(3) show ?thesis by simp
  qed (use eq in \<open>auto simp: uri_byte_def\<close>)
qed

lemma encodeURIComponent_inject [simp]: "encodeURIComponent s = encodeURIComponent t \<longleftrightarrow> s = t"
proof
  show "encodeURIComponent s = encodeURIComponent t \<Longrightarrow> s = t"
  proof (induction s arbitrary: t)
    case Nil
    then show ?case by (cases t) (auto simp: encodeURIComponent_def uri_byte_def split: if_splits)
  next
    case (Cons c s)
    then obtain d t' where t: "t = d # t'"
      by (cases t) (auto simp: encodeURIComponent_def uri_byte_def split: if_splits)
    from uri_byte_prefix[of c "encodeURIComponent s" d "encodeURIComponent t'"] Cons t
    show ?case by (simp add: encodeURIComponent_def)
  qed
qed simp

lemma uri_byte_safe:
  "x \<in> set (uri_byte c) \<Longrightarrow> uri_unreserved x \<or> x = CHR ''%''"
proof -
  have h: "uri_unreserved (upper_hex d)" if "d < 16" for d
    using that by (auto simp: uri_unreserved_def of_char_upper_hex Let_def)
  show "x \<in> set (uri_byte c) \<Longrightarrow> uri_unreserved x \<or> x = CHR ''%''"
    by (auto simp: uri_byte_def h split: if_splits)
qed

lemma encodeURIComponent_safe: "x \<in> set (encodeURIComponent s) \<Longrightarrow> uri_unreserved x \<or> x = CHR ''%''"
  by (auto simp: encodeURIComponent_def dest: uri_byte_safe)

end
