(* ===== verification/JsonText.thy ===== *)
theory JsonText
  imports Encoding
begin

text \<open>
  \<open>JSON.parse\<close> (ECMA-262, over ECMA-404) on texts held as UTF-8 bytes: the reader every file that
  takes a payload off the network uses.  \<open>None\<close> is the SyntaxError.  Numbers are rounded to doubles,
  a repeated member name keeps its place and takes the last value, and integer-like names come
  first, in ascending order, as own properties are enumerated.  The section at the end shows that
  what \<open>JSON.stringify\<close> prints is read back as the copy of the value.
\<close>

section \<open>The grammar\<close>

definition json_ws :: "char \<Rightarrow> bool" where
  "json_ws c \<longleftrightarrow> (of_char c :: nat) \<in> {9, 10, 13, 32}"

definition skip_ws :: "string \<Rightarrow> string" where
  "skip_ws s = dropWhile json_ws s"

text \<open>The UTF-8 bytes of a code point.\<close>

definition utf8 :: "nat \<Rightarrow> string" where
  "utf8 n =
     (if n < 128 then [char_of n]
      else if n < 2048 then [char_of (192 + n div 64), char_of (128 + n mod 64)]
      else if n < 65536 then [char_of (224 + n div 4096), char_of (128 + n div 64 mod 64), char_of (128 + n mod 64)]
      else [char_of (240 + n div 262144), char_of (128 + n div 4096 mod 64), char_of (128 + n div 64 mod 64),
            char_of (128 + n mod 64)])"

fun hex4 :: "string \<Rightarrow> (nat \<times> string) option" where
  "hex4 (a # b # c # d # r) =
     (case (hex_val a, hex_val b, hex_val c, hex_val d) of
        (Some x, Some y, Some z, Some w) \<Rightarrow> Some (4096 * x + 256 * y + 16 * z + w, r)
      | _ \<Rightarrow> None)"
| "hex4 _ = None"

definition backslash :: char where
  "backslash = char_of (92 :: nat)"

text \<open>After \<open>\u\<close>: one code unit, or a surrogate pair of two escapes.\<close>

definition unicode_escape :: "string \<Rightarrow> (string \<times> string) option" where
  "unicode_escape s =
     (case hex4 s of
        None \<Rightarrow> None
      | Some (hi, r) \<Rightarrow>
          (case (if 55296 \<le> hi \<and> hi < 56320 \<and> take 2 r = [backslash, CHR ''u''] then hex4 (drop 2 r) else None) of
             Some (lo, r') \<Rightarrow>
               if 56320 \<le> lo \<and> lo < 57344 then Some (utf8 (65536 + (hi - 55296) * 1024 + (lo - 56320)), r')
               else Some (utf8 hi, r)
           | None \<Rightarrow> Some (utf8 hi, r)))"

definition escape_unit :: "string \<Rightarrow> (string \<times> string) option" where
  "escape_unit s =
     (case s of
        [] \<Rightarrow> None
      | e # r \<Rightarrow>
          if e = quote_char \<or> e = backslash \<or> e = CHR ''/'' then Some ([e], r)
          else if e = CHR ''b'' then Some ([char_of (8 :: nat)], r)
          else if e = CHR ''f'' then Some ([char_of (12 :: nat)], r)
          else if e = CHR ''n'' then Some ([char_of (10 :: nat)], r)
          else if e = CHR ''r'' then Some ([char_of (13 :: nat)], r)
          else if e = CHR ''t'' then Some ([char_of (9 :: nat)], r)
          else if e = CHR ''u'' then unicode_escape r
          else None)"

lemma hex4_shorter: "hex4 s = Some (n, r) \<Longrightarrow> length r < length s"
  by (induction s rule: hex4.induct) (auto split: option.splits)

lemma unicode_escape_shorter: "unicode_escape s = Some (b, r) \<Longrightarrow> length r < length s"
  by (auto simp: unicode_escape_def split: option.splits if_splits dest!: hex4_shorter)

lemma escape_unit_shorter: "escape_unit s = Some (b, r) \<Longrightarrow> length r < length s"
  by (auto simp: escape_unit_def split: list.splits if_splits dest!: unicode_escape_shorter)

text \<open>The rest of a string after its opening quote.\<close>

function string_body :: "string \<Rightarrow> (string \<times> string) option" where
  "string_body s =
     (case s of
        [] \<Rightarrow> None
      | c # r \<Rightarrow>
          if c = quote_char then Some ([], r)
          else if c = backslash then
            (case escape_unit r of
               None \<Rightarrow> None
             | Some (b, r') \<Rightarrow> map_option (\<lambda>(t, r''). (b @ t, r'')) (string_body r'))
          else if (of_char c :: nat) < 32 then None
          else map_option (\<lambda>(t, r''). (c # t, r'')) (string_body r))"
  by pat_completeness auto

termination
  by (relation "measure length") (auto dest: escape_unit_shorter)

declare string_body.simps [simp del]

definition json_fraction :: "string \<Rightarrow> (string \<times> string) option" where
  "json_fraction s =
     (if s \<noteq> [] \<and> hd s = CHR ''.'' then
        (let fp = takeWhile is_digit (tl s) in if fp = [] then None else Some (fp, dropWhile is_digit (tl s)))
      else Some ([], s))"

definition json_exponent :: "string \<Rightarrow> (int \<times> string) option" where
  "json_exponent s =
     (if s \<noteq> [] \<and> (hd s = CHR ''e'' \<or> hd s = CHR ''E'') then
        (let r = tl s; sgnd = (r \<noteq> [] \<and> (hd r = CHR ''-'' \<or> hd r = CHR ''+''));
             b = (if sgnd then tl r else r); ds = takeWhile is_digit b
         in if ds = [] then None
            else Some (if r \<noteq> [] \<and> hd r = CHR ''-'' then - int_of_digits ds else int_of_digits ds, dropWhile is_digit b))
      else Some (0, s))"

definition json_number :: "string \<Rightarrow> (jsval \<times> string) option" where
  "json_number s =
     (let neg = starts_with ''-'' s; b = (if neg then tl s else s); ip = takeWhile is_digit b
      in if ip = [] \<or> (1 < length ip \<and> hd ip = CHR ''0'') then None
         else
           (case json_fraction (dropWhile is_digit b) of
              None \<Rightarrow> None
            | Some (fp, r) \<Rightarrow>
                (case json_exponent r of
                   None \<Rightarrow> None
                 | Some (e, r') \<Rightarrow>
                     (let q = of_int (int_of_digits (ip @ fp)) * pow10 (e - int (length fp))
                      in Some (JNum (num_of (if neg then - q else q)), r')))))"

definition json_literal :: "string \<Rightarrow> jsval \<Rightarrow> string \<Rightarrow> (jsval \<times> string) option" where
  "json_literal w v s = (if starts_with w s then Some (v, drop (length w) s) else None)"

text \<open>Own properties in enumeration order.\<close>

definition index_key :: "string \<Rightarrow> bool" where
  "index_key k \<longleftrightarrow>
     k \<noteq> [] \<and> list_all is_digit k \<and> (k = ''0'' \<or> hd k \<noteq> CHR ''0'') \<and> int_of_digits k < 4294967295"

definition own_order :: "(string \<times> jsval) list \<Rightarrow> (string \<times> jsval) list" where
  "own_order es =
     sort_by (\<lambda>a b. int_of_digits (fst a) \<le> int_of_digits (fst b)) (filter (\<lambda>e. index_key (fst e)) es) @
     filter (\<lambda>e. \<not> index_key (fst e)) es"

definition object_of :: "(string \<times> jsval) list \<Rightarrow> jsval" where
  "object_of es = JObj (own_order (fold (\<lambda>(k, v). map_set k v) es []))"

text \<open>
  A value, the elements of an array after its bracket, the members of an object after its brace.
  The first argument is fuel: a call without any fails, and \<open>json_fuel_enough\<close> shows that twice the
  length of the text and two is never used up.
\<close>

fun json_value :: "nat \<Rightarrow> string \<Rightarrow> (jsval \<times> string) option"
  and json_items :: "nat \<Rightarrow> string \<Rightarrow> (jsval list \<times> string) option"
  and json_members :: "nat \<Rightarrow> string \<Rightarrow> ((string \<times> jsval) list \<times> string) option" where
  "json_value 0 s = None"
| "json_value (Suc n) s =
     (case skip_ws s of
        [] \<Rightarrow> None
      | c # r \<Rightarrow>
          if c = quote_char then map_option (\<lambda>(t, r'). (JStr t, r')) (string_body r)
          else if c = CHR ''['' then
            (if starts_with '']'' (skip_ws r) then Some (JArr [], tl (skip_ws r))
             else map_option (\<lambda>(vs, r'). (JArr vs, r')) (json_items n r))
          else if c = CHR ''{'' then
            (if starts_with ''}'' (skip_ws r) then Some (JObj [], tl (skip_ws r))
             else map_option (\<lambda>(es, r'). (object_of es, r')) (json_members n r))
          else if c = CHR ''n'' then json_literal ''null'' JNull (c # r)
          else if c = CHR ''t'' then json_literal ''true'' (JBool True) (c # r)
          else if c = CHR ''f'' then json_literal ''false'' (JBool False) (c # r)
          else json_number (c # r))"
| "json_items 0 s = None"
| "json_items (Suc n) s =
     (case json_value n s of
        None \<Rightarrow> None
      | Some (v, r) \<Rightarrow>
          (case skip_ws r of
             [] \<Rightarrow> None
           | c # r' \<Rightarrow>
               if c = CHR '','' then map_option (\<lambda>(vs, r''). (v # vs, r'')) (json_items n r')
               else if c = CHR '']'' then Some ([v], r')
               else None))"
| "json_members 0 s = None"
| "json_members (Suc n) s =
     (case skip_ws s of
        [] \<Rightarrow> None
      | q # r \<Rightarrow>
          if q \<noteq> quote_char then None
          else
            (case string_body r of
               None \<Rightarrow> None
             | Some (k, r1) \<Rightarrow>
                 if \<not> starts_with '':'' (skip_ws r1) then None
                 else
                   (case json_value n (tl (skip_ws r1)) of
                      None \<Rightarrow> None
                    | Some (v, r2) \<Rightarrow>
                        (case skip_ws r2 of
                           [] \<Rightarrow> None
                         | c # r' \<Rightarrow>
                             if c = CHR '','' then map_option (\<lambda>(es, r''). ((k, v) # es, r'')) (json_members n r')
                             else if c = CHR ''}'' then Some ([(k, v)], r')
                             else None))))"

definition json_parse :: "string \<Rightarrow> jsval option" where
  "json_parse s =
     (case json_value (2 * length s + 2) s of
        Some (v, r) \<Rightarrow> if skip_ws r = [] then Some v else None
      | None \<Rightarrow> None)"


section \<open>The fuel is enough\<close>

lemma string_body_shorter: "string_body s = Some (t, r) \<Longrightarrow> length r < length s"
proof (induction s arbitrary: t rule: string_body.induct)
  case (1 s)
  from "1.prems" show ?case
    by (subst (asm) string_body.simps)
      (fastforce split: list.splits if_splits option.splits dest: "1.IH" escape_unit_shorter)
qed

lemma length_skip_ws: "length (skip_ws s) \<le> length s"
  by (simp add: skip_ws_def length_dropWhile_le)

lemma json_fraction_le: "json_fraction s = Some (fp, r) \<Longrightarrow> length r \<le> length s"
  using length_dropWhile_le[of is_digit "tl s"] by (auto simp: json_fraction_def Let_def split: if_splits)

lemma json_exponent_le: "json_exponent s = Some (e, r) \<Longrightarrow> length r \<le> length s"
  using length_dropWhile_le[of is_digit "tl s"] length_dropWhile_le[of is_digit "tl (tl s)"]
  by (auto simp: json_exponent_def Let_def split: if_splits)

lemma dropWhile_shorter: "takeWhile P s \<noteq> [] \<Longrightarrow> length (dropWhile P s) < length s"
  by (metis length_append length_greater_0_conv less_add_same_cancel2 takeWhile_dropWhile_id)

lemma json_number_shorter: "json_number s = Some (v, r) \<Longrightarrow> length r < length s"
  by (auto simp: json_number_def Let_def split: if_splits option.splits
      dest!: json_fraction_le json_exponent_le dropWhile_shorter)

lemma json_literal_shorter: "json_literal w v s = Some (x, r) \<Longrightarrow> w \<noteq> [] \<Longrightarrow> length r < length s"
  by (auto simp: json_literal_def starts_with_iff split: if_splits)

lemma starts_with_ne: "starts_with (c # w) s \<Longrightarrow> s \<noteq> []"
  by (auto simp: starts_with_def)

lemma tl_skip_ws_shorter: "starts_with (c # w) (skip_ws s) \<Longrightarrow> length (tl (skip_ws s)) < length s"
  using length_skip_ws[of s] by (auto dest!: starts_with_ne) (metis One_nat_def diff_less leD le_less_trans length_greater_0_conv less_imp_diff_less linorder_not_le zero_less_one)

lemma skip_ws_Cons: "skip_ws s = c # r \<Longrightarrow> length r < length s"
  using length_skip_ws[of s] by simp

lemma json_shorter:
  "json_value n s = Some (v, r) \<Longrightarrow> length r < length s"
  "json_items n s = Some (vs, r) \<Longrightarrow> length r < length s"
  "json_members n s = Some (es, r) \<Longrightarrow> length r < length s"
proof (induction n s and n s and n s arbitrary: v r and vs r and es r
    rule: json_value_json_items_json_members.induct)
  case (2 n s)
  from "2.prems" obtain c t where c: "skip_ws s = c # t" by (auto split: list.splits)
  have "length r < length (skip_ws s)"
    using "2.prems" "2.IH" c
    by (auto split: if_splits intro: less_SucI
      dest!: string_body_shorter json_literal_shorter json_number_shorter tl_skip_ws_shorter)
  then show ?case using length_skip_ws[of s] by linarith
next
  case (4 n s)
  from "4.prems" obtain w t where w: "json_value n s = Some (w, t)" by (auto split: option.splits)
  with "4.prems" obtain c u where c: "skip_ws t = c # u" by (auto split: list.splits)
  have "length t < length s" "length u < length t" using "4.IH"(1) w skip_ws_Cons[OF c] by auto
  then show ?case
    using "4.prems" w c "4.IH"(2)[OF w _ c] by (fastforce split: if_splits)
next
  case (6 n s)
  from "6.prems" obtain q t where q: "skip_ws s = q # t" "q = quote_char" by (auto split: list.splits if_splits)
  with "6.prems" obtain k t1 where k: "string_body t = Some (k, t1)" by (auto split: option.splits)
  with "6.prems" q have colon: "starts_with '':'' (skip_ws t1)" by (auto split: if_splits)
  with "6.prems" q k obtain w t2 where w: "json_value n (tl (skip_ws t1)) = Some (w, t2)" by (auto split: option.splits)
  with "6.prems" q k colon obtain c u where c: "skip_ws t2 = c # u" by (auto split: list.splits)
  have l: "length t < length s" "length t1 < length t" "length (tl (skip_ws t1)) < length t1" "length u < length t2"
    using skip_ws_Cons[OF q(1)] string_body_shorter[OF k] tl_skip_ws_shorter[OF colon] skip_ws_Cons[OF c] by auto
  have "length t2 < length (tl (skip_ws t1))" using "6.IH"(1)[OF q(1) _ k] q(2) colon w by simp
  then show ?case
    using "6.prems" q k colon w c l "6.IH"(2)[OF q(1) _ k _ _ w _ c] by (fastforce split: if_splits)
qed simp_all

lemma json_fuel_step:
  "(2 * length s + 1 \<le> n \<longrightarrow> json_value (Suc n) s = json_value n s) \<and>
   (2 * length s + 2 \<le> n \<longrightarrow> json_items (Suc n) s = json_items n s) \<and>
   (2 * length s + 2 \<le> n \<longrightarrow> json_members (Suc n) s = json_members n s)"
proof (induction n arbitrary: s)
  case (Suc n)
  have v: "json_value (Suc n) t = json_value n t" if "2 * length t + 1 \<le> n" for t using Suc that by blast
  have i: "json_items (Suc n) t = json_items n t" if "2 * length t + 2 \<le> n" for t using Suc that by blast
  have m: "json_members (Suc n) t = json_members n t" if "2 * length t + 2 \<le> n" for t using Suc that by blast
  have 1: "json_value (Suc (Suc n)) s = json_value (Suc n) s" if "2 * length s + 1 \<le> Suc n"
  proof (cases "skip_ws s")
    case (Cons c r)
    then have "2 * length r + 2 \<le> n" using skip_ws_Cons[OF Cons] that by linarith
    then show ?thesis unfolding json_value.simps(2)[of "Suc n"] json_value.simps(2)[of n] Cons list.case
      by (simp only: i m)
  qed simp
  have 2: "json_items (Suc (Suc n)) s = json_items (Suc n) s" if "2 * length s + 2 \<le> Suc n"
  proof -
    have e: "json_value (Suc n) s = json_value n s" using that by (intro v) linarith
    have "json_items (Suc n) u = json_items n u" if "json_value n s = Some (w, t)" "skip_ws t = c # u" for w t c u
      using json_shorter(1)[OF that(1)] skip_ws_Cons[OF that(2)] \<open>2 * length s + 2 \<le> Suc n\<close> by (intro i) linarith
    then show ?thesis unfolding json_items.simps(2)[of "Suc n"] json_items.simps(2)[of n] e
      by (auto split: option.splits list.splits)
  qed
  have 3: "json_members (Suc (Suc n)) s = json_members (Suc n) s" if "2 * length s + 2 \<le> Suc n"
  proof -
    have e: "json_value (Suc n) (tl (skip_ws t1)) = json_value n (tl (skip_ws t1))"
      if "skip_ws s = q # t" "string_body t = Some (k, t1)" for q t k t1
      using skip_ws_Cons[OF that(1)] string_body_shorter[OF that(2)] length_skip_ws[of t1]
        \<open>2 * length s + 2 \<le> Suc n\<close> by (intro v) simp
    have "json_members (Suc n) u = json_members n u"
      if "skip_ws s = q # t" "string_body t = Some (k, t1)" "json_value n (tl (skip_ws t1)) = Some (w, t2)" "skip_ws t2 = c # u"
      for q t k t1 w t2 c u
      using skip_ws_Cons[OF that(1)] string_body_shorter[OF that(2)] length_skip_ws[of t1] json_shorter(1)[OF that(3)]
        skip_ws_Cons[OF that(4)] \<open>2 * length s + 2 \<le> Suc n\<close> by (intro m) simp
    with e show ?thesis unfolding json_members.simps(2)[of "Suc n"] json_members.simps(2)[of n]
      by (auto split: option.splits list.splits)
  qed
  from 1 2 3 show ?case by blast
qed simp

lemma json_fuel_enough: "2 * length s + 1 \<le> n \<Longrightarrow> json_value n s = json_value (2 * length s + 2) s"
proof (induction n rule: dec_induct)
  case base
  show ?case using json_fuel_step[of s "2 * length s + 1"] by simp
next
  case (step n)
  then show ?case using json_fuel_step[of s n] by simp
qed

lemma json_parse_fuel:
  "2 * length s + 1 \<le> n \<Longrightarrow> json_value n s = Some (v, r) \<Longrightarrow> skip_ws r = [] \<Longrightarrow> json_parse s = Some v"
  using json_fuel_enough[of s n] by (simp add: json_parse_def)

section \<open>Reading back what was printed\<close>

text \<open>
  The values whose text is read back exactly: no undefined members, integers of at most 53 bits,
  member names that are distinct and not integers.
\<close>

fun json_plain :: "jsval \<Rightarrow> bool" where
  "json_plain JNull = True"
| "json_plain (JBool b) = True"
| "json_plain (JNum v) = (case v of Fin x \<Rightarrow> rat_is_int x \<and> \<bar>x\<bar> \<le> 2 ^ 53 | _ \<Rightarrow> False)"
| "json_plain (JStr s) = True"
| "json_plain (JArr vs) = list_all json_plain vs"
| "json_plain (JObj es) =
     (distinct (map fst es) \<and> list_all (\<lambda>e. \<not> index_key (fst e)) es \<and> list_all (\<lambda>e. json_plain (snd e)) es)"
| "json_plain _ = False"

lemma backslash_eq: "backslash = CHR 0x5C"
  unfolding backslash_def by (rule char_eq_char_of[symmetric]) simp

lemma quote_char_neq_u [simp]: "CHR ''u'' \<noteq> quote_char" "CHR ''u'' \<noteq> backslash"
  by (simp_all add: quote_char_def backslash_eq)

lemma string_body_plain:
  "c \<noteq> quote_char \<Longrightarrow> c \<noteq> backslash \<Longrightarrow> 32 \<le> (of_char c :: nat) \<Longrightarrow>
   string_body (c # r) = map_option (\<lambda>(t, r'). (c # t, r')) (string_body r)"
  by (subst string_body.simps) simp

lemma string_body_escaped:
  "escape_unit r = Some ([c], r') \<Longrightarrow>
   string_body (backslash # r) = map_option (\<lambda>(t, r''). (c # t, r'')) (string_body r')"
  by (subst string_body.simps) (simp add: backslash_def)

lemma escape_char_body:
  "string_body (escape_char c @ r) = map_option (\<lambda>(t, r'). (c # t, r')) (string_body r)"
proof -
  define n where "n = (of_char c :: nat)"
  have c: "c = char_of n" by (simp add: n_def)
  have n256: "n < 256" unfolding n_def by (rule nat_of_char_less_256)
  consider (quote) "n = 34" | (slash) "n = 92" | (short) "n \<in> {8, 9, 10, 12, 13}"
    | (long) "n < 32" "n \<notin> {8, 9, 10, 12, 13}" | (plain) "32 \<le> n" "n \<noteq> 34" "n \<noteq> 92" by fastforce
  then show ?thesis
  proof cases
    case quote
    then have "(of_char c :: nat) = of_char quote_char" by (simp add: n_def)
    then have "c = quote_char" by (simp only: of_char_eq_iff)
    then show ?thesis
      using string_body_escaped[of "quote_char # r" quote_char r] by (simp add: escape_char_def escape_unit_def backslash_def)
  next
    case slash
    then have "c = backslash" by (simp add: c backslash_def)
    then show ?thesis
      using string_body_escaped[of "backslash # r" backslash r] by (simp add: escape_char_def escape_unit_def backslash_def)
  next
    case short
    then obtain e where e: "escape_char c = [backslash, e]" "escape_unit (e # r) = Some ([c], r)"
    proof -
      have q: "quote_char = CHR 0x22" by (rule quote_char_def)
      from short consider "n = 8" | "n = 9" | "n = 10" | "n = 12" | "n = 13" by auto
      then show thesis
        by cases ((rule that, simp add: c escape_char_def backslash_def, simp add: c escape_unit_def q backslash_eq)+)
    qed
    then show ?thesis using string_body_escaped[OF e(2)] by simp
  next
    case long
    have nz: "hex_val (CHR ''0'') = Some 0" by (simp add: hex_val_def)
    have "n div 16 < 16" "n mod 16 < 16" using long by auto
    then have "hex4 (CHR ''0'' # CHR ''0'' # hex_digit (n div 16) # hex_digit (n mod 16) # r) = Some (n, r)"
      by (simp add: nz)
    then have "unicode_escape (CHR ''0'' # CHR ''0'' # hex_digit (n div 16) # hex_digit (n mod 16) # r) = Some ([c], r)"
      using long by (simp add: unicode_escape_def utf8_def c)
    moreover have "escape_char c = backslash # CHR ''u'' # CHR ''0'' # CHR ''0'' # [hex_digit (n div 16), hex_digit (n mod 16)]"
      using long by (simp add: escape_char_def n_def backslash_def Let_def)
    ultimately show ?thesis
      using string_body_escaped[of "CHR ''u'' # CHR ''0'' # CHR ''0'' # hex_digit (n div 16) # hex_digit (n mod 16) # r" c r]
      by (simp add: escape_unit_def quote_char_neq_u)
  next
    case plain
    then have "c \<noteq> quote_char" "c \<noteq> backslash" by (auto simp: n_def backslash_def)
    with plain show ?thesis using string_body_plain[of c r] by (simp add: escape_char_def n_def)
  qed
qed

lemma string_body_quoted: "string_body (concat (map escape_char s) @ quote_char # r) = Some (s, r)"
proof (induction s)
  case Nil
  show ?case by (subst string_body.simps) simp
next
  case (Cons c s)
  then show ?case by (simp add: escape_char_body)
qed

lemma json_quote_read: "json_quote s @ r = quote_char # concat (map escape_char s) @ quote_char # r"
  by (simp add: json_quote_def)

text \<open>What may follow a value: the end, a comma or a closing bracket.\<close>

definition json_end :: "string \<Rightarrow> bool" where
  "json_end r \<longleftrightarrow> r = [] \<or> hd r \<in> {CHR '','', CHR '']'', CHR ''}''}"

lemma json_end_simps [simp]:
  "json_end []" "json_end (CHR '','' # r)" "json_end (CHR '']'' # r)" "json_end (CHR ''}'' # r)"
  by (simp_all add: json_end_def)

lemma json_end_tail:
  assumes "json_end r"
  shows "takeWhile is_digit r = []" and "dropWhile is_digit r = r" and "json_fraction r = Some ([], r)"
    and "json_exponent r = Some (0, r)"
  using assms by (cases r; auto simp: json_end_def is_digit_def json_fraction_def json_exponent_def)+

lemma skip_ws_id: "s = [] \<or> \<not> json_ws (hd s) \<Longrightarrow> skip_ws s = s"
  by (cases s) (auto simp: skip_ws_def)

lemma digit_char_is_0: "d < 10 \<Longrightarrow> digit_char d = CHR ''0'' \<longleftrightarrow> d = 0"
proof -
  assume "d < 10"
  then have "(of_char (digit_char d) :: nat) = of_char (CHR ''0'') \<longleftrightarrow> d = 0" by (simp add: of_char_digit)
  then show ?thesis by (simp only: of_char_eq_iff)
qed

lemma digits_first: "hd (string_of_nat n) = CHR ''0'' \<longleftrightarrow> n = 0"
proof (induction n rule: string_of_nat.induct)
  case (1 n)
  show ?case
    by (subst string_of_nat.simps) (auto simp: digit_char_is_0 1)
qed

lemma takeWhile_digits:
  assumes "json_end r"
  shows "takeWhile is_digit (string_of_nat m @ r) = string_of_nat m" and "dropWhile is_digit (string_of_nat m @ r) = r"
  using json_end_tail(1,2)[OF assms] string_of_nat_digits[of _ m]
  by (simp_all add: takeWhile_append2 dropWhile_append2)

lemma num_of_int: "\<bar>k\<bar> \<le> 2 ^ 53 \<Longrightarrow> num_of (of_int k) = Fin (of_int k)"
proof -
  assume k: "\<bar>k\<bar> \<le> 2 ^ 53"
  have b: "pow2 1024 = of_int (2 ^ 1024)" "(2 ^ 53 :: int) < 2 ^ 1024" by (simp_all add: pow2_def)
  have "\<not> pow2 1024 \<le> (of_int k :: rat)" "\<not> (of_int k :: rat) \<le> - pow2 1024"
    unfolding b(1) of_int_minus[symmetric] of_int_le_iff using k b(2) by linarith+
  then show ?thesis using fl_of_int[OF k] by (simp add: num_of_def)
qed

lemma json_number_int:
  assumes "json_end r" and "\<bar>k\<bar> \<le> 2 ^ 53"
  shows "json_number (string_of_int k @ r) = Some (JInt k, r)"
proof -
  have f: "num_of (of_int k) = Fin (of_int k)" by (rule num_of_int[OF assms(2)])
  have one: "\<not> (1 < length (string_of_nat m) \<and> hd (string_of_nat m) = CHR ''0'')" for m
  proof (cases "m = 0")
    case True
    then show ?thesis by (simp add: string_of_nat.simps)
  qed (simp add: digits_first)
  have minus: "starts_with ''-'' (string_of_nat m @ r) = False" for m
    using string_of_nat_digits[of "hd (string_of_nat m)" m] by (cases "string_of_nat m") (auto simp: starts_with_def is_digit_def)
  show ?thesis
  proof (cases "k < 0")
    case True
    then show ?thesis
      using f one[of "nat (- k)"] by (simp add: json_number_def string_of_int_def starts_with_def takeWhile_digits[OF assms(1)]
        json_end_tail[OF assms(1)] int_of_digits_eq pow10_def Let_def)
  next
    case False
    then show ?thesis
      using f one[of "nat k"] by (simp add: json_number_def string_of_int_def minus takeWhile_digits[OF assms(1)]
        json_end_tail[OF assms(1)] int_of_digits_eq pow10_def Let_def)
  qed
qed

lemma fold_map_set_fresh:
  "distinct (map fst (es @ fs)) \<Longrightarrow> fold (\<lambda>(k, v). map_set k v) fs es = es @ fs"
proof (induction fs arbitrary: es)
  case (Cons e fs)
  obtain k v where e: "e = (k, v)" by fastforce
  have "k \<notin> fst ` set es" using Cons.prems e by auto
  then have "map_set k v es = es @ [(k, v)]" by (induction es) (auto simp: map_set_def)
  then show ?case using Cons.IH[of "es @ [e]"] Cons.prems by (simp add: e)
qed simp

lemma object_of_plain: "json_plain (JObj es) \<Longrightarrow> object_of es = JObj es"
  using fold_map_set_fresh[of "[]" es]
  by (simp add: object_of_def own_order_def list_all_iff filter_empty_conv filter_id_conv)

definition printed :: "jsval \<Rightarrow> string" where
  "printed v = (case json_stringify v of Some t \<Rightarrow> t | None \<Rightarrow> [])"

lemma plain_printed: "json_plain v \<Longrightarrow> json_stringify v = Some (printed v)"
  by (cases v) (auto simp: printed_def)

lemma printed_arr: "list_all json_plain vs \<Longrightarrow> printed (JArr vs) = ''['' @ join_with '','' (map printed vs) @ '']''"
proof -
  assume "list_all json_plain vs"
  then have "map (\<lambda>x. case json_stringify x of Some t \<Rightarrow> t | None \<Rightarrow> ''null'') vs = map printed vs"
    by (auto simp: list_all_iff plain_printed)
  then show ?thesis unfolding printed_def[of "JArr vs"] by (simp only: json_stringify.simps option.case)
qed

definition printed_member :: "string \<times> jsval \<Rightarrow> string" where
  "printed_member e = json_quote (fst e) @ '':'' @ printed (snd e)"

lemma printed_obj:
  "list_all (\<lambda>e. json_plain (snd e)) es \<Longrightarrow> printed (JObj es) = ''{'' @ join_with '','' (map printed_member es) @ ''}''"
proof -
  assume "list_all (\<lambda>e. json_plain (snd e)) es"
  then have "concat (map (\<lambda>(k, x). case json_stringify x of Some t \<Rightarrow> [json_quote k @ '':'' @ t] | None \<Rightarrow> []) es) =
      map printed_member es"
    by (induction es) (auto simp: plain_printed printed_member_def)
  then show ?thesis by (simp add: printed_def)
qed

lemma printed_head:
  assumes "json_plain v"
  shows "printed v \<noteq> []" and "\<not> json_ws (hd (printed v))" and "hd (printed v) \<noteq> CHR '']''" and "hd (printed v) \<noteq> CHR ''}''"
proof -
  have d: "\<not> json_ws c \<and> c \<noteq> CHR '']'' \<and> c \<noteq> CHR ''}''" if "is_digit c" for c
    using that by (auto simp: json_ws_def is_digit_def)
  have i: "string_of_int k \<noteq> [] \<and> \<not> json_ws (hd (string_of_int k)) \<and> hd (string_of_int k) \<noteq> CHR '']'' \<and>
      hd (string_of_int k) \<noteq> CHR ''}''" for k
    using string_of_nat_digits[OF hd_in_set[OF string_of_nat_ne]] d by (auto simp: string_of_int_def json_ws_def)
  have q: "\<not> json_ws quote_char" "quote_char \<noteq> CHR '']''" "quote_char \<noteq> CHR ''}''" by (simp_all add: json_ws_def)
  have "printed v \<noteq> [] \<and> \<not> json_ws (hd (printed v)) \<and> hd (printed v) \<noteq> CHR '']'' \<and> hd (printed v) \<noteq> CHR ''}''"
    using assms i q by (cases v) (auto simp: printed_def json_ws_def num_to_string_def num_is_finite_def split: jsnum.splits)
  then show "printed v \<noteq> []" "\<not> json_ws (hd (printed v))" "hd (printed v) \<noteq> CHR '']''" "hd (printed v) \<noteq> CHR ''}''" by auto
qed

text \<open>What one value needs to be read back, in any context that ends a value.\<close>

definition reads_back :: "jsval \<Rightarrow> bool" where
  "reads_back v \<longleftrightarrow> (\<forall>n r. json_end r \<longrightarrow> length (printed v) < n \<longrightarrow> json_value n (printed v @ r) = Some (v, r))"

lemma skip_ws_end: "json_end r \<Longrightarrow> skip_ws r = r"
  by (rule skip_ws_id) (auto simp: json_end_def json_ws_def)

lemma items_read:
  assumes "\<forall>v \<in> set vs. reads_back v" and "vs \<noteq> []" and "length (join_with '','' (map printed vs)) + 1 < n"
  shows "json_items n (join_with '','' (map printed vs) @ CHR '']'' # r) = Some (vs, r)"
  using assms
proof (induction vs arbitrary: n)
  case (Cons v vs)
  from Cons.prems(3) obtain m where n: "n = Suc m" by (cases n) auto
  show ?case
  proof (cases vs)
    case Nil
    with Cons.prems n have "json_value m (printed v @ CHR '']'' # r) = Some (v, CHR '']'' # r)"
      by (simp add: reads_back_def)
    with Nil n show ?thesis by (simp add: skip_ws_end)
  next
    case (Cons w ws)
    let ?rest = "join_with '','' (map printed vs)"
    have "json_value m (printed v @ CHR '','' # (?rest @ CHR '']'' # r)) = Some (v, CHR '','' # (?rest @ CHR '']'' # r))"
      using Cons.prems Cons n by (simp add: reads_back_def)
    moreover have "json_items m (?rest @ CHR '']'' # r) = Some (vs, r)"
      using Cons.prems Cons n by (intro Cons.IH) auto
    ultimately show ?thesis using Cons n by (simp add: skip_ws_end)
  qed
qed simp

lemma member_read:
  "skip_ws (printed_member (k, v) @ r) = quote_char # (concat (map escape_char k) @ quote_char # CHR '':'' # (printed v @ r))"
  by (subst skip_ws_id) (auto simp: printed_member_def json_quote_def json_ws_def)


lemma members_read:
  assumes "\<forall>e \<in> set es. reads_back (snd e) \<and> json_plain (snd e)" and "es \<noteq> []"
    and "length (join_with '','' (map printed_member es)) + 1 < n"
  shows "json_members n (join_with '','' (map printed_member es) @ CHR ''}'' # r) = Some (es, r)"
  using assms
proof (induction es arbitrary: n)
  case (Cons e es)
  obtain k v where e: "e = (k, v)" by fastforce
  from Cons.prems(3) obtain m where n: "n = Suc m" by (cases n) auto
  have v: "json_value m (printed v @ t) = Some (v, t)" if "json_end t" "length (printed v) < m" for t
    using Cons.prems(1) that by (simp add: e reads_back_def)
  have ws: "skip_ws (printed v @ t) = printed v @ t" for t
    using printed_head[of v] Cons.prems(1) by (intro skip_ws_id) (auto simp: e)
  have l: "length (printed v) < length (printed_member (k, v))" by (simp add: printed_member_def json_quote_def)
  show ?case
  proof (cases es)
    case Nil
    with Cons.prems n e l v[of "CHR ''}'' # r"] show ?thesis
      by (simp add: member_read string_body_quoted ws skip_ws_end starts_with_def skip_ws_id json_ws_def)
  next
    case (Cons w ws')
    let ?rest = "join_with '','' (map printed_member es)"
    have lm: "length (printed v) < m" using Cons.prems Cons n l by (simp add: e)
    have "json_members m (?rest @ CHR ''}'' # r) = Some (es, r)"
      using Cons.prems Cons n by (intro Cons.IH) auto
    with Cons n v[of "CHR '','' # (?rest @ CHR ''}'' # r)"] lm show ?thesis
      by (simp add: e member_read string_body_quoted ws skip_ws_end starts_with_def skip_ws_id json_ws_def)
  qed
qed simp

lemma rat_int_cases:
  assumes "rat_is_int x" and "\<bar>x\<bar> \<le> 2 ^ 53"
  obtains k where "x = of_int k" and "\<bar>k\<bar> \<le> 2 ^ 53"
proof
  show x: "x = of_int \<lfloor>x\<rfloor>" using assms(1) unfolding rat_is_int_def by (rule sym)
  have "of_int \<bar>\<lfloor>x\<rfloor>\<bar> \<le> (of_int (2 ^ 53) :: rat)" using assms(2) x by simp
  then show "\<bar>\<lfloor>x\<rfloor>\<bar> \<le> 2 ^ 53" by (simp only: of_int_le_iff)
qed

lemma plain_reads_back: "json_plain v \<Longrightarrow> reads_back v"
proof (induction v rule: json_plain.induct)
  case 1
  show ?case unfolding reads_back_def
  proof (intro allI impI)
    fix n r assume "json_end r" "length (printed JNull) < n"
    then obtain m where "n = Suc m" by (cases n) auto
    then show "json_value n (printed JNull @ r) = Some (JNull, r)"
      by (simp add: printed_def skip_ws_id json_ws_def json_literal_def starts_with_def)
  qed
next
  case (2 b)
  show ?case unfolding reads_back_def
  proof (intro allI impI)
    fix n r assume "json_end r" "length (printed (JBool b)) < n"
    then obtain m where "n = Suc m" by (cases n) auto
    then show "json_value n (printed (JBool b) @ r) = Some (JBool b, r)"
      by (cases b) (simp_all add: printed_def skip_ws_id json_ws_def json_literal_def starts_with_def)
  qed
next
  case (3 v)
  from 3 obtain k where k: "v = Fin (of_int k)" "\<bar>k\<bar> \<le> 2 ^ 53"
    by (auto split: jsnum.splits elim: rat_int_cases)
  show ?case unfolding reads_back_def
  proof (intro allI impI)
    fix n r assume r: "json_end r" and "length (printed (JNum v)) < n"
    then obtain m where n: "n = Suc m" by (cases n) auto
    have p: "printed (JNum v) = string_of_int k" using k by (simp add: printed_def num_is_finite_def num_to_string_int)
    have h: "skip_ws (string_of_int k @ r) = string_of_int k @ r"
      using printed_head[OF 3] p by (intro skip_ws_id) auto
    obtain c t where ct: "string_of_int k @ r = c # t" "c = CHR ''-'' \<or> is_digit c"
    proof (cases "k < 0")
      case False
      have "is_digit (hd (string_of_nat (nat k)))" by (rule string_of_nat_digits[OF hd_in_set[OF string_of_nat_ne]])
      then show thesis using False that by (cases "string_of_nat (nat k)") (auto simp: string_of_int_def)
    qed (use that in \<open>auto simp: string_of_int_def\<close>)
    have "c \<notin> {quote_char, CHR ''['', CHR ''{'', CHR ''n'', CHR ''t'', CHR ''f''}"
      using ct(2) by (auto simp: is_digit_def quote_char_def)
    then show "json_value n (printed (JNum v) @ r) = Some (JNum v, r)"
      using json_number_int[OF r k(2)] h unfolding n p ct(1) by (simp add: k(1))
  qed
next
  case (4 s)
  show ?case unfolding reads_back_def
  proof (intro allI impI)
    fix n r assume "json_end r" "length (printed (JStr s)) < n"
    then obtain m where n: "n = Suc m" by (cases n) auto
    have "skip_ws (json_quote s @ r) = quote_char # (concat (map escape_char s) @ quote_char # r)"
      by (subst skip_ws_id) (auto simp: json_quote_read json_ws_def)
    then show "json_value n (printed (JStr s) @ r) = Some (JStr s, r)"
      by (simp add: n printed_def string_body_quoted)
  qed
next
  case (5 vs)
  have pl: "list_all json_plain vs" using 5 by simp
  show ?case unfolding reads_back_def
  proof (intro allI impI)
    fix n r assume l: "length (printed (JArr vs)) < n"
    then obtain m where n: "n = Suc m" by (cases n) auto
    show "json_value n (printed (JArr vs) @ r) = Some (JArr vs, r)"
    proof (cases "vs = []")
      case True
      then show ?thesis by (simp add: n printed_arr skip_ws_id json_ws_def starts_with_def)
    next
      case False
      then obtain w ws where w: "vs = w # ws" by (cases vs) auto
      let ?j = "join_with '','' (map printed vs)"
      have hd: "?j \<noteq> [] \<and> hd ?j = hd (printed w)" using printed_head(1)[of w] pl w by (cases ws) auto
      then obtain c t where c: "?j = c # t" "c = hd (printed w)" by (cases ?j) auto
      have "skip_ws (?j @ CHR '']'' # r) = ?j @ CHR '']'' # r" "\<not> starts_with '']'' (?j @ CHR '']'' # r)"
        unfolding c(1) using printed_head[of w] pl w c(2) by (simp_all add: skip_ws_id starts_with_def)
      moreover have "json_items m (?j @ CHR '']'' # r) = Some (vs, r)"
        using 5 l False pl by (intro items_read) (auto simp: list_all_iff printed_arr n)
      ultimately show ?thesis by (simp add: n printed_arr[OF pl] skip_ws_id json_ws_def)
    qed
  qed
next
  case (6 es)
  have pl: "list_all (\<lambda>e. json_plain (snd e)) es" using 6 by simp
  show ?case unfolding reads_back_def
  proof (intro allI impI)
    fix n r assume l: "length (printed (JObj es)) < n"
    then obtain m where n: "n = Suc m" by (cases n) auto
    show "json_value n (printed (JObj es) @ r) = Some (JObj es, r)"
    proof (cases "es = []")
      case True
      then show ?thesis by (simp add: n printed_obj skip_ws_id json_ws_def starts_with_def)
    next
      case False
      then obtain w ws where w: "es = w # ws" by (cases es) auto
      let ?j = "join_with '','' (map printed_member es)"
      have hd: "?j \<noteq> [] \<and> hd ?j = quote_char" using w by (cases ws) (auto simp: printed_member_def json_quote_def)
      then have "skip_ws (?j @ CHR ''}'' # r) = ?j @ CHR ''}'' # r" "\<not> starts_with ''}'' (?j @ CHR ''}'' # r)"
        by (auto intro!: skip_ws_id simp: starts_with_def json_ws_def take_Suc)
      moreover have "json_members m (?j @ CHR ''}'' # r) = Some (es, r)"
        using 6 l False pl by (intro members_read) (auto simp: list_all_iff printed_obj n)
      ultimately show ?thesis using object_of_plain[OF 6(2)] by (simp add: n printed_obj[OF pl] skip_ws_id json_ws_def)
    qed
  qed
qed simp_all


theorem parse_plain:
  assumes "json_plain v"
  shows "json_parse (printed v) = Some v"
proof (rule json_parse_fuel)
  show "json_value (2 * length (printed v) + 1) (printed v) = Some (v, [])"
    using plain_reads_back[OF assms, unfolded reads_back_def, rule_format, of "[]" "2 * length (printed v) + 1"] by simp
qed (simp_all add: skip_ws_def)

text \<open>The values the code prints: undefined members are left out, and an undefined element is null.\<close>

fun json_clean :: "jsval \<Rightarrow> bool" where
  "json_clean JUndef = True"
| "json_clean JNull = True"
| "json_clean (JBool b) = True"
| "json_clean (JNum v) = (case v of Fin x \<Rightarrow> rat_is_int x \<and> \<bar>x\<bar> \<le> 2 ^ 53 | _ \<Rightarrow> True)"
| "json_clean (JStr s) = True"
| "json_clean (JArr vs) = list_all json_clean vs"
| "json_clean (JObj es) =
     (distinct (map fst es) \<and> list_all (\<lambda>e. \<not> index_key (fst e)) es \<and> list_all (\<lambda>e. json_clean (snd e)) es)"
| "json_clean _ = False"

lemma clean_typeof:
  assumes "json_clean v"
  shows "typeof v \<noteq> ''function''" and "typeof v \<noteq> ''symbol''" and "typeof v = ''undefined'' \<longleftrightarrow> v = JUndef"
  using assms by (cases v; simp add: typeof_def)+

definition has_text :: "string \<times> jsval \<Rightarrow> bool" where
  "has_text = (\<lambda>(k, x). typeof x \<notin> {''undefined'', ''function'', ''symbol''})"

lemma json_copy_obj: "json_copy (JObj es) = JObj (map (\<lambda>e. (fst e, json_copy (snd e))) (filter has_text es))"
  by (simp add: has_text_def case_prod_beta)

lemma clean_copy_plain: "json_clean v \<Longrightarrow> json_plain (json_copy v)"
proof (induction v rule: json_clean.induct)
  case (7 es)
  have "distinct (map fst (filter has_text es))" using 7 by (simp add: distinct_map_filter)
  then show ?case unfolding json_copy_obj using 7 by (auto simp: list_all_iff o_def)
qed (auto simp: list_all_iff num_is_finite_def split: jsnum.splits)

lemma clean_copy_text: "json_clean v \<Longrightarrow> v \<noteq> JUndef \<Longrightarrow> json_stringify (json_copy v) = json_stringify v"
proof (induction v rule: json_clean.induct)
  case (6 vs)
  have "(case json_stringify (json_copy x) of Some t \<Rightarrow> t | None \<Rightarrow> ''null'') =
      (case json_stringify x of Some t \<Rightarrow> t | None \<Rightarrow> ''null'')" if "x \<in> set vs" for x
    using 6 that by (cases "x = JUndef") (auto simp: list_all_iff)
  then have "map (\<lambda>x. case json_stringify x of Some t \<Rightarrow> t | None \<Rightarrow> ''null'') (map json_copy vs) =
      map (\<lambda>x. case json_stringify x of Some t \<Rightarrow> t | None \<Rightarrow> ''null'') vs" by simp
  then show ?case by (simp only: json_copy.simps json_stringify.simps)
next
  case (7 es)
  let ?f = "\<lambda>(k, x). case json_stringify x of Some t \<Rightarrow> [json_quote k @ '':'' @ t] | None \<Rightarrow> []"
  have "?f (fst e, json_copy (snd e)) = ?f e" if "e \<in> set es" "snd e \<noteq> JUndef" for e
    using 7 that by (cases e) (auto simp: list_all_iff)
  moreover have "has_text e \<longleftrightarrow> snd e \<noteq> JUndef" "snd e = JUndef \<Longrightarrow> ?f e = []" if "e \<in> set es" for e
    using 7 that clean_typeof[of "snd e"] by (auto simp: has_text_def list_all_iff case_prod_beta)
  ultimately   have "concat (map ?f (map (\<lambda>e. (fst e, json_copy (snd e))) (filter has_text fs))) = concat (map ?f fs)"
    if "set fs \<subseteq> set es" for fs
    using that by (induction fs) auto
  from this[of es] have "concat (map ?f (map (\<lambda>e. (fst e, json_copy (snd e))) (filter has_text es))) = concat (map ?f es)"
    by simp
  then show ?case by (simp only: json_copy_obj json_stringify.simps)
qed (auto simp: num_is_finite_def split: jsnum.splits)

theorem parse_stringify:
  assumes "json_clean v" and "json_stringify v = Some t"
  shows "json_parse t = Some (json_copy v)"
proof -
  have "v \<noteq> JUndef" using assms(2) by auto
  then have "printed (json_copy v) = t" using clean_copy_text[OF assms(1)] assms(2) by (simp add: printed_def)
  with parse_plain[OF clean_copy_plain[OF assms(1)]] show ?thesis by simp
qed

end
