(* ===== verification/Http.thy ===== *)
theory Http
  imports JsonText
begin

text \<open>
  HTTP as the clients of the repository see it (\<open>binding.ts\<close>, \<open>coordination.ts\<close>, \<open>scripts/buyer.ts\<close>):
  a request goes out, and \<open>fetch\<close>, a parameter, answers it with a response or a thrown error.  An
  exchange is recorded in a trace.  A network operation is a function of \<open>fetch\<close> to the exchanges it
  made and its result; the text of an engine's own SyntaxError or TypeError is not modelled, only
  its name.
\<close>

text \<open>A thrown value: an \<open>Error\<close> with its name and message, or anything else as \<open>String\<close> shows it.\<close>

datatype thrown = AnError string string | AValue string

definition plain_error :: "string \<Rightarrow> thrown" where
  "plain_error message = AnError ''Error'' message"

definition type_error :: thrown where
  "type_error = AnError ''TypeError'' ''Cannot read properties of null''"

definition syntax_error :: thrown where
  "syntax_error = AnError ''SyntaxError'' ''Unexpected token in JSON''"

definition thrown_message :: "thrown \<Rightarrow> string" where
  "thrown_message e = (case e of AnError _ m \<Rightarrow> m | AValue s \<Rightarrow> s)"

definition named_message :: "thrown \<Rightarrow> string" where
  "named_message e = (case e of AnError n m \<Rightarrow> n @ '': '' @ m | AValue s \<Rightarrow> s)"

record http_request =
  rq_method :: string
  rq_url :: string
  rq_headers :: "(string \<times> string) list"
  rq_body :: "string option"

record http_response =
  rs_status :: int
  rs_body :: string

type_synonym fetch = "http_request \<Rightarrow> (thrown, http_response) res"

type_synonym exchange = "http_request \<times> (thrown, http_response) res"

type_synonym ('e, 'a) net = "fetch \<Rightarrow> exchange list \<times> ('e, 'a) res"

definition resp_ok :: "http_response \<Rightarrow> bool" where
  "resp_ok r \<longleftrightarrow> 200 \<le> rs_status r \<and> rs_status r \<le> 299"

text \<open>\<open>resp.json()\<close>, and a member of a value that may be null.\<close>

definition resp_json :: "http_response \<Rightarrow> (thrown, jsval) res" where
  "resp_json r = (case json_parse (rs_body r) of Some v \<Rightarrow> Inr v | None \<Rightarrow> Inl syntax_error)"

definition read_member :: "jsval \<Rightarrow> string \<Rightarrow> (thrown, jsval) res" where
  "read_member v k = (if nullish v then Inl type_error else Inr (getp v k))"

section \<open>Network operations\<close>

definition send :: "http_request \<Rightarrow> (thrown, http_response) net" where
  "send rq fetch = ([(rq, fetch rq)], fetch rq)"

definition net_return :: "('e, 'a) res \<Rightarrow> ('e, 'a) net" where
  "net_return r fetch = ([], r)"

definition net_bind :: "('e, 'a) net \<Rightarrow> ('a \<Rightarrow> ('e, 'b) net) \<Rightarrow> ('e, 'b) net" where
  "net_bind m f fetch =
     (case m fetch of
        (xs, Inl e) \<Rightarrow> (xs, Inl e)
      | (xs, Inr v) \<Rightarrow> (xs @ fst (f v fetch), snd (f v fetch)))"

definition net_error :: "('e \<Rightarrow> 'f) \<Rightarrow> ('e, 'a) net \<Rightarrow> ('f, 'a) net" where
  "net_error g m fetch = (fst (m fetch), case snd (m fetch) of Inl e \<Rightarrow> Inl (g e) | Inr v \<Rightarrow> Inr v)"

lemma net_simps [simp]:
  "send rq fetch = ([(rq, fetch rq)], fetch rq)"
  "net_return r fetch = ([], r)"
  by (simp_all add: send_def net_return_def)

lemma fst_net_bind:
  "fst (net_bind m f fetch) =
     fst (m fetch) @ (case snd (m fetch) of Inr v \<Rightarrow> fst (f v fetch) | Inl e \<Rightarrow> [])"
  by (simp add: net_bind_def split: prod.split sum.split)

lemma snd_net_bind:
  "snd (net_bind m f fetch) = res_bind (snd (m fetch)) (\<lambda>v. snd (f v fetch))"
  by (simp add: net_bind_def res_bind_def split: prod.split sum.split)

definition http_get :: "string \<Rightarrow> http_request" where
  "http_get url = \<lparr> rq_method = ''GET'', rq_url = url, rq_headers = [], rq_body = None \<rparr>"

end
