(* ===== verification/Binding.thy ===== *)
theory Binding
  imports Http Seller Machine
begin

text \<open>
  \<open>src/binding.ts\<close>: the runtime binding.  The agent files its key with the identity service once,
  polls the public lookup of that key, and opens the signing gate only while the lookup answers
  with this agent's own DID.

  The endless loop of \<open>maintain\<close> is a run over a list of passes: each pass has its own clock, environment
  and answers, and its state is the status the gate reads with the two latches of the loop.  The
  DER encoding of \<open>@noble/curves\<close> is the parameter \<open>bc_der\<close>.
\<close>

section \<open>Configuration\<close>

definition strip_slash :: "string \<Rightarrow> string" where
  "strip_slash s = (if s \<noteq> [] \<and> last s = CHR ''/'' then butlast s else s)"

definition identityBaseUrl :: "environment \<Rightarrow> string" where
  "identityBaseUrl env = strip_slash (js_trim (env_or env ''KITE_IDENTITY_BASE_URL'' ''''))"

definition bindRetrySeconds :: "environment \<Rightarrow> jsnum" where
  "bindRetrySeconds env = js_parse_number (env_or env ''SELLER_RUNTIME_BIND_RETRY_SECONDS'' ''300'')"

datatype register_mode = AutoRegister | RegisterOff

definition bindRegisterMode :: "environment \<Rightarrow> register_mode" where
  "bindRegisterMode env =
     (if env_or env ''SELLER_RUNTIME_BIND_REGISTER'' ''auto'' = ''off'' then RegisterOff else AutoRegister)"

definition DIRECT_BIND_DOMAIN :: string where
  "DIRECT_BIND_DOMAIN = ''kite:identity:runtime-bind:direct:v1''"

definition runtimeDescriptor :: "environment \<Rightarrow> json" where
  "runtimeDescriptor env =
     [(''software'', JStr ''kite-example-data-seller-agent''), (''env'', JStr (env_or env ''SELLER_RUNTIME_ENV'' ''example''))]"

record binding_config =
  bc_crypto :: crypto
  bc_der :: "string \<Rightarrow> string"
  bc_agentDid :: string
  bc_privateKey :: string

definition pubKeyRef :: "crypto \<Rightarrow> string \<Rightarrow> string" where
  "pubKeyRef C privateKey = ''secp256k1:'' @ base64 (curve_pubkey C privateKey True)"

definition bind_message :: "string \<Rightarrow> string \<Rightarrow> string \<Rightarrow> string" where
  "bind_message nonce agentStorageId pubKey =
     join_with [CHR 0x0A] [DIRECT_BIND_DOMAIN, nonce, agentStorageId, pubKey]"

definition bindProof :: "binding_config \<Rightarrow> string \<Rightarrow> string \<Rightarrow> string \<Rightarrow> string" where
  "bindProof X nonce agentStorageId pubKey =
     base64 (bc_der X (fst (curve_sign (bc_crypto X) (bc_privateKey X)
       (sha256_digest (bc_crypto X) (bind_message nonce agentStorageId pubKey)))))"

section \<open>The status and the gate\<close>

datatype bind_state = Disabled | NoKey | Pending | Active | BindError

fun bind_state_name :: "bind_state \<Rightarrow> string" where
  "bind_state_name Disabled = ''disabled''"
| "bind_state_name NoKey = ''no-key''"
| "bind_state_name Pending = ''pending''"
| "bind_state_name Active = ''active''"
| "bind_state_name BindError = ''error''"

record bind_status =
  bs_state :: bind_state
  bs_detail :: string
  bs_runtimeId :: string
  bs_pubKey :: string
  bs_agentStorageId :: string
  bs_checkedAt :: string

definition initial_status :: bind_status where
  "initial_status = \<lparr> bs_state = Disabled, bs_detail = ''runtime binding not configured'', bs_runtimeId = '''',
     bs_pubKey = '''', bs_agentStorageId = '''', bs_checkedAt = '''' \<rparr>"

definition touch :: "int \<Rightarrow> bind_state \<Rightarrow> string \<Rightarrow> bind_status \<Rightarrow> bind_status" where
  "touch now st txt s = s \<lparr> bs_state := st, bs_detail := txt, bs_checkedAt := nowIso now \<rparr>"

definition block :: "bind_status \<Rightarrow> string option" where
  "block s =
     (if bs_state s = Active then None
      else Some (''runtime binding is '' @ bind_state_name (bs_state s) @ '' ('' @ bs_detail s @ '') '' @ EM_DASH @
        '' a signature from an unbound key is refused by Passport whoever relays it''))"

text \<open>\<open>start\<close>: the status it leaves, and the key the loop runs with, if it is started.\<close>

definition start :: "environment \<Rightarrow> string option \<Rightarrow> int \<Rightarrow> bind_status \<Rightarrow> bind_status \<times> string option" where
  "start env privateKey now s =
     (if identityBaseUrl env = [] then
        (touch now Disabled (''KITE_IDENTITY_BASE_URL unset '' @ EM_DASH @ '' running with an ephemeral demo key'') s, None)
      else
        (case privateKey of
           None \<Rightarrow> (touch now NoKey ''KITE_IDENTITY_BASE_URL is set but no durable runtime key was readable'' s, None)
         | Some k \<Rightarrow> (touch now Pending ''resolving agent and filing bind request'' s, Some k)))"

section \<open>Calls to the identity service\<close>

definition dataOf :: "http_response \<Rightarrow> (thrown, jsval) res" where
  "dataOf resp = res_bind (resp_json resp) (\<lambda>v. res_bind (read_member v ''data'') (\<lambda>d. Inr (coalesce d (JObj []))))"

definition answered :: "string \<Rightarrow> http_response \<Rightarrow> thrown" where
  "answered what resp = plain_error (what @ '' answered HTTP '' @ string_of_int (rs_status resp))"

definition lookup_request :: "environment \<Rightarrow> string \<Rightarrow> http_request" where
  "lookup_request env ref = http_get (identityBaseUrl env @ ''/v1/agents:lookup?ref='' @ encodeURIComponent ref)"

definition resolveAgentStorageId :: "binding_config \<Rightarrow> environment \<Rightarrow> (thrown, string) net" where
  "resolveAgentStorageId X env =
     net_bind (send (lookup_request env (bc_agentDid X))) (\<lambda>resp.
       net_return
         (if \<not> resp_ok resp then Inl (answered ''agent lookup'' resp)
          else res_bind (dataOf resp) (\<lambda>d.
            let storageId = text_of (getp d ''id'')
            in if storageId = [] then Inl (plain_error (''lookup of '' @ bc_agentDid X @ '' returned no agent id''))
               else Inr storageId)))"

definition live_entry :: "http_response \<Rightarrow> (thrown, jsval option) res" where
  "live_entry resp =
     (if rs_status resp = 404 then Inr None
      else if \<not> resp_ok resp then Inl (answered ''key lookup'' resp)
      else res_bind (dataOf resp) (\<lambda>d. Inr (Some d)))"

definition lookupLiveBinding :: "environment \<Rightarrow> string \<Rightarrow> (thrown, jsval option) net" where
  "lookupLiveBinding env pubKey = net_bind (send (lookup_request env pubKey)) (\<lambda>resp. net_return (live_entry resp))"

definition nonce_request :: "environment \<Rightarrow> http_request" where
  "nonce_request env =
     \<lparr> rq_method = ''POST'', rq_url = identityBaseUrl env @ ''/v1/runtimes:issueBindNonce'', rq_headers = [], rq_body = None \<rparr>"

definition register_body :: "binding_config \<Rightarrow> environment \<Rightarrow> string \<Rightarrow> string \<Rightarrow> string \<Rightarrow> json" where
  "register_body X env nonce agentStorageId pubKey =
     [(''nonce'', JStr nonce), (''pub_key'', JStr pubKey), (''proof'', JStr (bindProof X nonce agentStorageId pubKey))] @
     runtimeDescriptor env"

definition register_request :: "binding_config \<Rightarrow> environment \<Rightarrow> string \<Rightarrow> string \<Rightarrow> string \<Rightarrow> http_request" where
  "register_request X env nonce agentStorageId pubKey =
     \<lparr> rq_method = ''POST'', rq_url = identityBaseUrl env @ ''/v1/agents/'' @ agentStorageId @ ''/runtimes:registerDirect'',
       rq_headers = [(''content-type'', ''application/json'')],
       rq_body = json_stringify (JObj (register_body X env nonce agentStorageId pubKey)) \<rparr>"

definition issued_nonce :: "http_response \<Rightarrow> (thrown, string) res" where
  "issued_nonce resp =
     (if \<not> resp_ok resp then Inl (answered ''issueBindNonce'' resp)
      else res_bind (dataOf resp) (\<lambda>d.
        let nonce = text_of (getp d ''nonce'')
        in if nonce = [] then Inl (plain_error ''issueBindNonce returned no nonce'') else Inr nonce))"

definition registerDirect :: "binding_config \<Rightarrow> environment \<Rightarrow> string \<Rightarrow> string \<Rightarrow> (thrown, jsval) net" where
  "registerDirect X env agentStorageId pubKey =
     net_bind (send (nonce_request env)) (\<lambda>nonceResp.
     net_bind (net_return (issued_nonce nonceResp)) (\<lambda>nonce.
     net_bind (send (register_request X env nonce agentStorageId pubKey)) (\<lambda>resp.
       net_return (if \<not> resp_ok resp then Inl (answered ''registerDirect'' resp) else dataOf resp))))"

section \<open>The loop\<close>

record maintain =
  mt_status :: bind_status
  mt_registered :: bool
  mt_everActive :: bool

record pass =
  ps_now :: int
  ps_env :: environment
  ps_fetch :: fetch

definition maintain_start :: "binding_config \<Rightarrow> bind_status \<Rightarrow> maintain" where
  "maintain_start X s =
     \<lparr> mt_status = s \<lparr> bs_pubKey := pubKeyRef (bc_crypto X) (bc_privateKey X) \<rparr>, mt_registered = False, mt_everActive = False \<rparr>"

definition set_status :: "bind_status \<Rightarrow> maintain \<Rightarrow> maintain" where
  "set_status s m = m \<lparr> mt_status := s \<rparr>"

definition withheld :: "string \<Rightarrow> string" where
  "withheld runtimeId = (if runtimeId = [] then ''(id withheld)'' else runtimeId)"

text \<open>An entry of another agent, or of none: the gate closes.\<close>

definition foreign_entry :: "binding_config \<Rightarrow> int \<Rightarrow> string \<Rightarrow> maintain \<Rightarrow> maintain" where
  "foreign_entry X now resolvedDid m =
     set_status (touch now BindError
       (if resolvedDid = []
        then ''key lookup answered 200 with no DID '' @ EM_DASH @ '' refusing to treat a malformed entry as an approval''
        else ''runtime key is bound to '' @ resolvedDid @ '', not '' @ bc_agentDid X @ '' '' @ EM_DASH @
          '' refusing to report the binding as ours'') (mt_status m)) m"

definition approved_detail :: "jsval \<Rightarrow> string \<Rightarrow> string" where
  "approved_detail matched runtimeId =
     ''runtime '' @ withheld runtimeId @ '' is active ('' @
     js_string (coalesce (getp matched ''bind_method'') (JStr ''direct'')) @ '' bind) '' @ EM_DASH @ '' owner approval confirmed''"

definition own_entry :: "int \<Rightarrow> jsval \<Rightarrow> maintain \<Rightarrow> maintain" where
  "own_entry now entry m =
     (let matched = coalesce (getp entry ''matched_runtime'') (JObj []);
          s = (mt_status m) \<lparr> bs_runtimeId := text_of (getp matched ''id'') \<rparr>
      in m \<lparr> mt_everActive := True,
             mt_status := (if bs_state s \<noteq> Active then touch now Active (approved_detail matched (bs_runtimeId s)) s
                           else s \<lparr> bs_checkedAt := nowIso now \<rparr>) \<rparr>)"

text \<open>Approved before and no longer resolvable.\<close>

definition revoked :: "int \<Rightarrow> maintain \<Rightarrow> maintain" where
  "revoked now m =
     (let s = mt_status m
      in set_status
           (if bs_state s \<noteq> BindError
            then touch now BindError (''binding no longer resolves '' @ EM_DASH @
              '' revoked or superseded; signing is closed until an owner re-approves'') s
            else s \<lparr> bs_checkedAt := nowIso now \<rparr>) m)"

definition failed :: "int \<Rightarrow> thrown \<Rightarrow> maintain \<Rightarrow> maintain" where
  "failed now e m = set_status (touch now BindError (named_message e) (mt_status m)) m"

definition filed :: "int \<Rightarrow> jsval \<Rightarrow> maintain \<Rightarrow> maintain" where
  "filed now view m =
     (let s = (mt_status m) \<lparr> bs_runtimeId := text_of (getp view ''id'') \<rparr>
      in m \<lparr> mt_registered := True,
             mt_status := touch now Pending (''runtime '' @ withheld (bs_runtimeId s) @
               '' filed a tokenless bind request; awaiting owner approval (POST /v1/agents/'' @ bs_agentStorageId s @
               ''/runtimes/'' @ bs_runtimeId s @ '':approve)'') s \<rparr>)"

definition resolved_id :: "binding_config \<Rightarrow> environment \<Rightarrow> maintain \<Rightarrow> (thrown, string) net" where
  "resolved_id X env m =
     (if bs_agentStorageId (mt_status m) = [] then resolveAgentStorageId X env
      else net_return (Inr (bs_agentStorageId (mt_status m))))"

definition with_storage_id :: "string \<Rightarrow> maintain \<Rightarrow> maintain" where
  "with_storage_id i m = set_status ((mt_status m) \<lparr> bs_agentStorageId := i \<rparr>) m"

text \<open>The resolved id is kept even when the registration then fails.\<close>

definition register_pass :: "binding_config \<Rightarrow> pass \<Rightarrow> maintain \<Rightarrow> exchange list \<times> maintain" where
  "register_pass X p m =
     (case resolved_id X (ps_env p) m (ps_fetch p) of
        (xs, Inl e) \<Rightarrow> (xs, failed (ps_now p) e m)
      | (xs, Inr i) \<Rightarrow>
          (let m' = with_storage_id i m
           in case registerDirect X (ps_env p) i (pubKeyRef (bc_crypto X) (bc_privateKey X)) (ps_fetch p) of
                (ys, Inl e) \<Rightarrow> (xs @ ys, failed (ps_now p) e m')
              | (ys, Inr view) \<Rightarrow> (xs @ ys, filed (ps_now p) view m')))"

definition unresolved_pass :: "binding_config \<Rightarrow> pass \<Rightarrow> maintain \<Rightarrow> exchange list \<times> maintain" where
  "unresolved_pass X p m =
     (if mt_everActive m then ([], revoked (ps_now p) m)
      else if \<not> mt_registered m \<and> bindRegisterMode (ps_env p) = AutoRegister then register_pass X p m
      else if mt_registered m then
        ([], set_status (touch (ps_now p) Pending
          (hd (split_at_char (CHR '';'') (bs_detail (mt_status m))) @ ''; awaiting owner approval'') (mt_status m)) m)
      else
        ([], set_status (touch (ps_now p) Pending
          ''registration disabled (SELLER_RUNTIME_BIND_REGISTER=off); polling for an existing binding'' (mt_status m)) m))"

definition maintain_pass :: "binding_config \<Rightarrow> pass \<Rightarrow> maintain \<Rightarrow> exchange list \<times> maintain" where
  "maintain_pass X p m =
     (case lookupLiveBinding (ps_env p) (pubKeyRef (bc_crypto X) (bc_privateKey X)) (ps_fetch p) of
        (xs, Inl e) \<Rightarrow> (xs, failed (ps_now p) e m)
      | (xs, Inr (Some entry)) \<Rightarrow>
          (let resolvedDid = text_of (getp entry ''did'')
           in (xs, if resolvedDid \<noteq> bc_agentDid X then foreign_entry X (ps_now p) resolvedDid m
                   else own_entry (ps_now p) entry m))
      | (xs, Inr None) \<Rightarrow>
          (let (ys, m') = unresolved_pass X p m in (xs @ ys, m')))"

fun maintain_run :: "binding_config \<Rightarrow> pass list \<Rightarrow> maintain \<Rightarrow> exchange list \<times> maintain" where
  "maintain_run X [] m = ([], m)"
| "maintain_run X (p # ps) m =
     (let (xs, m') = maintain_pass X p m; (ys, m'') = maintain_run X ps m' in (xs @ ys, m''))"


section \<open>What a pass does\<close>

lemma block_None [simp]: "block s = None \<longleftrightarrow> bs_state s = Active"
  by (simp add: block_def)

lemma bs_state_touch [simp]: "bs_state (touch now st t s) = st"
  by (simp add: touch_def)

lemma closed_status [simp]:
  "mt_status (set_status s m) = s" "mt_registered (set_status s m) = mt_registered m"
  "mt_everActive (set_status s m) = mt_everActive m"
  by (simp_all add: set_status_def)

abbreviation pass_lookup :: "binding_config \<Rightarrow> pass \<Rightarrow> (thrown, jsval option) res" where
  "pass_lookup X p \<equiv> snd (lookupLiveBinding (ps_env p) (pubKeyRef (bc_crypto X) (bc_privateKey X)) (ps_fetch p))"

lemma pass_state:
  "bs_state (mt_status (snd (maintain_pass X p m))) = Active \<longleftrightarrow>
     (\<exists>entry. pass_lookup X p = Inr (Some entry) \<and> text_of (getp entry ''did'') = bc_agentDid X)"
  by (auto simp: maintain_pass_def failed_def foreign_entry_def own_entry_def unresolved_pass_def revoked_def
      register_pass_def filed_def Let_def split: prod.split sum.split option.split)

lemma live_entry_found:
  "live_entry resp = Inr (Some entry) \<longleftrightarrow> resp_ok resp \<and> dataOf resp = Inr entry"
  by (auto simp: live_entry_def resp_ok_def res_bind_def split: sum.splits)

lemma pass_lookup_found:
  "pass_lookup X p = Inr (Some entry) \<longleftrightarrow>
     (\<exists>resp. ps_fetch p (lookup_request (ps_env p) (pubKeyRef (bc_crypto X) (bc_privateKey X))) = Inr resp \<and>
        resp_ok resp \<and> dataOf resp = Inr entry)"
  by (auto simp: lookupLiveBinding_def snd_net_bind res_bind_def live_entry_found split: sum.splits)

lemma maintain_run_append:
  "snd (maintain_run X (ps @ qs) m) = snd (maintain_run X qs (snd (maintain_run X ps m)))"
  by (induction ps arbitrary: m) (simp_all add: Let_def case_prod_beta)

text \<open>The latches: what a pass can do to them.\<close>

lemma pass_latches:
  assumes "maintain_pass X p m = (xs, m')"
  shows "mt_everActive m' \<longleftrightarrow> mt_everActive m \<or> bs_state (mt_status m') = Active \<and> (\<exists>e. pass_lookup X p = Inr (Some e))"
    and "mt_registered m \<Longrightarrow> mt_registered m'"
    and "mt_registered m' \<Longrightarrow> \<not> mt_registered m \<Longrightarrow>
         \<not> mt_everActive m \<and> bs_state (mt_status m') = Pending"
  using assms
  by (auto simp: maintain_pass_def failed_def foreign_entry_def own_entry_def unresolved_pass_def revoked_def
      register_pass_def filed_def with_storage_id_def Let_def split: prod.splits sum.splits option.splits if_splits)


section \<open>What goes over the wire\<close>

text \<open>A registration, the only request with a body, that the service answered with a readable success.\<close>

definition registration :: "exchange \<Rightarrow> bool" where
  "registration x \<longleftrightarrow> rq_body (fst x) \<noteq> None"

definition accepted_registration :: "exchange \<Rightarrow> bool" where
  "accepted_registration x \<longleftrightarrow>
     registration x \<and> (case snd x of Inr resp \<Rightarrow> resp_ok resp \<and> (\<exists>d. dataOf resp = Inr d) | Inl _ \<Rightarrow> False)"

lemma lookup_request_simps [simp]:
  "rq_method (lookup_request env ref) = ''GET''" "rq_body (lookup_request env ref) = None"
  by (simp_all add: lookup_request_def http_get_def)

lemma nonce_request_simps [simp]: "rq_method (nonce_request env) = ''POST''" "rq_body (nonce_request env) = None"
  by (simp_all add: nonce_request_def)

lemma register_request_simps [simp]:
  "rq_method (register_request X env n i k) = ''POST''" "rq_body (register_request X env n i k) \<noteq> None"
  by (simp_all add: register_request_def)

lemma lookup_trace: "fst (lookupLiveBinding env ref fetch) = [(lookup_request env ref, fetch (lookup_request env ref))]"
  by (simp add: lookupLiveBinding_def fst_net_bind split: sum.split)

lemma resolved_id_trace:
  "x \<in> set (fst (resolved_id X env m fetch)) \<Longrightarrow> rq_method (fst x) = ''GET'' \<and> \<not> registration x"
  by (auto simp: resolved_id_def resolveAgentStorageId_def fst_net_bind registration_def split: if_splits sum.splits)

lemma registerDirect_trace:
  "length (filter accepted_registration (fst (registerDirect X env i k fetch))) =
     (case snd (registerDirect X env i k fetch) of Inr _ \<Rightarrow> 1 | Inl _ \<Rightarrow> 0)"
  by (auto simp: registerDirect_def fst_net_bind snd_net_bind res_bind_def accepted_registration_def registration_def
      split: sum.splits)

lemma no_registrations: "\<forall>x \<in> set xs. \<not> registration x \<Longrightarrow> filter accepted_registration xs = []"
  by (auto simp: filter_empty_conv accepted_registration_def)

lemma resolved_id_none: "filter accepted_registration (fst (resolved_id X env m fetch)) = []"
  using resolved_id_trace by (intro no_registrations) blast

lemma pass_registrations:
  assumes "maintain_pass X p m = (xs, m')"
  shows "length (filter accepted_registration xs) = (if mt_registered m' \<and> \<not> mt_registered m then 1 else 0)"
proof -
  let ?k = "pubKeyRef (bc_crypto X) (bc_privateKey X)"
  define ls where "ls = fst (lookupLiveBinding (ps_env p) ?k (ps_fetch p))"
  have ls: "filter accepted_registration ls = []"
    by (rule no_registrations) (simp add: ls_def lookup_trace registration_def)
  obtain r where r: "lookupLiveBinding (ps_env p) ?k (ps_fetch p) = (ls, r)" by (metis ls_def prod.collapse)
  show ?thesis
  proof (cases "r = Inr None \<and> \<not> mt_everActive m \<and> \<not> mt_registered m \<and> bindRegisterMode (ps_env p) = AutoRegister")
    case True
    then have e: "maintain_pass X p m = (ls @ fst (register_pass X p m), snd (register_pass X p m))"
      by (simp add: maintain_pass_def r unresolved_pass_def case_prod_beta)
    obtain ys q where q: "resolved_id X (ps_env p) m (ps_fetch p) = (ys, q)" by fastforce
    have ys: "filter accepted_registration ys = []" using resolved_id_none[of X "ps_env p" m "ps_fetch p"] q by simp
    show ?thesis
    proof (cases q)
      case (Inl err)
      with e q assms ls ys True show ?thesis by (auto simp: register_pass_def failed_def)
    next
      case (Inr i)
      obtain zs a where a: "registerDirect X (ps_env p) i ?k (ps_fetch p) = (zs, a)" by fastforce
      have zs: "length (filter accepted_registration zs) = (case a of Inr _ \<Rightarrow> 1 | Inl _ \<Rightarrow> 0)"
        using registerDirect_trace[of X "ps_env p" i ?k "ps_fetch p"] a by simp
      from e q assms ls ys zs a Inr True show ?thesis
        by (cases a) (auto simp: register_pass_def failed_def filed_def with_storage_id_def Let_def)
    qed
  next
    case False
    have "fst (maintain_pass X p m) = ls" "mt_registered (snd (maintain_pass X p m)) = mt_registered m"
      using False by (auto simp: maintain_pass_def r unresolved_pass_def failed_def foreign_entry_def own_entry_def
          revoked_def Let_def split: sum.splits option.splits)
    with assms ls show ?thesis by simp
  qed
qed

lemma pass_reads_only:
  assumes "maintain_pass X p m = (xs, m')" and "mt_registered m \<or> mt_everActive m" and "x \<in> set xs"
  shows "rq_method (fst x) = ''GET''"
proof -
  let ?l = "lookupLiveBinding (ps_env p) (pubKeyRef (bc_crypto X) (bc_privateKey X)) (ps_fetch p)"
  have "xs = fst ?l"
    using assms(1,2) by (auto simp: maintain_pass_def unresolved_pass_def Let_def split: prod.splits sum.splits option.splits if_splits)
  then show ?thesis using assms(3) by (simp add: lookup_trace)
qed

lemma run_registrations:
  "length (filter accepted_registration (fst (maintain_run X ps m))) =
     (if mt_registered (snd (maintain_run X ps m)) \<and> \<not> mt_registered m then 1 else 0)
   \<and> (mt_registered m \<longrightarrow> mt_registered (snd (maintain_run X ps m)))"
proof (induction ps arbitrary: m)
  case (Cons p ps)
  obtain xs m' where p: "maintain_pass X p m = (xs, m')" by fastforce
  obtain ys m'' where q: "maintain_run X ps m' = (ys, m'')" by fastforce
  have r: "maintain_run X (p # ps) m = (xs @ ys, m'')" by (simp add: p q)
  have y: "length (filter accepted_registration ys) = (if mt_registered m'' \<and> \<not> mt_registered m' then 1 else 0)"
    and k: "mt_registered m' \<longrightarrow> mt_registered m''" using Cons[of m'] q by simp_all
  show ?case
    unfolding r fst_conv snd_conv filter_append length_append y pass_registrations[OF p]
    using k pass_latches(2)[OF p] by (cases "mt_registered m"; cases "mt_registered m'") simp_all
qed simp

lemma registerDirect_posts: "x \<in> set (fst (registerDirect X env i k fetch)) \<Longrightarrow> rq_method (fst x) = ''POST''"
  by (auto simp: registerDirect_def fst_net_bind split: sum.splits)

text \<open>A pass writes only when the key has no binding, registering is enabled and nothing was filed or approved.\<close>

lemma pass_writes:
  assumes "maintain_pass X p m = (xs, m')" and "x \<in> set xs" and "rq_method (fst x) \<noteq> ''GET''"
  shows "pass_lookup X p = Inr None \<and> \<not> mt_registered m \<and> \<not> mt_everActive m \<and> bindRegisterMode (ps_env p) = AutoRegister"
proof (rule ccontr)
  assume c: "\<not> ?thesis"
  let ?l = "lookupLiveBinding (ps_env p) (pubKeyRef (bc_crypto X) (bc_privateKey X)) (ps_fetch p)"
  have "xs = fst ?l"
    using assms(1) c by (auto simp: maintain_pass_def unresolved_pass_def Let_def split: prod.splits sum.splits option.splits if_splits)
  then show False using assms(2,3) by (simp add: lookup_trace)
qed

lemma pass_registration_posts:
  assumes "maintain_pass X p m = (xs, m')" and "x \<in> set xs" and "registration x"
  shows "rq_method (fst x) = ''POST''"
proof -
  let ?k = "pubKeyRef (bc_crypto X) (bc_privateKey X)"
  have "x \<in> set (fst (lookupLiveBinding (ps_env p) ?k (ps_fetch p))) \<or> x \<in> set (fst (resolved_id X (ps_env p) m (ps_fetch p))) \<or>
      (\<exists>i. x \<in> set (fst (registerDirect X (ps_env p) i ?k (ps_fetch p))))"
    using assms(1,2)
    by (auto simp: maintain_pass_def unresolved_pass_def register_pass_def Let_def
        split: prod.splits sum.splits option.splits if_splits; metis fst_conv)
  then show ?thesis
  proof (elim disjE exE)
    assume "x \<in> set (fst (lookupLiveBinding (ps_env p) ?k (ps_fetch p)))"
    with assms(3) show ?thesis by (simp add: lookup_trace registration_def)
  next
    assume "x \<in> set (fst (resolved_id X (ps_env p) m (ps_fetch p)))"
    from resolved_id_trace[OF this] assms(3) show ?thesis by simp
  qed (rule registerDirect_posts)
qed

section \<open>The binding as a state machine\<close>

text \<open>
  What an observer of the wire sees of one pass, computed from the answers and the requests alone: whether the
  key lookup named this agent, whether registering was enabled, whether anything but a read was sent,
  and how many registrations the service accepted.
\<close>

record owner_event =
  oe_named :: bool
  oe_enabled :: bool
  oe_wrote :: bool
  oe_accepted :: nat

definition lookup_names :: "binding_config \<Rightarrow> pass \<Rightarrow> bool" where
  "lookup_names X p =
     (case ps_fetch p (lookup_request (ps_env p) (pubKeyRef (bc_crypto X) (bc_privateKey X))) of
        Inl e \<Rightarrow> False
      | Inr resp \<Rightarrow> resp_ok resp \<and>
          (case dataOf resp of Inl e \<Rightarrow> False | Inr entry \<Rightarrow> text_of (getp entry ''did'') = bc_agentDid X))"

definition pass_event :: "binding_config \<Rightarrow> pass \<Rightarrow> exchange list \<Rightarrow> owner_event" where
  "pass_event X p xs =
     \<lparr> oe_named = lookup_names X p, oe_enabled = (bindRegisterMode (ps_env p) = AutoRegister),
       oe_wrote = list_ex (\<lambda>x. rq_method (fst x) \<noteq> ''GET'') xs,
       oe_accepted = length (filter accepted_registration xs) \<rparr>"

fun run_events :: "binding_config \<Rightarrow> pass list \<Rightarrow> maintain \<Rightarrow> owner_event list" where
  "run_events X [] m = []"
| "run_events X (p # ps) m = (case maintain_pass X p m of (xs, m') \<Rightarrow> pass_event X p xs # run_events X ps m')"

inductive binding_step :: "binding_config \<Rightarrow> owner_event \<Rightarrow> maintain \<Rightarrow> maintain \<Rightarrow> bool" for X where
  pass: "maintain_pass X p m = (xs, m') \<Longrightarrow> binding_step X (pass_event X p xs) m m'"

definition binding_ok :: "maintain \<Rightarrow> bool" where
  "binding_ok m \<longleftrightarrow> (bs_state (mt_status m) = Active \<longrightarrow> mt_everActive m)"

text \<open>
  The owner's view: whether a request was filed, whether the owner ever approved, whether the gate is open.
  The lookup that names this agent is the approval: it opens the gate, and such a pass only reads.  A
  request is filed, or its filing attempted, only while none was filed and no approval was ever seen, and only
  when registering is enabled.  Every pass without an approval leaves the gate closed.
\<close>

record owner_view =
  ow_filed :: bool
  ow_approved :: bool
  ow_open :: bool

definition owner_view_of :: "maintain \<Rightarrow> owner_view" where
  "owner_view_of m =
     \<lparr> ow_filed = mt_registered m, ow_approved = mt_everActive m, ow_open = (block (mt_status m) = None) \<rparr>"

inductive owner_step :: "owner_event \<Rightarrow> owner_view \<Rightarrow> owner_view \<Rightarrow> bool" where
  approval: "oe_named e \<Longrightarrow> \<not> oe_wrote e \<Longrightarrow> oe_accepted e = 0 \<Longrightarrow>
    owner_step e v (v \<lparr> ow_approved := True, ow_open := True \<rparr>)"
| filing: "\<not> oe_named e \<Longrightarrow> oe_enabled e \<Longrightarrow> oe_wrote e \<Longrightarrow> oe_accepted e = 1 \<Longrightarrow> \<not> ow_filed v \<Longrightarrow> \<not> ow_approved v \<Longrightarrow>
    owner_step e v (v \<lparr> ow_filed := True, ow_open := False \<rparr>)"
| attempt: "\<not> oe_named e \<Longrightarrow> oe_enabled e \<Longrightarrow> oe_wrote e \<Longrightarrow> oe_accepted e = 0 \<Longrightarrow> \<not> ow_filed v \<Longrightarrow> \<not> ow_approved v \<Longrightarrow>
    owner_step e v (v \<lparr> ow_open := False \<rparr>)"
| silence: "\<not> oe_named e \<Longrightarrow> \<not> oe_wrote e \<Longrightarrow> oe_accepted e = 0 \<Longrightarrow> owner_step e v (v \<lparr> ow_open := False \<rparr>)"

lemma lookup_names_iff: "lookup_names X p \<longleftrightarrow> (\<exists>entry. pass_lookup X p = Inr (Some entry) \<and> text_of (getp entry ''did'') = bc_agentDid X)"
  unfolding pass_lookup_found by (auto simp: lookup_names_def split: sum.split)

lemma named_opens: "maintain_pass X p m = (xs, m') \<Longrightarrow> bs_state (mt_status m') = Active \<longleftrightarrow> lookup_names X p"
  using pass_state[of X p m] by (simp add: lookup_names_iff)

lemma binding_step_ok:
  assumes "binding_step X e m m'" and "binding_ok m"
  shows "binding_ok m'"
  using assms(1)
proof cases
  case (pass p xs)
  then show ?thesis using pass_latches(1)[OF pass(2)] named_opens[OF pass(2)] by (auto simp: binding_ok_def lookup_names_iff)
qed

lemma binding_step_simulates:
  assumes "binding_step X e m m'"
  shows "owner_step e (owner_view_of m) (owner_view_of m')"
  using assms
proof cases
  case (pass p xs)
  note l = pass_latches[OF pass(2)] and named = named_opens[OF pass(2)]
  have acc: "oe_accepted e = (if mt_registered m' \<and> \<not> mt_registered m then 1 else 0)"
    using pass_registrations[OF pass(2)] by (simp add: pass(1) pass_event_def)
  have wrote: "oe_wrote e \<Longrightarrow> \<not> oe_named e \<and> oe_enabled e \<and> \<not> mt_registered m \<and> \<not> mt_everActive m"
    using pass_writes[OF pass(2)] by (auto simp: pass(1) pass_event_def list_ex_iff lookup_names_iff)
  have posts: "oe_wrote e" if "oe_accepted e = 1"
  proof -
    have "filter accepted_registration xs \<noteq> []" using that by (auto simp: pass(1) pass_event_def)
    then obtain x where x: "x \<in> set xs" "registration x" by (auto simp: filter_empty_conv accepted_registration_def)
    from pass_registration_posts[OF pass(2) x] have "rq_method (fst x) \<noteq> ''GET''" by simp
    with x(1) show ?thesis unfolding pass(1) pass_event_def owner_event.select_convs list_ex_iff by (rule bexI[rotated])
  qed
  show ?thesis
  proof (cases "oe_named e")
    case True
    then have a: "bs_state (mt_status m') = Active" using named by (simp add: pass(1) pass_event_def)
    have w1: "\<not> oe_wrote e" using True wrote by blast
    have "oe_accepted e \<noteq> 1" using w1 posts by blast
    then have w: "\<not> oe_wrote e" "oe_accepted e = 0"
      using w1 acc by (cases "mt_registered m' \<and> \<not> mt_registered m"; simp)+
    then have "mt_registered m' = mt_registered m" using acc l(2) by (cases "mt_registered m"; cases "mt_registered m'") simp_all
    moreover have "mt_everActive m'" using True l(1) a unfolding pass(1) pass_event_def owner_event.select_convs lookup_names_iff by blast
    ultimately have "owner_view_of m' = (owner_view_of m) \<lparr> ow_approved := True, ow_open := True \<rparr>"
      using a by (simp add: owner_view_of_def)
    with True w show ?thesis by (simp add: owner_step.approval)
  next
    case False
    then have c: "bs_state (mt_status m') \<noteq> Active" using named by (simp add: pass(1) pass_event_def)
    then have ever: "mt_everActive m' = mt_everActive m" using l(1) by auto
    show ?thesis
    proof (cases "oe_accepted e = 1")
      case True
      then have r: "mt_registered m'" "\<not> mt_registered m" using acc by (cases "mt_registered m"; cases "mt_registered m'"; simp)+
      then have "owner_view_of m' = (owner_view_of m) \<lparr> ow_filed := True, ow_open := False \<rparr>"
        using c ever by (simp add: owner_view_of_def)
      moreover have "oe_wrote e" "oe_enabled e" "\<not> mt_everActive m" using True posts wrote by blast+
      ultimately show ?thesis using False True r owner_step.filing[of e "owner_view_of m"] by (simp add: owner_view_of_def)
    next
      case no: False
      then have r: "mt_registered m' = mt_registered m" "oe_accepted e = 0" using acc l(2) by (cases "mt_registered m"; cases "mt_registered m'"; simp)+
      then have v: "owner_view_of m' = (owner_view_of m) \<lparr> ow_open := False \<rparr>" using c ever by (simp add: owner_view_of_def)
      show ?thesis
      proof (cases "oe_wrote e")
        case True
        with wrote have "oe_enabled e" "\<not> mt_registered m" "\<not> mt_everActive m" by blast+
        then show ?thesis unfolding v using owner_step.attempt[of e "owner_view_of m"] False True r(2) by (simp add: owner_view_of_def)
      qed (simp add: v owner_step.silence False r(2))
    qed
  qed
qed

interpretation binding_life: labelled_refinement "binding_step X" binding_ok owner_view_of owner_step for X
  by unfold_locales (auto intro: binding_step_ok binding_step_simulates)

lemma run_reaches: "labelled_run (binding_step X) (run_events X ps m) m (snd (maintain_run X ps m))"
proof (induction ps arbitrary: m)
  case Nil
  then show ?case by (simp add: labelled_run.stop)
next
  case (Cons p ps)
  obtain xs m' where p: "maintain_pass X p m = (xs, m')" by fastforce
  from binding_step.pass[OF p] Cons[of m'] show ?case
    by (simp add: p case_prod_beta Let_def labelled_run.more)
qed

section \<open>Properties\<close>

text \<open>The loop as \<open>start\<close> leaves it.\<close>

definition booted :: "binding_config \<Rightarrow> environment \<Rightarrow> int \<Rightarrow> maintain" where
  "booted X env now = maintain_start X (fst (start env (Some (bc_privateKey X)) now initial_status))"

lemma booted_simps [simp]:
  "\<not> mt_registered (booted X env now)" "\<not> mt_everActive (booted X env now)"
  "bs_state (mt_status (booted X env now)) \<noteq> Active"
  by (simp_all add: booted_def maintain_start_def start_def)

lemma booted_ok: "binding_ok (booted X env now)"
  by (simp add: binding_ok_def)

text \<open>
  C17: After any run of passes, the signing gate is open exactly when the key lookup of the last pass
  was answered with a success whose entry names this agent's own DID: a 404, an HTTP error, a
  malformed body, an entry without a DID or of another agent, and a thrown error all close it, and
  the next fair answer opens it again.
\<close>
theorem gate_is_the_directorys_answer:
  "block (mt_status (snd (maintain_run X (ps @ [p]) m))) = None \<longleftrightarrow>
     (\<exists>resp entry. ps_fetch p (lookup_request (ps_env p) (pubKeyRef (bc_crypto X) (bc_privateKey X))) = Inr resp \<and>
        resp_ok resp \<and> dataOf resp = Inr entry \<and> text_of (getp entry ''did'') = bc_agentDid X)"
  using pass_state[where X = X and p = p and m = "snd (maintain_run X ps m)"]
  by (simp add: maintain_run_append case_prod_beta Let_def pass_lookup_found) blast

lemma run_reads_only:
  assumes "mt_registered m \<or> mt_everActive m" and "x \<in> set (fst (maintain_run X ps m))"
  shows "rq_method (fst x) = ''GET''"
  using assms
proof (induction ps arbitrary: m)
  case (Cons p ps)
  obtain xs m' where p: "maintain_pass X p m = (xs, m')" by fastforce
  have "mt_registered m' \<or> mt_everActive m'" using pass_latches(1,2)[OF p] Cons.prems(1) by auto
  moreover have "x \<in> set xs \<or> x \<in> set (fst (maintain_run X ps m'))"
    using Cons.prems(2) by (simp add: p case_prod_beta Let_def)
  ultimately show ?case using Cons.IH[of m'] pass_reads_only[OF p Cons.prems(1)] by blast
qed simp

text \<open>
  C16: Over a whole run at most one registration is accepted by the identity service, and once the
  gate has been open no request other than a read is ever sent again, whatever the owner then does.
\<close>
theorem binds_at_most_once:
  "length (filter accepted_registration (fst (maintain_run X ps (booted X env now)))) \<le> 1 \<and>
   (block (mt_status (snd (maintain_run X ps (booted X env now)))) = None \<longrightarrow>
     (\<forall>x \<in> set (fst (maintain_run X qs (snd (maintain_run X ps (booted X env now))))). rq_method (fst x) = ''GET''))"
proof -
  let ?m = "snd (maintain_run X ps (booted X env now))"
  have "binding_ok ?m" using binding_life.run_good[OF run_reaches booted_ok] .
  then have "rq_method (fst x) = ''GET''" if "block (mt_status ?m) = None" "x \<in> set (fst (maintain_run X qs ?m))" for x
    using that run_reads_only[of ?m x X qs] by (simp add: binding_ok_def)
  moreover have "length (filter accepted_registration (fst (maintain_run X ps (booted X env now)))) \<le> 1"
    using run_registrations[of X ps "booted X env now"] by simp
  ultimately show ?thesis by blast
qed

definition own_config :: binding_config where
  "own_config = \<lparr> bc_crypto = sample_crypto, bc_der = (\<lambda>s. s), bc_agentDid = ''did:kite:acme:seller'', bc_privateKey = [] \<rparr>"

definition approving_pass :: pass where
  "approving_pass = \<lparr> ps_now = 0, ps_env = (\<lambda>_. None), ps_fetch = (\<lambda>_. Inr \<lparr> rs_status = 200,
     rs_body = printed (JObj [(''data'', JObj [(''did'', JStr ''did:kite:acme:seller'')])]) \<rparr>) \<rparr>"

lemma approving_answer: "dataOf \<lparr> rs_status = 200,
    rs_body = printed (JObj [(''data'', JObj [(''did'', JStr ''did:kite:acme:seller'')])]) \<rparr> =
  Inr (JObj [(''did'', JStr ''did:kite:acme:seller'')])"
proof -
  have "json_parse (printed (JObj [(''data'', JObj [(''did'', JStr ''did:kite:acme:seller'')])])) =
      Some (JObj [(''data'', JObj [(''did'', JStr ''did:kite:acme:seller'')])])"
    by (rule parse_plain) (simp add: index_key_def is_digit_def)
  then show ?thesis by (simp add: dataOf_def resp_json_def res_bind_def read_member_def)
qed

lemma approving_opens: "bs_state (mt_status (snd (maintain_pass own_config approving_pass m))) = Active"
  by (subst pass_state, subst pass_lookup_found)
    (simp add: approving_pass_def approving_answer resp_ok_def own_config_def text_of_def)

theorem binds_at_most_once_witness:
  "block (mt_status (snd (maintain_run own_config [approving_pass] (booted own_config (\<lambda>_. None) 0)))) = None \<and>
   list_all (\<lambda>x. rq_method (fst x) = ''GET'') (fst (maintain_run own_config [approving_pass]
      (snd (maintain_run own_config [approving_pass] (booted own_config (\<lambda>_. None) 0)))))"
proof
  show o: "block (mt_status (snd (maintain_run own_config [approving_pass] (booted own_config (\<lambda>_. None) 0)))) = None"
    using approving_opens by (simp add: case_prod_beta Let_def)
  show "list_all (\<lambda>x. rq_method (fst x) = ''GET'') (fst (maintain_run own_config [approving_pass]
      (snd (maintain_run own_config [approving_pass] (booted own_config (\<lambda>_. None) 0)))))"
    unfolding list_all_iff
    using binds_at_most_once[of own_config "[approving_pass]" "\<lambda>_. None" 0 "[approving_pass]"] o by blast
qed

text \<open>
  C32: The loop implements the owner's view of a binding. What is seen on the wire of any run of passes,
  pass by pass, is a run of the owner's machine from nothing filed, nothing approved and a closed gate, and
  ends in the view of the loop's state: a lookup that names this agent is an approval and opens the gate
  without any write; a registration is sent, whether it is accepted or fails, only when registering is
  enabled, none was accepted before and no approval was ever seen, so never again after an approval or a
  revocation; at most one is accepted in a pass; and a pass without an approval leaves the gate closed.
\<close>
theorem binding_implements_the_owners_view:
  "labelled_run owner_step (run_events X ps (booted X env now))
     \<lparr> ow_filed = False, ow_approved = False, ow_open = False \<rparr>
     (owner_view_of (snd (maintain_run X ps (booted X env now))))"
  using binding_life.traces_included[OF run_reaches booted_ok] by (simp add: owner_view_of_def)

end
