(* ===== verification/Coordination.thy ===== *)
theory Coordination
  imports Http Extension
begin

text \<open>
  \<open>src/coordination.ts\<close>: the client of a Coordination Runtime.  A call is one JSON-RPC \<open>SendMessage\<close>
  whose single part carries the payload in \<open>raw\<close>, base64 of its JSON text; the reply is read only
  after the JSON-RPC and extension checks.  The random ids of a request are an argument.  A thrown
  error is a constructor of \<open>call_error\<close>.
\<close>

datatype call_error =
    CallThrew thrown
  | RuntimeAnswered int
  | NotJsonRpc jsval
  | ReplyIdDiffers jsval
  | DomainRejection string string bool jsval
  | EngineUnreachable string
  | CallRejected jsval jsval
  | ExtensionNotEchoed
  | RoleNotAgent jsval
  | NoRawPart
  | UnexpectedKind string jsval
  | CardFetchAnswered int
  | EnvelopeNotSigned extension_error

record coordination_client =
  cl_crypto :: crypto
  cl_endpoint :: string
  cl_agentId :: string
  cl_privateKey :: string
  cl_keyId :: string

section \<open>A call\<close>

definition json_part :: "string \<Rightarrow> jsval \<Rightarrow> jsval" where
  "json_part mediaType payload = JObj [(''raw'', JStr (base64 (printed payload))), (''mediaType'', JStr mediaType)]"

definition rpc_message :: "string \<Rightarrow> string \<Rightarrow> jsval \<Rightarrow> jsval" where
  "rpc_message messageId mediaType payload =
     JObj [(''messageId'', JStr messageId), (''role'', JStr ''ROLE_USER''),
       (''parts'', JArr [json_part mediaType payload]), (''extensions'', JArr [JStr EXTENSION_URI])]"

definition rpc_request :: "string \<Rightarrow> string \<Rightarrow> string \<Rightarrow> jsval \<Rightarrow> jsval" where
  "rpc_request requestId messageId mediaType payload =
     JObj [(''jsonrpc'', JStr ''2.0''), (''id'', JStr requestId), (''method'', JStr ''SendMessage''),
       (''params'', JObj [(''message'', rpc_message messageId mediaType payload)])]"

definition RPC_HEADERS :: "(string \<times> string) list" where
  "RPC_HEADERS = [(''content-type'', ''application/json''), (''A2A-Extensions'', EXTENSION_URI), (''A2A-Version'', ''1.0'')]"

definition call_request :: "string \<Rightarrow> string \<times> string \<Rightarrow> jsval \<Rightarrow> http_request" where
  "call_request endpoint ids payload =
     \<lparr> rq_method = ''POST'', rq_url = endpoint, rq_headers = RPC_HEADERS,
       rq_body = json_stringify (rpc_request (fst ids) (snd ids) COMMAND_MEDIA_TYPE payload) \<rparr>"

text \<open>The error of a reply.\<close>

definition rpc_error :: "jsval \<Rightarrow> call_error" where
  "rpc_error err =
     (let errData = coalesce (getp err ''data'') (JObj []); errCode = getp err ''code'';
          message = text_of (getp err ''message'')
      in if strict_eq errCode (JInt (- 32010)) then
           DomainRejection (js_string (coalesce (getp errData ''code'') (JStr ''domain_error''))) message
             (truthy (getp errData ''retriable'')) errData
         else if strict_eq errCode (JInt (- 32003)) then
           EngineUnreachable (js_string (coalesce (getp err ''message'') (JStr ''engine not reachable'')))
         else CallRejected errCode (getp err ''message''))"

fun contains_text :: "string \<Rightarrow> string \<Rightarrow> bool" where
  "contains_text p [] = (p = [])"
| "contains_text p (c # s) = (starts_with p (c # s) \<or> contains_text p s)"

text \<open>\<open>(v ?? []).includes(text)\<close>: an array, or by accident a string.\<close>

definition js_includes :: "jsval \<Rightarrow> string \<Rightarrow> (call_error, bool) res" where
  "js_includes v txt =
     (case coalesce v (JArr []) of
        JArr xs \<Rightarrow> Inr (list_ex (\<lambda>x. strict_eq x (JStr txt)) xs)
      | JStr s \<Rightarrow> Inr (contains_text txt s)
      | _ \<Rightarrow> Inl (CallThrew type_error))"

text \<open>The elements a \<open>for ... of\<close> visits; the characters of a string are strings without members.\<close>

definition iterated :: "jsval \<Rightarrow> (call_error, jsval list) res" where
  "iterated v =
     (case coalesce v (JArr []) of
        JArr xs \<Rightarrow> Inr xs
      | JStr s \<Rightarrow> Inr (map (\<lambda>c. JStr [c]) s)
      | _ \<Rightarrow> Inl (CallThrew type_error))"

definition decode_raw :: "jsval \<Rightarrow> (call_error, jsval) res" where
  "decode_raw raw =
     (case json_parse (base64_decode (js_string raw)) of Some v \<Rightarrow> Inr v | None \<Rightarrow> Inl (CallThrew syntax_error))"

fun read_parts :: "jsval list \<Rightarrow> (call_error, jsval) res" where
  "read_parts [] = Inl NoRawPart"
| "read_parts (part # parts) =
     (if nullish part then Inl (CallThrew type_error)
      else if strict_eq (getp part ''mediaType'') (JStr COMMAND_MEDIA_TYPE) \<and> truthy (getp part ''raw'')
      then decode_raw (getp part ''raw'')
      else read_parts parts)"

definition reply_message :: "jsval \<Rightarrow> jsval" where
  "reply_message body = coalesce (getp (coalesce (getp body ''result'') (JObj [])) ''message'') (JObj [])"

definition read_message :: "jsval \<Rightarrow> (call_error, jsval) res" where
  "read_message message =
     res_bind (js_includes (getp message ''extensions'') EXTENSION_URI) (\<lambda>echoed.
     if \<not> echoed then Inl ExtensionNotEchoed
     else if \<not> strict_eq (getp message ''role'') (JStr ''ROLE_AGENT'') then Inl (RoleNotAgent (getp message ''role''))
     else res_bind (iterated (getp message ''parts'')) read_parts)"

definition read_reply :: "string \<Rightarrow> jsval \<Rightarrow> (call_error, jsval) res" where
  "read_reply requestId body =
     (if nullish body then Inl (CallThrew type_error)
      else if \<not> strict_eq (getp body ''jsonrpc'') (JStr ''2.0'') then Inl (NotJsonRpc (getp body ''jsonrpc''))
      else if \<not> strict_eq (getp body ''id'') (JStr requestId) then Inl (ReplyIdDiffers (getp body ''id''))
      else if truthy (getp body ''error'') then Inl (rpc_error (getp body ''error''))
      else read_message (reply_message body))"

definition call :: "coordination_client \<Rightarrow> string \<times> string \<Rightarrow> jsval \<Rightarrow> (call_error, jsval) net" where
  "call L ids payload =
     net_bind (net_error CallThrew (send (call_request (cl_endpoint L) ids payload))) (\<lambda>resp.
       net_return
         (if \<not> resp_ok resp then Inl (RuntimeAnswered (rs_status resp))
          else (case resp_json resp of Inl e \<Rightarrow> Inl (CallThrew e) | Inr body \<Rightarrow> read_reply (fst ids) body)))"

definition expect :: "string \<Rightarrow> jsval \<Rightarrow> (call_error, jsval) res" where
  "expect kind reply =
     (if nullish reply then Inl (CallThrew type_error)
      else if \<not> strict_eq (getp reply ''kind'') (JStr kind) then Inl (UnexpectedKind kind (getp reply ''kind''))
      else Inr reply)"

definition expecting :: "string \<Rightarrow> (call_error, jsval) net \<Rightarrow> (jsval \<Rightarrow> 'a) \<Rightarrow> (call_error, 'a) net" where
  "expecting kind m f = net_bind m (\<lambda>reply. net_return (res_bind (expect kind reply) (\<lambda>r. Inr (f r))))"

definition envelope :: "coordination_client \<Rightarrow> string \<Rightarrow> string \<Rightarrow> string \<Rightarrow> json \<Rightarrow> (call_error, json) res" where
  "envelope L kind dealId termsHash extra =
     (case signPartyEnvelope (cl_crypto L)
             (fold (\<lambda>(k, v). map_set k v) extra
               [(''kind'', JStr kind), (''dealId'', JStr dealId), (''actorAgentId'', JStr (cl_agentId L)),
                (''termsHash'', JStr termsHash)])
             (cl_privateKey L) (cl_keyId L) of
        Inl e \<Rightarrow> Inl (EnvelopeNotSigned e)
      | Inr v \<Rightarrow> Inr v)"

section \<open>Reads\<close>

text \<open>\<open>new URL(endpoint)\<close> of an absolute http(s) URL with its path replaced and its query dropped.\<close>

definition url_origin :: "string \<Rightarrow> string" where
  "url_origin url =
     (let scheme = takeWhile (\<lambda>c. c \<noteq> CHR '':'') url; rest = drop (length scheme + 3) url
      in scheme @ ''://'' @ takeWhile (\<lambda>c. c \<notin> {CHR ''/'', CHR ''?'', CHR ''#''}) rest)"

definition url_hash :: "string \<Rightarrow> string" where
  "url_hash url = dropWhile (\<lambda>c. c \<noteq> CHR ''#'') url"

definition card_url :: "string \<Rightarrow> string" where
  "card_url endpoint = url_origin endpoint @ ''/.well-known/agent-card.json'' @ url_hash endpoint"

definition fetchRuntimeCard :: "coordination_client \<Rightarrow> (call_error, jsval) net" where
  "fetchRuntimeCard L =
     net_bind (net_error CallThrew (send (http_get (card_url (cl_endpoint L))))) (\<lambda>resp.
       net_return
         (if \<not> resp_ok resp then Inl (CardFetchAnswered (rs_status resp))
          else (case resp_json resp of Inl e \<Rightarrow> Inl (CallThrew e) | Inr v \<Rightarrow> Inr v)))"

definition runtime_status :: "coordination_client \<Rightarrow> string \<times> string \<Rightarrow> string \<Rightarrow> (call_error, jsval) net" where
  "runtime_status L ids dealId =
     expecting ''agreement-status'' (call L ids (JObj [(''kind'', JStr ''status''), (''dealId'', JStr dealId)]))
       (\<lambda>r. getp r ''status'')"

definition enveloped :: "coordination_client \<Rightarrow> string \<times> string \<Rightarrow> (call_error, json) res \<Rightarrow> (call_error, jsval) net" where
  "enveloped L ids e = net_bind (net_return e) (\<lambda>payload. call L ids (JObj payload))"

definition funding :: "coordination_client \<Rightarrow> string \<times> string \<Rightarrow> string \<Rightarrow> string \<Rightarrow> (call_error, jsval) net" where
  "funding L ids dealId termsHash =
     expecting ''agreement-funding'' (enveloped L ids (envelope L ''funding'' dealId termsHash [])) (\<lambda>r. getp r ''funding'')"

section \<open>Writes\<close>

definition submitAcceptance :: "coordination_client \<Rightarrow> string \<times> string \<Rightarrow> string \<Rightarrow> json \<Rightarrow> (call_error, jsval) net" where
  "submitAcceptance L ids dealId contract =
     expecting ''agreement-result''
       (call L ids (JObj [(''kind'', JStr ''acceptance''), (''dealId'', JStr dealId), (''contract'', JObj contract)])) (\<lambda>r. r)"

definition submitFundingSignatures ::
  "coordination_client \<Rightarrow> string \<times> string \<Rightarrow> string \<Rightarrow> string \<Rightarrow> json \<Rightarrow> (call_error, jsval) net" where
  "submitFundingSignatures L ids dealId termsHash submission =
     expecting ''agreement-funding-accepted''
       (enveloped L ids (envelope L ''funding-signatures'' dealId termsHash [(''submission'', JObj submission)]))
       (\<lambda>r. getp r ''status'')"

definition submitEvidenceEnvelope :: "coordination_client \<Rightarrow> string \<times> string \<Rightarrow> json \<Rightarrow> (call_error, string) net" where
  "submitEvidenceEnvelope L ids e =
     expecting ''agreement-evidence-recorded'' (call L ids (JObj e)) (\<lambda>r. js_string (getp r ''evidenceId''))"

definition submitCommand :: "coordination_client \<Rightarrow> string \<times> string \<Rightarrow> json \<Rightarrow> (call_error, jsval) net" where
  "submitCommand L ids command =
     expecting ''agreement-result'' (call L ids (JObj [(''kind'', JStr ''command''), (''command'', JObj command)])) (\<lambda>r. r)"

section \<open>What a call guarantees\<close>

lemma index_key_letter [simp]: "\<not> is_digit c \<Longrightarrow> \<not> index_key (c # s)"
  by (simp add: index_key_def)

text \<open>The payload a receiver reads from a request, and a conforming reply.\<close>

definition request_payload :: "http_request \<Rightarrow> (call_error, jsval) res" where
  "request_payload rq =
     (case rq_body rq of
        None \<Rightarrow> Inl NoRawPart
      | Some t \<Rightarrow>
          (case json_parse t of
             None \<Rightarrow> Inl (CallThrew syntax_error)
           | Some body \<Rightarrow>
               res_bind (iterated (getp (getp (getp body ''params'') ''message'') ''parts'')) read_parts))"

definition conforming_reply :: "string \<Rightarrow> jsval \<Rightarrow> jsval" where
  "conforming_reply requestId v =
     JObj [(''jsonrpc'', JStr ''2.0''), (''id'', JStr requestId),
       (''result'', JObj [(''message'', JObj [(''role'', JStr ''ROLE_AGENT''),
          (''parts'', JArr [json_part COMMAND_MEDIA_TYPE v]), (''extensions'', JArr [JStr EXTENSION_URI])])])]"

lemma decode_raw_printed: "json_clean v \<Longrightarrow> v \<noteq> JUndef \<Longrightarrow> decode_raw (JStr (base64 (printed v))) = Inr (json_copy v)"
  using parse_stringify[of v "printed v"] plain_printed[OF clean_copy_plain[of v]] clean_copy_text[of v]
  by (simp add: decode_raw_def printed_def)

lemma read_part: "json_clean v \<Longrightarrow> v \<noteq> JUndef \<Longrightarrow> read_parts [json_part COMMAND_MEDIA_TYPE v] = Inr (json_copy v)"
proof -
  assume v: "json_clean v" "v \<noteq> JUndef"
  have "printed v = printed (json_copy v)" using clean_copy_text[OF v] by (simp add: printed_def)
  then have "printed v \<noteq> []" using printed_head(1)[OF clean_copy_plain[OF v(1)]] by simp
  then have "base64 (printed v) \<noteq> []" using base64_inject[of "printed v" "[]"] by simp
  with decode_raw_printed[OF v] show ?thesis by (simp add: json_part_def)
qed

lemma request_payload_call:
  assumes "json_clean v" and "v \<noteq> JUndef"
  shows "request_payload (call_request endpoint ids v) = Inr (json_copy v)"
proof -
  let ?r = "rpc_request (fst ids) (snd ids) COMMAND_MEDIA_TYPE v"
  have pl: "json_plain ?r" by (simp add: rpc_request_def rpc_message_def json_part_def is_digit_def)
  have "json_parse (printed ?r) = Some ?r" by (rule parse_plain[OF pl])
  then show ?thesis
    using read_part[OF assms]
    by (simp add: request_payload_def call_request_def plain_printed[OF pl])
      (simp add: rpc_request_def rpc_message_def iterated_def res_bind_def)
qed

lemma read_conforming_reply:
  assumes "json_plain v"
  shows "read_reply requestId (conforming_reply requestId v) = Inr v"
proof -
  have c: "json_clean w \<and> w \<noteq> JUndef \<and> json_copy w = w" if "json_plain w" for w
    using that
  proof (induction w rule: json_plain.induct)
    case (5 vs)
    then show ?case by (auto simp: list_all_iff intro: map_idI)
  next
    case (6 es)
    have "typeof (snd e) \<notin> {''undefined'', ''function'', ''symbol''}" if "e \<in> set es" for e
      using 6 clean_typeof[of "snd e"] that by (auto simp: list_all_iff)
    then have "filter has_text es = es" by (auto simp: has_text_def filter_id_conv case_prod_beta)
    with 6 show ?case unfolding json_copy_obj by (auto simp: list_all_iff intro!: map_idI)
  qed (auto simp: num_is_finite_def split: jsnum.splits)
  show ?thesis
    using read_part[of v] c[OF assms]
    by (simp add: read_reply_def conforming_reply_def reply_message_def read_message_def js_includes_def iterated_def
        res_bind_def)
qed

text \<open>
  C31: A call carries its payload and the answer intact: whoever decodes the request reads the JSON copy
  of the payload, and a conforming reply to that request is returned as the value the Runtime put in.
\<close>
theorem call_carries_both_ways:
  assumes "json_clean payload" and "payload \<noteq> JUndef" and "json_plain v"
    and "fetch (call_request (cl_endpoint L) ids payload) =
      Inr \<lparr> rs_status = 200, rs_body = printed (conforming_reply (fst ids) v) \<rparr>"
  shows "snd (call L ids payload fetch) = Inr v \<and>
    request_payload (call_request (cl_endpoint L) ids payload) = Inr (json_copy payload)"
proof -
  have "json_plain (conforming_reply (fst ids) v)"
    by (simp add: conforming_reply_def json_part_def is_digit_def)
  from parse_plain[OF this] have "resp_json \<lparr> rs_status = 200, rs_body = printed (conforming_reply (fst ids) v) \<rparr> =
      Inr (conforming_reply (fst ids) v)" by (simp add: resp_json_def)
  then show ?thesis
    using assms(4) request_payload_call[OF assms(1,2)] read_conforming_reply[OF assms(3)]
    by (simp add: call_def snd_net_bind net_error_def res_bind_def resp_ok_def)
qed


definition status_call :: jsval where
  "status_call = JObj [(''kind'', JStr ''status''), (''dealId'', JStr ''deal_1'')]"

definition status_answer :: jsval where
  "status_answer = JObj [(''kind'', JStr ''agreement-status''), (''status'', JObj [(''state'', JStr ''PROPOSED'')])]"

definition answering :: "string \<Rightarrow> jsval \<Rightarrow> fetch" where
  "answering requestId v = (\<lambda>_. Inr \<lparr> rs_status = 200, rs_body = printed (conforming_reply requestId v) \<rparr>)"

definition quiet_client :: coordination_client where
  "quiet_client = \<lparr> cl_crypto = sample_crypto, cl_endpoint = ''https://runtime.example/a2a/v1'',
     cl_agentId = ''did:kite:acme:seller'', cl_privateKey = [], cl_keyId = ''k'' \<rparr>"

theorem call_carries_both_ways_witness:
  "snd (call quiet_client (''r1'', ''m1'') status_call (answering ''r1'' status_answer)) = Inr status_answer \<and>
   request_payload (call_request (cl_endpoint quiet_client) (''r1'', ''m1'') status_call) = Inr (json_copy status_call)"
  by (rule call_carries_both_ways)
    (simp_all add: status_call_def status_answer_def answering_def is_digit_def)

lemma read_reply_Inr:
  "read_reply requestId body = Inr v \<Longrightarrow>
     getp body ''jsonrpc'' = JStr ''2.0'' \<and> getp body ''id'' = JStr requestId \<and>
     \<not> truthy (getp body ''error'') \<and> getp (reply_message body) ''role'' = JStr ''ROLE_AGENT'' \<and>
     js_includes (getp (reply_message body) ''extensions'') EXTENSION_URI = Inr True \<and>
     res_bind (iterated (getp (reply_message body) ''parts'')) read_parts = Inr v"
  by (auto simp: read_reply_def read_message_def res_bind_Inr_iff split: if_splits)

text \<open>
  C29: A value is returned only from a successful JSON-RPC 2.0 reply to this very request, without an
  error member, that echoes the extension and speaks as the agent; every other reply throws.
\<close>
theorem only_own_replies_are_read:
  assumes "snd (call L ids payload fetch) = Inr v"
  shows "\<exists>resp body. fetch (call_request (cl_endpoint L) ids payload) = Inr resp \<and> resp_ok resp \<and>
    resp_json resp = Inr body \<and> getp body ''jsonrpc'' = JStr ''2.0'' \<and> getp body ''id'' = JStr (fst ids) \<and>
    \<not> truthy (getp body ''error'') \<and> getp (reply_message body) ''role'' = JStr ''ROLE_AGENT'' \<and>
    js_includes (getp (reply_message body) ''extensions'') EXTENSION_URI = Inr True \<and>
    res_bind (iterated (getp (reply_message body) ''parts'')) read_parts = Inr v"
proof -
  obtain resp body where "fetch (call_request (cl_endpoint L) ids payload) = Inr resp" "resp_ok resp"
    "resp_json resp = Inr body" "read_reply (fst ids) body = Inr v"
    using assms by (auto simp: call_def snd_net_bind net_error_def res_bind_Inr_iff split: sum.splits if_splits)
  then show ?thesis using read_reply_Inr by blast
qed

theorem only_own_replies_are_read_witness:
  "\<exists>resp body. answering ''r1'' status_answer (call_request (cl_endpoint quiet_client) (''r1'', ''m1'') status_call) = Inr resp \<and>
    resp_ok resp \<and> resp_json resp = Inr body \<and> getp body ''jsonrpc'' = JStr ''2.0'' \<and> getp body ''id'' = JStr ''r1'' \<and>
    \<not> truthy (getp body ''error'') \<and> getp (reply_message body) ''role'' = JStr ''ROLE_AGENT'' \<and>
    js_includes (getp (reply_message body) ''extensions'') EXTENSION_URI = Inr True \<and>
    res_bind (iterated (getp (reply_message body) ''parts'')) read_parts = Inr status_answer"
proof -
  have "snd (call quiet_client (''r1'', ''m1'') status_call (answering ''r1'' status_answer)) = Inr status_answer"
  proof -
    have "json_plain (conforming_reply ''r1'' status_answer)"
      by (simp add: conforming_reply_def json_part_def is_digit_def)
    from parse_plain[OF this] have "resp_json \<lparr> rs_status = 200, rs_body = printed (conforming_reply ''r1'' status_answer) \<rparr> =
        Inr (conforming_reply ''r1'' status_answer)" by (simp add: resp_json_def)
    moreover have "read_reply ''r1'' (conforming_reply ''r1'' status_answer) = Inr status_answer"
      by (rule read_conforming_reply) (simp add: status_answer_def is_digit_def)
    ultimately show ?thesis
      by (simp add: call_def answering_def snd_net_bind net_error_def res_bind_def resp_ok_def)
  qed
  from only_own_replies_are_read[OF this] show ?thesis by simp
qed

end
