(* ===== verification/Live.thy ===== *)
theory Live
  imports Binding Coordination
begin

text \<open>
  \<open>src/live.ts\<close>: the seller as a participant of a Coordination Runtime.  The state is the seller with
  the maps of \<open>LiveCoordinator\<close> (the terms countersigned per deal, the deals a delivery task or an
  outcome watcher runs for) and the status of the runtime binding, which the binding's own task
  changes.

  An operation is a function of \<open>fetch\<close> and the state to the exchanges it made, the state after it and
  its result.  It reads the clock once, and runs alone: what another operation may change while it
  awaits an answer is the subject of the theories of the seller, whose operations it calls.  The
  random request ids are the argument \<open>ids\<close>, the n-th call taking the n-th pair.
\<close>

datatype activation_problem = TermsHashDiffers | PayoutDiffers | SellerAgentDiffers | BuyerAgentDiffers | AmountDiffers

datatype live_error =
    BindingBlocks string
  | RuntimeFailed call_error
  | TermsFailed signing_error
  | RuntimeHoldsOtherTerms jsval string
  | NotProposed jsval
  | CardFailed extension_error
  | SellerFailed seller_error
  | NothingCountersigned string
  | FundingDomainMissing
  | ActivationDiverges "activation_problem list"
  | SettlementThrew settlement_error
  | UnknownNotification jsval
  | NotificationTermsDiffer jsval string
  | NotFulfilling jsval
  | AnchorsMissing
  | NotRejected jsval
  | CommandFailed extension_error
  | LiveTypeError

record live =
  lv_seller :: seller
  lv_binding :: "bind_status option"
  lv_dealTerms :: "(string, string) jsmap"
  lv_delivering :: "string list"
  lv_watching :: "string list"

record live_config =
  lx_seller :: seller_config
  lx_client :: coordination_client
  lx_privateKey :: string
  lx_ids :: "nat \<Rightarrow> string \<times> string"

type_synonym 'a live_op = "fetch \<Rightarrow> live \<Rightarrow> exchange list \<times> live \<times> (live_error, 'a) res"

definition live_return :: "(live_error, 'a) res \<Rightarrow> 'a live_op" where
  "live_return r fetch s = ([], s, r)"

definition live_bind :: "'a live_op \<Rightarrow> ('a \<Rightarrow> 'b live_op) \<Rightarrow> 'b live_op" where
  "live_bind m f fetch s =
     (case m fetch s of
        (xs, s', Inl e) \<Rightarrow> (xs, s', Inl e)
      | (xs, s', Inr v) \<Rightarrow> (case f v fetch s' of (ys, s'', r) \<Rightarrow> (xs @ ys, s'', r)))"

definition live_read :: "(live \<Rightarrow> (live_error, 'a) res) \<Rightarrow> 'a live_op" where
  "live_read f fetch s = ([], s, f s)"

definition live_change :: "(live \<Rightarrow> live) \<Rightarrow> unit live_op" where
  "live_change f fetch s = ([], f s, Inr ())"

definition live_call :: "(call_error, 'a) net \<Rightarrow> 'a live_op" where
  "live_call m fetch s = (fst (m fetch), s, map_error RuntimeFailed (snd (m fetch)))"

definition live_seller :: "'a operation \<Rightarrow> 'a live_op" where
  "live_seller m fetch s =
     ([], s \<lparr> lv_seller := fst (m (lv_seller s)) \<rparr>, map_error SellerFailed (snd (m (lv_seller s))))"

section \<open>Steps the operations share\<close>

definition assertBindingActive :: "unit live_op" where
  "assertBindingActive =
     live_read (\<lambda>s.
       case lv_binding s of
         None \<Rightarrow> Inr ()
       | Some b \<Rightarrow> (case block b of None \<Rightarrow> Inr () | Some reason \<Rightarrow> Inl (BindingBlocks reason)))"

definition terms_ref :: "string \<Rightarrow> string live_op" where
  "terms_ref dealId =
     live_read (\<lambda>s.
       case map_get (lv_dealTerms s) dealId of None \<Rightarrow> Inl (NothingCountersigned dealId) | Some t \<Rightarrow> Inr t)"

text \<open>\<open>this.seller.deal(dealId)!\<close>, of which a member is read.\<close>

definition the_deal :: "string \<Rightarrow> deal live_op" where
  "the_deal dealId =
     live_read (\<lambda>s. case get_deal (lv_seller s) dealId of None \<Rightarrow> Inl LiveTypeError | Some d \<Rightarrow> Inr d)"

definition non_null :: "jsval \<Rightarrow> (live_error, unit) res" where
  "non_null v = (if nullish v then Inl LiveTypeError else Inr ())"

text \<open>\<open>observeRuntimeStatus\<close> of a value that may be missing.\<close>

definition observe :: "int \<Rightarrow> string \<Rightarrow> jsval \<Rightarrow> string option \<Rightarrow> unit live_op" where
  "observe now dealId status summary =
     (if nullish status
      then live_read (\<lambda>s. case get_deal (lv_seller s) dealId of
             None \<Rightarrow> Inl (SellerFailed (UnknownDeal dealId)) | Some _ \<Rightarrow> Inl LiveTypeError)
      else live_seller (observeRuntimeStatus now dealId (members_of status) summary))"

text \<open>\<open>deal?.runtimeState ?? deal?.state ?? "UNKNOWN"\<close>\<close>

definition shown_state :: "string \<Rightarrow> seller \<Rightarrow> string" where
  "shown_state dealId s = (case get_deal s dealId of Some d \<Rightarrow> state_shown d | None \<Rightarrow> ''UNKNOWN'')"

definition note_funding :: "int \<Rightarrow> string \<Rightarrow> history_direction \<Rightarrow> string \<Rightarrow> string \<Rightarrow> json \<Rightarrow> unit live_op" where
  "note_funding now dealId direction kind txt payload fetch s =
     live_bind (live_seller (recordInteraction now dealId
       \<lparr> hi_phase = Funding, hi_direction = direction, hi_kind = kind, hi_summary = Said txt,
         hi_state = Some (shown_state dealId (lv_seller s)), hi_payload = Some payload \<rparr>))
       (\<lambda>_. live_return (Inr ())) fetch s"

definition note_entry :: "int \<Rightarrow> string \<Rightarrow> history_phase \<Rightarrow> history_direction \<Rightarrow> string \<Rightarrow> string \<Rightarrow> string \<Rightarrow> json \<Rightarrow> unit live_op" where
  "note_entry now dealId phase direction kind txt st payload =
     live_bind (live_seller (recordInteraction now dealId
       \<lparr> hi_phase = phase, hi_direction = direction, hi_kind = kind, hi_summary = Said txt,
         hi_state = Some st, hi_payload = Some payload \<rparr>))
       (\<lambda>_. live_return (Inr ()))"

section \<open>Acceptance\<close>

text \<open>What is checked of the Runtime's answer: the recomputed terms hash, and whether it is a retry.\<close>

definition check_status :: "live_config \<Rightarrow> jsval \<Rightarrow> json \<Rightarrow> (live_error, string \<times> bool) res" where
  "check_status X status contract =
     res_bind (map_error TermsFailed (termsHashOf (sx_crypto (lx_seller X)) contract)) (\<lambda>computed.
     res_bind (non_null status) (\<lambda>_.
       let held = getp status ''termsHash'';
           reconciling = (strict_eq (getp status ''state'') (JStr ''COMMITTED'') \<and> truthy held)
       in if truthy held \<and> \<not> bytes32Equal (js_string held) computed then Inl (RuntimeHoldsOtherTerms held computed)
          else if \<not> strict_eq (getp status ''state'') (JStr ''PROPOSED'') \<and> \<not> reconciling
          then Inl (NotProposed (getp status ''state''))
          else Inr (computed, reconciling)))"

record countersign_result =
  cr_contract :: json
  cr_status :: jsval
  cr_reconciled :: bool

text \<open>The synchronous part: the deal is registered and countersigned, and its terms remembered.\<close>

definition countersign_locally ::
  "live_config \<Rightarrow> int \<Rightarrow> string \<Rightarrow> string \<Rightarrow> json \<Rightarrow> string \<Rightarrow> string \<Rightarrow> jsval \<Rightarrow> string \<Rightarrow> jsnum \<Rightarrow> json live_op" where
  "countersign_locally X now dealId negotiationId contract buyerAddress buyerAgreementSig status computed chainId =
     live_bind (live_seller (registerLiveDeal now dealId negotiationId contract buyerAddress)) (\<lambda>_.
     live_bind (observe now dealId status
       (Some ''Seller verified the buyer's proposal against the Coordination Runtime'')) (\<lambda>_.
     live_bind (live_seller (accept (lx_seller X) now dealId buyerAgreementSig (Some chainId) (Some contract))) (\<lambda>accepted.
     live_bind (live_change (\<lambda>s. s \<lparr> lv_dealTerms := map_set dealId computed (lv_dealTerms s) \<rparr>)) (\<lambda>_.
       live_return (Inr accepted)))))"

definition submit_accepted :: "live_config \<Rightarrow> int \<Rightarrow> string \<Rightarrow> json \<Rightarrow> countersign_result live_op" where
  "submit_accepted X now dealId accepted =
     live_bind (note_entry now dealId Formation SellerToRuntime ''acceptance''
       ''Seller submitted the countersigned agreement to the Coordination Runtime'' ''ACCEPTED_LOCAL''
       [(''dealId'', JStr dealId), (''contract'', JObj accepted)]) (\<lambda>_.
     live_bind (live_call (submitAcceptance (lx_client X) (lx_ids X 1) dealId accepted)) (\<lambda>result.
     let acceptedStatus = coalesce (getp result ''status'') (JObj [])
     in live_bind (observe now dealId acceptedStatus None) (\<lambda>_.
        live_return (Inr \<lparr> cr_contract = accepted, cr_status = acceptedStatus, cr_reconciled = False \<rparr>))))"

definition live_countersign ::
  "live_config \<Rightarrow> int \<Rightarrow> string \<Rightarrow> string \<Rightarrow> json \<Rightarrow> string \<Rightarrow> string \<Rightarrow> countersign_result live_op" where
  "live_countersign X now dealId negotiationId contract buyerAddress buyerAgreementSig =
     live_bind assertBindingActive (\<lambda>_.
     live_bind (live_call (runtime_status (lx_client X) (lx_ids X 0) dealId)) (\<lambda>status.
     live_bind (live_return (check_status X status contract)) (\<lambda>(computed, reconciling).
     live_bind (live_call (fetchRuntimeCard (lx_client X))) (\<lambda>cardv.
     live_bind (live_return (map_error CardFailed (validateRuntimeCard (sx_crypto (lx_seller X)) (members_of cardv)
         (members_of (coalesce (member contract ''runtimeBinding'') (JObj [])))))) (\<lambda>(chainId, vault).
     live_bind (countersign_locally X now dealId negotiationId contract buyerAddress buyerAgreementSig status computed chainId)
       (\<lambda>accepted.
         if reconciling
         then live_return (Inr \<lparr> cr_contract = accepted, cr_status = status, cr_reconciled = True \<rparr>)
         else submit_accepted X now dealId accepted))))))"

section \<open>Funding\<close>

definition problem_if :: "bool \<Rightarrow> activation_problem \<Rightarrow> activation_problem list" where
  "problem_if b p = (if b then [p] else [])"

text \<open>\<open>String((accepted[k] as Json)[m])\<close>\<close>

definition required_text :: "json \<Rightarrow> string \<Rightarrow> string \<Rightarrow> (live_error, string) res" where
  "required_text accepted k m =
     res_bind (non_null (member accepted k)) (\<lambda>_. Inr (js_string (getp (member accepted k) m)))"

definition activation_problems ::
  "live_config \<Rightarrow> string \<Rightarrow> json \<Rightarrow> string \<Rightarrow> jsval \<Rightarrow> (live_error, activation_problem list) res" where
  "activation_problems X termsRef accepted boundBuyer activation =
     res_bind (required_text accepted ''escrow'' ''payoutAddress'') (\<lambda>payout.
     res_bind (map_error SettlementThrew (bigint_of_string (js_string (getp activation ''amount'')))) (\<lambda>amount.
     res_bind (required_text accepted ''price'' ''amount'') (\<lambda>price.
     res_bind (map_error SettlementThrew (usdcBaseUnits price)) (\<lambda>units.
       Inr (problem_if (\<not> bytes32Equal (text_of (getp activation ''termsHash'')) termsRef) TermsHashDiffers @
            problem_if (js_lower (text_of (getp activation ''sellerPayout'')) \<noteq> js_lower payout) PayoutDiffers @
            problem_if (js_lower (text_of (getp activation ''sellerAgent'')) \<noteq> seller_address (lx_seller X)) SellerAgentDiffers @
            problem_if (js_lower (text_of (getp activation ''buyerAgent'')) \<noteq> js_lower boundBuyer) BuyerAgentDiffers @
            problem_if (amount \<noteq> units) AmountDiffers)))))"

definition escrow_domain :: "jsval \<Rightarrow> jsval \<Rightarrow> eip712_domain" where
  "escrow_domain chainId vaultAddress =
     \<lparr> ed_name = ''KiteEscrowVault'', ed_version = ''1'', ed_chainId = js_number chainId,
       ed_verifyingContract = Some (js_string vaultAddress) \<rparr>"

definition activation_struct :: "jsval \<Rightarrow> json" where
  "activation_struct a =
     (let str = (\<lambda>k. JStr (js_string (getp a k))); num = (\<lambda>k. JNum (js_number (getp a k)))
      in [(''termsHash'', str ''termsHash''), (''buyer'', str ''buyer''), (''buyerAgent'', str ''buyerAgent''),
          (''sellerAgent'', str ''sellerAgent''), (''sellerPayout'', str ''sellerPayout''), (''arbiter'', str ''arbiter''),
          (''amountBaseUnits'', str ''amount''), (''amount'', str ''amount''),
          (''fundingDeadline'', num ''fundingDeadline''), (''deliveryWindow'', num ''deliveryWindow''),
          (''deliveryConfirmationWindow'', num ''deliveryConfirmationWindow''),
          (''appealResponseWindow'', num ''appealResponseWindow''), (''arbitrationWindow'', num ''arbitrationWindow'')])"

text \<open>The signature over the read-back Activation, or the reason there is none.\<close>

definition sign_activation ::
  "live_config \<Rightarrow> string \<Rightarrow> json \<Rightarrow> string \<Rightarrow> jsval \<Rightarrow> jsval \<Rightarrow> (live_error, string) res" where
  "sign_activation X termsRef accepted boundBuyer ctx activation =
     (if \<not> truthy (getp ctx ''vaultAddress'') \<or> \<not> truthy (getp ctx ''chainId'') then Inl FundingDomainMissing
      else res_bind (activation_problems X termsRef accepted boundBuyer activation) (\<lambda>problems.
        if problems \<noteq> [] then Inl (ActivationDiverges problems)
        else map_error SettlementThrew (signStruct (sx_crypto (lx_seller X)) (lx_privateKey X)
          (escrow_domain (getp ctx ''chainId'') (getp ctx ''vaultAddress'')) (TYPE_STRINGS Activation)
          (activation_struct activation))))"

record funding_result =
  fr_pending :: bool
  fr_answer :: jsval

definition submit_funding :: "live_config \<Rightarrow> int \<Rightarrow> string \<Rightarrow> string \<Rightarrow> jsval \<Rightarrow> string \<Rightarrow> funding_result live_op" where
  "submit_funding X now dealId termsRef activation sig =
     live_bind (note_funding now dealId SellerToRuntime ''funding-signatures'' ''Seller co-signed the read-back escrow Activation''
       [(''dealId'', JStr dealId), (''termsHash'', JStr termsRef), (''activation'', activation), (''sellerActivationSig'', JStr sig)]) (\<lambda>_.
     live_bind (live_call (submitFundingSignatures (lx_client X) (lx_ids X 1) dealId termsRef [(''sellerActivationSig'', JStr sig)])) (\<lambda>status.
     live_bind (observe now dealId status None) (\<lambda>_.
       live_return (Inr \<lparr> fr_pending = False, fr_answer = status \<rparr>))))"

definition coSignFunding :: "live_config \<Rightarrow> int \<Rightarrow> string \<Rightarrow> funding_result live_op" where
  "coSignFunding X now dealId =
     live_bind assertBindingActive (\<lambda>_.
     live_bind (terms_ref dealId) (\<lambda>termsRef.
     live_bind (the_deal dealId) (\<lambda>d.
     live_bind (note_funding now dealId SellerToRuntime ''funding-context''
       ''Seller requested the Runtime's current funding context''
       [(''dealId'', JStr dealId), (''termsHash'', JStr termsRef)]) (\<lambda>_.
     live_bind (live_call (funding (lx_client X) (lx_ids X 0) dealId termsRef)) (\<lambda>ctx.
     live_bind (live_return (non_null ctx)) (\<lambda>_.
       let activation = coalesce (getp ctx ''activation'') (JObj [])
       in if \<not> truthy (getp activation ''buyer'') then
            live_bind (note_funding now dealId RuntimeToSeller ''funding-pending''
              ''Runtime reported that the buyer's funding artifact is not ready'' [(''funding'', ctx)]) (\<lambda>_.
            live_return (Inr \<lparr> fr_pending = True, fr_answer = ctx \<rparr>))
          else
            live_bind (the_deal dealId) (\<lambda>bound.
            live_bind (live_return (sign_activation X termsRef (dl_contract d) (dl_buyerAddress bound) ctx activation)) (\<lambda>sig.
            submit_funding X now dealId termsRef activation sig))))))))"

section \<open>Outcomes\<close>

definition TERMINAL_STATES :: "string set" where
  "TERMINAL_STATES = {''ACCEPTED'', ''RESOLVED'', ''CANCELLED'', ''DEFAULTED'', ''EXPIRED''}"

text \<open>A refund: cancelled, or resolved with nothing for the seller.\<close>

definition refunded :: "jsval \<Rightarrow> bool" where
  "refunded status \<longleftrightarrow>
     text_of (getp status ''state'') = ''CANCELLED'' \<or>
     (text_of (getp status ''state'') = ''RESOLVED'' \<and>
      js_number (coalesce (getp (coalesce (getp status ''resolution'') (JObj [])) ''sellerBps'') (JInt 10000)) = Fin 0)"

definition refreshOutcome :: "live_config \<Rightarrow> int \<Rightarrow> string \<Rightarrow> string live_op" where
  "refreshOutcome X now dealId =
     live_bind (live_call (runtime_status (lx_client X) (lx_ids X 0) dealId)) (\<lambda>status.
     live_bind (live_return (non_null status)) (\<lambda>_.
     live_bind (observe now dealId status None) (\<lambda>_.
     live_bind (if refunded status then live_seller (revokeCapability now dealId) else live_return (Inr ())) (\<lambda>_.
       live_return (Inr (text_of (getp status ''state'')))))))"

text \<open>\<open>watchOutcome\<close> up to the start of its task.\<close>

definition watchOutcome :: "string \<Rightarrow> live \<Rightarrow> live" where
  "watchOutcome dealId s = s \<lparr> lv_watching := set_add dealId (lv_watching s) \<rparr>"

definition isWatching :: "live \<Rightarrow> string \<Rightarrow> bool" where
  "isWatching s dealId \<longleftrightarrow> dealId \<in> set (lv_watching s)"

definition isDelivering :: "live \<Rightarrow> string \<Rightarrow> bool" where
  "isDelivering s dealId \<longleftrightarrow> dealId \<in> set (lv_delivering s)"

section \<open>Delivery\<close>

definition check_fulfilling :: "jsval \<Rightarrow> (live_error, unit) res" where
  "check_fulfilling status =
     res_bind (non_null status) (\<lambda>_. require (strict_eq (getp status ''state'') (JStr ''FULFILLING''))
       (NotFulfilling (getp status ''state'')))"

text \<open>The vault block and the proof of a status read, when they are complete.\<close>

definition delivery_anchors :: "jsval \<Rightarrow> (live_error, jsval \<times> jsval) res" where
  "delivery_anchors status =
     (let vault = coalesce (getp status ''vault'') (JObj []); receiptHash = getp status ''latestProofHash''
      in if \<not> truthy (getp vault ''dealId'') \<or> getp vault ''nonce'' = JUndef \<or> \<not> truthy receiptHash
         then Inl AnchorsMissing else Inr (vault, receiptHash))"

text \<open>The chain and the vault: from the status, or from the funding context when one is missing.\<close>

definition delivery_domain :: "live_config \<Rightarrow> string \<Rightarrow> string \<Rightarrow> jsval \<Rightarrow> (jsval \<times> jsval) live_op" where
  "delivery_domain X dealId termsRef vault =
     (if truthy (getp vault ''chainId'') \<and> truthy (getp vault ''vaultAddress'')
      then live_return (Inr (getp vault ''chainId'', getp vault ''vaultAddress''))
      else live_bind (live_call (funding (lx_client X) (lx_ids X 1) dealId termsRef)) (\<lambda>ctx.
           live_bind (live_return (non_null ctx)) (\<lambda>_.
           live_return (Inr (getp ctx ''chainId'', getp ctx ''vaultAddress'')))))"

definition expiry_after :: "int \<Rightarrow> jsnum" where
  "expiry_after now = Fin (of_int (now div 1000 + 3600))"

definition anchors_of :: "int \<Rightarrow> jsval \<Rightarrow> jsval \<Rightarrow> jsval \<Rightarrow> jsval \<Rightarrow> settlement_anchors" where
  "anchors_of now vault receiptHash chainId vaultAddr =
     \<lparr> sc_dealId32 = js_string (getp vault ''dealId''), sc_receiptHash = js_string receiptHash,
       sc_nonce = js_number (getp vault ''nonce''), sc_expiry = expiry_after now,
       sc_chainId = js_number chainId, sc_vault = js_string vaultAddr \<rparr>"

record live_delivery =
  ld_command :: json
  ld_prepared :: prepared_delivery
  ld_evidenceId :: string
  ld_status :: jsval

record delivery_random =
  ry_cap :: string
  ry_command :: string

definition submit_delivery ::
  "live_config \<Rightarrow> int \<Rightarrow> delivery_random \<Rightarrow> string \<Rightarrow> jsval \<Rightarrow> settlement_anchors \<Rightarrow> prepared_delivery \<Rightarrow> live_delivery live_op" where
  "submit_delivery X now rnd dealId status anchors prepared =
     live_bind (live_call (submitEvidenceEnvelope (lx_client X) (lx_ids X 2) (pp_envelope prepared))) (\<lambda>evidenceId.
     live_bind (note_entry now dealId Fulfillment SellerToRuntime ''evidence''
       ''Seller registered the delivery manifest as evidence'' ''DELIVERED_LOCAL''
       [(''dealId'', JStr dealId), (''evidenceId'', JStr evidenceId), (''deliveryHash'', JStr (pp_deliveryHash prepared))]) (\<lambda>_.
     live_bind (live_seller (\<lambda>s. (s, commandFor (lx_seller X) now (ry_command rnd) dealId anchors evidenceId
         (js_number (getp status ''revision'')) s))) (\<lambda>command.
     live_bind (note_entry now dealId Fulfillment SellerToRuntime ''kite.contract.delivered''
       ''Seller submitted the signed delivery command'' ''DELIVERED_LOCAL'' [(''command'', JObj command)]) (\<lambda>_.
     live_bind (live_call (submitCommand (lx_client X) (lx_ids X 3) command)) (\<lambda>result.
     live_bind (observe now dealId (coalesce (getp result ''status'') (JObj [])) None) (\<lambda>_.
       live_return (Inr \<lparr> ld_command = command, ld_prepared = prepared, ld_evidenceId = evidenceId,
         ld_status = coalesce (getp result ''status'') (JObj []) \<rparr>)))))))"

definition runDelivery :: "live_config \<Rightarrow> int \<Rightarrow> delivery_random \<Rightarrow> string \<Rightarrow> live_delivery live_op" where
  "runDelivery X now rnd dealId =
     live_bind assertBindingActive (\<lambda>_.
     live_bind (terms_ref dealId) (\<lambda>termsRef.
     live_bind (live_call (runtime_status (lx_client X) (lx_ids X 0) dealId)) (\<lambda>status.
     live_bind (observe now dealId status None) (\<lambda>_.
     live_bind (live_return (check_fulfilling status)) (\<lambda>_.
     live_bind (live_return (delivery_anchors status)) (\<lambda>(vault, receiptHash).
     live_bind (delivery_domain X dealId termsRef vault) (\<lambda>(chainId, vaultAddr).
     live_bind (live_seller (prepareDelivery (lx_seller X) now (ry_cap rnd) dealId)) (\<lambda>prepared.
     live_bind (live_change (watchOutcome dealId)) (\<lambda>_.
       submit_delivery X now rnd dealId status (anchors_of now vault receiptHash chainId vaultAddr) prepared)))))))))"


section \<open>Notifications\<close>

record acknowledgement =
  ak_type :: jsval
  ak_dealId :: string
  ak_verifiedState :: jsval
  ak_task :: "jsnum option option"

text \<open>\<open>Number(note["delivery_deadline"] ?? 0) || undefined\<close>\<close>

definition notified_deadline :: "jsval \<Rightarrow> jsnum option" where
  "notified_deadline note =
     (let t = js_number (coalesce (getp note ''delivery_deadline'') (JInt 0))
      in if truthy (JNum t) then Some t else None)"

text \<open>\<open>ak_task\<close> is the deadline of the delivery task that is started, if one is.\<close>

definition start_task :: "string \<Rightarrow> jsval \<Rightarrow> jsval \<Rightarrow> acknowledgement live_op" where
  "start_task dealId note status fetch s =
     (let ack = \<lparr> ak_type = getp note ''type'', ak_dealId = dealId, ak_verifiedState = getp status ''state'', ak_task = None \<rparr>
      in if isDelivering s dealId then ([], s, Inr ack)
         else ([], s \<lparr> lv_delivering := set_add dealId (lv_delivering s) \<rparr>, Inr (ack \<lparr> ak_task := Some (notified_deadline note) \<rparr>)))"

definition check_note :: "jsval \<Rightarrow> (live_error, string) res" where
  "check_note note =
     res_bind (non_null note) (\<lambda>_.
     res_bind (require (strict_eq (getp note ''type'') (JStr ''kite.contract.fulfill_started''))
       (UnknownNotification (getp note ''type''))) (\<lambda>_.
     Inr (text_of (getp note ''deal_id''))))"

definition check_note_terms :: "jsval \<Rightarrow> string \<Rightarrow> (live_error, unit) res" where
  "check_note_terms note termsRef =
     (let named = getp note ''terms_hash''
      in require (\<not> (truthy named \<and> \<not> bytes32Equal (js_string named) termsRef)) (NotificationTermsDiffer named termsRef))"

definition handleNotification :: "live_config \<Rightarrow> int \<Rightarrow> jsval \<Rightarrow> acknowledgement live_op" where
  "handleNotification X now note =
     live_bind (live_return (check_note note)) (\<lambda>dealId.
     live_bind (terms_ref dealId) (\<lambda>termsRef.
     live_bind (live_return (check_note_terms note termsRef)) (\<lambda>_.
     live_bind (live_call (runtime_status (lx_client X) (lx_ids X 0) dealId)) (\<lambda>status.
     live_bind (live_return (check_fulfilling status)) (\<lambda>_.
     live_bind (note_entry now dealId Funding RuntimeToSeller ''kite.contract.fulfill_started''
       ''Runtime notified the seller to begin fulfillment'' ''FULFILLING'' (members_of note)) (\<lambda>_.
     live_bind (observe now dealId status None) (\<lambda>_.
       start_task dealId note status)))))))"

section \<open>The delivery task\<close>

text \<open>
  One turn of the loop has its clock and answers for the delivery, its answers for the probe after a
  failure, and the clock at the deadline check.  The turns are a function of their number, and the
  loop is partial: \<open>None\<close> is a task that never ends.
\<close>

record turn =
  tu_now :: int
  tu_random :: delivery_random
  tu_fetch :: fetch
  tu_probe :: fetch
  tu_later :: int

datatype task_end = TaskDelivered | TaskRejected | TaskMovedOn | TaskTimedOut

definition final_rejection :: "live_error \<Rightarrow> bool" where
  "final_rejection e \<longleftrightarrow>
     (case e of RuntimeFailed (DomainRejection c m retriable d) \<Rightarrow> \<not> retriable | _ \<Rightarrow> False)"

text \<open>The probe: whether a readable status says the deal has left FULFILLING.\<close>

definition probe :: "live_config \<Rightarrow> int \<Rightarrow> string \<Rightarrow> bool live_op" where
  "probe X now dealId =
     live_bind (live_call (runtime_status (lx_client X) (lx_ids X 4) dealId)) (\<lambda>status.
     live_bind (observe now dealId status None) (\<lambda>_.
       live_return (Inr (\<not> strict_eq (getp status ''state'') (JStr ''FULFILLING'')))))"

definition limit_passed :: "jsnum \<Rightarrow> int \<Rightarrow> bool" where
  "limit_passed limit now \<longleftrightarrow> \<not> num_lt (Fin (fdiv (of_int now) 1000)) limit \<and> limit \<noteq> NaN"

definition task_turn :: "live_config \<Rightarrow> string \<Rightarrow> jsnum \<Rightarrow> turn \<Rightarrow> live \<Rightarrow> exchange list \<times> live \<times> task_end option" where
  "task_turn X dealId limit t s =
     (case runDelivery X (tu_now t) (tu_random t) dealId (tu_fetch t) s of
        (xs, s', Inr _) \<Rightarrow> (xs, s', Some TaskDelivered)
      | (xs, s', Inl e) \<Rightarrow>
          if final_rejection e then (xs, s', Some TaskRejected)
          else
            (case probe X (tu_now t) dealId (tu_probe t) s' of
               (ys, s'', r) \<Rightarrow>
                 (xs @ ys, s'',
                  if r = Inr True then Some TaskMovedOn
                  else if limit_passed limit (tu_later t) then Some TaskTimedOut else None)))"

definition task_limit :: "int \<Rightarrow> jsnum option \<Rightarrow> jsnum" where
  "task_limit now deadline = (case deadline of Some d \<Rightarrow> d | None \<Rightarrow> Fin (of_int (now div 1000 + 6 * 3600)))"

text \<open>\<open>finally { this.delivering.delete(dealId) }\<close>\<close>

definition end_task :: "string \<Rightarrow> live \<Rightarrow> live" where
  "end_task dealId s = s \<lparr> lv_delivering := filter (\<lambda>i. i \<noteq> dealId) (lv_delivering s) \<rparr>"

partial_function (option) delivery_loop ::
  "live_config \<Rightarrow> string \<Rightarrow> jsnum \<Rightarrow> (nat \<Rightarrow> turn) \<Rightarrow> nat \<Rightarrow> live \<Rightarrow> (live \<times> task_end) option" where
  "delivery_loop X dealId limit turns k s =
     (case task_turn X dealId limit (turns k) s of
        (xs, s', Some r) \<Rightarrow> Some (end_task dealId s', r)
      | (xs, s', None) \<Rightarrow> delivery_loop X dealId limit turns (Suc k) s')"

definition backgroundDelivery ::
  "live_config \<Rightarrow> int \<Rightarrow> string \<Rightarrow> jsnum option \<Rightarrow> (nat \<Rightarrow> turn) \<Rightarrow> live \<Rightarrow> (live \<times> task_end) option" where
  "backgroundDelivery X now dealId deadline turns s = delivery_loop X dealId (task_limit now deadline) turns 0 s"

section \<open>The outcome watcher\<close>

record tick =
  tk_now :: int
  tk_fetch :: fetch

definition watch_tick :: "live_config \<Rightarrow> string \<Rightarrow> tick \<Rightarrow> live \<Rightarrow> live \<times> bool" where
  "watch_tick X dealId t s =
     (case refreshOutcome X (tk_now t) dealId (tk_fetch t) s of
        (xs, s', Inr st) \<Rightarrow> (s', st \<in> TERMINAL_STATES)
      | (xs, s', Inl e) \<Rightarrow> (s', False))"

definition end_watch :: "string \<Rightarrow> live \<Rightarrow> live" where
  "end_watch dealId s = s \<lparr> lv_watching := filter (\<lambda>i. i \<noteq> dealId) (lv_watching s) \<rparr>"

partial_function (option) watch_loop ::
  "live_config \<Rightarrow> string \<Rightarrow> (nat \<Rightarrow> tick) \<Rightarrow> nat \<Rightarrow> live \<Rightarrow> live option" where
  "watch_loop X dealId ticks k s =
     (case watch_tick X dealId (ticks k) s of
        (s', over) \<Rightarrow> if over then Some (end_watch dealId s') else watch_loop X dealId ticks (Suc k) s')"

section \<open>Answers to a rejection\<close>

definition rejection_anchors :: "jsval \<Rightarrow> (live_error, jsval \<times> jsval) res" where
  "rejection_anchors status =
     res_bind (delivery_anchors status) (\<lambda>(vault, receiptHash).
     res_bind (require (truthy (getp vault ''chainId'') \<and> truthy (getp vault ''vaultAddress'')) AnchorsMissing) (\<lambda>_.
       Inr (vault, receiptHash)))"

definition check_rejected :: "jsval \<Rightarrow> (live_error, unit) res" where
  "check_rejected status =
     res_bind (non_null status) (\<lambda>_. require (strict_eq (getp status ''state'') (JStr ''REJECTED''))
       (NotRejected (getp status ''state'')))"

definition rejection_struct :: "int \<Rightarrow> string \<Rightarrow> jsval \<Rightarrow> jsval \<Rightarrow> json" where
  "rejection_struct now termsRef vault receiptHash =
     [(''dealId'', JStr (js_string (getp vault ''dealId''))), (''termsHash'', JStr termsRef),
      (''receiptHash'', JStr (js_string receiptHash)), (''nonce'', JNum (js_number (getp vault ''nonce''))),
      (''expiry'', JNum (expiry_after now))]"

definition rejection_command ::
  "live_config \<Rightarrow> int \<Rightarrow> string \<Rightarrow> string \<Rightarrow> settlement_struct \<Rightarrow> string \<Rightarrow> string \<Rightarrow> string \<Rightarrow> jsval \<Rightarrow> jsval \<Rightarrow> jsval
     \<Rightarrow> (live_error, json) res" where
  "rejection_command X now random commandType struct sigMember dealId termsRef status vault receiptHash =
     (let SX = lx_seller X
      in res_bind (map_error SettlementThrew (signStruct (sx_crypto SX) (lx_privateKey X)
           (escrow_domain (getp vault ''chainId'') (getp vault ''vaultAddress'')) (TYPE_STRINGS struct)
           (rejection_struct now termsRef vault receiptHash))) (\<lambda>sig.
         res_bind (map_error CommandFailed (buildCommand (sx_crypto SX) (sx_env SX) random (nowIso now)
           \<lparr> ci_commandType = commandType, ci_dealId = dealId, ci_expectedRevision = js_number (getp status ''revision''),
             ci_termsHash = termsRef, ci_payload = [(sigMember, JStr sig), (''expiry'', JNum (expiry_after now))] \<rparr>)) (\<lambda>command.
         map_error CommandFailed (signCommand (sx_crypto SX) command (lx_privateKey X) (seller_keyId SX)))))"

definition rejectionResponse ::
  "live_config \<Rightarrow> int \<Rightarrow> string \<Rightarrow> string \<Rightarrow> settlement_struct \<Rightarrow> string \<Rightarrow> string \<Rightarrow> string \<Rightarrow> jsval live_op" where
  "rejectionResponse X now random commandType struct sigMember txt dealId =
     live_bind assertBindingActive (\<lambda>_.
     live_bind (terms_ref dealId) (\<lambda>termsRef.
     live_bind (live_call (runtime_status (lx_client X) (lx_ids X 0) dealId)) (\<lambda>status.
     live_bind (observe now dealId status None) (\<lambda>_.
     live_bind (live_return (check_rejected status)) (\<lambda>_.
     live_bind (live_return (rejection_anchors status)) (\<lambda>(vault, receiptHash).
     live_bind (live_return (rejection_command X now random commandType struct sigMember dealId termsRef status vault receiptHash)) (\<lambda>command.
     live_bind (note_entry now dealId Settling SellerToRuntime commandType txt ''REJECTED'' [(''command'', JObj command)]) (\<lambda>_.
     live_bind (live_call (submitCommand (lx_client X) (lx_ids X 1) command)) (\<lambda>result.
     live_bind (observe now dealId (coalesce (getp result ''status'') (JObj [])) None) (\<lambda>_.
       live_return (Inr result)))))))))))"

definition consentRefund :: "live_config \<Rightarrow> int \<Rightarrow> string \<Rightarrow> string \<Rightarrow> jsval live_op" where
  "consentRefund X now random dealId =
     rejectionResponse X now random ''kite.contract.refund_consented'' RefundConsent ''sellerConsentSig''
       ''Seller consented to refund the buyer'' dealId"

definition appeal :: "live_config \<Rightarrow> int \<Rightarrow> string \<Rightarrow> string \<Rightarrow> jsval live_op" where
  "appeal X now random dealId =
     rejectionResponse X now random ''kite.contract.appealed'' Appeal ''sellerAppealSig''
       ''Seller appealed the buyer's rejection'' dealId"


end
