(* ===== verification/Executor.thy ===== *)
theory Executor
  imports Live
begin

text \<open>
  \<open>src/executor.ts\<close>: the A2A executor in front of the seller.  A request carries the extensions its
  header activates and a message with its parts; the answer is one reply, or a refusal as an \<open>error\<close>
  payload.  In standalone mode the executor works on the seller alone; in live mode acceptance and
  funding go through the Runtime.

  An answer is a value of \<open>answer\<close>; the text of a thrown error is the parameter \<open>ec_text\<close>.  A proposed
  contract that is not an object is read as one without members, and a buyer address of a live
  acceptance request that is not a string as its \<open>String\<close>.
\<close>

section \<open>Requests and answers\<close>

record a2a_part =
  pt_raw :: "string option"
  pt_filename :: string
  pt_mediaType :: string

record a2a_message =
  ms_extensions :: "string list"
  ms_parts :: "a2a_part list"

record request_context =
  rc_contextId :: string
  rc_requested :: "string list option"
  rc_message :: a2a_message

datatype coordination_mode = Standalone seller_config | LiveMode live_config

record executor_config =
  ec_mode :: coordination_mode
  ec_text :: "live_error \<Rightarrow> string"

text \<open>The random bytes of one request: for a negotiation, a deal, a capability and a command.\<close>

record request_random =
  xr_negotiation :: string
  xr_deal :: string
  xr_cap :: string
  xr_command :: string

fun seller_of :: "coordination_mode \<Rightarrow> seller_config" where
  "seller_of (Standalone X) = X"
| "seller_of (LiveMode L) = lx_seller L"

datatype refusal =
    HeaderNotActivated
  | MessageNotDeclared
  | NoNegotiationPart
  | PartNotJson
  | QueryIncomplete
  | ProposalIncomplete
  | LiveAcceptanceIncomplete
  | StandaloneFunding
  | LiveDeliveryRequest
  | UnknownDealAsked string
  | UnknownKind jsval
  | Threw live_error

datatype answer = Refused refusal | Replied json

definition SECTION_SIGN :: string where
  "SECTION_SIGN = [CHR 0xC2, CHR 0xA7]"

definition refusal_text :: "executor_config \<Rightarrow> refusal \<Rightarrow> string" where
  "refusal_text E r =
     (case r of
        HeaderNotActivated \<Rightarrow>
          ''request does not activate the coordination extension via the A2A-Extensions header ('' @ SECTION_SIGN @ ''2.2)''
      | MessageNotDeclared \<Rightarrow>
          ''message does not declare the coordination extension in its extensions array ('' @ SECTION_SIGN @ ''2.2)''
      | NoNegotiationPart \<Rightarrow> ''no raw part with media type '' @ NEGOTIATION_MEDIA_TYPE
      | PartNotJson \<Rightarrow> ''negotiation part is not JSON''
      | QueryIncomplete \<Rightarrow> ''query carries `buyerAgentId` and `body`''
      | ProposalIncomplete \<Rightarrow> ''submit-proposal carries `negotiationId`, `contract`, and `buyerAddress`''
      | LiveAcceptanceIncomplete \<Rightarrow>
          ''live acceptance-request must carry the Runtime-assigned dealId, negotiationId, '' @
          ''and proposed contract '' @ EM_DASH @ '' the proposal went to the Runtime, so this seller has never seen it''
      | StandaloneFunding \<Rightarrow>
          ''standalone mode has no Runtime to read the Activation from '' @ EM_DASH @
          '' funding needs KITE_COORDINATION_MODE=live''
      | LiveDeliveryRequest \<Rightarrow>
          ''live delivery is notification-driven ('' @ SECTION_SIGN @ ''6.5) '' @ EM_DASH @
          '' the manual request-delivery path does not exist in live mode''
      | UnknownDealAsked dealId \<Rightarrow> ''unknown deal '' @ dealId
      | UnknownKind k \<Rightarrow>
          ''unknown negotiation kind '' @ (case json_stringify k of Some t \<Rightarrow> t | None \<Rightarrow> ''undefined'')
      | Threw e \<Rightarrow> ec_text E e)"

definition answer_payload :: "executor_config \<Rightarrow> answer \<Rightarrow> jsval" where
  "answer_payload E a =
     (case a of
        Refused r \<Rightarrow> JObj [(''kind'', JStr ''error''), (''error'', JStr (refusal_text E r))]
      | Replied payload \<Rightarrow> JObj payload)"

text \<open>\<open>reply\<close>: the message that is published, in the context of the request.\<close>

record agent_message =
  am_messageId :: string
  am_contextId :: string
  am_taskId :: string
  am_role :: string
  am_parts :: "a2a_part list"
  am_extensions :: "string list"
  am_referenceTaskIds :: "string list"

definition rawPart :: "jsval \<Rightarrow> a2a_part" where
  "rawPart payload = \<lparr> pt_raw = Some (printed payload), pt_filename = [], pt_mediaType = NEGOTIATION_MEDIA_TYPE \<rparr>"

definition reply :: "request_context \<Rightarrow> string \<Rightarrow> jsval \<Rightarrow> agent_message" where
  "reply q random payload =
     \<lparr> am_messageId = ''msg_'' @ to_hex random, am_contextId = rc_contextId q, am_taskId = [], am_role = ''ROLE_AGENT'',
       am_parts = [rawPart payload], am_extensions = [EXTENSION_URI], am_referenceTaskIds = [] \<rparr>"

section \<open>Reading a request\<close>

definition negotiation_part :: "a2a_message \<Rightarrow> a2a_part option" where
  "negotiation_part m = find (\<lambda>p. pt_raw p \<noteq> None \<and> pt_mediaType p = NEGOTIATION_MEDIA_TYPE) (ms_parts m)"

definition read_request :: "request_context \<Rightarrow> (refusal, jsval) res" where
  "read_request q =
     (if EXTENSION_URI \<notin> set (or_empty (rc_requested q)) then Inl HeaderNotActivated
      else if EXTENSION_URI \<notin> set (ms_extensions (rc_message q)) then Inl MessageNotDeclared
      else
        (case negotiation_part (rc_message q) of
           None \<Rightarrow> Inl NoNegotiationPart
         | Some p \<Rightarrow>
             (case json_parse (the (pt_raw p)) of None \<Rightarrow> Inl PartNotJson | Some v \<Rightarrow> Inr v)))"

text \<open>\<open>String(data[k] ?? "")\<close>, and a member that must be a string with characters.\<close>

definition nonempty_text :: "jsval \<Rightarrow> string option" where
  "nonempty_text v = (case v of JStr s \<Rightarrow> if s = [] then None else Some s | _ \<Rightarrow> None)"

definition refuse :: "refusal \<Rightarrow> answer live_op" where
  "refuse r = live_return (Inr (Refused r))"

definition answer_with :: "json \<Rightarrow> answer live_op" where
  "answer_with payload = live_return (Inr (Replied payload))"

section \<open>The kinds of request\<close>

definition quote_reply :: "seller_config \<Rightarrow> quote_facts \<times> negotiation \<times> quote_record option \<Rightarrow> json" where
  "quote_reply X q =
     (case q of (facts, n, r) \<Rightarrow>
       [(''kind'', JStr ''quote''), (''negotiationId'', JStr (ng_negotiationId n))] @
       (case facts of
          QuoteRefused rejections \<Rightarrow>
            [(''accepted'', JBool False), (''rejections'', JArr (map rejection_js rejections))]
        | QuoteAccepted qa \<Rightarrow>
            (case r of
               None \<Rightarrow> [(''accepted'', JBool True), (''body'', quote_body_js (qa_body qa))]
             | Some record \<Rightarrow>
                 [(''accepted'', JBool True), (''summary'', JStr (qa_summary qa)), (''body'', quote_body_js (qa_body qa)),
                  (''termsDocument'', JObj (terms_members (qr_termsDocument record))),
                  (''termsDocumentHash'', JStr (qr_termsDocumentHash record)),
                  (''acceptanceCriteria'', JStr (acceptanceCriteriaFor X record)),
                  (''seller'', JObj (identityBlock X))])))"

definition query_request :: "seller_config \<Rightarrow> int \<Rightarrow> string \<Rightarrow> jsval \<Rightarrow> answer live_op" where
  "query_request X now random request =
     (case nonempty_text (getp request ''buyerAgentId'') of
        None \<Rightarrow> refuse QueryIncomplete
      | Some buyerAgentId \<Rightarrow>
          live_bind (live_seller (quote X now random buyerAgentId (getp request ''body''))) (\<lambda>q.
          answer_with (quote_reply X q)))"

definition proposal_request :: "seller_config \<Rightarrow> int \<Rightarrow> string \<Rightarrow> jsval \<Rightarrow> answer live_op" where
  "proposal_request X now random request =
     (case (nonempty_text (getp request ''negotiationId''), nonempty_text (getp request ''buyerAddress'')) of
        (Some negotiationId, Some buyerAddress) \<Rightarrow>
          if getp request ''contract'' = JUndef then refuse ProposalIncomplete
          else
            (let contract = members_of (getp request ''contract'')
             in live_bind (live_seller (propose X now random negotiationId contract buyerAddress)) (\<lambda>d.
                live_bind (live_return (map_error TermsFailed (termsHashOf (sx_crypto X) contract))) (\<lambda>termsHash.
                answer_with [(''kind'', JStr ''proposal-ack''), (''dealId'', JStr (dl_dealId d)),
                  (''termsHash'', JStr termsHash),
                  (''note'', JStr (''demo-assigned deal id; a live Runtime assigns the real one at proposal ('' @
                     SECTION_SIGN @ ''4.1)''))])))
      | _ \<Rightarrow> refuse ProposalIncomplete)"

definition standalone_acceptance :: "seller_config \<Rightarrow> int \<Rightarrow> jsval \<Rightarrow> answer live_op" where
  "standalone_acceptance X now request =
     (let dealId = text_of (getp request ''dealId'')
      in live_bind (live_seller (accept X now dealId (text_of (getp request ''buyerAgreementSig'')) None None)) (\<lambda>accepted.
         answer_with [(''kind'', JStr ''acceptance-result''), (''dealId'', JStr dealId), (''contract'', JObj accepted)]))"

definition live_acceptance :: "live_config \<Rightarrow> int \<Rightarrow> jsval \<Rightarrow> answer live_op" where
  "live_acceptance L now request =
     (let dealId = text_of (getp request ''dealId''); negotiationId = text_of (getp request ''negotiationId'');
          contract = getp request ''contract''; buyerAddress = getp request ''buyerAddress''
      in if negotiationId = [] \<or> contract = JUndef \<or> buyerAddress = JUndef then refuse LiveAcceptanceIncomplete
         else live_bind (live_countersign L now dealId negotiationId (members_of contract) (js_string buyerAddress)
                (text_of (getp request ''buyerAgreementSig''))) (\<lambda>r.
              answer_with ([(''kind'', JStr ''acceptance-result''), (''dealId'', JStr dealId),
                (''contract'', JObj (cr_contract r)), (''status'', cr_status r)] @
                (if cr_reconciled r then [(''reconciled'', JBool True)] else []))))"

definition funding_reply :: "string \<Rightarrow> funding_result \<Rightarrow> json" where
  "funding_reply dealId r =
     (if fr_pending r
      then [(''kind'', JStr ''funding-state''), (''dealId'', JStr dealId), (''funding'', fr_answer r),
        (''note'', JStr (''activation is not yet signable (buyer wallet missing) '' @ EM_DASH @
           '' ask again once the buyer's funding submission lands''))]
      else [(''kind'', JStr ''funding-result''), (''dealId'', JStr dealId), (''status'', fr_answer r)])"

definition funding_request :: "live_config \<Rightarrow> int \<Rightarrow> jsval \<Rightarrow> answer live_op" where
  "funding_request L now request =
     (let dealId = text_of (getp request ''dealId'')
      in live_bind (note_funding now dealId BuyerToSeller ''funding-request''
           ''Buyer asked the seller to co-sign the escrow funding context'' [(''dealId'', JStr dealId)]) (\<lambda>_.
         live_bind (coSignFunding L now dealId) (\<lambda>r.
         live_bind (note_funding now dealId SellerToBuyer (if fr_pending r then ''funding-state'' else ''funding-result'')
           (if fr_pending r then ''Seller reported that funding is not ready for co-signing''
            else ''Seller returned the Runtime's funding result'') (funding_reply dealId r)) (\<lambda>_.
         answer_with (funding_reply dealId r)))))"

definition delivery_reply :: "string \<Rightarrow> prepared_delivery \<times> json \<Rightarrow> json" where
  "delivery_reply dealId out =
     (case out of (p, command) \<Rightarrow>
       [(''kind'', JStr ''delivery''), (''dealId'', JStr dealId), (''manifestUrl'', JStr (pp_manifestUrl p)),
        (''csvUrl'', JStr (pp_csvUrl p)),
        (''deliveryHash'', case dl_deliveryHash (pp_deal p) of Some h \<Rightarrow> JStr h | None \<Rightarrow> JUndef),
        (''evidenceEnvelope'', JObj (pp_envelope p)), (''command'', JObj command),
        (''note'', JStr (''standalone mode: the command's settlement anchors are documented placeholders; '' @
           ''the construction and every signature are real, the values are not, and nothing here can be submitted to a Runtime''))])"

definition delivery_request :: "seller_config \<Rightarrow> int \<Rightarrow> request_random \<Rightarrow> jsval \<Rightarrow> answer live_op" where
  "delivery_request X now rnd request =
     (let dealId = text_of (getp request ''dealId''); requestedAt = js_number (getp request ''requestedAt'')
      in live_bind (live_read (\<lambda>s. Inr (get_deal (lv_seller s) dealId))) (\<lambda>found.
         case found of
           None \<Rightarrow> refuse (UnknownDealAsked dealId)
         | Some d \<Rightarrow>
             live_bind (live_return (map_error CommandFailed (verifyDeliveryRequest (sx_crypto X) dealId requestedAt
               (text_of (getp request ''buyerSig'')) (dl_buyerAddress d) (now div 1000)))) (\<lambda>_.
             live_bind (note_entry now dealId Fulfillment BuyerToSeller ''request-delivery''
               ''Buyer requested delivery with a verified freshness proof'' (state_shown d)
               [(''dealId'', JStr dealId), (''requestedAt'', JNum requestedAt)]) (\<lambda>_.
             live_bind (live_seller (deliver X now (xr_cap rnd) (xr_command rnd) dealId None None)) (\<lambda>out.
             answer_with (delivery_reply dealId out))))))"

section \<open>Execution\<close>

definition dispatch :: "coordination_mode \<Rightarrow> int \<Rightarrow> request_random \<Rightarrow> jsval \<Rightarrow> answer live_op" where
  "dispatch M now rnd request =
     (let kind = getp request ''kind''
      in if nullish request then live_return (Inl LiveTypeError)
         else if kind = JStr ''query'' then query_request (seller_of M) now (xr_negotiation rnd) request
         else if kind = JStr ''submit-proposal'' then proposal_request (seller_of M) now (xr_deal rnd) request
         else if kind = JStr ''acceptance-request'' then
           (case M of Standalone X \<Rightarrow> standalone_acceptance X now request | LiveMode L \<Rightarrow> live_acceptance L now request)
         else if kind = JStr ''funding-request'' then
           (case M of Standalone X \<Rightarrow> refuse StandaloneFunding | LiveMode L \<Rightarrow> funding_request L now request)
         else if kind = JStr ''request-delivery'' then
           (case M of Standalone X \<Rightarrow> delivery_request X now rnd request | LiveMode L \<Rightarrow> refuse LiveDeliveryRequest)
         else refuse (UnknownKind kind))"

text \<open>\<open>execute\<close>: whatever is thrown is answered as a refusal; the changes made before it stay.\<close>

definition execute ::
  "executor_config \<Rightarrow> int \<Rightarrow> request_random \<Rightarrow> request_context \<Rightarrow> fetch \<Rightarrow> live \<Rightarrow> exchange list \<times> live \<times> answer" where
  "execute E now rnd q fetch s =
     (case read_request q of
        Inl r \<Rightarrow> ([], s, Refused r)
      | Inr request \<Rightarrow>
          (case dispatch (ec_mode E) now rnd request fetch s of
             (xs, t, Inl e) \<Rightarrow> (xs, t, Refused (Threw e))
           | (xs, t, Inr a) \<Rightarrow> (xs, t, a)))"

end
