(* ===== verification/LiveProps.thy ===== *)
theory LiveProps
  imports Live SellerRun
begin

text \<open>
  The properties of live mode: nothing is signed while the binding is not active, an Activation is
  signed only as agreed, a refund closes the downloads, the delivery task ends, and every live
  operation is, for the seller, a run of its own steps.
\<close>

named_theorems live_simps \<open>equations of the live operations\<close>

lemma live_bind_simps [live_simps]:
  "live_bind (live_return (Inr v)) f = f v"
  "live_bind (live_return (Inl e)) f = live_return (Inl e)"
  by (simp_all add: live_bind_def live_return_def fun_eq_iff split: prod.split)

lemma live_bind_Inr:
  "live_bind m f fetch s = (zs, t, Inr v) \<longleftrightarrow>
     (\<exists>xs s' a ys. m fetch s = (xs, s', Inr a) \<and> f a fetch s' = (ys, t, Inr v) \<and> zs = xs @ ys)"
  by (auto simp: live_bind_def split: prod.splits sum.splits)

lemma live_step_Inr [live_simps]:
  "live_return r fetch s = (xs, t, Inr v) \<longleftrightarrow> xs = [] \<and> t = s \<and> r = Inr v"
  "live_read g fetch s = (xs, t, Inr v) \<longleftrightarrow> xs = [] \<and> t = s \<and> g s = Inr v"
  "live_change h fetch s = (xs, t, Inr u) \<longleftrightarrow> xs = [] \<and> t = h s"
  "live_call m fetch s = (xs, t, Inr v) \<longleftrightarrow> xs = fst (m fetch) \<and> t = s \<and> snd (m fetch) = Inr v"
  "live_seller op fetch s = (xs, t, Inr v) \<longleftrightarrow>
     xs = [] \<and> t = s \<lparr> lv_seller := fst (op (lv_seller s)) \<rparr> \<and> snd (op (lv_seller s)) = Inr v"
  by (auto simp: live_return_def live_read_def live_change_def live_call_def live_seller_def)

section \<open>The signing gate\<close>

lemma blocked_bind:
  "assertBindingActive fetch s = ([], s, Inl e) \<Longrightarrow> live_bind assertBindingActive f fetch s = ([], s, Inl e)"
  by (simp add: live_bind_def)

lemma assert_blocked:
  "lv_binding s = Some b \<Longrightarrow> block b = Some r \<Longrightarrow> assertBindingActive fetch s = ([], s, Inl (BindingBlocks r))"
  by (simp add: assertBindingActive_def live_read_def)

text \<open>The one request that the other live operations make: the unsigned question for the deal's status.\<close>

definition status_question :: "live_config \<Rightarrow> nat \<Rightarrow> string \<Rightarrow> http_request" where
  "status_question X n dealId =
     call_request (cl_endpoint (lx_client X)) (lx_ids X n) (JObj [(''kind'', JStr ''status''), (''dealId'', JStr dealId)])"

definition asked :: "exchange list \<times> 'r \<Rightarrow> http_request list" where
  "asked m = map fst (fst m)"

lemma asked_runtime_status [simp]:
  "asked (runtime_status L ids k fetch) =
     [call_request (cl_endpoint L) ids (JObj [(''kind'', JStr ''status''), (''dealId'', JStr k)])]"
  by (simp add: asked_def runtime_status_def expecting_def call_def send_def net_bind_def net_error_def net_return_def
      split: prod.split sum.split)

lemma asked_bind:
  "asked (live_bind m f fetch s) =
     asked (m fetch s) @ (case snd (snd (m fetch s)) of Inl e \<Rightarrow> [] | Inr v \<Rightarrow> asked (f v fetch (fst (snd (m fetch s)))))"
  by (simp add: asked_def live_bind_def split: prod.split sum.split)

lemma asked_step [simp]:
  "asked (live_return r fetch s) = []" "asked (live_read g fetch s) = []" "asked (live_change h fetch s) = []"
  "asked (live_seller op fetch s) = []" "asked (live_call n fetch s) = asked (n fetch)"
  "asked (observe now k st txt fetch s) = []" "asked (terms_ref k fetch s) = []"
  "asked (note_entry now k ph di ki tx st' p fetch s) = []" "asked (start_task k note st fetch s) = []"
  by (simp_all add: asked_def live_return_def live_read_def live_change_def live_seller_def live_call_def observe_def
      terms_ref_def note_entry_def live_bind_def start_task_def Let_def split: prod.split sum.split)

lemma asked_probe: "asked (probe X now k fetch s) = [status_question X 4 k]"
  by (simp add: probe_def asked_bind status_question_def split: sum.split)

lemma asked_refresh: "asked (refreshOutcome X now k fetch s) = [status_question X 0 k]"
  by (simp add: refreshOutcome_def asked_bind status_question_def split: sum.split)

lemma asked_notification:
  "asked (handleNotification X now note fetch s) = [] \<or>
   asked (handleNotification X now note fetch s) = [status_question X 0 (text_of (getp note ''deal_id''))]"
proof (cases "check_note note")
  case (Inl e)
  then show ?thesis by (simp add: handleNotification_def live_simps)
next
  case (Inr k)
  then have k: "k = text_of (getp note ''deal_id'')" by (auto simp: check_note_def res_bind_Inr_iff)
  have status: "asked (live_bind (live_call (runtime_status (lx_client X) (lx_ids X 0) k)) (\<lambda>status.
      live_bind (live_return (check_fulfilling status)) (\<lambda>_.
      live_bind (note_entry now k Funding RuntimeToSeller ''kite.contract.fulfill_started''
        ''Runtime notified the seller to begin fulfillment'' ''FULFILLING'' (members_of note)) (\<lambda>_.
      live_bind (observe now k status None) (\<lambda>_. start_task k note status)))) fetch u) = [status_question X 0 k]" for u
    by (simp add: asked_bind status_question_def split: sum.split)
  show ?thesis
    unfolding handleNotification_def Inr live_simps k[symmetric]
    by (simp add: asked_bind[of "terms_ref k"] asked_bind[of "live_return (check_note_terms note _)"] status split: sum.split)
qed

lemma asked_turn_blocked:
  assumes "runDelivery X (tu_now t) (tu_random t) k (tu_fetch t) s = ([], s, Inl (BindingBlocks r))"
  shows "asked (task_turn X k limit t s) = [status_question X 4 k]"
proof -
  obtain ys u v where p: "probe X (tu_now t) k (tu_probe t) s = (ys, u, v)" by (rule prod_cases3)
  show ?thesis using asked_probe[of X "tu_now t" k "tu_probe t" s] assms p
    by (simp add: task_turn_def final_rejection_def asked_def)
qed

text \<open>
  C23: While the runtime binding is not active nothing is signed. The five operations that sign, the acceptance,
  the funding signature, the delivery, the consent to a refund and the appeal, throw the binding's reason at
  once: they send nothing, change nothing and return nothing. The operations that go on send exactly the
  unsigned question for the deal's status and nothing else: a notification (unless it is refused before it
  asks), the refresh of an outcome, the probe, and a whole turn of the delivery task.
\<close>
theorem nothing_is_signed_unbound:
  assumes "lv_binding s = Some b" and "bs_state b \<noteq> Active"
  shows "(\<exists>r. live_countersign X now dealId negotiationId contract buyerAddress sig fetch s = ([], s, Inl (BindingBlocks r)) \<and>
     coSignFunding X now dealId fetch s = ([], s, Inl (BindingBlocks r)) \<and>
     runDelivery X now rnd dealId fetch s = ([], s, Inl (BindingBlocks r)) \<and>
     consentRefund X now random dealId fetch s = ([], s, Inl (BindingBlocks r)) \<and>
     appeal X now random dealId fetch s = ([], s, Inl (BindingBlocks r))) \<and>
   (asked (handleNotification X now note fetch s) = [] \<or>
    asked (handleNotification X now note fetch s) = [status_question X 0 (text_of (getp note ''deal_id''))]) \<and>
   asked (refreshOutcome X now dealId fetch s) = [status_question X 0 dealId] \<and>
   asked (probe X now dealId fetch s) = [status_question X 4 dealId] \<and>
   asked (task_turn X dealId limit t s) = [status_question X 4 dealId]"
proof -
  obtain r where r: "block b = Some r" using assms(2) by (cases "block b") auto
  note b = blocked_bind[OF assert_blocked[OF assms(1) r]]
  have "live_countersign X now dealId negotiationId contract buyerAddress sig fetch s = ([], s, Inl (BindingBlocks r)) \<and>
     coSignFunding X now dealId fetch s = ([], s, Inl (BindingBlocks r)) \<and>
     runDelivery X now rnd dealId fetch s = ([], s, Inl (BindingBlocks r)) \<and>
     consentRefund X now random dealId fetch s = ([], s, Inl (BindingBlocks r)) \<and>
     appeal X now random dealId fetch s = ([], s, Inl (BindingBlocks r))"
    unfolding live_countersign_def coSignFunding_def runDelivery_def consentRefund_def appeal_def rejectionResponse_def
    by (intro conjI) (rule b)+
  moreover have "runDelivery X (tu_now t) (tu_random t) dealId (tu_fetch t) s = ([], s, Inl (BindingBlocks r))"
    unfolding runDelivery_def by (rule b)
  ultimately show ?thesis
    by (intro conjI exI[of _ r] asked_refresh asked_probe asked_notification asked_turn_blocked[of X t dealId s r]) simp_all
qed

section \<open>The co-signed Activation\<close>

lemma problem_if_Nil [simp]: "problem_if b p = [] \<longleftrightarrow> \<not> b"
  by (simp add: problem_if_def)

text \<open>An Activation that agrees with the accepted contract, the verified buyer and this seller.\<close>

definition activation_agrees :: "live_config \<Rightarrow> string \<Rightarrow> json \<Rightarrow> string \<Rightarrow> jsval \<Rightarrow> bool" where
  "activation_agrees X termsRef accepted boundBuyer activation \<longleftrightarrow>
     bytes32Equal (text_of (getp activation ''termsHash'')) termsRef \<and>
     js_lower (text_of (getp activation ''sellerPayout'')) = js_lower (js_string (sub_member accepted ''escrow'' ''payoutAddress'')) \<and>
     js_lower (text_of (getp activation ''sellerAgent'')) = seller_address (lx_seller X) \<and>
     js_lower (text_of (getp activation ''buyerAgent'')) = js_lower boundBuyer \<and>
     (\<exists>n. bigint_of_string (js_string (getp activation ''amount'')) = Inr n \<and>
          usdcBaseUnits (js_string (sub_member accepted ''price'' ''amount'')) = Inr n)"

lemma required_text_Inr: "required_text accepted k m = Inr t \<Longrightarrow> t = js_string (sub_member accepted k m)"
  by (auto simp: required_text_def non_null_def sub_member_def res_bind_Inr_iff split: if_splits)

lemma map_error_Inr_iff [simp]: "map_error g r = Inr x \<longleftrightarrow> r = Inr x"
  by (cases r) auto

lemma no_problems: "activation_problems X h c b a = Inr [] \<Longrightarrow> activation_agrees X h c b a"
  by (auto simp: activation_problems_def activation_agrees_def res_bind_Inr_iff dest!: required_text_Inr)

lemma sign_activation_Inr:
  assumes "sign_activation X h c b ctx a = Inr sig"
  shows "activation_agrees X h c b a \<and>
    signStruct (sx_crypto (lx_seller X)) (lx_privateKey X) (escrow_domain (getp ctx ''chainId'') (getp ctx ''vaultAddress''))
      (TYPE_STRINGS Activation) (activation_struct a) = Inr sig"
  using assms by (auto simp: sign_activation_def res_bind_Inr_iff intro: no_problems split: if_splits)

lemma note_funding_Inr:
  assumes "note_funding now k direction kind txt payload fetch s = (xs, t, Inr u)" and "get_deal (lv_seller s) k = Some d"
  shows "\<exists>d'. get_deal (lv_seller t) k = Some d' \<and> dl_buyerAddress d' = dl_buyerAddress d \<and> dl_contract d' = dl_contract d"
  using assms
  by (auto simp: note_funding_def live_bind_Inr live_simps get_deal_def recordInteraction_get logged_def)

text \<open>
  C4: When the seller returns from co-signing with a submission, the Activation it had read back names
  the accepted terms hash, the signed payout address, this seller's own key, the buyer whose
  signatures were verified and exactly the signed amount in base units, and the signature sent is the
  seller's over that Activation under the chain and the vault of the same answer.
\<close>
theorem activation_is_signed_only_as_agreed:
  assumes "curve_ok (sx_crypto (lx_seller X))"
    and "coSignFunding X now dealId fetch s = (xs, t, Inr r)" and "\<not> fr_pending r"
    and "map_get (lv_dealTerms s) dealId = Some h" and "get_deal (lv_seller s) dealId = Some d"
  shows "\<exists>ctx sig. snd (funding (lx_client X) (lx_ids X 0) dealId h fetch) = Inr ctx \<and>
    activation_agrees X h (dl_contract d) (dl_buyerAddress d) (coalesce (getp ctx ''activation'') (JObj [])) \<and>
    recoverStruct (sx_crypto (lx_seller X)) sig (escrow_domain (getp ctx ''chainId'') (getp ctx ''vaultAddress''))
      (TYPE_STRINGS Activation) (activation_struct (coalesce (getp ctx ''activation'') (JObj []))) =
      Inr (Some (addressOfPrivateKey (sx_crypto (lx_seller X)) (lx_privateKey X))) \<and>
    snd (submitFundingSignatures (lx_client X) (lx_ids X 1) dealId h [(''sellerActivationSig'', JStr sig)] fetch) = Inr (fr_answer r)"
proof -
  obtain s1 ys ctx where 1: "note_funding now dealId SellerToRuntime ''funding-context''
        ''Seller requested the Runtime's current funding context''
        [(''dealId'', JStr dealId), (''termsHash'', JStr h)] fetch s = (ys, s1, Inr ())"
    and ctx: "snd (funding (lx_client X) (lx_ids X 0) dealId h fetch) = Inr ctx"
    and 2: "\<exists>zs. (let activation = coalesce (getp ctx ''activation'') (JObj [])
       in if \<not> truthy (getp activation ''buyer'') then
            live_bind (note_funding now dealId RuntimeToSeller ''funding-pending''
              ''Runtime reported that the buyer's funding artifact is not ready'' [(''funding'', ctx)]) (\<lambda>_.
            live_return (Inr \<lparr> fr_pending = True, fr_answer = ctx \<rparr>))
          else
            live_bind (the_deal dealId) (\<lambda>bound.
            live_bind (live_return (sign_activation X h (dl_contract d) (dl_buyerAddress bound) ctx activation)) (\<lambda>sig.
            submit_funding X now dealId h activation sig))) fetch s1 = (zs, t, Inr r)"
    using assms(2,4,5)
    by (auto simp: coSignFunding_def live_bind_Inr live_step_Inr terms_ref_def the_deal_def assertBindingActive_def)
  obtain d' where d': "get_deal (lv_seller s1) dealId = Some d'" "dl_buyerAddress d' = dl_buyerAddress d"
    using note_funding_Inr[OF 1 assms(5)] by blast
  let ?a = "coalesce (getp ctx ''activation'') (JObj [])"
  obtain sig zs where sig: "sign_activation X h (dl_contract d) (dl_buyerAddress d) ctx ?a = Inr sig"
    and sub: "submit_funding X now dealId h ?a sig fetch s1 = (zs, t, Inr r)"
    using 2 assms(3) d'
    by (auto simp: live_bind_Inr live_step_Inr the_deal_def Let_def split: if_splits)
  have "snd (submitFundingSignatures (lx_client X) (lx_ids X 1) dealId h [(''sellerActivationSig'', JStr sig)] fetch) = Inr (fr_answer r)"
    using sub by (auto simp: submit_funding_def live_bind_Inr live_step_Inr)
  with ctx sign_activation_Inr[OF sig] signStruct_Inr[OF _ assms(1)] show ?thesis by blast
qed

section \<open>A scripted Runtime\<close>

text \<open>A Runtime that answers the request with a given id by a given value, and a GET by the card.\<close>

definition scripted :: "jsval \<Rightarrow> (string \<Rightarrow> jsval) \<Rightarrow> fetch" where
  "scripted cardv f rq =
     (case rq_body rq of
        None \<Rightarrow> Inr \<lparr> rs_status = 200, rs_body = printed cardv \<rparr>
      | Some t \<Rightarrow>
          (case json_parse t of
             None \<Rightarrow> Inl syntax_error
           | Some b \<Rightarrow>
               (let k = js_string (getp b ''id'')
                in Inr \<lparr> rs_status = 200, rs_body = printed (conforming_reply k (f k)) \<rparr>)))"

lemma scripted_call:
  assumes "json_plain (f (fst ids))"
  shows "snd (call L ids payload (scripted cardv f)) = Inr (f (fst ids))"
proof -
  let ?r = "rpc_request (fst ids) (snd ids) COMMAND_MEDIA_TYPE payload"
  have pl: "json_plain ?r" by (simp add: rpc_request_def rpc_message_def json_part_def is_digit_def)
  have p: "json_parse (printed ?r) = Some ?r" by (rule parse_plain[OF pl])
  have a: "scripted cardv f (call_request (cl_endpoint L) ids payload) =
      Inr \<lparr> rs_status = 200, rs_body = printed (conforming_reply (fst ids) (f (fst ids))) \<rparr>"
    using p by (simp add: scripted_def call_request_def plain_printed[OF pl]) (simp add: rpc_request_def Let_def)
  have "json_plain (conforming_reply (fst ids) (f (fst ids)))"
    using assms by (simp add: conforming_reply_def json_part_def is_digit_def)
  from parse_plain[OF this] show ?thesis
    using read_conforming_reply[OF assms]
    by (simp add: call_def snd_net_bind net_error_def a res_bind_def resp_ok_def resp_json_def)
qed

lemma scripted_expecting:
  assumes "json_plain (f (fst ids))" and "getp (f (fst ids)) ''kind'' = JStr kind"
  shows "snd (expecting kind (call L ids payload) g (scripted cardv f)) = Inr (g (f (fst ids)))"
  unfolding expecting_def snd_net_bind scripted_call[where f = f and ids = ids, OF assms(1)] using assms(2)
  by (cases "f (fst ids)") (simp_all add: expect_def)

lemma scripted_enveloped:
  assumes "json_plain (f (fst ids))" and "getp (f (fst ids)) ''kind'' = JStr kind" and "e = Inr p"
  shows "snd (expecting kind (enveloped L ids e) g (scripted cardv f)) = Inr (g (f (fst ids)))"
  using scripted_expecting[where f = f and ids = ids, OF assms(1,2), of L "JObj p" g cardv] assms(3)
  by (simp add: expecting_def enveloped_def snd_net_bind)

definition own_client :: coordination_client where
  "own_client = \<lparr> cl_crypto = sample_crypto, cl_endpoint = ''https://runtime.example/a2a/v1'',
     cl_agentId = ''did:kite:acme:seller'', cl_privateKey = ''s'', cl_keyId = ''k'' \<rparr>"

definition own_live :: live_config where
  "own_live = \<lparr> lx_seller = quiet_seller, lx_client = own_client, lx_privateKey = ''s'',
     lx_ids = (\<lambda>n. if n = 0 then (''r0'', ''m0'') else (''r1'', ''m1'')) \<rparr>"

lemma own_envelope: "\<exists>e. envelope own_client kind dealId h extra = Inr e"
  by (simp add: envelope_def own_client_def signPartyEnvelope_def sign_under_def from_signing_def jcs_def sample_crypto_def)

section \<open>A co-signed Activation\<close>

definition some_address :: "string \<Rightarrow> string" where
  "some_address x = ''0x'' @ repeat_string 20 x"

definition some_hash :: string where
  "some_hash = ''0x'' @ repeat_string 32 ''11''"

definition own_activation :: jsval where
  "own_activation = JObj [(''termsHash'', JStr some_hash), (''buyer'', JStr (some_address ''aa'')),
     (''buyerAgent'', JStr (some_address ''bb'')), (''sellerAgent'', JStr (seller_address quiet_seller)),
     (''sellerPayout'', JStr (some_address ''33'')), (''arbiter'', JStr (some_address ''44'')),
     (''amount'', JStr ''6000000''), (''fundingDeadline'', JInt 1), (''deliveryWindow'', JInt 2),
     (''deliveryConfirmationWindow'', JInt 3), (''appealResponseWindow'', JInt 4), (''arbitrationWindow'', JInt 5)]"

definition own_funding :: jsval where
  "own_funding = JObj [(''activation'', own_activation), (''vaultAddress'', JStr (some_address ''ec'')), (''chainId'', JInt 2368)]"

definition own_contract :: json where
  "own_contract = [(''escrow'', JObj [(''payoutAddress'', JStr (some_address ''33''))]), (''price'', JObj [(''amount'', JStr ''6.00'')])]"

lemma some_address_form: "address_form (some_address ''aa'')" "address_form (some_address ''bb'')"
  "address_form (some_address ''33'')" "address_form (some_address ''44'')" "address_form (some_address ''ec'')"
  by (simp_all add: some_address_def address_form_def repeat_string_def numeral_eq_Suc starts_with_def is_lower_hex_char_def)

lemma own_address_form: "address_form (seller_address quiet_seller)"
  by (simp add: seller_address_def quiet_seller_def addressOfPrivateKey_def address_of_pubkey_form sample_crypto_ok)

lemma own_problems:
  "activation_problems own_live some_hash own_contract (some_address ''bb'') own_activation = Inr []"
proof -
  have n: "bigint_of_string ''6000000'' = Inr 6000000" "usdcBaseUnits ''6.00'' = Inr 6000000" by code_simp+
  have h: "bytes32Equal some_hash some_hash" by (simp add: bytes32Equal_def some_hash_def) code_simp
  show ?thesis
    using n h address_form_lower[OF own_address_form] address_form_lower[OF some_address_form(2)]
    by (simp add: activation_problems_def required_text_def non_null_def own_contract_def own_activation_def text_of_def
        own_live_def problem_if_def)
qed


lemma wordUint_int: "0 \<le> k \<Longrightarrow> k < 2 ^ 256 \<Longrightarrow> wordUint (JNum (Fin (of_int k))) = Inr (be_bytes 32 k)"
  by (simp add: wordUint_def js_bigint_def word_of_bigint_cases)

lemma own_signature:
  "\<exists>sig. sign_activation own_live some_hash own_contract (some_address ''bb'') own_funding own_activation = Inr sig"
proof -
  let ?C = sample_crypto and ?d = "escrow_domain (JInt 2368) (JStr (some_address ''ec''))"
  obtain w1 where w1: "wordBytes32 some_hash = Inr w1"
    using wordBytes32_0x[of "repeat_string 32 ''11''"]
    by (auto simp: some_hash_def repeat_string_def numeral_eq_Suc is_hex_char_def hex_val_def)
  obtain a1 a2 a3 a4 a5 a6 where a: "wordAddress (some_address ''aa'') = Inr a1" "wordAddress (some_address ''bb'') = Inr a2"
    "wordAddress (seller_address quiet_seller) = Inr a3" "wordAddress (some_address ''33'') = Inr a4"
    "wordAddress (some_address ''44'') = Inr a5" "wordAddress (some_address ''ec'') = Inr a6"
    using some_address_form[THEN wordAddress_form] wordAddress_form[OF own_address_form] by blast
  have n: "wordUint (JStr ''6000000'') = Inr (be_bytes 32 6000000)" 
  proof -
    have "js_bigint (JStr ''6000000'') = Inr 6000000" by code_simp
    then show ?thesis by (simp add: wordUint_def word_of_bigint_cases)
  qed
  have k: "wordUint (JInt 1) = Inr (be_bytes 32 1)" "wordUint (JInt 2) = Inr (be_bytes 32 2)" "wordUint (JInt 3) = Inr (be_bytes 32 3)"
    "wordUint (JInt 4) = Inr (be_bytes 32 4)" "wordUint (JInt 5) = Inr (be_bytes 32 5)" "wordUint (JInt 2368) = Inr (be_bytes 32 2368)"
    by (rule wordUint_int; simp)+
  have "\<exists>ws. struct_words ?C Activation (activation_struct own_activation) = Inr ws"
    unfolding struct_words_def struct_fields.simps
    using w1 a n k by (simp add: fieldWord_def activation_struct_def own_activation_def Let_def js_number_def starts_with_def)
  moreover have "\<exists>ws. domain_words ?C ?d = Inr ws"
    using a(6) k(6) by (simp add: domain_words_def escrow_domain_def js_number_def)
  ultimately have "\<exists>p. signingPreimage ?C ?d (TYPE_STRINGS Activation) (activation_struct own_activation) = Inr p"
    by (auto simp: signingPreimage_def domainSeparator_words structHash_words simp del: TYPE_STRINGS.simps)
  moreover have "sx_crypto (lx_seller own_live) = ?C" "lx_privateKey own_live = ''s''" by (simp_all add: own_live_def quiet_seller_def)
  ultimately show ?thesis
    using own_problems by (auto simp: sign_activation_def own_funding_def signStruct_def some_address_def simp del: TYPE_STRINGS.simps)
qed

definition own_deal :: deal where
  "own_deal = \<lparr> dl_dealId = ''deal_1'', dl_negotiationId = ''neg_1'', dl_state = ACCEPTED_LOCAL, dl_runtimeState = None,
     dl_runtimeRevision = None, dl_termsDocumentHash = '''', dl_buyerAddress = some_address ''bb'', dl_contract = own_contract,
     dl_createdAt = 0, dl_updatedAt = 0, dl_history = [], dl_capabilityToken = Some ''cap'', dl_capabilityRevoked = False,
     dl_manifest = None, dl_manifestBytes = Some ''m'', dl_deliveryHash = None, dl_csvBytes = Some ''d'' \<rparr>"

definition own_state :: live where
  "own_state = \<lparr> lv_seller = new_seller \<lparr> deals := [(''deal_1'', own_deal)] \<rparr>, lv_binding = None,
     lv_dealTerms = [(''deal_1'', some_hash)], lv_delivering = [], lv_watching = [] \<rparr>"

definition own_answers :: "string \<Rightarrow> jsval" where
  "own_answers k =
     (if k = ''r0'' then JObj [(''kind'', JStr ''agreement-funding''), (''funding'', own_funding)]
      else JObj [(''kind'', JStr ''agreement-funding-accepted''), (''status'', JObj [])])"

lemma own_answers_plain: "json_plain (own_answers k)"
  by (simp add: own_answers_def own_funding_def own_activation_def is_digit_def rat_is_int_def)

lemma own_funding_call: "snd (funding own_client (''r0'', ''m0'') ''deal_1'' h (scripted JNull own_answers)) = Inr own_funding"
proof -
  obtain e where e: "envelope own_client ''funding'' ''deal_1'' h [] = Inr e" using own_envelope by blast
  show ?thesis
    unfolding funding_def
    using scripted_enveloped[where f = own_answers and ids = "(''r0'', ''m0'')", OF own_answers_plain _ e,
        of "''agreement-funding''" own_client "\<lambda>r. getp r ''funding''" JNull]
    by (simp add: own_answers_def)
qed

lemma own_submission_call:
  "snd (submitFundingSignatures own_client (''r1'', ''m1'') ''deal_1'' h x (scripted JNull own_answers)) = Inr (JObj [])"
proof -
  obtain e where e: "envelope own_client ''funding-signatures'' ''deal_1'' h [(''submission'', JObj x)] = Inr e"
    using own_envelope by blast
  show ?thesis
    unfolding submitFundingSignatures_def
    using scripted_enveloped[where f = own_answers and ids = "(''r1'', ''m1'')", OF own_answers_plain _ e,
        of "''agreement-funding-accepted''" own_client "\<lambda>r. getp r ''status''" JNull]
    by (simp add: own_answers_def)
qed


lemma live_seller_run: "op (lv_seller s) = (u, Inr v) \<Longrightarrow> live_seller op fetch s = ([], s \<lparr> lv_seller := u \<rparr>, Inr v)"
  by (simp add: live_seller_def)

lemma note_funding_runs:
  assumes "get_deal (lv_seller s) k = Some d"
  shows "\<exists>t. note_funding now k direction kind txt payload fetch s = ([], t, Inr ()) \<and> lv_dealTerms t = lv_dealTerms s"
  using assms by (auto simp: note_funding_def live_bind_Inr live_simps get_deal_def recordInteraction_some)

lemma own_cosign: "\<exists>xs t. coSignFunding own_live 0 ''deal_1'' (scripted JNull own_answers) own_state =
    (xs, t, Inr \<lparr> fr_pending = False, fr_answer = JObj [] \<rparr>)"
proof -
  let ?f = "scripted JNull own_answers"
  obtain sig where sig: "sign_activation own_live some_hash own_contract (some_address ''bb'') own_funding own_activation = Inr sig"
    using own_signature by blast
  have ids: "lx_ids own_live 0 = (''r0'', ''m0'')" "lx_ids own_live (Suc 0) = (''r1'', ''m1'')" "lx_client own_live = own_client"
    by (simp_all add: own_live_def)
  have d: "get_deal (lv_seller own_state) ''deal_1'' = Some own_deal"
    by (simp add: own_state_def get_deal_def map_get_def)
  obtain s1 d1 where 1: "note_funding 0 ''deal_1'' SellerToRuntime ''funding-context''
      ''Seller requested the Runtime's current funding context''
      [(''dealId'', JStr ''deal_1''), (''termsHash'', JStr some_hash)] ?f own_state = ([], s1, Inr ())"
    and d1: "get_deal (lv_seller s1) ''deal_1'' = Some d1" "dl_buyerAddress d1 = some_address ''bb''"
    using note_funding_runs[OF d] note_funding_Inr[OF _ d] by (metis (no_types) own_deal_def deal.select_convs(7))
  obtain s2 d2 where 2: "note_funding 0 ''deal_1'' SellerToRuntime ''funding-signatures'' ''Seller co-signed the read-back escrow Activation''
       [(''dealId'', JStr ''deal_1''), (''termsHash'', JStr some_hash), (''activation'', own_activation), (''sellerActivationSig'', JStr sig)]
       ?f s1 = ([], s2, Inr ())" and d2: "get_deal (lv_seller s2) ''deal_1'' = Some d2"
    using note_funding_runs[OF d1(1)] note_funding_Inr[OF _ d1(1)] by blast
  have o: "\<exists>xs t. observe 0 ''deal_1'' (JObj []) None ?f s2 = (xs, t, Inr ())"
    using d2 by (auto simp: observe_def live_simps get_deal_def observeRuntimeStatus_def members_of_def text_of_def)
  have sub: "\<exists>xs t. submit_funding own_live 0 ''deal_1'' some_hash own_activation sig ?f s1 =
      (xs, t, Inr \<lparr> fr_pending = False, fr_answer = JObj [] \<rparr>)"
    using o by (simp add: submit_funding_def live_bind_Inr live_simps 2 ids own_submission_call) blast
  have tr: "lv_binding own_state = None" "map_get (lv_dealTerms own_state) ''deal_1'' = Some some_hash" "dl_contract own_deal = own_contract"
    by (simp_all add: own_state_def map_get_def own_deal_def)
  have cx: "getp own_funding ''activation'' = own_activation" "\<not> nullish own_funding" "truthy (getp own_activation ''buyer'')"
    "\<not> nullish own_activation"
    by (simp_all add: own_funding_def own_activation_def some_address_def)
  show ?thesis
    using sub
    by (simp add: coSignFunding_def live_bind_Inr live_simps assertBindingActive_def terms_ref_def the_deal_def tr d 1 ids
        own_funding_call non_null_def cx d1 sig Let_def) blast
qed

theorem activation_is_signed_only_as_agreed_witness:
  "\<exists>xs t. coSignFunding own_live 0 ''deal_1'' (scripted JNull own_answers) own_state =
      (xs, t, Inr \<lparr> fr_pending = False, fr_answer = JObj [] \<rparr>) \<and>
    (\<exists>ctx. activation_agrees own_live some_hash own_contract (some_address ''bb'') (coalesce (getp ctx ''activation'') (JObj [])))"
proof -
  obtain xs t where c: "coSignFunding own_live 0 ''deal_1'' (scripted JNull own_answers) own_state =
      (xs, t, Inr \<lparr> fr_pending = False, fr_answer = JObj [] \<rparr>)" using own_cosign by blast
  have k: "curve_ok (sx_crypto (lx_seller own_live))" by (simp add: own_live_def quiet_seller_def sample_crypto_ok)
  have m: "map_get (lv_dealTerms own_state) ''deal_1'' = Some some_hash" "get_deal (lv_seller own_state) ''deal_1'' = Some own_deal"
    by (simp_all add: own_state_def get_deal_def map_get_def)
  have d: "dl_contract own_deal = own_contract" "dl_buyerAddress own_deal = some_address ''bb''" by (simp_all add: own_deal_def)
  from activation_is_signed_only_as_agreed[OF k c _ m] c show ?thesis by (simp add: d) blast
qed

theorem nothing_is_signed_unbound_witness:
  "coSignFunding own_live 0 ''deal_1'' (scripted JNull own_answers) (own_state \<lparr> lv_binding := Some initial_status \<rparr>) =
     ([], own_state \<lparr> lv_binding := Some initial_status \<rparr>, Inl (BindingBlocks (the (block initial_status)))) \<and>
   asked (refreshOutcome own_live 0 ''deal_1'' (scripted JNull own_answers) (own_state \<lparr> lv_binding := Some initial_status \<rparr>)) =
     [status_question own_live 0 ''deal_1'']"
proof -
  have "lv_binding (own_state \<lparr> lv_binding := Some initial_status \<rparr>) = Some initial_status" "bs_state initial_status \<noteq> Active"
    by (simp_all add: initial_status_def)
  from nothing_is_signed_unbound[OF this] obtain r where
    "coSignFunding own_live 0 ''deal_1'' (scripted JNull own_answers) (own_state \<lparr> lv_binding := Some initial_status \<rparr>) =
     ([], own_state \<lparr> lv_binding := Some initial_status \<rparr>, Inl (BindingBlocks r))"
    "asked (refreshOutcome own_live 0 ''deal_1'' (scripted JNull own_answers) (own_state \<lparr> lv_binding := Some initial_status \<rparr>)) =
     [status_question own_live 0 ''deal_1'']" by blast
  moreover obtain r' where "block initial_status = Some r'" by (simp add: block_def initial_status_def)
  ultimately show ?thesis
    by (simp add: coSignFunding_def live_bind_def assertBindingActive_def live_read_def)
qed

section \<open>Refunds\<close>

lemma artifactFor_put:
  "artifactFor (put_deal k d s) j file cap =
     (if j = k then artifactFor (new_seller \<lparr> deals := [(k, d)] \<rparr>) k file cap else artifactFor s j file cap)"
  by (simp add: artifactFor_def put_deal_def map_get_set) (simp add: map_get_def)

lemma artifactFor_record: "artifactFor (fst (recordInteraction now k i s)) j file cap = artifactFor s j file cap"
  by (cases "map_get (deals s) j") (auto simp: artifactFor_def recordInteraction_get logged_def)

lemma fst_andThen_done [simp]: "fst (andThen m (\<lambda>_. pure u) s) = fst (m s)"
  by (cases "m s") (simp add: andThen_def pure_def split: sum.split)

lemma artifactFor_same_gate:
  assumes "map_get (deals s) k = Some d" and "dl_capabilityToken d' = dl_capabilityToken d"
    and "dl_capabilityRevoked d' = dl_capabilityRevoked d" and "dl_manifestBytes d' = dl_manifestBytes d"
    and "dl_csvBytes d' = dl_csvBytes d"
  shows "artifactFor (put_deal k d' s) j file cap = artifactFor s j file cap"
  using assms by (simp add: artifactFor_def put_deal_def map_get_set)

lemma artifactFor_observe: "artifactFor (fst (observeRuntimeStatus now k status t s)) j file cap = artifactFor s j file cap"
proof (cases "map_get (deals s) k")
  case (Some d)
  have "artifactFor (put_deal k (d \<lparr> dl_runtimeState := a, dl_runtimeRevision := b \<rparr>) s) j file cap = artifactFor s j file cap"
    for a b by (rule artifactFor_same_gate[OF Some]) simp_all
  note u = this[where b = "dl_runtimeRevision d", simplified] this
  show ?thesis using u by (simp add: observeRuntimeStatus_def Some Let_def artifactFor_record)
qed (simp add: observeRuntimeStatus_def)

lemma artifactFor_revoke: "artifactFor (fst (revokeCapability now k s)) k file cap = None"
proof (cases "map_get (deals s) k")
  case (Some d)
  have "artifactFor (put_deal k (d \<lparr> dl_capabilityRevoked := True \<rparr>) s) k file cap = None"
    by (simp add: artifactFor_def put_deal_def map_get_set)
  then show ?thesis by (simp add: revokeCapability_def Some artifactFor_record) (simp add: artifactFor_def Some)
qed (simp add: revokeCapability_def artifactFor_def)

lemma artifactFor_revoke_other: "j \<noteq> k \<Longrightarrow> artifactFor (fst (revokeCapability now k s)) j file cap = artifactFor s j file cap"
proof (cases "map_get (deals s) k")
  case (Some d)
  assume "j \<noteq> k"
  then have "artifactFor (put_deal k (d \<lparr> dl_capabilityRevoked := True \<rparr>) s) j file cap = artifactFor s j file cap"
    by (simp add: artifactFor_def put_deal_def map_get_set)
  then show ?thesis by (simp add: revokeCapability_def Some artifactFor_record)
qed (simp add: revokeCapability_def)

text \<open>
  C18: An outcome refresh that finishes reports the state the Runtime answered, and shuts the download
  gate of the deal exactly in the refund outcomes (cancelled, or resolved with nothing for
  the seller): any other outcome, and any other deal, keeps what it serves.
\<close>
theorem refund_closes_the_downloads:
  assumes "refreshOutcome X now dealId fetch s = (xs, t, Inr st)"
    and "snd (runtime_status (lx_client X) (lx_ids X 0) dealId fetch) = Inr status"
  shows "st = text_of (getp status ''state'') \<and>
    artifactFor (lv_seller t) j file cap =
      (if refunded status \<and> j = dealId then None else artifactFor (lv_seller s) j file cap)"
proof -
  obtain ys u vs where o: "observe now dealId status None fetch s = (ys, u, Inr ())"
    and r: "(if refunded status then live_seller (revokeCapability now dealId) else live_return (Inr ())) fetch u = (vs, t, Inr ())"
    and st: "st = text_of (getp status ''state'')"
    using assms by (auto simp: refreshOutcome_def live_bind_Inr live_step_Inr)
  have u: "artifactFor (lv_seller u) i file cap = artifactFor (lv_seller s) i file cap" for i
    using o by (auto simp: observe_def live_step_Inr artifactFor_observe split: if_splits option.splits)
  show ?thesis
    using r u st by (cases "refunded status"; cases "j = dealId")
      (auto simp: live_step_Inr artifactFor_revoke artifactFor_revoke_other)
qed

definition cancelled_status :: jsval where
  "cancelled_status = JObj [(''state'', JStr ''CANCELLED''), (''revision'', JInt 7)]"

definition cancelled_answers :: "string \<Rightarrow> jsval" where
  "cancelled_answers k = JObj [(''kind'', JStr ''agreement-status''), (''status'', cancelled_status)]"

lemma cancelled_call:
  "snd (runtime_status own_client (''r0'', ''m0'') dealId (scripted JNull cancelled_answers)) = Inr cancelled_status"
proof -
  have "json_plain (cancelled_answers ''r0'')" by (simp add: cancelled_answers_def cancelled_status_def is_digit_def rat_is_int_def)
  then show ?thesis
    unfolding runtime_status_def
    using scripted_expecting[where f = cancelled_answers and ids = "(''r0'', ''m0'')" and kind = "''agreement-status''"
        and g = "\<lambda>r. getp r ''status''" and L = own_client and cardv = JNull]
    by (simp add: cancelled_answers_def)
qed

lemma observe_runs:
  assumes "\<not> nullish status" and "get_deal (lv_seller s) k = Some d"
  shows "\<exists>t. observe now k status txt fetch s = ([], t, Inr ())"
proof -
  have "\<exists>u. snd (observeRuntimeStatus now k m txt v) = Inr u" if "map_get (deals v) k = Some d" for m v
    using that by (auto simp: observeRuntimeStatus_def Let_def andThen_def pure_def put_deal_def map_get_set recordInteraction_def
        historyEntry_def)
  then show ?thesis using assms by (auto simp: observe_def live_step_Inr get_deal_def)
qed

theorem refund_closes_the_downloads_witness:
  "\<exists>xs t. refreshOutcome own_live 0 ''deal_1'' (scripted JNull cancelled_answers) own_state = (xs, t, Inr ''CANCELLED'') \<and>
     artifactFor (lv_seller own_state) ''deal_1'' ''data.csv'' (Some ''cap'') = Some ''d'' \<and>
     artifactFor (lv_seller t) ''deal_1'' ''data.csv'' (Some ''cap'') = None"
proof -
  let ?f = "scripted JNull cancelled_answers"
  have c: "snd (runtime_status (lx_client own_live) (lx_ids own_live 0) ''deal_1'' ?f) = Inr cancelled_status"
    using cancelled_call by (simp add: own_live_def)
  have d: "get_deal (lv_seller own_state) ''deal_1'' = Some own_deal" by (simp add: own_state_def get_deal_def map_get_def)
  have n: "\<not> nullish cancelled_status" "text_of (getp cancelled_status ''state'') = ''CANCELLED''"
    by (simp_all add: cancelled_status_def text_of_def)
  then have r: "refunded cancelled_status" by (simp add: refunded_def)
  obtain u where u: "observe 0 ''deal_1'' cancelled_status None ?f own_state = ([], u, Inr ())"
    using observe_runs[OF n(1) d] by blast
  have "\<exists>t. live_seller (revokeCapability 0 ''deal_1'') ?f u = ([], t, Inr ())"
    by (auto simp: live_step_Inr revokeCapability_def put_deal_def map_get_set andThen_def pure_def recordInteraction_def
        historyEntry_def split: option.split)
  then obtain xs t where t: "refreshOutcome own_live 0 ''deal_1'' ?f own_state = (xs, t, Inr ''CANCELLED'')"
    by (auto simp: refreshOutcome_def live_bind_Inr live_step_Inr c non_null_def n u r)
  have a: "artifactFor (lv_seller own_state) ''deal_1'' ''data.csv'' (Some ''cap'') = Some ''d''"
    by (simp add: own_state_def artifactFor_def map_get_def own_deal_def)
  from refund_closes_the_downloads[OF t c, of "''deal_1''" "''data.csv''" "Some ''cap''"] a t r show ?thesis by auto
qed

section \<open>The delivery task ends\<close>

lemma loop_ends:
  "limit_passed limit (tu_later (turns k)) \<Longrightarrow> j \<le> k \<Longrightarrow>
   \<exists>t r. delivery_loop X dealId limit turns j s = Some (t, r) \<and> \<not> isDelivering t dealId"
proof (induction "k - j" arbitrary: j s)
  case 0
  then have "j = k" by simp
  then have "\<exists>xs s' r. task_turn X dealId limit (turns j) s = (xs, s', Some r)"
    using 0(2) by (auto simp: task_turn_def split: prod.split sum.split)
  then show ?case by (subst delivery_loop.simps) (auto simp: end_task_def isDelivering_def)
next
  case (Suc n)
  obtain xs s' r where t: "task_turn X dealId limit (turns j) s = (xs, s', r)" by (metis prod_cases3)
  show ?case
  proof (cases r)
    case None
    have "\<exists>u r. delivery_loop X dealId limit turns (Suc j) s' = Some (u, r) \<and> \<not> isDelivering u dealId"
      using Suc by (intro Suc.hyps(1)) auto
    with t None show ?thesis by (subst delivery_loop.simps) simp
  next
    case (Some e)
    with t show ?thesis by (subst delivery_loop.simps) (auto simp: end_task_def isDelivering_def)
  qed
qed

text \<open>
  C22: The delivery task returns: once the clock of some turn has passed the deadline, whatever the
  Runtime answered in the meantime, the loop has ended and the deal may be delivered anew.
\<close>
theorem delivery_task_returns:
  assumes "limit_passed (task_limit now deadline) (tu_later (turns k))"
  shows "\<exists>t r. backgroundDelivery X now dealId deadline turns s = Some (t, r) \<and> \<not> isDelivering t dealId"
  unfolding backgroundDelivery_def by (rule loop_ends[where turns = turns and k = k]) (use assms in simp_all)

definition silent_turns :: "nat \<Rightarrow> turn" where
  "silent_turns k = \<lparr> tu_now = int k * 30000, tu_random = \<lparr> ry_cap = [], ry_command = [] \<rparr>,
     tu_fetch = (\<lambda>_. Inl (plain_error ''down'')), tu_probe = (\<lambda>_. Inl (plain_error ''down'')), tu_later = int k * 30000 \<rparr>"

theorem delivery_task_returns_witness:
  "\<exists>t r. backgroundDelivery own_live 0 ''deal_1'' (Some (Fin 60)) silent_turns own_state = Some (t, r) \<and>
     \<not> isDelivering t ''deal_1''"
proof (rule delivery_task_returns)
  show "limit_passed (task_limit 0 (Some (Fin 60))) (tu_later (silent_turns 2))"
    unfolding silent_turns_def by code_simp
qed

section \<open>Live mode is a run of the seller\<close>

named_theorems seller_run_intros \<open>operations whose effect on the seller is a run of its steps\<close>

definition seller_run :: "seller_config \<Rightarrow> seller \<Rightarrow> seller \<Rightarrow> bool" where
  "seller_run X s t \<longleftrightarrow> (seller_step X)\<^sup>*\<^sup>* (s, {}) (t, {})"

definition by_seller :: "live_config \<Rightarrow> 'a live_op \<Rightarrow> bool" where
  "by_seller X m \<longleftrightarrow> (\<forall>fetch s. seller_run (lx_seller X) (lv_seller s) (lv_seller (fst (snd (m fetch s)))))"

lemma seller_run_refl [simp]: "seller_run X s s"
  by (simp add: seller_run_def)

lemma seller_run_trans: "seller_run X s t \<Longrightarrow> seller_run X t u \<Longrightarrow> seller_run X s u"
  by (simp add: seller_run_def)

lemma seller_run_step: "seller_step X (s, {}) (t, {}) \<Longrightarrow> seller_run X s t"
  by (simp add: seller_run_def)

lemma by_seller_bind [seller_run_intros]:
  assumes "by_seller X m" and "\<And>v. by_seller X (f v)"
  shows "by_seller X (live_bind m f)"
  unfolding by_seller_def
proof (intro allI)
  fix fetch s
  obtain xs s' r where m: "m fetch s = (xs, s', r)" by (metis prod_cases3)
  have 1: "seller_run (lx_seller X) (lv_seller s) (lv_seller s')" using assms(1) m unfolding by_seller_def by (metis fst_conv snd_conv)
  show "seller_run (lx_seller X) (lv_seller s) (lv_seller (fst (snd (live_bind m f fetch s))))"
  proof (cases r)
    case (Inl e)
    with m 1 show ?thesis by (simp add: live_bind_def)
  next
    case (Inr v)
    have "seller_run (lx_seller X) (lv_seller s') (lv_seller (fst (snd (f v fetch s'))))"
      using assms(2) unfolding by_seller_def by blast
    with m Inr 1 show ?thesis by (simp add: live_bind_def case_prod_beta) (rule seller_run_trans)
  qed
qed

lemma by_seller_simple [seller_run_intros]:
  "by_seller X (live_return r)" "by_seller X (live_read g)" "by_seller X (live_call c)"
  by (simp_all add: by_seller_def live_return_def live_read_def live_call_def)

lemma by_seller_change [seller_run_intros]: "(\<And>s. lv_seller (h s) = lv_seller s) \<Longrightarrow> by_seller X (live_change h)"
  by (simp add: by_seller_def live_change_def)

lemma by_seller_if [seller_run_intros]: "by_seller X m \<Longrightarrow> by_seller X n \<Longrightarrow> by_seller X (if b then m else n)"
  by simp

lemma by_seller_let [seller_run_intros]: "(\<And>v. by_seller X (f v)) \<Longrightarrow> by_seller X (let v = a in f v)"
  by (simp add: Let_def)

lemma by_seller_pair [seller_run_intros]: "(\<And>a b. by_seller X (f a b)) \<Longrightarrow> by_seller X (case p of (a, b) \<Rightarrow> f a b)"
  by (cases p) simp

lemma by_seller_lift:
  assumes "\<And>s. seller_run (lx_seller X) s (fst (op s))"
  shows "by_seller X (live_seller op)"
  using assms by (simp add: by_seller_def live_seller_def)

lemma by_seller_operations [seller_run_intros]:
  "by_seller X (live_seller (registerLiveDeal now k g contract buyer))"
  "by_seller X (live_seller (observeRuntimeStatus now k status txt))"
  "by_seller X (live_seller (accept (lx_seller X) now k sig chainId proposed))"
  "by_seller X (live_seller (recordInteraction now k i))"
  "by_seller X (live_seller (revokeCapability now k))"
  by (rule by_seller_lift, rule seller_run_step,
      (rule seller_step.intros; simp))+

lemma by_seller_prepare [seller_run_intros]:
  "by_seller X (live_seller (prepareDelivery (lx_seller X) now random k))"
proof (rule by_seller_lift)
  fix s
  let ?X = "lx_seller X"
  obtain s' r where b: "prepareDelivery_begin ?X now random k s = (s', r)" by fastforce
  show "seller_run ?X s (fst (prepareDelivery ?X now random k s))"
  proof (cases r)
    case (Inl e)
    with b have "seller_step ?X (s, {}) (s', {})" by (auto intro: seller_step.begin_failed)
    with b Inl show ?thesis by (simp add: prepareDelivery_def andThen_def seller_run_step)
  next
    case (Inr p)
    with b have 1: "seller_step ?X (s, {}) (s', {p})" by (auto intro: seller_step.begin_step)
    have "seller_step ?X (s', {p}) (fst (prepareDelivery_finish ?X now p s'), {p} - {p})"
      by (rule seller_step.finish_step) simp
    with 1 have "(seller_step ?X)\<^sup>*\<^sup>* (s, {}) (fst (prepareDelivery_finish ?X now p s'), {})"
      by (auto intro: converse_rtranclp_into_rtranclp)
    with b Inr show ?thesis by (simp add: prepareDelivery_def andThen_def seller_run_def)
  qed
qed

lemma by_seller_command [seller_run_intros]: "by_seller X (live_seller (\<lambda>s. (s, f s)))"
  by (rule by_seller_lift) simp

lemma by_seller_funding_note [seller_run_intros]: "by_seller X (note_funding now k direction kind txt payload)"
proof -
  have "by_seller X (live_bind (live_seller (recordInteraction now k i)) (\<lambda>_. live_return (Inr ())))" for i
    by (intro seller_run_intros)
  then show ?thesis unfolding by_seller_def note_funding_def by blast
qed

lemma by_seller_note [seller_run_intros]: "by_seller X (note_entry now k phase direction kind txt st payload)"
  unfolding note_entry_def by (intro seller_run_intros)

lemma by_seller_observe [seller_run_intros]: "by_seller X (observe now k status txt)"
  unfolding observe_def by (intro seller_run_intros)

lemma by_seller_reads [seller_run_intros]:
  "by_seller X assertBindingActive" "by_seller X (terms_ref k)" "by_seller X (the_deal k)"
  unfolding assertBindingActive_def terms_ref_def the_deal_def by (rule seller_run_intros)+

lemma by_seller_task [seller_run_intros]: "by_seller X (start_task k note status)"
  by (simp add: by_seller_def start_task_def Let_def)

lemma by_seller_live:
  "by_seller X (live_countersign X now k g contract buyer sig)"
  "by_seller X (coSignFunding X now k)"
  "by_seller X (handleNotification X now note)"
  "by_seller X (runDelivery X now rnd k)"
  "by_seller X (probe X now k)"
  "by_seller X (refreshOutcome X now k)"
  "by_seller X (rejectionResponse X now random kind st memb txt k)"
  unfolding live_countersign_def countersign_locally_def submit_accepted_def coSignFunding_def submit_funding_def
    handleNotification_def runDelivery_def delivery_domain_def submit_delivery_def probe_def refreshOutcome_def
    rejectionResponse_def
  by (intro seller_run_intros; simp add: watchOutcome_def)+


text \<open>
  Everything that changes the state in live mode: the operations, a turn of the delivery task and a tick
  of the watcher with their ends, the binding's own task, and the requests the seller answers itself.
\<close>

inductive live_step :: "live_config \<Rightarrow> live \<Rightarrow> live \<Rightarrow> bool" for X where
  countersigns: "live_step X s (fst (snd (live_countersign X now k g contract buyer sig fetch s)))"
| cosigns: "live_step X s (fst (snd (coSignFunding X now k fetch s)))"
| notified: "live_step X s (fst (snd (handleNotification X now note fetch s)))"
| turns: "live_step X s (fst (snd (task_turn X k limit t s)))"
| task_over: "live_step X s (end_task k s)"
| ticks: "live_step X s (fst (watch_tick X k t s))"
| watch_over: "live_step X s (end_watch k s)"
| answers_rejection: "live_step X s (fst (snd (rejectionResponse X now random kind st memb txt k fetch s)))"
| binding_moves: "live_step X s (s \<lparr> lv_binding := b \<rparr>)"
| serves: "seller_step (lx_seller X) (lv_seller s, {}) (u, {}) \<Longrightarrow> live_step X s (s \<lparr> lv_seller := u \<rparr>)"

lemma by_sellerD: "by_seller X m \<Longrightarrow> m fetch s = (xs, t, r) \<Longrightarrow> seller_run (lx_seller X) (lv_seller s) (lv_seller t)"
  unfolding by_seller_def by (metis fst_conv snd_conv)

lemma task_turn_run: "seller_run (lx_seller X) (lv_seller s) (lv_seller (fst (snd (task_turn X k limit t s))))"
proof -
  obtain xs s' r where d: "runDelivery X (tu_now t) (tu_random t) k (tu_fetch t) s = (xs, s', r)" by (metis prod_cases3)
  obtain ys u q where p: "probe X (tu_now t) k (tu_probe t) s' = (ys, u, q)" by (metis prod_cases3)
  have 1: "seller_run (lx_seller X) (lv_seller s) (lv_seller s')" by (rule by_sellerD[OF by_seller_live(4) d])
  have "seller_run (lx_seller X) (lv_seller s') (lv_seller u)" by (rule by_sellerD[OF by_seller_live(5) p])
  with 1 seller_run_trans[OF 1] show ?thesis by (cases r) (auto simp: task_turn_def d p)
qed

lemma watch_tick_run: "seller_run (lx_seller X) (lv_seller s) (lv_seller (fst (watch_tick X k t s)))"
proof -
  obtain xs s' r where d: "refreshOutcome X (tk_now t) k (tk_fetch t) s = (xs, s', r)" by (metis prod_cases3)
  from by_sellerD[OF by_seller_live(6) d] show ?thesis by (cases r) (auto simp: watch_tick_def d)
qed

lemma live_step_run: "live_step X s t \<Longrightarrow> seller_run (lx_seller X) (lv_seller s) (lv_seller t)"
proof (induction rule: live_step.induct)
  case (serves s u)
  then show ?case by (simp add: seller_run_step)
qed (use by_seller_live in \<open>simp_all add: by_seller_def task_turn_run watch_tick_run end_task_def end_watch_def\<close>)

lemma seller_run_inv: "seller_run X s t \<Longrightarrow> seller_inv X {} s \<Longrightarrow> seller_inv X {} t"
proof -
  assume "seller_run X s t" and s: "seller_inv X {} s"
  then have "(seller_step X)\<^sup>*\<^sup>* (s, {}) (t, {})" by (simp add: seller_run_def)
  then have "seller_inv X (snd (t, {} :: pending_delivery set)) (fst (t, {} :: pending_delivery set))"
  proof (induction rule: rtranclp_induct)
    case (step u v)
    then show ?case by (cases u, cases v) (auto dest: step_inv)
  qed (simp add: s)
  then show ?thesis by simp
qed

interpretation live_mode: refinement "live_step X" "\<lambda>s. seller_inv (lx_seller X) {} (lv_seller s)" lv_seller
    "seller_run (lx_seller X)" for X
  by unfold_locales (auto intro: live_step_run seller_run_inv)

lemma seller_runs_run: "(seller_run X)\<^sup>*\<^sup>* s t \<Longrightarrow> seller_run X s t"
  by (induction rule: rtranclp_induct) (auto intro: seller_run_trans)

lemma reachable_run_reachable: "seller_run X s t \<Longrightarrow> reachable X (s, {}) \<Longrightarrow> reachable X (t, {})"
proof -
  assume "seller_run X s t" and s: "reachable X (s, {})"
  then have "(seller_step X)\<^sup>*\<^sup>* (s, {}) (t, {})" by (simp add: seller_run_def)
  then show ?thesis by (induction rule: rtranclp_induct) (auto intro: s reachable.later)
qed

text \<open>
  Live mode refines the seller: whatever the Runtime and the peers send, a run of live operations
  is, for the seller's state, a run of the seller's own steps, so that every theorem about the
  seller's reachable states holds in live mode.
\<close>
theorem live_mode_refines_the_seller:
  assumes "(live_step X)\<^sup>*\<^sup>* s t" and "reachable (lx_seller X) (lv_seller s, {})"
  shows "seller_run (lx_seller X) (lv_seller s) (lv_seller t) \<and> reachable (lx_seller X) (lv_seller t, {})"
proof -
  have "seller_inv (lx_seller X) {} (lv_seller s)" using reachable_inv[OF assms(2)] by simp
  from live_mode.run_simulates[OF assms(1) this] have "seller_run (lx_seller X) (lv_seller s) (lv_seller t)"
    by (rule seller_runs_run)
  with reachable_run_reachable[OF _ assms(2)] show ?thesis by blast
qed

definition fresh_live :: live where
  "fresh_live = \<lparr> lv_seller = new_seller, lv_binding = None, lv_dealTerms = [], lv_delivering = [], lv_watching = [] \<rparr>"

theorem live_mode_refines_the_seller_witness:
  "reachable quiet_seller (lv_seller (fst (snd (refreshOutcome own_live 0 ''deal_1'' (scripted JNull cancelled_answers) fresh_live))), {})"
proof -
  let ?t = "fst (snd (refreshOutcome own_live 0 ''deal_1'' (scripted JNull cancelled_answers) fresh_live))"
  let ?k = "\<lparr> tk_now = 0, tk_fetch = scripted JNull cancelled_answers \<rparr>"
  have "fst (watch_tick own_live ''deal_1'' ?k fresh_live) = ?t"
    by (simp add: watch_tick_def split: prod.split sum.split)
  then have s: "(live_step own_live)\<^sup>*\<^sup>* fresh_live ?t"
    using live_step.ticks[of own_live fresh_live "''deal_1''" ?k] by simp
  have "reachable (lx_seller own_live) (lv_seller fresh_live, {})" by (simp add: fresh_live_def reachable.start)
  from live_mode_refines_the_seller[OF s this] show ?thesis by (simp add: own_live_def)
qed

end
