(* ===== verification/ExecutorProps.thy ===== *)
theory ExecutorProps
  imports Executor LiveProps
begin

text \<open>
  The executor in front of the seller: which requests act, and that whatever the peers send,
  the seller only takes its own steps.
\<close>

section \<open>Requests that act\<close>

text \<open>A request the executor serves in a mode, by its kind.\<close>

definition served_kind :: "coordination_mode \<Rightarrow> jsval \<Rightarrow> bool" where
  "served_kind M kind \<longleftrightarrow>
     kind \<in> {JStr ''query'', JStr ''submit-proposal'', JStr ''acceptance-request''} \<or>
     (case M of Standalone X \<Rightarrow> kind = JStr ''request-delivery'' | LiveMode L \<Rightarrow> kind = JStr ''funding-request'')"

lemma refuse_at [simp]: "refuse r fetch s = ([], s, Inr (Refused r))"
  by (simp add: refuse_def live_return_def)

lemma answer_with_at [simp]: "answer_with p fetch s = ([], s, Inr (Replied p))"
  by (simp add: answer_with_def live_return_def)

lemma dispatch_unserved:
  assumes "\<not> served_kind M (getp request ''kind'')"
  shows "\<exists>r. dispatch M now rnd request fetch s = ([], s, r)"
  using assms by (cases M) (auto simp: dispatch_def served_kind_def live_return_def Let_def)

lemma read_request_Inr:
  "read_request q = Inr request \<longleftrightarrow>
     EXTENSION_URI \<in> set (or_empty (rc_requested q)) \<and> EXTENSION_URI \<in> set (ms_extensions (rc_message q)) \<and>
     (\<exists>p. negotiation_part (rc_message q) = Some p \<and> json_parse (the (pt_raw p)) = Some request)"
  by (auto simp: read_request_def split: option.splits)

text \<open>Operations that send nothing.\<close>

definition silent :: "'a live_op \<Rightarrow> bool" where
  "silent m \<longleftrightarrow> (\<forall>fetch s. fst (m fetch s) = [])"

named_theorems silent_intros \<open>operations that send nothing\<close>

lemma silent_bind [silent_intros]: "silent m \<Longrightarrow> (\<And>v. silent (f v)) \<Longrightarrow> silent (live_bind m f)"
  unfolding silent_def live_bind_def by (simp add: case_prod_beta split: sum.split)

lemma silent_simple [silent_intros]:
  "silent (live_return r)" "silent (live_read g)" "silent (live_seller op)" "silent (refuse x)" "silent (answer_with p)"
  by (simp_all add: silent_def live_return_def live_read_def live_seller_def)

lemma silent_note [silent_intros]: "silent (note_entry now k phase direction kind txt st payload)"
  unfolding note_entry_def by (intro silent_intros)

lemma silent_let [silent_intros]: "(\<And>v. silent (f v)) \<Longrightarrow> silent (let v = a in f v)"
  by (simp add: Let_def)

lemma silent_requests [silent_intros]:
  "silent (query_request X now random request)"
  "silent (proposal_request X now random request)"
  "silent (standalone_acceptance X now request)"
  "silent (delivery_request X now rnd request)"
  unfolding query_request_def proposal_request_def standalone_acceptance_def delivery_request_def Let_def
  by (auto intro!: silent_intros split: option.split prod.split)

lemma standalone_silent: "silent (dispatch (Standalone X) now rnd request)"
  unfolding dispatch_def Let_def by (auto intro!: silent_intros)

text \<open>
  C24: A request acts only when it was allowed to: if it changed the state or sent anything, it carried
  both halves of the opt-in and a readable negotiation part, and its kind is one the mode serves;
  in standalone mode nothing is ever sent. Every other request gets a refusal and leaves no trace.
\<close>
theorem only_served_requests_act:
  assumes "execute E now rnd q fetch s = (xs, t, a)" and "xs \<noteq> [] \<or> t \<noteq> s"
  shows "\<exists>request. EXTENSION_URI \<in> set (or_empty (rc_requested q)) \<and> EXTENSION_URI \<in> set (ms_extensions (rc_message q)) \<and>
    read_request q = Inr request \<and> served_kind (ec_mode E) (getp request ''kind'') \<and>
    (case ec_mode E of Standalone X \<Rightarrow> xs = [] | LiveMode L \<Rightarrow> True)"
proof (cases "read_request q")
  case (Inl r)
  with assms show ?thesis by (simp add: execute_def)
next
  case (Inr request)
  obtain ys u r where d: "dispatch (ec_mode E) now rnd request fetch s = (ys, u, r)" by (metis prod_cases3)
  have x: "xs = ys" "t = u" using assms(1) Inr d by (auto simp: execute_def split: sum.splits)
  have "served_kind (ec_mode E) (getp request ''kind'')"
    using dispatch_unserved[of "ec_mode E" request now rnd fetch s] d x assms(2) by fastforce
  moreover have "case ec_mode E of Standalone X \<Rightarrow> xs = [] | LiveMode L \<Rightarrow> True"
    using standalone_silent[unfolded silent_def] d x by (simp split: coordination_mode.split) (metis fst_conv)
  ultimately show ?thesis using Inr read_request_Inr[of q request] by blast
qed


text \<open>A buyer who asks for a quote.\<close>

definition quiet_query_request :: jsval where
  "quiet_query_request = JObj [(''kind'', JStr ''query''), (''buyerAgentId'', JStr quiet_buyer), (''body'', quiet_body)]"

definition negotiation_request :: "jsval \<Rightarrow> request_context" where
  "negotiation_request v = \<lparr> rc_contextId = ''c'', rc_requested = Some [EXTENSION_URI],
     rc_message = \<lparr> ms_extensions = [EXTENSION_URI], ms_parts = [rawPart v] \<rparr> \<rparr>"

definition quiet_random :: request_random where
  "quiet_random = \<lparr> xr_negotiation = ''r'', xr_deal = ''d'', xr_cap = ''t'', xr_command = ''c'' \<rparr>"

definition quiet_executor :: executor_config where
  "quiet_executor = \<lparr> ec_mode = Standalone quiet_seller, ec_text = (\<lambda>_. ''error'') \<rparr>"

lemma read_negotiation_request: "json_plain v \<Longrightarrow> read_request (negotiation_request v) = Inr v"
  by (simp add: read_request_def negotiation_request_def or_empty_def negotiation_part_def rawPart_def parse_plain)

lemma quiet_query_plain: "json_plain quiet_query_request"
  by (simp add: quiet_query_request_def quiet_body_def is_digit_def rat_is_int_def)

lemma quiet_query_executed:
  "\<exists>t a. execute quiet_executor 0 quiet_random (negotiation_request quiet_query_request) fetch fresh_live = ([], t, Replied a) \<and>
     t \<noteq> fresh_live"
proof -
  obtain s1 r n facts where q: "quote quiet_seller 0 ''r'' quiet_buyer quiet_body new_seller = (s1, Inr (facts, n, Some r))"
    "map_get (quotes s1) ''neg_72'' = Some r" by (rule quiet_quoted)
  have m: "getp quiet_query_request ''kind'' = JStr ''query''" "getp quiet_query_request ''buyerAgentId'' = JStr quiet_buyer"
    "getp quiet_query_request ''body'' = quiet_body" "\<not> nullish quiet_query_request"
    by (simp_all add: quiet_query_request_def)
  have b: "nonempty_text (JStr quiet_buyer) = Some quiet_buyer" by (simp add: nonempty_text_def quiet_buyer_def)
  have x: "execute quiet_executor 0 quiet_random (negotiation_request quiet_query_request) fetch fresh_live =
      ([], fresh_live \<lparr> lv_seller := s1 \<rparr>, Replied (quote_reply quiet_seller (facts, n, Some r)))"
    by (simp add: execute_def read_negotiation_request[OF quiet_query_plain] dispatch_def m b query_request_def quiet_executor_def
        quiet_random_def live_bind_def live_seller_def fresh_live_def q(1))
  have "lv_seller (fresh_live \<lparr> lv_seller := s1 \<rparr>) \<noteq> lv_seller fresh_live"
    using q(2) by (auto simp: fresh_live_def new_seller_def map_get_def)
  with x show ?thesis by metis
qed

theorem only_served_requests_act_witness:
  "\<exists>request. read_request (negotiation_request quiet_query_request) = Inr request \<and>
     served_kind (ec_mode quiet_executor) (getp request ''kind'')"
proof -
  obtain t a where x: "execute quiet_executor 0 quiet_random (negotiation_request quiet_query_request) (\<lambda>_. Inl syntax_error) fresh_live =
      ([], t, Replied a)" "t \<noteq> fresh_live" using quiet_query_executed by blast
  from only_served_requests_act[OF x(1)] x(2) show ?thesis by blast
qed


section \<open>The service is a run of the seller\<close>

text \<open>The ids a request may hand out are new.\<close>

definition fresh_ids :: "request_random \<Rightarrow> live \<Rightarrow> bool" where
  "fresh_ids rnd s \<longleftrightarrow>
     map_get (negotiations (lv_seller s)) (''neg_'' @ to_hex (xr_negotiation rnd)) = None \<and>
     map_get (deals (lv_seller s)) (''deal_'' @ to_hex (xr_deal rnd)) = None"

lemma by_seller_answers [seller_run_intros]: "by_seller L (refuse r)" "by_seller L (answer_with p)"
  unfolding refuse_def answer_with_def by (rule seller_run_intros)+

lemma by_seller_cases [seller_run_intros]: "by_seller L m \<Longrightarrow> (\<And>v. by_seller L (f v)) \<Longrightarrow> by_seller L (case x of None \<Rightarrow> m | Some v \<Rightarrow> f v)"
  by (cases x) auto

lemma by_seller_deliver [seller_run_intros]:
  "by_seller L (live_seller (deliver (lx_seller L) now cap command k anchors evidence))"
proof (rule by_seller_lift)
  fix s
  let ?X = "lx_seller L"
  obtain s' r where p: "prepareDelivery ?X now cap k s = (s', r)" by fastforce
  have 1: "seller_run ?X s s'"
    using by_seller_prepare[of L now cap k] p by (auto simp: by_seller_def live_seller_def dest: spec[of _ "fresh_live \<lparr> lv_seller := s \<rparr>"])
  show "seller_run ?X s (fst (deliver ?X now cap command k anchors evidence s))"
  proof (cases r)
    case (Inl e)
    with p 1 show ?thesis by (simp add: deliver_def andThen_def)
  next
    case (Inr q)
    have "seller_run ?X s' (fst (deliver_command ?X now command k anchors evidence (pp_deliveryHash q) s'))"
      by (rule seller_run_step[OF seller_step.command_step])
    with 1 seller_run_trans[OF 1] p Inr show ?thesis
      by (auto simp: deliver_def andThen_def pure_def split: prod.splits sum.splits)
  qed
qed


lemma first_step_run:
  assumes "seller_run (lx_seller L) (lv_seller s) (fst (op (lv_seller s)))" and "\<And>v. by_seller L (f v)"
  shows "seller_run (lx_seller L) (lv_seller s) (lv_seller (fst (snd (live_bind (live_seller op) f fetch s))))"
proof -
  obtain u r where o: "op (lv_seller s) = (u, r)" by fastforce
  show ?thesis
  proof (cases r)
    case (Inl e)
    with o assms(1) show ?thesis by (simp add: live_bind_def live_seller_def)
  next
    case (Inr v)
    have "seller_run (lx_seller L) u (lv_seller (fst (snd (f v fetch (s \<lparr> lv_seller := u \<rparr>)))))"
      using assms(2)[of v] unfolding by_seller_def by (metis live.select_convs(1) live.surjective live.update_convs(1))
    with o Inr assms(1) show ?thesis by (simp add: live_bind_def live_seller_def case_prod_beta) (rule seller_run_trans)
  qed
qed

lemma query_request_run:
  fixes L :: live_config
  assumes "map_get (negotiations (lv_seller s)) (''neg_'' @ to_hex random) = None"
  shows "seller_run (lx_seller L) (lv_seller s) (lv_seller (fst (snd (query_request (lx_seller L) now random request fetch s))))"
proof -
  have "seller_run (lx_seller L) (lv_seller s) (fst (quote (lx_seller L) now random b body (lv_seller s)))" for b body
    by (rule seller_run_step, rule seller_step.quote_step[OF assms])
  then show ?thesis
    unfolding query_request_def
    by (cases "nonempty_text (getp request ''buyerAgentId'')") (simp_all add: first_step_run by_seller_answers)
qed

lemma proposal_request_run:
  fixes L :: live_config
  assumes "map_get (deals (lv_seller s)) (''deal_'' @ to_hex random) = None"
  shows "seller_run (lx_seller L) (lv_seller s) (lv_seller (fst (snd (proposal_request (lx_seller L) now random request fetch s))))"
proof -
  have "seller_run (lx_seller L) (lv_seller s) (fst (propose (lx_seller L) now random g c b (lv_seller s)))" for g c b
    by (rule seller_run_step, rule seller_step.propose_step) (use assms in simp_all)
  then show ?thesis
    unfolding proposal_request_def Let_def
    by (cases "nonempty_text (getp request ''negotiationId'')"; cases "nonempty_text (getp request ''buyerAddress'')")
      (simp_all add: first_step_run by_seller_answers by_seller_bind by_seller_simple)
qed

lemma by_seller_requests [seller_run_intros]:
  "by_seller L (standalone_acceptance (lx_seller L) now request)"
  "by_seller L (live_acceptance L now request)"
  "by_seller L (funding_request L now request)"
  "by_seller L (delivery_request (lx_seller L) now rnd request)"
  unfolding standalone_acceptance_def live_acceptance_def funding_request_def delivery_request_def Let_def
  by (intro seller_run_intros by_seller_live)+

lemma dispatch_run:
  fixes L :: live_config
  assumes "fresh_ids rnd s" and "lx_seller L = seller_of M" and "\<And>K. M = LiveMode K \<Longrightarrow> K = L"
  shows "seller_run (seller_of M) (lv_seller s) (lv_seller (fst (snd (dispatch M now rnd request fetch s))))"
proof -
  have "by_seller L m \<Longrightarrow> seller_run (seller_of M) (lv_seller s) (lv_seller (fst (snd (m fetch s))))" for m :: "answer live_op"
    using assms(2) unfolding by_seller_def by metis
  note run = this
  have "seller_run (seller_of M) (lv_seller s) (lv_seller (fst (snd (query_request (seller_of M) now (xr_negotiation rnd) request fetch s))))"
    "seller_run (seller_of M) (lv_seller s) (lv_seller (fst (snd (proposal_request (seller_of M) now (xr_deal rnd) request fetch s))))"
    using query_request_run[of s _ L] proposal_request_run[of s _ L] assms(1) unfolding fresh_ids_def assms(2) by blast+
  moreover have "by_seller L (case M of Standalone X \<Rightarrow> standalone_acceptance X now request | LiveMode K \<Rightarrow> live_acceptance K now request)"
    "by_seller L (case M of Standalone X \<Rightarrow> refuse StandaloneFunding | LiveMode K \<Rightarrow> funding_request K now request)"
    "by_seller L (case M of Standalone X \<Rightarrow> delivery_request X now rnd request | LiveMode K \<Rightarrow> refuse LiveDeliveryRequest)"
    using assms(2,3) by_seller_requests[where L = L] by (cases M; auto intro!: seller_run_intros)+
  moreover have "by_seller L (refuse r)" "by_seller L (live_return q)" for r and q :: "(live_error, answer) res"
    by (rule seller_run_intros)+
  ultimately show ?thesis unfolding dispatch_def Let_def by (auto intro: run)
qed

lemma seller_of_some_live: "\<exists>L :: live_config. lx_seller L = seller_of M \<and> (\<forall>K. M = LiveMode K \<longrightarrow> K = L)"
  by (cases M) (auto intro: exI[of _ "own_live \<lparr> lx_seller := X \<rparr>" for X])

lemma execute_run:
  assumes "fresh_ids rnd s"
  shows "seller_run (seller_of (ec_mode E)) (lv_seller s) (lv_seller (fst (snd (execute E now rnd q fetch s))))"
proof -
  obtain L :: live_config where "lx_seller L = seller_of (ec_mode E)" "\<And>K. ec_mode E = LiveMode K \<Longrightarrow> K = L"
    using seller_of_some_live by blast
  from dispatch_run[OF assms this] show ?thesis
    by (auto simp: execute_def split: prod.splits sum.splits) (metis fst_conv snd_conv)+
qed

end
