(* ===== verification/Card.thy ===== *)
theory Card
  imports Seller Http
begin

text \<open>
  \<open>src/card.ts\<close>: the Agent Card, with the product disclosure of \<open>src/card-params.json\<close> (\<open>CardParams\<close>).  \<open>card_js\<close> is the object that \<open>buildAgentCard\<close> returns, \<open>card_text\<close> the text that is served
  and \<open>cardHash\<close> the digest the home page shows.
\<close>

section \<open>The card\<close>

record card_extension =
  cx_uri :: string
  cx_description :: string
  cx_required :: bool
  cx_params :: json

record card_skill =
  sk_id :: string
  sk_name :: string
  sk_description :: string
  sk_tags :: "string list"
  sk_outputModes :: "string list"

record agent_card =
  cd_agentId :: string
  cd_name :: string
  cd_description :: string
  cd_version :: string
  cd_url :: string
  cd_extensions :: "card_extension list"
  cd_outputModes :: "string list"
  cd_skills :: "card_skill list"

definition participant_extension :: card_extension where
  "participant_extension =
     \<lparr> cx_uri = EXTENSION_URI,
       cx_description = ''Kite Coordination Extension participant. Negotiation itself is off-protocol '' @
         ''('' @ [CHR 0xC2, CHR 0xA7] @ ''2.3) on the demo-private media type below; the workflow objects it produces are '' @
         ''built to the published schemas.'',
       cx_required = False,
       cx_params = [(''commandMediaType'', JStr COMMAND_MEDIA_TYPE), (''negotiationMediaType'', JStr NEGOTIATION_MEDIA_TYPE)] @
         cardParams \<rparr>"

definition card_skills :: "card_skill list" where
  "card_skills =
     [\<lparr> sk_id = ''quote-dataset-slice'', sk_name = ''Quote a dataset slice'',
        sk_description = ''Free, before purchase: an unmodified real aggregate sample plus whole-slice statistics '' @
          ''with a committed statsHash, the itemised list price from the published rate card, and '' @
          ''the deliverable's shape (rows per tract, per-tract standard error) before any money moves.'',
        sk_tags = [''data'', ''census'', ''health'', ''quote'', ''sample''], sk_outputModes = [NEGOTIATION_MEDIA_TYPE] \<rparr>,
      \<lparr> sk_id = ''license-synthetic-individuals'', sk_name = ''License synthetic individual records'',
        sk_description = ''Licensed, after settlement: a synthetic individual-level CSV, one row per person, at a '' @
          ''guaranteed number of rows per purchased tract. No real person's record is in it; none '' @
          ''was ever read. Deterministic and buyer-regenerable from the manifest's published seed.'',
        sk_tags = [''data'', ''license'', ''synthetic'', ''delivery''], sk_outputModes = [''text/csv'', ''application/json''] \<rparr>,
      \<lparr> sk_id = ''verify-delivery-manifest'', sk_name = ''Resolve a delivery manifest for verification'',
        sk_description = ''The delivery manifest is the registered evidence artifact: its content hash is the '' @
          ''deliveryHash the settlement layer anchors, and it publishes the seed, the criteria hash '' @
          ''and the CSV's own hash '' @ EM_DASH @ '' everything a buyer needs to regenerate and compare bytes.'',
        sk_tags = [''data'', ''verification'', ''audit''], sk_outputModes = [''application/json''] \<rparr>]"

definition buildAgentCard :: "environment \<Rightarrow> string \<Rightarrow> agent_card" where
  "buildAgentCard env publicUrl =
     \<lparr> cd_agentId = SELLER_AGENT_ID env,
       cd_name = ''Example data seller (CDC PLACES 2025)'',
       cd_description = ''Non-normative example seller for the Kite Coordination Extension with a real deliverable: '' @
         ''synthetic individual-level records over the public CDC PLACES 2025 census-tract release. '' @
         ''Query-derived pricing from a published rate card, a free pre-purchase sample with a committed '' @
         ''statistics hash, and a delivery the buyer regenerates byte-for-byte from a published seed.'',
       cd_version = ''0.0.1'',
       cd_url = delivery_base publicUrl @ ''/a2a/v1'',
       cd_extensions = [participant_extension],
       cd_outputModes = [NEGOTIATION_MEDIA_TYPE, ''text/csv'', ''application/json''],
       cd_skills = card_skills \<rparr>"

definition extension_js :: "card_extension \<Rightarrow> jsval" where
  "extension_js x = JObj [(''uri'', JStr (cx_uri x)), (''description'', JStr (cx_description x)),
     (''required'', JBool (cx_required x)), (''params'', JObj (cx_params x))]"

definition skill_js :: "card_skill \<Rightarrow> jsval" where
  "skill_js k = JObj [(''id'', JStr (sk_id k)), (''name'', JStr (sk_name k)), (''description'', JStr (sk_description k)),
     (''tags'', strings_js (sk_tags k)), (''inputModes'', strings_js [NEGOTIATION_MEDIA_TYPE]),
     (''outputModes'', strings_js (sk_outputModes k)), (''examples'', JArr []), (''securityRequirements'', JArr [])]"

definition card_members :: "agent_card \<Rightarrow> json" where
  "card_members c =
     [(''x-kite-registry'', JObj [(''agentId'', JStr (cd_agentId c))]), (''name'', JStr (cd_name c)),
      (''description'', JStr (cd_description c)), (''version'', JStr (cd_version c)), (''provider'', JUndef),
      (''supportedInterfaces'', JArr [JObj [(''url'', JStr (cd_url c)), (''protocolBinding'', JStr ''JSONRPC''),
         (''protocolVersion'', JStr ''1.0''), (''tenant'', JStr '''')]]),
      (''capabilities'', JObj [(''streaming'', JBool False), (''pushNotifications'', JBool False),
         (''extensions'', JArr (map extension_js (cd_extensions c)))]),
      (''securitySchemes'', JObj []), (''securityRequirements'', JArr []),
      (''defaultInputModes'', strings_js [NEGOTIATION_MEDIA_TYPE]), (''defaultOutputModes'', strings_js (cd_outputModes c)),
      (''skills'', JArr (map skill_js (cd_skills c))), (''signatures'', JArr [])]"

definition card_js :: "agent_card \<Rightarrow> jsval" where
  "card_js c = JObj (card_members c)"

section \<open>Its text and its digest\<close>

text \<open>\<open>JSON.stringify(v, null, 2)\<close>, the indentation of the enclosing value first.\<close>

definition NL :: string where
  "NL = [CHR 0x0A]"

definition pretty_block :: "string \<Rightarrow> string \<Rightarrow> string \<Rightarrow> string list \<Rightarrow> string" where
  "pretty_block ind opening closing parts =
     (if parts = [] then opening @ closing
      else opening @ NL @ ind @ ''  '' @ join_with ('','' @ NL @ ind @ ''  '') parts @ NL @ ind @ closing)"

fun json_pretty :: "string \<Rightarrow> jsval \<Rightarrow> string option" where
  "json_pretty ind (JArr xs) =
     Some (pretty_block ind ''['' '']''
       (map (\<lambda>x. case json_pretty (ind @ ''  '') x of Some t \<Rightarrow> t | None \<Rightarrow> ''null'') xs))"
| "json_pretty ind (JObj es) =
     Some (pretty_block ind ''{'' ''}'' (concat (map (\<lambda>(k, x).
       case json_pretty (ind @ ''  '') x of Some t \<Rightarrow> [json_quote k @ '': '' @ t] | None \<Rightarrow> []) es)))"
| "json_pretty ind (JInst _ es) =
     Some (pretty_block ind ''{'' ''}'' (concat (map (\<lambda>(k, x).
       case json_pretty (ind @ ''  '') x of Some t \<Rightarrow> [json_quote k @ '': '' @ t] | None \<Rightarrow> []) es)))"
| "json_pretty ind v = json_stringify v"

definition pretty_text :: "jsval \<Rightarrow> string" where
  "pretty_text v = (case json_pretty [] v of Some t \<Rightarrow> t | None \<Rightarrow> ''undefined'')"

definition card_text :: "agent_card \<Rightarrow> string" where
  "card_text c = pretty_text (card_js c)"

definition cardHash :: "crypto \<Rightarrow> agent_card \<Rightarrow> (signing_error, string) res" where
  "cardHash C c = res_bind (jcs C (json_copy (card_js c))) (\<lambda>b. Inr (sha256Ref C b))"

end
