(* ===== verification/Home.thy ===== *)
theory Home
  imports Card Binding
begin

text \<open>
  \<open>src/home.ts\<close>: the public pages.  A page is its text.  The \<open>summary\<close> of a history entry that is the
  message of a caught error is read through the parameter \<open>tx\<close>.  A page that reads a member of a null
  throws, which the server answers with an error.
\<close>

section \<open>Escaping\<close>

definition replace_char :: "char \<Rightarrow> string \<Rightarrow> string \<Rightarrow> string" where
  "replace_char c t s = concat (map (\<lambda>d. if d = c then t else [d]) s)"

definition esc :: "string \<Rightarrow> string" where
  "esc s = replace_char (CHR 0x22) ''&quot;'' (replace_char (CHR ''>'') ''&gt;''
     (replace_char (CHR ''<'') ''&lt;'' (replace_char (CHR ''&'') ''&amp;'' s)))"

definition esc_js :: "jsval \<Rightarrow> string" where
  "esc_js v = esc (js_string v)"

section \<open>The page\<close>

definition page_lines :: "string list \<Rightarrow> string" where
  "page_lines = join_with NL"

definition ARROW :: string where
  "ARROW = [CHR 0xE2, CHR 0x86, CHR 0x92]"

definition MIDDLE_DOT :: string where
  "MIDDLE_DOT = [CHR 0xC2, CHR 0xB7]"

definition ELLIPSIS :: string where
  "ELLIPSIS = [CHR 0xE2, CHR 0x80, CHR 0xA6]"

definition STYLE :: string where
  \<open>STYLE = NL @ page_lines
     [''    body { font: 16px/1.6 system-ui, sans-serif; max-width: 46rem; margin: 3rem auto; padding: 0 1rem; color: #1a1a1a; }'',
      ''    code, pre { font-family: ui-monospace, monospace; background: #f4f4f4; border-radius: 4px; }'',
      ''    code { padding: 0.1em 0.35em; }'',
      ''    pre { padding: 0.6rem 0.8rem; overflow-x: auto; }'',
      ''    table { border-collapse: collapse; width: 100%; margin: 1rem 0; }'',
      ''    td, th { border: 1px solid #ddd; padding: 0.4rem 0.6rem; text-align: left; vertical-align: top; }'',
      ''    .badge { background: #fff3cd; border: 1px solid #ffe08a; border-radius: 6px; padding: 0.6rem 1rem; }'',
      ''    .ok { color: #0a7c2f; font-weight: 600; }'',
      ''    .warn { color: #8a6100; font-weight: 600; }'',
      ''    .bad { color: #a11; font-weight: 600; }'',
      ''    .muted { color: #666; }'',
      ''    .topbar { align-items: center; display: flex; justify-content: space-between; gap: 1rem; }'',
      ''    .nav-link { border: 1px solid #bbb; border-radius: 6px; padding: 0.35rem 0.75rem; text-decoration: none; }'',
      ''    body.wide { max-width: 76rem; }'',
      ''    .history-table { font-size: 0.9rem; }'',
      ''    .history-table th { white-space: nowrap; }'',
      ''    .history-table td:nth-child(1) { white-space: nowrap; }'',
      ''    .history-table details { margin-top: 0.35rem; }'',
      ''    .history-table summary { color: #555; cursor: pointer; }'',
      ''    .history-table pre { max-height: 28rem; white-space: pre-wrap; }'',
      ''    .state-track { display: flex; flex-wrap: wrap; gap: 0.55rem; list-style: none; padding: 0; }'',
      ''    .state-step { border: 1px solid #ddd; border-radius: 8px; min-width: 9rem; padding: 0.55rem 0.7rem; }'',
      ''    .state-step small { display: block; color: #666; }'',
      ''    .phase { text-transform: capitalize; }'',
      ''    .direction { white-space: nowrap; }'',
      ''    footer { margin-top: 2rem; color: #666; font-size: 0.85rem; }'',
      ''    @media (prefers-color-scheme: dark) {'',
      ''      body { background: #111; color: #ddd; }'',
      ''      code, pre { background: #1e1e1e; }'',
      ''      td, th { border-color: #333; }'',
      ''      .badge { background: #3a3000; border-color: #6b5900; }'',
      ''      .ok { color: #4ade80; }'',
      ''      .warn { color: #fbbf24; }'',
      ''      .bad { color: #f87171; }'',
      ''      .muted { color: #999; }'',
      ''      .history-table summary { color: #aaa; }'',
      ''      .state-step { border-color: #333; }'',
      ''      .state-step small { color: #999; }'',
      ''    }'']\<close>

definition nav_link :: "string \<times> string \<Rightarrow> string" where
  \<open>nav_link n = ''<a class="nav-link" href="'' @ esc (fst n) @ ''">'' @ esc (snd n) @ ''</a>''\<close>

definition page :: "string \<Rightarrow> (string \<times> string) list \<Rightarrow> string \<Rightarrow> bool \<Rightarrow> string" where
  \<open>page title nav body wide = page_lines
     [''<!doctype html>'',
      ''<html lang="en">'',
      ''<head>'',
      ''  <meta charset="utf-8">'',
      ''  <meta name="viewport" content="width=device-width, initial-scale=1">'',
      ''  <title>'' @ esc title @ ''</title>'',
      ''  <style>'' @ STYLE @ ''</style>'',
      ''</head>'',
      ''<body'' @ (if wide then '' class="wide"'' else []) @ ''>'',
      ''  <header class="topbar">'',
      ''    <h1>'' @ esc title @ ''</h1>'',
      ''    <nav>'' @ join_with '' '' (map nav_link nav) @ ''</nav>'',
      ''  </header>'',
      body,
      ''  <footer>Documentation, not a product: deal state, capability tokens and artifacts are process-local and non-durable.</footer>'',
      ''</body>'',
      ''</html>'',
      []]\<close>

definition DASH_MUTED :: string where
  \<open>DASH_MUTED = ''<span class="muted">'' @ EM_DASH @ ''</span>''\<close>

definition span :: "string \<Rightarrow> string \<Rightarrow> string" where
  \<open>span tone txt = ''<span class="'' @ tone @ ''">'' @ txt @ ''</span>''\<close>

definition code_of :: "string \<Rightarrow> string" where
  \<open>code_of txt = ''<code>'' @ txt @ ''</code>''\<close>

definition time_of :: "int \<Rightarrow> string" where
  \<open>time_of t = ''<time datetime="'' @ esc (to_iso t) @ ''">'' @ esc (to_iso t) @ ''</time>''\<close>

section \<open>The home page\<close>

fun BIND_PRESENTATION :: "bind_state \<Rightarrow> string \<times> string" where
  "BIND_PRESENTATION Active = (''Bound &amp; approved'', ''ok'')"
| "BIND_PRESENTATION Pending = (''Awaiting owner approval'', ''warn'')"
| "BIND_PRESENTATION BindError = (''Bind failed '' @ EM_DASH @ '' retrying'', ''bad'')"
| "BIND_PRESENTATION NoKey = (''No runtime key configured'', ''bad'')"
| "BIND_PRESENTATION Disabled = (''Not configured (demo key)'', ''muted'')"

definition bindRow :: "bind_status \<Rightarrow> string" where
  \<open>bindRow status =
     ''<tr><td>Runtime binding</td><td>'' @
     span (snd (BIND_PRESENTATION (bs_state status))) (fst (BIND_PRESENTATION (bs_state status))) @
     (if bs_checkedAt status \<noteq> [] then '' <small>('' @ esc (bs_checkedAt status) @ '')</small>'' else []) @
     ''<br><small>'' @ esc (bs_detail status) @ ''</small></td></tr>''\<close>

definition modeRow :: "string \<Rightarrow> string" where
  \<open>modeRow mode = ''<tr><td>Coordination mode</td><td>'' @
     (if mode = ''live''
      then ''<span class="ok">live</span> '' @ EM_DASH @ '' funding, evidence and delivery run through the Runtime''
      else ''<span class="muted">standalone</span> '' @ EM_DASH @ '' demo anchors, no Runtime calls'') @ ''</td></tr>''\<close>

definition skill_row :: "card_skill \<Rightarrow> string" where
  \<open>skill_row k = ''<tr><td><code>'' @ esc (sk_id k) @ ''</code></td><td>'' @ esc (sk_name k) @ ''</td><td>'' @
     esc (sk_description k) @ ''</td></tr>''\<close>

definition extension_row :: "agent_card \<Rightarrow> string" where
  \<open>extension_row c =
     (case cd_extensions c of
        [] \<Rightarrow> []
      | x # _ \<Rightarrow> ''<tr><td>Extension</td><td><code>'' @ esc (cx_uri x) @ ''</code> ('' @
          (if cx_required x then ''required'' else ''optional'') @ '')</td></tr>'')\<close>

definition corpus_row :: "seller_config \<Rightarrow> string" where
  \<open>corpus_row X =
     (let t = totals (sx_corpus X)
      in ''<tr><td>Corpus</td><td>'' @ to_locale_string (int (total_tracts t)) @ '' tracts, '' @
         string_of_nat (total_states t) @ '' states, '' @ string_of_nat (total_counties t) @
         '' counties<br><small><code>'' @ esc (sx_corpusHash X) @ ''</code></small></td></tr>'')\<close>

definition home_body :: "agent_card \<Rightarrow> string \<Rightarrow> seller_config \<Rightarrow> bind_status \<Rightarrow> string \<Rightarrow> string" where
  \<open>home_body c hash X binding mode = page_lines
     [''  <p class="badge"><strong>Non-normative example.</strong> Reference <em>data</em> seller for the'',
      ''    <a href="https://github.com/a2aproject/A2A">A2A protocol</a>'' @ [CHR 0x27] @ ''s Kite Coordination Extension '' @ EM_DASH @ '' not a'',
      ''    production merchant. Its deliverable is real, though: synthetic individual-level records over the'',
      ''    public CDC PLACES release, regenerable byte-for-byte by the buyer.</p>'',
      [],
      ''  <p>'' @ esc (cd_description c) @ ''</p>'',
      [],
      ''  <table>'',
      ''    <tr><td>Agent DID</td><td><code>'' @ esc (SELLER_AGENT_ID (sx_env X)) @ ''</code></td></tr>'',
      ''    <tr><td>A2A endpoint (JSON-RPC, A2A 1.0)</td><td><code>'' @ esc (cd_url c) @ ''</code></td></tr>'',
      ''    '' @ extension_row c,
      ''    <tr><td>Negotiation media type</td><td><code>'' @ esc NEGOTIATION_MEDIA_TYPE @
        ''</code> <small class="muted">(demo-private)</small></td></tr>'',
      ''    <tr><td>Coordination endpoint</td><td><code>'' @ esc (coordinationEndpoint (sx_env X)) @ ''</code></td></tr>'',
      ''    '' @ modeRow mode,
      ''    '' @ bindRow binding,
      ''    '' @ corpus_row X,
      ''    <tr><td>Signing address</td><td><code>'' @ esc (seller_address X) @ ''</code></td></tr>'',
      ''  </table>'',
      [],
      ''  <h2>Skills</h2>'',
      ''  <table>'',
      ''    <tr><th>ID</th><th>Name</th><th>Description</th></tr>'',
      ''    '' @ join_with (NL @ ''    '') (map skill_row (cd_skills c)),
      ''  </table>'',
      [],
      ''  <h2>What a buyer can verify</h2>'',
      ''  <p>Every quote commits to the slice'' @ [CHR 0x27] @ ''s statistics (<code>statsHash</code>) before any money moves; the'',
      ''    signed terms pin the query, the price arithmetic, the corpus digest and the verifier digest'',
      ''    (<code>'' @ esc (sx_verifierHash X) @ ''</code>); and the delivered CSV regenerates byte-for-byte from the'',
      ''    seed the delivery manifest publishes. A buyer that can hash and re-run the generator does not have'',
      ''    to trust this seller.</p>'',
      [],
      ''  <h2>Agent Card</h2>'',
      ''  <p>Machine-readable capabilities live at'',
      ''    <a href="/.well-known/agent-card.json"><code>/.well-known/agent-card.json</code></a>'',
      ''    <small class="muted">(hash <code>'' @ esc hash @ ''</code>)</small>.</p>'',
      []]\<close>

definition renderHome :: "agent_card \<Rightarrow> string \<Rightarrow> seller_config \<Rightarrow> bind_status \<Rightarrow> string \<Rightarrow> string" where
  "renderHome c hash X binding mode = page (cd_name c) [(''/admin'', ''Admin'')] (home_body c hash X binding mode) False"

section \<open>Agreements\<close>

definition stateTone :: "string \<Rightarrow> string" where
  "stateTone st =
     (if starts_with ''DELIVERED'' st \<or> starts_with ''ACCEPTED'' st \<or> st = ''RESOLVED'' then ''ok''
      else if st = ''CANCELLED'' \<or> st = ''DEFAULTED'' then ''bad'' else ''warn'')"

definition state_span :: "string \<Rightarrow> string" where
  "state_span st = span (stateTone st) (esc st)"

definition buyerAdminPath :: "string \<Rightarrow> string" where
  "buyerAdminPath buyerAgentId = ''/admin/buyers/'' @ encodeURIComponent buyerAgentId"

definition currentDealState :: "deal \<Rightarrow> string" where
  "currentDealState d = (case dl_runtimeState d of Some r \<Rightarrow> r | None \<Rightarrow> deal_state_name (dl_state d))"

definition price_cell :: "deal \<Rightarrow> string" where
  "price_cell d = esc_js (coalesce (getp (member (dl_contract d) ''price'') ''amount'') (JStr EM_DASH)) @ '' USDC''"

definition capability_cell :: "deal \<Rightarrow> string" where
  \<open>capability_cell d =
     (if dl_capabilityToken d = None then DASH_MUTED
      else if dl_capabilityRevoked d then ''<span class="bad">revoked</span>''
      else ''<span class="ok">active</span>'')\<close>

definition agreement_link :: "string \<Rightarrow> string" where
  \<open>agreement_link dealId =
     ''<a href="/admin/agreements/'' @ esc dealId @ ''"><code>'' @ esc dealId @ ''</code></a>''\<close>

definition agreement_row :: "deal \<Rightarrow> string" where
  "agreement_row d =
     ''<tr><td>'' @ agreement_link (dl_dealId d) @ ''</td><td>'' @ state_span (currentDealState d) @
     ''</td><td><code>'' @ esc (take 24 (dl_termsDocumentHash d)) @ ELLIPSIS @ ''</code></td><td>'' @
     price_cell d @ ''</td><td>'' @ capability_cell d @ ''</td></tr>''"

definition renderAgreementTable :: "deal list \<Rightarrow> string" where
  \<open>renderAgreementTable ds =
     (if ds = [] then ''  <p class="muted">No agreements for this buyer.</p>''
      else page_lines
        [''  <table>'',
         ''    <tr><th>Deal</th><th>State</th><th>Terms document</th><th>Price</th><th>Capability</th></tr>'',
         ''    '' @ join_with (NL @ ''    '') (map agreement_row ds),
         ''  </table>''])\<close>

definition deal_states :: "deal list \<Rightarrow> string" where
  \<open>deal_states ds =
     (if ds = [] then ''<span class="muted">pre-agreement only</span>''
      else join_with ('' '' @ MIDDLE_DOT @ '' '') (map (\<lambda>d. state_span (currentDealState d)) ds))\<close>

definition buyer_row :: "buyer_record \<Rightarrow> string" where
  \<open>buyer_row b = page_lines
     [''<tr>'',
      ''      <td><a href="'' @ esc (buyerAdminPath (by_buyerAgentId b)) @ ''"><code>'' @ esc (by_buyerAgentId b) @ ''</code></a></td>'',
      ''      <td>'' @ string_of_nat (length (by_negotiations b)) @ ''</td>'',
      ''      <td>'' @ string_of_nat (length (by_deals b)) @ ''</td>'',
      ''      <td>'' @ deal_states (by_deals b) @ ''</td>'',
      ''      <td>'' @ time_of (by_updatedAt b) @ ''</td>'',
      ''    </tr>'']\<close>

definition renderAdminIndex :: "buyer_record list \<Rightarrow> string" where
  \<open>renderAdminIndex buyers =
     page ''Buyers'' [(''/'', ''Seller home'')] (page_lines
       [''  <p>Organized by buyer so quote exchanges remain visible before an agreement exists.</p>'',
        ''  <p class="muted">A buyer DID is self-declared during demo-private negotiation. '' @
        ''A proposed deal links that claim to a contract; the identity becomes agreement-authenticated '' @
        ''only after the seller validates and countersigns the matching contract.</p>'',
        (if buyers = [] then ''  <p>No buyer negotiations observed by this process.</p>''
         else page_lines
           [''  <table>'',
            ''    <tr><th>Buyer agent</th><th>Negotiations</th><th>Agreements</th><th>Agreement states</th><th>Last activity</th></tr>'',
            ''    '' @ join_with (NL @ ''    '') (map buyer_row buyers),
            ''  </table>''])]) True\<close>

section \<open>Histories\<close>

text \<open>The entries at which the shown state changes.\<close>

fun transitions_from :: "string option \<Rightarrow> history_entry list \<Rightarrow> history_entry list" where
  "transitions_from previous [] = []"
| "transitions_from previous (e # es) =
     (if he_state e \<noteq> None \<and> he_state e \<noteq> previous then e # transitions_from (he_state e) es
      else transitions_from previous es)"

definition stateTransitions :: "history_entry list \<Rightarrow> history_entry list" where
  "stateTransitions history = transitions_from None history"

fun DIRECTION_LABELS :: "history_direction \<Rightarrow> string" where
  "DIRECTION_LABELS BuyerToSeller = ''Buyer '' @ ARROW @ '' Seller''"
| "DIRECTION_LABELS SellerToBuyer = ''Seller '' @ ARROW @ '' Buyer''"
| "DIRECTION_LABELS BuyerToRuntime = ''Buyer '' @ ARROW @ '' Runtime''"
| "DIRECTION_LABELS SellerToRuntime = ''Seller '' @ ARROW @ '' Runtime''"
| "DIRECTION_LABELS RuntimeToSeller = ''Runtime '' @ ARROW @ '' Seller''"
| "DIRECTION_LABELS System = ''Seller process''"

fun phase_name :: "history_phase \<Rightarrow> string" where
  "phase_name Negotiation = ''negotiation''"
| "phase_name Formation = ''formation''"
| "phase_name Funding = ''funding''"
| "phase_name Fulfillment = ''fulfillment''"
| "phase_name Settling = ''settlement''"

definition state_step :: "history_entry \<Rightarrow> string" where
  \<open>state_step e = page_lines
     [''<li class="state-step">'',
      ''      '' @ state_span (case he_state e of Some st \<Rightarrow> st | None \<Rightarrow> []),
      ''      <small>'' @ time_of (he_at e) @ ''</small>'',
      ''    </li>'']\<close>

definition renderStateHistory :: "history_entry list \<Rightarrow> string" where
  \<open>renderStateHistory es =
     (if es = [] then ''  <p class="muted">No state transitions observed yet.</p>''
      else page_lines
        [''  <ol class="state-track">'', ''    '' @ join_with (NL @ ''    '') (map state_step es), ''  </ol>''])\<close>

definition summary_text :: "(seller_error \<Rightarrow> string) \<Rightarrow> summary \<Rightarrow> string" where
  "summary_text tx s = (case s of Said t \<Rightarrow> t | MessageOf e \<Rightarrow> tx e)"

definition payload_block :: "jsval option \<Rightarrow> string" where
  "payload_block p =
     (case p of
        None \<Rightarrow> []
      | Some v \<Rightarrow> ''<details><summary>View payload</summary><pre>'' @ esc (pretty_text v) @ ''</pre></details>'')"

definition history_row :: "(seller_error \<Rightarrow> string) \<Rightarrow> history_entry \<Rightarrow> string" where
  \<open>history_row tx e = page_lines
     [''<tr>'',
      ''      <td>'' @ time_of (he_at e) @ ''</td>'',
      ''      <td><span class="phase">'' @ esc (phase_name (he_phase e)) @ ''</span></td>'',
      ''      <td class="direction">'' @ esc (DIRECTION_LABELS (he_direction e)) @ ''</td>'',
      ''      <td><code>'' @ esc (he_kind e) @ ''</code></td>'',
      ''      <td>'' @ (case he_state e of None \<Rightarrow> DASH_MUTED | Some st \<Rightarrow> state_span st) @ ''</td>'',
      ''      <td>'' @ esc (summary_text tx (he_summary e)) @ payload_block (he_payload e) @ ''</td>'',
      ''    </tr>'']\<close>

definition renderHistoryTable :: "(seller_error \<Rightarrow> string) \<Rightarrow> history_entry list \<Rightarrow> string" where
  \<open>renderHistoryTable tx es =
     (if es = [] then ''  <p class="muted">No interactions observed yet.</p>''
      else page_lines
        [''  <table class="history-table">'',
         ''    <tr><th>Time</th><th>Phase</th><th>Direction</th><th>Interaction</th><th>State</th><th>Details</th></tr>'',
         ''    '' @ join_with (NL @ ''    '') (map (history_row tx) es),
         ''  </table>''])\<close>

section \<open>A buyer\<close>

fun negotiation_state_name :: "negotiation_state \<Rightarrow> string" where
  "negotiation_state_name QUOTED = ''QUOTED''"
| "negotiation_state_name REFUSED = ''REFUSED''"
| "negotiation_state_name AGREEMENT_STARTED = ''AGREEMENT_STARTED''"

fun negotiationTone :: "negotiation_state \<Rightarrow> string" where
  "negotiationTone AGREEMENT_STARTED = ''ok''"
| "negotiationTone REFUSED = ''bad''"
| "negotiationTone QUOTED = ''warn''"

definition terms_link :: "string \<Rightarrow> string" where
  \<open>terms_link h = ''<a href="/terms/'' @ esc h @ ''"><code>'' @ esc h @ ''</code></a>''\<close>

definition negotiation_section :: "(seller_error \<Rightarrow> string) \<Rightarrow> negotiation \<Rightarrow> string" where
  \<open>negotiation_section tx n = page_lines
     [''  <section>'',
      ''    <h3><code>'' @ esc (ng_negotiationId n) @ ''</code> '' @
        span (negotiationTone (ng_state n)) (esc (negotiation_state_name (ng_state n))) @ ''</h3>'',
      ''    <table>'',
      ''      <tr><th>Terms document</th><td>'' @
        (case ng_termsDocumentHash n of
           Some h \<Rightarrow> if h = [] then ''<span class="muted">no quote issued</span>'' else terms_link h
         | None \<Rightarrow> ''<span class="muted">no quote issued</span>'') @ ''</td></tr>'',
      ''      <tr><th>Agreements</th><td>'' @
        (if ng_dealIds n = [] then ''<span class="muted">none yet</span>''
         else join_with ('' '' @ MIDDLE_DOT @ '' '') (map agreement_link (ng_dealIds n))) @ ''</td></tr>'',
      ''      <tr><th>Created</th><td>'' @ time_of (ng_createdAt n) @ ''</td></tr>'',
      ''      <tr><th>Last activity</th><td>'' @ time_of (ng_updatedAt n) @ ''</td></tr>'',
      ''    </table>'',
      ''    '' @ renderHistoryTable tx (ng_history n),
      ''  </section>'']\<close>

definition renderNegotiations :: "(seller_error \<Rightarrow> string) \<Rightarrow> negotiation list \<Rightarrow> string" where
  \<open>renderNegotiations tx ns =
     (if ns = [] then ''  <p class="muted">No negotiations for this buyer.</p>''
      else join_with NL (map (negotiation_section tx) ns))\<close>

definition renderBuyerDetail :: "(seller_error \<Rightarrow> string) \<Rightarrow> buyer_record \<Rightarrow> string" where
  \<open>renderBuyerDetail tx b =
     page (by_buyerAgentId b) [(''/'', ''Seller home''), (''/admin'', ''Buyers'')] (page_lines
       [''  <p class="badge"><strong>Negotiation identity.</strong> <code>'' @ esc (by_buyerAgentId b) @
          ''</code> is self-declared before agreement formation. A proposed deal remains unverified '' @
          ''until the seller validates and countersigns its matching contract.</p>'',
        [],
        ''  <table>'',
        ''    <tr><th>First interaction</th><td>'' @ time_of (by_firstSeenAt b) @ ''</td></tr>'',
        ''    <tr><th>Last activity</th><td>'' @ time_of (by_updatedAt b) @ ''</td></tr>'',
        ''    <tr><th>Negotiations</th><td>'' @ string_of_nat (length (by_negotiations b)) @ ''</td></tr>'',
        ''    <tr><th>Agreements</th><td>'' @ string_of_nat (length (by_deals b)) @ ''</td></tr>'',
        ''  </table>'',
        [],
        ''  <h2>Negotiations</h2>'',
        ''  <p class="muted">Query and quote exchanges are process-local and may exist without an agreement.</p>'',
        ''  '' @ renderNegotiations tx (by_negotiations b),
        [],
        ''  <h2>Agreements</h2>'',
        ''  '' @ renderAgreementTable (by_deals b),
        []]) True\<close>

section \<open>An agreement\<close>

text \<open>\<open>signatures.find(...)\<close>: an element that is null throws.\<close>

fun find_signature :: "string \<Rightarrow> jsval list \<Rightarrow> (thrown, jsval) res" where
  "find_signature buyerDid [] = Inr JUndef"
| "find_signature buyerDid (x # xs) =
     res_bind (read_member x ''signerAgentId'') (\<lambda>signer.
       if strict_eq signer (JStr buyerDid) then Inr x else find_signature buyerDid xs)"

definition buyer_signature :: "deal \<Rightarrow> (thrown, jsval) res" where
  "buyer_signature d =
     find_signature (text_of (member (dl_contract d) ''buyerAgentId''))
       (case member (dl_contract d) ''signatures'' of JArr xs \<Rightarrow> xs | _ \<Rightarrow> [])"

definition first_seen :: "deal \<Rightarrow> int" where
  "first_seen d = (case dl_history d of [] \<Rightarrow> dl_createdAt d | e # _ \<Rightarrow> he_at e)"

definition or_dash :: "string option \<Rightarrow> string" where
  "or_dash v = esc (case v of Some t \<Rightarrow> t | None \<Rightarrow> EM_DASH)"

definition detail_body :: "(seller_error \<Rightarrow> string) \<Rightarrow> deal \<Rightarrow> jsval \<Rightarrow> string" where
  \<open>detail_body tx d sig = page_lines
     [''  <table>'',
      ''    <tr><th>current agreement state</th><td>'' @ state_span (currentDealState d) @ ''</td></tr>'',
      ''    <tr><th>seller-local state</th><td>'' @ state_span (deal_state_name (dl_state d)) @ ''</td></tr>'',
      ''    <tr><th>Runtime revision</th><td>'' @
        or_dash (map_option (\<lambda>r. num_to_string (Fin r)) (dl_runtimeRevision d)) @ ''</td></tr>'',
      ''    <tr><th>price</th><td>'' @ price_cell d @ ''</td></tr>'',
      ''    <tr><th>terms document</th><td>'' @ terms_link (dl_termsDocumentHash d) @ ''</td></tr>'',
      ''    <tr><th>deliveryHash</th><td><code>'' @ or_dash (dl_deliveryHash d) @ ''</code></td></tr>'',
      ''    <tr><th>rows</th><td>'' @ or_dash (map_option (\<lambda>m. string_of_int (dm_rowCount m)) (dl_manifest d)) @ ''</td></tr>'',
      ''    <tr><th>capability</th><td>'' @ capability_cell d @ ''</td></tr>'',
      ''  </table>'',
      [],
      ''  <h2>Buyer agent</h2>'',
      ''  <table>'',
      ''    <tr><th>DID</th><td><code>'' @ esc (text_of (member (dl_contract d) ''buyerAgentId'')) @ ''</code></td></tr>'',
      ''    <tr><th>Runtime address</th><td><code>'' @ esc (dl_buyerAddress d) @ ''</code></td></tr>'',
      ''    <tr><th>Signing key</th><td><code>'' @ esc_js (coalesce (getp sig ''keyId'') (JStr EM_DASH)) @ ''</code></td></tr>'',
      ''    <tr><th>Signature profile</th><td><code>'' @ esc_js (coalesce (getp sig ''profile'') (JStr EM_DASH)) @ ''</code></td></tr>'',
      ''    <tr><th>First interaction</th><td>'' @ time_of (first_seen d) @ ''</td></tr>'',
      ''    <tr><th>Last interaction</th><td>'' @ time_of (dl_updatedAt d) @ ''</td></tr>'',
      ''  </table>'',
      [],
      ''  <h2>State history</h2>'',
      ''  '' @ renderStateHistory (stateTransitions (dl_history d)),
      [],
      ''  <h2>Negotiation and quote</h2>'',
      ''  <p class="muted">The selected query and seller quote that became this signed agreement.</p>'',
      ''  '' @ renderHistoryTable tx (filter (\<lambda>e. he_phase e = Negotiation) (dl_history d)),
      [],
      ''  <h2>Agreement lifecycle</h2>'',
      ''  <p class="muted">Formation, funding, fulfillment and settlement interactions in observed order.</p>'',
      ''  '' @ renderHistoryTable tx (filter (\<lambda>e. he_phase e \<noteq> Negotiation) (dl_history d)),
      [],
      ''  <h2>Signed contract</h2>'',
      ''  <pre>'' @ esc (pretty_text (JObj (dl_contract d))) @ ''</pre>'',
      []]\<close>

definition renderAdminDetail :: "(seller_error \<Rightarrow> string) \<Rightarrow> deal \<Rightarrow> (thrown, string) res" where
  "renderAdminDetail tx d =
     res_bind (buyer_signature d) (\<lambda>sig.
       Inr (page (dl_dealId d)
         [(''/'', ''Seller home''), (''/admin'', ''Buyers''),
          (buyerAdminPath (text_of (member (dl_contract d) ''buyerAgentId'')), ''Buyer'')] (detail_body tx d sig) True))"

definition renderAdminNotFound :: "string \<Rightarrow> string" where
  "renderAdminNotFound subject =
     page ''Not found'' [(''/'', ''Seller home''), (''/admin'', ''Buyers'')]
       (''  <p>No such '' @ esc subject @ '' in this process.</p>'') False"

end
