(* ===== verification/Server.thy ===== *)
theory Server
  imports Executor Home
begin

text \<open>
  \<open>src/server.ts\<close>: the HTTP surface.  The key and the mode the process starts with, the notification
  gate in front of the A2A handler, and the routes for terms documents, artifacts and the public
  pages.  Express and the A2A SDK are not under \<open>src\<close>: a route is a function of what the code reads of
  the request to the response it sends, and a thrown error is the error of the route.
\<close>

section \<open>Responses\<close>

record web_response =
  wr_status :: int
  wr_type :: string
  wr_extensions :: "string option"
  wr_body :: string

definition json_response :: "int \<Rightarrow> jsval \<Rightarrow> web_response" where
  "json_response status v =
     \<lparr> wr_status = status, wr_type = ''application/json'', wr_extensions = None, wr_body = printed v \<rparr>"

definition html_response :: "int \<Rightarrow> string \<Rightarrow> web_response" where
  "html_response status t = \<lparr> wr_status = status, wr_type = ''text/html'', wr_extensions = None, wr_body = t \<rparr>"

section \<open>Start-up\<close>

text \<open>\<open>readDurableKey\<close>; \<open>read\<close> is \<open>readFileSync\<close>.\<close>

definition readDurableKey :: "environment \<Rightarrow> (string \<Rightarrow> string) \<Rightarrow> (signing_error, string option) res" where
  "readDurableKey env read =
     (let hexKey = env_or env ''SELLER_RUNTIME_PRIVATE_KEY'' ''''; path = env_or env ''SELLER_RUNTIME_PRIVATE_KEY_FILE'' ''''
      in if hexKey \<noteq> [] then res_bind (fromHex hexKey) (\<lambda>k. Inr (Some k))
         else if path \<noteq> [] then res_bind (fromHex (js_trim (read path))) (\<lambda>k. Inr (Some k))
         else Inr None)"

datatype startup_error = KeyUnreadable signing_error | NoDurableKey | CardContradicted data_error | CardUnhashable signing_error

record app_config =
  ap_publicUrl :: string
  ap_privateKey :: "string option"
  ap_seedSecret :: "string option"
  ap_live :: bool
  ap_skipBindingCheck :: bool

text \<open>What the process reads from outside: its files, its random bytes, and the corpus with its digest.\<close>

record app_inputs =
  ip_crypto :: crypto
  ip_localeCompare :: "string \<Rightarrow> string \<Rightarrow> bool"
  ip_env :: environment
  ip_read :: "string \<Rightarrow> string"
  ip_bundle :: "string \<Rightarrow> string"
  ip_ephemeral :: string
  ip_random :: string
  ip_corpus :: corpus
  ip_corpusHash :: string
  ip_ids :: "nat \<Rightarrow> string \<times> string"
  ip_now :: int

definition app_key :: "app_config \<Rightarrow> app_inputs \<Rightarrow> (startup_error, string) res" where
  "app_key A I =
     (case ap_privateKey A of
        Some k \<Rightarrow> Inr k
      | None \<Rightarrow>
          res_bind (map_error KeyUnreadable (readDurableKey (ip_env I) (ip_read I))) (\<lambda>durable.
            case durable of
              Some k \<Rightarrow> Inr k
            | None \<Rightarrow> if ap_live A then Inl NoDurableKey else Inr (ip_ephemeral I)))"

definition seller_of_app :: "app_config \<Rightarrow> app_inputs \<Rightarrow> string \<Rightarrow> seller_config" where
  "seller_of_app A I key =
     \<lparr> sx_crypto = ip_crypto I, sx_localeCompare = ip_localeCompare I, sx_env = ip_env I, sx_privateKey = key,
       sx_publicUrl = ap_publicUrl A,
       sx_seedSecret = (case ap_seedSecret A of Some x \<Rightarrow> x | None \<Rightarrow> ''demo-'' @ ip_random I),
       sx_verifierHash = verifierBundleHash (ip_crypto I) (ip_bundle I),
       sx_corpus = ip_corpus I, sx_corpusHash = ip_corpusHash I \<rparr>"

definition app_binding :: "app_config \<Rightarrow> app_inputs \<Rightarrow> string \<Rightarrow> bind_status" where
  "app_binding A I key =
     (if ap_skipBindingCheck A
      then initial_status \<lparr> bs_state := Active, bs_detail := ''binding stubbed active (test configuration)'' \<rparr>
      else fst (start (ip_env I) (Some key) (ip_now I) initial_status))"

definition live_of_app :: "seller_config \<Rightarrow> app_inputs \<Rightarrow> live_config" where
  "live_of_app X I =
     \<lparr> lx_seller = X,
       lx_client = \<lparr> cl_crypto = sx_crypto X, cl_endpoint = coordinationEndpoint (sx_env X),
         cl_agentId = SELLER_AGENT_ID (sx_env X), cl_privateKey = sx_privateKey X, cl_keyId = seller_keyId X \<rparr>,
       lx_privateKey = sx_privateKey X, lx_ids = ip_ids I \<rparr>"

record app =
  pa_mode :: coordination_mode
  pa_state :: live
  pa_card :: agent_card
  pa_cardHash :: string

definition fresh_state :: "bind_status \<Rightarrow> live" where
  "fresh_state b =
     \<lparr> lv_seller = new_seller, lv_binding = Some b, lv_dealTerms = [], lv_delivering = [], lv_watching = [] \<rparr>"

definition buildApp :: "app_config \<Rightarrow> app_inputs \<Rightarrow> (startup_error, app) res" where
  "buildApp A I =
     res_bind (app_key A I) (\<lambda>key.
     let X = seller_of_app A I key; c = buildAgentCard (ip_env I) (ap_publicUrl A)
     in res_bind (map_error CardContradicted (boot (ip_corpus I))) (\<lambda>_.
        res_bind (map_error CardUnhashable (cardHash (ip_crypto I) c)) (\<lambda>hash.
        Inr \<lparr> pa_mode = (if ap_live A then LiveMode (live_of_app X I) else Standalone X),
              pa_state = fresh_state (app_binding A I key), pa_card = c, pa_cardHash = hash \<rparr>)))"

text \<open>\<open>main\<close>: what the environment decides.\<close>

record main_settings =
  mn_host :: string
  mn_port :: jsnum
  mn_publicUrl :: string
  mn_corpusPath :: string
  mn_live :: bool

definition main_settings_of :: "environment \<Rightarrow> string \<Rightarrow> main_settings" where
  "main_settings_of env fixture =
     (let port = js_parse_number (env_or env ''SELLER_PORT'' ''9998'')
      in \<lparr> mn_host = env_or env ''SELLER_HOST'' ''0.0.0.0'', mn_port = port,
           mn_publicUrl = env_or env ''SELLER_PUBLIC_URL'' (''http://localhost:'' @ num_to_string port),
           mn_corpusPath = env_or env ''CORPUS_PATH'' fixture,
           mn_live = (env_or env ''KITE_COORDINATION_MODE'' ''standalone'' = ''live'') \<rparr>)"

section \<open>The notification gate\<close>

datatype gate_refusal = NoteNotActivated | NoteNotDeclared | NoteThrew live_error

datatype gate_answer = PassedOn | GateThrew thrown | Responded web_response

definition note_refusal_text :: "(live_error \<Rightarrow> string) \<Rightarrow> gate_refusal \<Rightarrow> string" where
  "note_refusal_text tx r =
     (case r of
        NoteNotActivated \<Rightarrow>
          ''notification does not activate the coordination extension via the A2A-Extensions header ('' @ SECTION_SIGN @ ''2.2)''
      | NoteNotDeclared \<Rightarrow>
          ''notification message does not declare the coordination extension in its extensions array ('' @ SECTION_SIGN @ ''2.2)''
      | NoteThrew e \<Rightarrow> tx e)"

definition jsonRpcError :: "jsval \<Rightarrow> string \<Rightarrow> web_response" where
  "jsonRpcError body text =
     json_response 200 (JObj [(''jsonrpc'', JStr ''2.0''), (''id'', getp body ''id''),
       (''error'', JObj [(''code'', JInt (- 32000)), (''message'', JStr text)])])"

definition note_message :: "jsval \<Rightarrow> jsval" where
  "note_message body = getp (getp body ''params'') ''message''"

text \<open>\<open>parts.find(...)\<close>: only an array has it, and a null element throws.\<close>

fun find_part :: "string \<Rightarrow> jsval list \<Rightarrow> (thrown, jsval option) res" where
  "find_part mediaType [] = Inr None"
| "find_part mediaType (p # ps) =
     res_bind (read_member p ''mediaType'') (\<lambda>m.
       if m = JStr mediaType \<and> truthy (getp p ''raw'') then Inr (Some p) else find_part mediaType ps)"

definition note_part :: "jsval \<Rightarrow> (thrown, jsval option) res" where
  "note_part body =
     (case coalesce (getp (note_message body) ''parts'') (JArr []) of
        JArr ps \<Rightarrow>
          res_bind (find_part CONTRACT_MESSAGE_MEDIA_TYPE ps) (\<lambda>found. Inr (if getp body ''method'' = JStr ''SendMessage'' then found else None))
      | _ \<Rightarrow> Inl type_error)"

definition requested_extensions :: "string option \<Rightarrow> string list" where
  "requested_extensions header =
     map js_trim (split_at_char (CHR '','') (case header of Some h \<Rightarrow> h | None \<Rightarrow> ''''))"

definition ack_payload :: "acknowledgement \<Rightarrow> jsval" where
  "ack_payload a = JObj [(''type'', ak_type a), (''dealId'', JStr (ak_dealId a)), (''acknowledged'', JBool True),
     (''verifiedState'', ak_verifiedState a)]"

definition ack_response :: "string \<Rightarrow> jsval \<Rightarrow> acknowledgement \<Rightarrow> web_response" where
  "ack_response random body a =
     (json_response 200 (JObj [(''jsonrpc'', JStr ''2.0''), (''id'', getp body ''id''),
        (''result'', JObj [(''message'', JObj [(''messageId'', JStr (''ack_'' @ random)), (''role'', JStr ''ROLE_AGENT''),
           (''parts'', JArr [json_part CONTRACT_MESSAGE_MEDIA_TYPE (ack_payload a)]),
           (''extensions'', JArr [JStr EXTENSION_URI])])])])) \<lparr> wr_extensions := Some EXTENSION_URI \<rparr>"

definition read_note :: "string option \<Rightarrow> jsval \<Rightarrow> jsval \<Rightarrow> (gate_refusal, jsval) res" where
  "read_note header body part =
     (if EXTENSION_URI \<notin> set (requested_extensions header) then Inl NoteNotActivated
      else res_bind (map_error (\<lambda>e. NoteThrew (RuntimeFailed e)) (js_includes (getp (note_message body) ''extensions'') EXTENSION_URI))
        (\<lambda>declared.
        if \<not> declared then Inl NoteNotDeclared
        else map_error (\<lambda>e. NoteThrew (RuntimeFailed e)) (decode_raw (getp part ''raw''))))"

definition notificationGate ::
  "(live_error \<Rightarrow> string) \<Rightarrow> live_config \<Rightarrow> int \<Rightarrow> string \<Rightarrow> string option \<Rightarrow> jsval \<Rightarrow> fetch \<Rightarrow> live
     \<Rightarrow> exchange list \<times> live \<times> gate_answer" where
  "notificationGate tx L now random header body fetch s =
     (case note_part body of
        Inl e \<Rightarrow> ([], s, GateThrew e)
      | Inr None \<Rightarrow> ([], s, PassedOn)
      | Inr (Some part) \<Rightarrow>
          (case read_note header body part of
             Inl r \<Rightarrow> ([], s, Responded (jsonRpcError body (note_refusal_text tx r)))
           | Inr note \<Rightarrow>
               (case handleNotification L now note fetch s of
                  (xs, t, Inl e) \<Rightarrow> (xs, t, Responded (jsonRpcError body (note_refusal_text tx (NoteThrew e))))
                | (xs, t, Inr a) \<Rightarrow> (xs, t, Responded (ack_response random body a)))))"

section \<open>Documents and artifacts\<close>

definition card_route :: "agent_card \<Rightarrow> web_response" where
  "card_route c = \<lparr> wr_status = 200, wr_type = ''application/json'', wr_extensions = None, wr_body = card_text c \<rparr>"

definition terms_route :: "crypto \<Rightarrow> seller \<Rightarrow> string \<Rightarrow> (signing_error, web_response) res" where
  "terms_route C s hash =
     (case termsDocumentByHash s hash of
        None \<Rightarrow> Inr (json_response 404 (JObj [(''error'', JStr ''no such terms document (demo state is process-local)'')]))
      | Some doc \<Rightarrow>
          res_bind (jcs C (JObj (terms_members doc))) (\<lambda>b.
            Inr \<lparr> wr_status = 200, wr_type = ''application/json'', wr_extensions = None, wr_body = b \<rparr>))"

definition ends_with :: "string \<Rightarrow> string \<Rightarrow> bool" where
  "ends_with p s \<longleftrightarrow> starts_with (rev p) (rev s)"

text \<open>The \<open>cap\<close> of the query string is a string, or absent, or (repeated) something else.\<close>

definition deliveries_route :: "seller \<Rightarrow> string \<Rightarrow> string \<Rightarrow> jsval \<Rightarrow> web_response" where
  "deliveries_route s dealId file cap =
     (case artifactFor s dealId file (case cap of JStr c \<Rightarrow> Some c | _ \<Rightarrow> None) of
        None \<Rightarrow> json_response 404 (JObj [(''error'', JStr ''not found'')])
      | Some b \<Rightarrow> \<lparr> wr_status = 200, wr_type = (if ends_with ''.csv'' file then ''text/csv'' else ''application/json''),
          wr_extensions = None, wr_body = b \<rparr>)"

section \<open>The public pages\<close>

text \<open>\<open>for (const deal of ...) try { await live.refreshOutcome(deal.dealId) } catch {}\<close>, the answers per deal.\<close>

fun refresh_all :: "live_config \<Rightarrow> int \<Rightarrow> (string \<Rightarrow> fetch) \<Rightarrow> string list \<Rightarrow> live \<Rightarrow> live" where
  "refresh_all L now fetches [] s = s"
| "refresh_all L now fetches (k # ks) s = refresh_all L now fetches ks (fst (snd (refreshOutcome L now k (fetches k) s)))"

definition refreshed :: "coordination_mode \<Rightarrow> int \<Rightarrow> (string \<Rightarrow> fetch) \<Rightarrow> string list \<Rightarrow> live \<Rightarrow> live" where
  "refreshed M now fetches ks s =
     (case M of Standalone X \<Rightarrow> s | LiveMode L \<Rightarrow> refresh_all L now fetches ks s)"

definition admin_route :: "coordination_mode \<Rightarrow> int \<Rightarrow> (string \<Rightarrow> fetch) \<Rightarrow> live \<Rightarrow> live \<times> web_response" where
  "admin_route M now fetches s =
     (let t = refreshed M now fetches (map dl_dealId (dealRecords (lv_seller s))) s
      in (t, html_response 200 (renderAdminIndex (buyerRecords (lv_seller t)))))"

definition buyer_route ::
  "(seller_error \<Rightarrow> string) \<Rightarrow> coordination_mode \<Rightarrow> int \<Rightarrow> (string \<Rightarrow> fetch) \<Rightarrow> string \<Rightarrow> live
     \<Rightarrow> live \<times> (thrown, web_response) res" where
  "buyer_route tx M now fetches buyerAgentId s =
     (case buyerRecord (lv_seller s) buyerAgentId of
        None \<Rightarrow> (s, Inr (html_response 404 (renderAdminNotFound ''buyer'')))
      | Some b \<Rightarrow>
          (let t = refreshed M now fetches (map dl_dealId (by_deals b)) s
           in (t, case (case M of Standalone X \<Rightarrow> Some b | LiveMode L \<Rightarrow> buyerRecord (lv_seller t) (by_buyerAgentId b)) of
                    Some r \<Rightarrow> Inr (html_response 200 (renderBuyerDetail tx r))
                  | None \<Rightarrow> Inl type_error)))"

text \<open>The page of a deal shows the deal object as the refresh left it.\<close>

definition agreement_route ::
  "(seller_error \<Rightarrow> string) \<Rightarrow> coordination_mode \<Rightarrow> int \<Rightarrow> (string \<Rightarrow> fetch) \<Rightarrow> string \<Rightarrow> live
     \<Rightarrow> live \<times> (thrown, web_response) res" where
  "agreement_route tx M now fetches dealId s =
     (case get_deal (lv_seller s) dealId of
        None \<Rightarrow> (s, Inr (html_response 404 (renderAdminNotFound ''agreement'')))
      | Some d \<Rightarrow>
          (let t = refreshed M now fetches [dealId] s
           in (t, res_bind (renderAdminDetail tx (case get_deal (lv_seller t) dealId of Some d' \<Rightarrow> d' | None \<Rightarrow> d)) (\<lambda>text.
                    Inr (html_response 200 text)))))"

definition home_route :: "app \<Rightarrow> live \<Rightarrow> web_response" where
  "home_route A s =
     html_response 200 (renderHome (pa_card A) (pa_cardHash A) (seller_of (pa_mode A))
       (case lv_binding s of Some b \<Rightarrow> b | None \<Rightarrow> initial_status)
       (case pa_mode A of Standalone X \<Rightarrow> ''standalone'' | LiveMode L \<Rightarrow> ''live''))"

end
