(* ===== verification/ServerProps.thy ===== *)
theory ServerProps
  imports ExecutorProps Server
begin

text \<open>
  The service as its peers meet it: what its routes hand out, when a notification is acknowledged, what a
  page refresh does to a refunded deal, and that every way in is a run of the seller's own steps.
\<close>

section \<open>Every way in\<close>

lemma gate_run: "seller_run (lx_seller L) (lv_seller s) (lv_seller (fst (snd (notificationGate tx L now random header body fetch s))))"
proof -
  have "seller_run (lx_seller L) (lv_seller s) (lv_seller t)" if "handleNotification L now v fetch s = (xs, t, r)" for v xs t r
    by (rule by_sellerD[OF by_seller_live(3) that])
  then show ?thesis by (auto simp: notificationGate_def split: sum.split option.split prod.split)
qed

lemma refresh_all_run: "seller_run (lx_seller L) (lv_seller s) (lv_seller (refresh_all L now fetches ks s))"
proof (induction ks arbitrary: s)
  case (Cons k ks)
  have "seller_run (lx_seller L) (lv_seller s) (lv_seller (fst (snd (refreshOutcome L now k (fetches k) s))))"
    using by_seller_live(6) unfolding by_seller_def by blast
  from seller_run_trans[OF this Cons.IH] show ?case by simp
qed simp

lemma refreshed_run: "seller_run (seller_of M) (lv_seller s) (lv_seller (refreshed M now fetches ks s))"
  by (cases M) (simp_all add: refreshed_def refresh_all_run)

lemma pages_run:
  "seller_run (seller_of M) (lv_seller s) (lv_seller (fst (admin_route M now fetches s)))"
  "seller_run (seller_of M) (lv_seller s) (lv_seller (fst (buyer_route tx M now fetches b s)))"
  "seller_run (seller_of M) (lv_seller s) (lv_seller (fst (agreement_route tx M now fetches k s)))"
  by (simp_all add: admin_route_def buyer_route_def agreement_route_def Let_def refreshed_run split: option.split)

text \<open>
  Everything that changes the state of the service: the A2A requests, the notifications, the pages that
  refresh what they show, and in live mode its own tasks.
\<close>

inductive service_step :: "executor_config \<Rightarrow> live \<Rightarrow> live \<Rightarrow> bool" for E where
  request: "fresh_ids rnd s \<Longrightarrow> service_step E s (fst (snd (execute E now rnd q fetch s)))"
| notification: "ec_mode E = LiveMode L \<Longrightarrow>
    service_step E s (fst (snd (notificationGate tx L now random header body fetch s)))"
| buyers_page: "service_step E s (fst (admin_route (ec_mode E) now fetches s))"
| buyer_page: "service_step E s (fst (buyer_route px (ec_mode E) now fetches b s))"
| agreement_page: "service_step E s (fst (agreement_route px (ec_mode E) now fetches k s))"
| background: "ec_mode E = LiveMode L \<Longrightarrow> live_step L s t \<Longrightarrow> service_step E s t"

lemma service_step_run: "service_step E s t \<Longrightarrow> seller_run (seller_of (ec_mode E)) (lv_seller s) (lv_seller t)"
proof (induction rule: service_step.induct)
  case (notification L tx now random header body fetch s)
  then show ?case using gate_run by simp
qed (use live_step_run in \<open>auto simp: execute_run pages_run\<close>)

interpretation service: refinement "service_step E" "\<lambda>s. seller_inv (seller_of (ec_mode E)) {} (lv_seller s)" lv_seller
    "seller_run (seller_of (ec_mode E))" for E
  by unfold_locales (auto intro: service_step_run seller_run_inv)

text \<open>
  C6: The service refines the seller: whatever the buyers, the Runtime and the visitors of the pages
  send, in whatever order, a run of the service is, for the seller's state, a run of the seller's own
  steps, so that every theorem about the seller's reachable states holds of the running service.
\<close>
theorem service_refines_the_seller:
  assumes "(service_step E)\<^sup>*\<^sup>* s t" and "reachable (seller_of (ec_mode E)) (lv_seller s, {})"
  shows "seller_run (seller_of (ec_mode E)) (lv_seller s) (lv_seller t) \<and>
    reachable (seller_of (ec_mode E)) (lv_seller t, {})"
proof -
  have "seller_inv (seller_of (ec_mode E)) {} (lv_seller s)" using reachable_inv[OF assms(2)] by simp
  from service.run_simulates[OF assms(1) this] have "seller_run (seller_of (ec_mode E)) (lv_seller s) (lv_seller t)"
    by (rule seller_runs_run)
  with reachable_run_reachable[OF _ assms(2)] show ?thesis by blast
qed

theorem service_refines_the_seller_witness:
  "\<exists>t. t \<noteq> fresh_live \<and> reachable quiet_seller (lv_seller t, {})"
proof -
  obtain t a where x: "execute quiet_executor 0 quiet_random (negotiation_request quiet_query_request) (\<lambda>_. Inl syntax_error) fresh_live =
      ([], t, Replied a)" "t \<noteq> fresh_live" using quiet_query_executed by blast
  have "fresh_ids quiet_random fresh_live" by (simp add: fresh_ids_def fresh_live_def new_seller_def)
  from service_step.request[OF this, of quiet_executor 0 "negotiation_request quiet_query_request" "\<lambda>_. Inl syntax_error"]
  have s: "(service_step quiet_executor)\<^sup>*\<^sup>* fresh_live t" using x(1) by simp
  have "reachable (seller_of (ec_mode quiet_executor)) (lv_seller fresh_live, {})"
    by (simp add: fresh_live_def reachable.start)
  from service_refines_the_seller[OF s this] x(2) show ?thesis by (auto simp: quiet_executor_def)
qed

section \<open>Downloads\<close>

definition granted :: "seller \<Rightarrow> string \<Rightarrow> jsval \<Rightarrow> bool" where
  "granted s k cap \<longleftrightarrow> (\<exists>st c. lifecycle_of s k = Live st (Granted c) \<and> cap = JStr c)"

lemma download_cases:
  assumes "reachable X (s, P)"
  shows "deliveries_route s k file cap =
    (if granted s k cap \<and> file \<in> {''manifest.json'', ''data.csv''}
     then \<lparr> wr_status = 200, wr_type = (if ends_with ''.csv'' file then ''text/csv'' else ''application/json''),
            wr_extensions = None, wr_body = the (artifactFor s k file (Some (text_of cap))) \<rparr>
     else json_response 404 (JObj [(''error'', JStr ''not found'')]))"
proof -
  have inv: "seller_inv X P s" using reachable_inv[OF assms] by simp
  have b: "\<exists>mb b. dl_manifestBytes d = Some mb \<and> dl_csvBytes d = Some b"
    if "map_get (deals s) k = Some d" "dl_capabilityToken d \<noteq> None" for d
    using seller_invD(6)[OF inv that(1)] that(2)
    by (cases "dl_deliveryHash d") (auto simp: deal_ok_def deal_body_ok_def delivery_ok_def)
  show ?thesis
  proof (cases "map_get (deals s) k")
    case None
    then show ?thesis by (simp add: deliveries_route_def artifactFor_def granted_def lifecycle_of_def)
  next
    case (Some d)
    with b[OF Some] show ?thesis
      by (cases "dl_capabilityToken d"; cases cap)
        (auto simp: deliveries_route_def artifactFor_def granted_def lifecycle_of_def capability_of_def text_of_def)
  qed
qed

text \<open>
  C21: A download that is not granted reveals nothing: in any two states the service can be in, of any two
  sellers, two requests without the granted token get the same response to the byte, whichever
  deal and file they name and whatever the seller holds for it.
\<close>
theorem refused_downloads_reveal_nothing:
  assumes "reachable X (s, P)" and "reachable Y (t, Q)" and "\<not> granted s k cap" and "\<not> granted t j token"
  shows "deliveries_route s k file cap = deliveries_route t j name token"
  using assms(3,4) by (simp only: download_cases[OF assms(1)] download_cases[OF assms(2)] if_False simp_thms)

theorem refused_downloads_reveal_nothing_witness:
  "\<exists>s k cap. deliveries_route s k ''data.csv'' JUndef = deliveries_route new_seller ''deal_none'' ''x'' JUndef \<and>
     deliveries_route s k ''data.csv'' (JStr cap) \<noteq> deliveries_route s k ''data.csv'' JUndef"
proof -
  obtain s k d cap b where r: "reachable quiet_seller (s, {})" and d: "map_get (deals s) k = Some d"
    "dl_capabilityToken d = Some cap" "\<not> dl_capabilityRevoked d" "dl_csvBytes d = Some b"
    by (rule quiet_run) blast
  have g: "\<not> granted s k JUndef" "\<not> granted new_seller ''deal_none'' JUndef" by (simp_all add: granted_def)
  have "deliveries_route s k ''data.csv'' (JStr cap) \<noteq> deliveries_route s k ''data.csv'' JUndef"
    using d by (simp add: deliveries_route_def artifactFor_def json_response_def)
  with refused_downloads_reveal_nothing[OF r reachable.start g] show ?thesis by blast
qed

section \<open>Terms documents\<close>

text \<open>
  C25: The terms documents are content-addressed: in a reachable state the route never fails; it answers
  200 exactly when a quote pins the hash, and then the bytes it sends are the canonical document of
  that quote and hash to the path they were asked for by.
\<close>
theorem terms_are_content_addressed:
  assumes "reachable X (s, P)"
  shows "\<exists>w. terms_route (sx_crypto X) s h = Inr w \<and>
    (if \<exists>k r. map_get (quotes s) k = Some r \<and> qr_termsDocumentHash r = h
     then wr_status w = 200 \<and> sha256Ref (sx_crypto X) (wr_body w) = h \<and>
       (\<exists>k r. map_get (quotes s) k = Some r \<and> jcs (sx_crypto X) (JObj (terms_members (qr_termsDocument r))) = Inr (wr_body w))
     else wr_status w = 404)"
proof (cases "find (\<lambda>r. qr_termsDocumentHash r = h) (map_values (quotes s))")
  case None
  then have "\<nexists>k r. map_get (quotes s) k = Some r \<and> qr_termsDocumentHash r = h"
    unfolding find_None_iff map_values_def map_get_def by (metis map_of_SomeD snd_conv image_eqI set_map)
  with None show ?thesis by (simp add: terms_route_def termsDocumentByHash_def json_response_def)
next
  case (Some r)
  have inv: "seller_inv X P s" using reachable_inv[OF assms] by simp
  obtain k where k: "map_get (quotes s) k = Some r" and h: "qr_termsDocumentHash r = h"
    using Some seller_invD(2)[OF inv] by (auto simp: find_Some_iff map_values_def map_ok_entries[symmetric]) (metis nth_mem prod.collapse)
  have "termsDocumentHashOf (sx_crypto X) (qr_termsDocument r) = Inr h"
    using seller_invD(5)[OF inv k] h by (simp add: quote_ok_def)
  then obtain b where b: "jcs (sx_crypto X) (JObj (terms_members (qr_termsDocument r))) = Inr b" "sha256Ref (sx_crypto X) b = h"
    by (auto simp: termsDocumentHashOf_def res_bind_Inr_iff)
  with Some k h show ?thesis by (auto simp: terms_route_def termsDocumentByHash_def)
qed


theorem terms_are_content_addressed_witness:
  "\<exists>s w h. terms_route sample_crypto s h = Inr w \<and> wr_status w = 200 \<and> sha256Ref sample_crypto (wr_body w) = h"
proof -
  obtain s r and d :: deal where r: "reachable quiet_seller (s, {})" "map_get (quotes s) (dl_negotiationId d) = Some r"
    by (rule quiet_proposed) blast
  then have e: "(\<exists>k q. map_get (quotes s) k = Some q \<and> qr_termsDocumentHash q = qr_termsDocumentHash r) = True" by blast
  from terms_are_content_addressed[OF r(1), of "qr_termsDocumentHash r"] show ?thesis
    by (simp only: e if_True quiet_seller_sel) blast
qed

section \<open>Notifications\<close>

lemma json_response_sel [simp]: "wr_extensions (json_response st v) = None" "wr_status (json_response st v) = st"
  by (simp_all add: json_response_def)

lemma js_error_sel [simp]: "wr_extensions (jsonRpcError body txt) = None"
  by (simp add: jsonRpcError_def)

lemma start_task_Inr: "start_task k note status fetch s = (xs, t, Inr a) \<Longrightarrow> isDelivering t k \<and> ak_dealId a = k"
  by (auto simp: start_task_def Let_def isDelivering_def set_add_def split: if_splits)

lemma handleNotification_Inr:
  assumes "handleNotification L now v fetch s = (xs, t, Inr a)"
  shows "\<exists>h status. getp v ''type'' = JStr ''kite.contract.fulfill_started'' \<and> ak_dealId a = text_of (getp v ''deal_id'') \<and>
    map_get (lv_dealTerms s) (ak_dealId a) = Some h \<and>
    (truthy (getp v ''terms_hash'') \<longrightarrow> bytes32Equal (js_string (getp v ''terms_hash'')) h) \<and>
    snd (runtime_status (lx_client L) (lx_ids L 0) (ak_dealId a) fetch) = Inr status \<and>
    getp status ''state'' = JStr ''FULFILLING'' \<and> isDelivering t (ak_dealId a)"
  using assms
  by (auto simp: handleNotification_def live_bind_Inr live_step_Inr check_note_def terms_ref_def check_note_terms_def
      check_fulfilling_def res_bind_Inr_iff require_def Let_def split: if_splits option.splits dest!: start_task_Inr)

lemma read_note_Inr:
  "read_note header body part = Inr v \<longleftrightarrow>
     EXTENSION_URI \<in> set (requested_extensions header) \<and>
     js_includes (getp (note_message body) ''extensions'') EXTENSION_URI = Inr True \<and> decode_raw (getp part ''raw'') = Inr v"
  by (auto simp: read_note_def res_bind_Inr_iff split: if_splits)

text \<open>
  C20: A notification is acknowledged only when it was verified. A response that echoes the Extension means
  that the request carried both halves of the opt-in, that its part is a fulfill-started notice of a
  deal this seller countersigned, naming the same terms when it names any, that the Runtime itself
  answered FULFILLING when it was read back, and that the deal's delivery is under way.
\<close>
theorem acknowledged_means_verified:
  assumes "notificationGate tx L now random header body fetch s = (xs, t, Responded w)" and "wr_extensions w \<noteq> None"
  shows "\<exists>part v k h status. EXTENSION_URI \<in> set (requested_extensions header) \<and>
    js_includes (getp (note_message body) ''extensions'') EXTENSION_URI = Inr True \<and>
    note_part body = Inr (Some part) \<and> decode_raw (getp part ''raw'') = Inr v \<and>
    getp v ''type'' = JStr ''kite.contract.fulfill_started'' \<and> k = text_of (getp v ''deal_id'') \<and>
    map_get (lv_dealTerms s) k = Some h \<and>
    (truthy (getp v ''terms_hash'') \<longrightarrow> bytes32Equal (js_string (getp v ''terms_hash'')) h) \<and>
    snd (runtime_status (lx_client L) (lx_ids L 0) k fetch) = Inr status \<and> getp status ''state'' = JStr ''FULFILLING'' \<and>
    isDelivering t k"
proof -
  obtain part v a where p: "note_part body = Inr (Some part)" "read_note header body part = Inr v"
    "handleNotification L now v fetch s = (xs, t, Inr a)"
    using assms unfolding notificationGate_def by (auto split: sum.splits option.splits prod.splits)
  from handleNotification_Inr[OF p(3)] p(1,2) show ?thesis unfolding read_note_Inr by blast
qed

definition fulfilling_status :: jsval where
  "fulfilling_status = JObj [(''state'', JStr ''FULFILLING''), (''revision'', JInt 5)]"

definition fulfilling_answers :: "string \<Rightarrow> jsval" where
  "fulfilling_answers k = JObj [(''kind'', JStr ''agreement-status''), (''status'', fulfilling_status)]"

definition fulfill_note :: jsval where
  "fulfill_note = JObj [(''type'', JStr ''kite.contract.fulfill_started''), (''deal_id'', JStr ''deal_1''), (''terms_hash'', JStr some_hash)]"

definition note_request :: jsval where
  "note_request = JObj [(''method'', JStr ''SendMessage''), (''params'', JObj [(''message'',
     JObj [(''parts'', JArr [json_part CONTRACT_MESSAGE_MEDIA_TYPE fulfill_note]), (''extensions'', JArr [JStr EXTENSION_URI])])])]"

lemma fulfilling_call:
  "snd (runtime_status own_client (''r0'', ''m0'') k (scripted JNull fulfilling_answers)) = Inr fulfilling_status"
proof -
  have "json_plain (fulfilling_answers ''r0'')" by (simp add: fulfilling_answers_def fulfilling_status_def is_digit_def rat_is_int_def)
  then show ?thesis
    unfolding runtime_status_def
    using scripted_expecting[where f = fulfilling_answers and ids = "(''r0'', ''m0'')" and kind = "''agreement-status''"
        and g = "\<lambda>r. getp r ''status''" and L = own_client and cardv = JNull]
    by (simp add: fulfilling_answers_def)
qed

lemma note_entry_runs:
  assumes "get_deal (lv_seller s) k = Some d"
  shows "\<exists>t d'. note_entry now k phase direction kind txt st payload fetch s = ([], t, Inr ()) \<and> get_deal (lv_seller t) k = Some d'"
  using assms by (auto simp: note_entry_def live_bind_Inr live_simps get_deal_def recordInteraction_some put_deal_def map_get_set)


lemma note_handled:
  "\<exists>xs t a. handleNotification own_live 0 fulfill_note (scripted JNull fulfilling_answers) own_state = (xs, t, Inr a)"
proof -
  let ?f = "scripted JNull fulfilling_answers"
  have c: "snd (runtime_status (lx_client own_live) (lx_ids own_live 0) ''deal_1'' ?f) = Inr fulfilling_status"
    using fulfilling_call by (simp add: own_live_def)
  have same: "bytes32Equal some_hash some_hash" by (simp add: bytes32Equal_def some_hash_def) code_simp
  then have m: "check_note fulfill_note = Inr ''deal_1''" "check_note_terms fulfill_note some_hash = Inr ()"
    "check_fulfilling fulfilling_status = Inr ()" "\<not> nullish fulfilling_status"
    by (simp_all add: check_note_def non_null_def fulfill_note_def require_def text_of_def check_note_terms_def check_fulfilling_def
        fulfilling_status_def)
  have h: "map_get (lv_dealTerms own_state) ''deal_1'' = Some some_hash" by (simp add: own_state_def map_get_def)
  have d: "get_deal (lv_seller own_state) ''deal_1'' = Some own_deal" by (simp add: own_state_def get_deal_def map_get_def)
  obtain u d' where u: "note_entry 0 ''deal_1'' Funding RuntimeToSeller ''kite.contract.fulfill_started''
      ''Runtime notified the seller to begin fulfillment'' ''FULFILLING'' (members_of fulfill_note) ?f own_state = ([], u, Inr ())"
    "get_deal (lv_seller u) ''deal_1'' = Some d'" using note_entry_runs[OF d] by blast
  obtain w where w: "observe 0 ''deal_1'' fulfilling_status None ?f u = ([], w, Inr ())" using observe_runs[OF m(4) u(2)] by blast
  show ?thesis
    by (auto simp: handleNotification_def live_bind_Inr live_step_Inr m h c u w terms_ref_def start_task_def Let_def)
qed

lemma note_passed: "note_part note_request = Inr (Some (json_part CONTRACT_MESSAGE_MEDIA_TYPE fulfill_note))"
  "read_note (Some EXTENSION_URI) note_request (json_part CONTRACT_MESSAGE_MEDIA_TYPE fulfill_note) = Inr fulfill_note"
proof -
  have v: "json_clean fulfill_note" "fulfill_note \<noteq> JUndef" "json_copy fulfill_note = fulfill_note"
    by (simp_all add: fulfill_note_def is_digit_def typeof_def)
  have r: "base64 (printed fulfill_note) \<noteq> []"
  proof
    assume "base64 (printed fulfill_note) = []"
    then have "printed fulfill_note = []" using base64_decode_base64[of "printed fulfill_note"] by (simp add: base64_decode_def)
    moreover have "json_plain fulfill_note" using clean_copy_plain[OF v(1)] v(3) by simp
    ultimately show False using printed_head(1) by blast
  qed
  have m: "note_message note_request = JObj [(''parts'', JArr [json_part CONTRACT_MESSAGE_MEDIA_TYPE fulfill_note]), (''extensions'', JArr [JStr EXTENSION_URI])]"
    by (simp add: note_message_def note_request_def)
  have p: "getp (json_part CONTRACT_MESSAGE_MEDIA_TYPE fulfill_note) ''mediaType'' = JStr CONTRACT_MESSAGE_MEDIA_TYPE"
    "getp (json_part CONTRACT_MESSAGE_MEDIA_TYPE fulfill_note) ''raw'' = JStr (base64 (printed fulfill_note))"
    "\<not> nullish (json_part CONTRACT_MESSAGE_MEDIA_TYPE fulfill_note)"
    by (simp_all add: json_part_def)
  show "note_part note_request = Inr (Some (json_part CONTRACT_MESSAGE_MEDIA_TYPE fulfill_note))"
    using r p by (simp add: note_part_def m read_member_def) (simp add: note_request_def)
  have u: "EXTENSION_URI \<in> set (requested_extensions (Some EXTENSION_URI))" by code_simp
  show "read_note (Some EXTENSION_URI) note_request (json_part CONTRACT_MESSAGE_MEDIA_TYPE fulfill_note) = Inr fulfill_note"
    using decode_raw_printed[OF v(1,2)] u by (simp add: read_note_Inr m p v(3) js_includes_def)
qed

theorem acknowledged_means_verified_witness:
  "\<exists>xs t w. notificationGate (\<lambda>_. ''error'') own_live 0 ''x'' (Some EXTENSION_URI) note_request (scripted JNull fulfilling_answers) own_state =
     (xs, t, Responded w) \<and> isDelivering t ''deal_1''"
proof -
  let ?f = "scripted JNull fulfilling_answers"
  obtain xs t a where h: "handleNotification own_live 0 fulfill_note ?f own_state = (xs, t, Inr a)" using note_handled by blast
  have g: "notificationGate (\<lambda>_. ''error'') own_live 0 ''x'' (Some EXTENSION_URI) note_request ?f own_state =
     (xs, t, Responded (ack_response ''x'' note_request a))"
    by (simp add: notificationGate_def note_passed h)
  have "wr_extensions (ack_response ''x'' note_request a) \<noteq> None" by (simp add: ack_response_def)
  from acknowledged_means_verified[OF g this] note_passed have "\<exists>v. decode_raw (getp (json_part CONTRACT_MESSAGE_MEDIA_TYPE fulfill_note) ''raw'') = Inr v \<and>
    isDelivering t (text_of (getp v ''deal_id''))" by auto
  moreover have "decode_raw (getp (json_part CONTRACT_MESSAGE_MEDIA_TYPE fulfill_note) ''raw'') = Inr fulfill_note"
    using note_passed(2) by (simp add: read_note_Inr)
  ultimately have "isDelivering t ''deal_1''" by (simp add: fulfill_note_def text_of_def)
  with g show ?thesis by blast
qed

section \<open>The pages refresh what they show\<close>

text \<open>What one refresh leaves of a deal's download gate, whether it finishes or not.\<close>

lemma observeRuntimeStatus_keeps:
  "map_get (deals s) j \<noteq> None \<Longrightarrow> map_get (deals (fst (observeRuntimeStatus now k status t s))) j \<noteq> None"
  by (auto simp: observeRuntimeStatus_def Let_def recordInteraction_get put_deal_def map_get_set split: option.splits)

lemma revokeCapability_keeps:
  "map_get (deals s) j \<noteq> None \<Longrightarrow> map_get (deals (fst (revokeCapability now k s))) j \<noteq> None"
  by (auto simp: revokeCapability_def recordInteraction_get put_deal_def map_get_set split: option.splits)

definition gate_kept :: "seller \<Rightarrow> seller \<Rightarrow> bool" where
  "gate_kept s t \<longleftrightarrow> (\<forall>j. (map_get (deals s) j \<noteq> None \<longrightarrow> map_get (deals t) j \<noteq> None) \<and>
     (\<forall>file cap. artifactFor t j file cap \<in> {None, artifactFor s j file cap}))"

lemma gate_kept_trans: "gate_kept s t \<Longrightarrow> gate_kept t u \<Longrightarrow> gate_kept s u"
  unfolding gate_kept_def by (metis insert_iff singletonD)

lemma gate_kept_simple:
  "gate_kept s s" "gate_kept s (fst (observeRuntimeStatus now k status t s))" "gate_kept s (fst (revokeCapability now k s))"
proof -
  show "gate_kept s (fst (revokeCapability now k s))"
    using revokeCapability_keeps artifactFor_revoke artifactFor_revoke_other unfolding gate_kept_def by (metis insertCI)
qed (simp_all add: gate_kept_def observeRuntimeStatus_keeps artifactFor_observe)

lemma observe_gate_kept: "gate_kept (lv_seller s) (lv_seller (fst (snd (observe now k status t fetch s))))"
  by (simp add: observe_def live_read_def live_seller_def gate_kept_simple)


lemma gate_kept_None: "gate_kept s t \<Longrightarrow> artifactFor s j file cap = None \<Longrightarrow> artifactFor t j file cap = None"
  unfolding gate_kept_def by (metis insert_iff singletonD)

definition keeps_gates :: "'a live_op \<Rightarrow> bool" where
  "keeps_gates m \<longleftrightarrow> (\<forall>fetch s. gate_kept (lv_seller s) (lv_seller (fst (snd (m fetch s)))))"

lemma keeps_gates_bind: "keeps_gates m \<Longrightarrow> (\<And>v. keeps_gates (f v)) \<Longrightarrow> keeps_gates (live_bind m f)"
  unfolding keeps_gates_def live_bind_def
  by (auto split: prod.splits sum.splits) (metis fst_conv snd_conv gate_kept_trans)+

lemma refresh_keeps_gates: "keeps_gates (refreshOutcome L now k)"
proof -
  have "keeps_gates (live_call c)" "keeps_gates (live_return r)" "keeps_gates (observe now k st t)"
    "keeps_gates (live_seller (revokeCapability now k))" for c :: "(call_error, jsval) net" and r :: "(live_error, 'b) res" and st t
    by (simp_all add: keeps_gates_def live_call_def live_return_def live_seller_def gate_kept_simple observe_gate_kept)
  note steps = this
  have "keeps_gates (live_return r)" for r :: "(live_error, 'b) res"
    by (simp add: keeps_gates_def live_return_def gate_kept_simple)
  then show ?thesis unfolding refreshOutcome_def
    by (intro keeps_gates_bind) (use steps in \<open>auto simp: keeps_gates_def live_return_def gate_kept_simple\<close>)
qed

lemma refresh_all_gates: "gate_kept (lv_seller s) (lv_seller (refresh_all L now fetches ks s))"
proof (induction ks arbitrary: s)
  case (Cons k ks)
  have "gate_kept (lv_seller s) (lv_seller (fst (snd (refreshOutcome L now k (fetches k) s))))"
    using refresh_keeps_gates unfolding keeps_gates_def by blast
  from gate_kept_trans[OF this Cons.IH] show ?case by simp
qed (simp add: gate_kept_simple)

lemma refresh_closes:
  assumes "snd (runtime_status (lx_client L) (lx_ids L 0) k fetch) = Inr status" and "refunded status"
    and "map_get (deals (lv_seller s)) k \<noteq> None"
  shows "artifactFor (lv_seller (fst (snd (refreshOutcome L now k fetch s)))) k file cap = None"
proof -
  from assms(3) obtain d where d: "get_deal (lv_seller s) k = Some d" by (auto simp: get_deal_def)
  have n: "\<not> nullish status" using assms(2) by (cases status) (auto simp: refunded_def text_of_def)
  obtain u where u: "observe now k status None fetch s = ([], u, Inr ())" using observe_runs[OF n d] by blast
  show ?thesis
    using artifactFor_revoke
    by (simp add: refreshOutcome_def live_bind_def live_call_def live_return_def assms(1,2) n non_null_def u live_seller_def
        split: sum.split)
qed

lemma refresh_all_closes:
  assumes "k \<in> set ks" and "snd (runtime_status (lx_client L) (lx_ids L 0) k (fetches k)) = Inr status" and "refunded status"
    and "map_get (deals (lv_seller s)) k \<noteq> None"
  shows "artifactFor (lv_seller (refresh_all L now fetches ks s)) k file cap = None"
  using assms(1,4)
proof (induction ks arbitrary: s)
  case (Cons j ks)
  let ?t = "fst (snd (refreshOutcome L now j (fetches j) s))"
  have g: "gate_kept (lv_seller s) (lv_seller ?t)" using refresh_keeps_gates unfolding keeps_gates_def by blast
  show ?case
  proof (cases "k \<in> set ks")
    case True
    with Cons g show ?thesis by (auto simp: gate_kept_def)
  next
    case False
    with Cons.prems have "artifactFor (lv_seller ?t) k file cap = None" using refresh_closes[OF assms(2,3)] by auto
    from gate_kept_None[OF refresh_all_gates this] show ?thesis by simp
  qed
qed simp

text \<open>
  C19: Looking at the buyers' page closes what was refunded: in live mode, for every stored deal whose
  Runtime answers a refund outcome while the page is made, the download route refuses every file of
  the deal to every caller once the page is out, whatever the Runtime answered for the other deals.
\<close>
theorem buyers_page_closes_refunded_deals:
  assumes "reachable (lx_seller L) (lv_seller s, {})" and "map_get (deals (lv_seller s)) k = Some d"
    and "snd (runtime_status (lx_client L) (lx_ids L 0) k (fetches k)) = Inr status" and "refunded status"
  shows "deliveries_route (lv_seller (fst (admin_route (LiveMode L) now fetches s))) k file cap =
    json_response 404 (JObj [(''error'', JStr ''not found'')])"
proof -
  have inv: "seller_inv (lx_seller L) {} (lv_seller s)" using reachable_inv[OF assms(1)] by simp
  have "dl_dealId d = k" using seller_invD(6)[OF inv assms(2)] by (simp add: deal_ok_def)
  moreover have "d \<in> set (dealRecords (lv_seller s))"
    using assms(2) seller_invD(3)[OF inv] by (force simp: dealRecords_def map_values_def map_ok_entries[symmetric])
  ultimately have "k \<in> set (map dl_dealId (dealRecords (lv_seller s)))" by force
  from refresh_all_closes[where fetches = fetches, OF this assms(3,4)] assms(2) show ?thesis
    by (simp add: admin_route_def Let_def refreshed_def deliveries_route_def)
qed

theorem buyers_page_closes_refunded_deals_witness:
  "\<exists>s k cap. wr_status (deliveries_route s k ''data.csv'' (JStr cap)) = 200 \<and>
     wr_status (deliveries_route (lv_seller (fst (admin_route (LiveMode own_live) 0 (\<lambda>_. scripted JNull cancelled_answers)
       (fresh_live \<lparr> lv_seller := s \<rparr>)))) k ''data.csv'' (JStr cap)) = 404"
proof -
  obtain s k d cap b where r: "reachable quiet_seller (s, {})" and d: "map_get (deals s) k = Some d"
    "dl_capabilityToken d = Some cap" "\<not> dl_capabilityRevoked d" "dl_csvBytes d = Some b"
    by (rule quiet_run) blast
  let ?s = "fresh_live \<lparr> lv_seller := s \<rparr>"
  have 1: "wr_status (deliveries_route s k ''data.csv'' (JStr cap)) = 200" using d by (simp add: deliveries_route_def artifactFor_def)
  have p: "reachable (lx_seller own_live) (lv_seller ?s, {})" "map_get (deals (lv_seller ?s)) k = Some d"
    using r d by (simp_all add: own_live_def)
  have q: "snd (runtime_status (lx_client own_live) (lx_ids own_live 0) k (scripted JNull cancelled_answers)) = Inr cancelled_status"
    using cancelled_call by (simp add: own_live_def)
  have f: "refunded cancelled_status" by (simp add: refunded_def cancelled_status_def text_of_def)
  from buyers_page_closes_refunded_deals[where fetches = "\<lambda>_. scripted JNull cancelled_answers", OF p q f]
  have "deliveries_route (lv_seller (fst (admin_route (LiveMode own_live) 0 (\<lambda>_. scripted JNull cancelled_answers) ?s))) k ''data.csv''
      (JStr cap) = json_response 404 (JObj [(''error'', JStr ''not found'')])" .
  with 1 show ?thesis by (intro exI[of _ s] exI[of _ k] exI[of _ cap]) simp
qed

end
