(* ===== verification/DeliveryProps.thy ===== *)
theory DeliveryProps
  imports ServerProps
begin

text \<open>
  Who is told where a delivery is: what a successful delivery leaves in the deal, what verifying a
  delivery request establishes, and that no other kind of request is answered with a delivery.
\<close>

lemma record_keeps_gate_deal:
  "map_get (deals s) k = Some d \<Longrightarrow> \<exists>d'. map_get (deals (fst (recordInteraction now j i s))) k = Some d' \<and> core d' = core d"
  by (cases "j = k") (auto simp: recordInteraction_get logged_def core_def)

lemma note_entry_Inr:
  "note_entry now k phase direction kind txt st payload fetch s = (xs, t, Inr u) \<Longrightarrow>
     xs = [] \<and> (\<exists>i. t = s \<lparr> lv_seller := fst (recordInteraction now k i (lv_seller s)) \<rparr>)"
  by (auto simp: note_entry_def live_bind_Inr live_step_Inr)

lemma andThen_Inr_iff: "andThen m f s = (t, Inr v) \<longleftrightarrow> (\<exists>u w. m s = (u, Inr w) \<and> f w u = (t, Inr v))"
  by (auto simp: andThen_def split: prod.splits sum.splits)

lemma finish_Inr:
  assumes "prepareDelivery_finish X now p s = (t, Inr q)"
  shows "pp_manifestUrl q = artifact_url X (pd_dealId p) ''manifest.json'' (pd_cap p)"
    "pp_csvUrl q = artifact_url X (pd_dealId p) ''data.csv'' (pd_cap p)"
    "cores t (pd_dealId p) = map_option (with_delivery p) (cores s (pd_dealId p))"
proof -
  show "pp_manifestUrl q = artifact_url X (pd_dealId p) ''manifest.json'' (pd_cap p)"
    "pp_csvUrl q = artifact_url X (pd_dealId p) ''data.csv'' (pd_cap p)"
    using assms by (auto simp: prepareDelivery_finish_def andThen_Inr_iff pure_def lift_def)
  show "cores t (pd_dealId p) = map_option (with_delivery p) (cores s (pd_dealId p))"
    using finish_cores[of X now p s] assms by simp
qed

lemma deliver_Inr:
  assumes "deliver X now cap command k anchors evidence s = (t, Inr (q, c))"
  shows "\<exists>d d'. map_get (deals s) k = Some d \<and> dl_state d \<noteq> PROPOSED_LOCAL \<and> map_get (deals t) k = Some d' \<and>
    dl_capabilityToken d' = Some (to_hex cap) \<and> pp_manifestUrl q = artifact_url X k ''manifest.json'' (to_hex cap) \<and>
    pp_csvUrl q = artifact_url X k ''data.csv'' (to_hex cap)"
proof -
  obtain s1 p s2 where b: "prepareDelivery_begin X now cap k s = (s1, Inr p)" and f: "prepareDelivery_finish X now p s1 = (s2, Inr q)"
    and m: "deliver_command X now command k anchors evidence (pp_deliveryHash q) s2 = (t, Inr c)"
    using assms by (auto simp: deliver_def prepareDelivery_def andThen_Inr_iff pure_def)
  obtain a d out where d: "s1 = s \<lparr> artifacts := a \<rparr>" "map_get (deals s) k = Some d" "dl_state d \<noteq> PROPOSED_LOCAL"
    "p = \<lparr> pd_dealId = k, pd_cap = to_hex cap, pd_out = out \<rparr>"
    by (rule begin_cases[OF b]) auto
  have "cores s1 k = Some (core d)" using d by (simp add: cores_def)
  with finish_Inr(3)[OF f] d(4) have "cores s2 k = Some (with_delivery p (core d))" by simp
  moreover have "cores t = cores s2" using calm_deliver_command[of X now command k anchors evidence "pp_deliveryHash q" s2] m by simp
  ultimately have "cores t k = Some (with_delivery p (core d))" by simp
  then obtain d' where "map_get (deals t) k = Some d'" "core d' = with_delivery p (core d)" by (auto simp: cores_def)
  moreover from arg_cong[OF this(2), of dl_capabilityToken] have "dl_capabilityToken d' = Some (to_hex cap)"
    by (simp add: with_delivery_def d(4))
  ultimately show ?thesis using d(2,3) finish_Inr(1,2)[OF f] d(4) by auto
qed

lemma verify_request_Inr:
  "verifyDeliveryRequest C k time sig buyer now = Inr u \<longleftrightarrow>
     request_fresh now time \<and> (\<exists>b. deliveryRequestSigningBytes C k time = Inr b \<and> recover C sig b = Some (js_lower buyer))"
  by (auto simp: verifyDeliveryRequest_def res_bind_Inr_iff split: if_splits)

lemma delivery_request_Inr:
  assumes "delivery_request X now rnd request fetch s = (xs, t, Inr (Replied p))"
  shows "\<exists>k d b. k = text_of (getp request ''dealId'') \<and> map_get (deals (lv_seller s)) k = Some d \<and> dl_state d \<noteq> PROPOSED_LOCAL \<and>
    request_fresh (now div 1000) (js_number (getp request ''requestedAt'')) \<and>
    deliveryRequestSigningBytes (sx_crypto X) k (js_number (getp request ''requestedAt'')) = Inr b \<and>
    recover (sx_crypto X) (text_of (getp request ''buyerSig'')) b = Some (js_lower (dl_buyerAddress d)) \<and>
    member p ''manifestUrl'' = JStr (artifact_url X k ''manifest.json'' (to_hex (xr_cap rnd))) \<and>
    member p ''csvUrl'' = JStr (artifact_url X k ''data.csv'' (to_hex (xr_cap rnd))) \<and>
    (\<exists>d'. map_get (deals (lv_seller t)) k = Some d' \<and> dl_capabilityToken d' = Some (to_hex (xr_cap rnd)))"
proof -
  let ?k = "text_of (getp request ''dealId'')"
  let ?at = "js_number (getp request ''requestedAt'')" and ?sig = "text_of (getp request ''buyerSig'')"
  obtain d where d: "map_get (deals (lv_seller s)) ?k = Some d"
    using assms by (cases "map_get (deals (lv_seller s)) ?k")
      (auto simp: delivery_request_def Let_def live_bind_Inr live_step_Inr get_deal_def)
  have g: "get_deal (lv_seller s) ?k = Some d" using d by (simp add: get_deal_def)
  obtain s1 ys out where v: "verifyDeliveryRequest (sx_crypto X) ?k ?at ?sig (dl_buyerAddress d) (now div 1000) = Inr ()"
    and n: "note_entry now ?k Fulfillment BuyerToSeller ''request-delivery''
               ''Buyer requested delivery with a verified freshness proof'' (state_shown d)
               [(''dealId'', JStr ?k), (''requestedAt'', JNum ?at)] fetch s = (ys, s1, Inr ())"
    and x0: "t = s1 \<lparr> lv_seller := fst (deliver X now (xr_cap rnd) (xr_command rnd) ?k None None (lv_seller s1)) \<rparr>"
      "snd (deliver X now (xr_cap rnd) (xr_command rnd) ?k None None (lv_seller s1)) = Inr out"
    and p0: "p = delivery_reply ?k out"
    using assms by (simp add: delivery_request_def Let_def live_bind_Inr live_step_Inr g) blast
  obtain i where i: "s1 = s \<lparr> lv_seller := fst (recordInteraction now ?k i (lv_seller s)) \<rparr>" using note_entry_Inr[OF n] by blast
  obtain q c where q: "out = (q, c)" by fastforce
  let ?u = "fst (deliver X now (xr_cap rnd) (xr_command rnd) ?k None None (lv_seller s1))"
  have ls: "lv_seller s1 = fst (recordInteraction now ?k i (lv_seller s))" using i by simp
  have x: "deliver X now (xr_cap rnd) (xr_command rnd) ?k None None (fst (recordInteraction now ?k i (lv_seller s))) = (?u, Inr (q, c))"
    using x0(2) q unfolding ls[symmetric] by (simp add: prod_eq_iff)
  have t: "lv_seller t = ?u" and p: "p = delivery_reply ?k (q, c)" using x0(1) p0 q by simp_all
  obtain d1 where d1: "map_get (deals (fst (recordInteraction now ?k i (lv_seller s)))) ?k = Some d1" "core d1 = core d"
    using record_keeps_gate_deal[OF d] by blast
  have "dl_state d1 = dl_state d" using arg_cong[OF d1(2), of dl_state] by simp
  with deliver_Inr[OF x] d1(1) d v t show ?thesis
    unfolding verify_request_Inr by (auto simp: p delivery_reply_def)
qed


lemma reply_kinds:
  "member (quote_reply X q) ''kind'' = JStr ''quote''" "member (funding_reply k r) ''kind'' \<noteq> JStr ''delivery''"
  by (cases q; simp add: quote_reply_def) (simp add: funding_reply_def)

lemma other_kinds:
  assumes "dispatch M now rnd request fetch s = (xs, t, Inr (Replied p))" and "member p ''kind'' = JStr ''delivery''"
  shows "\<exists>X. M = Standalone X \<and> delivery_request X now rnd request fetch s = (xs, t, Inr (Replied p))"
proof -
  have n1: "member p ''kind'' \<noteq> JStr ''delivery''" if "query_request X now r request fetch s = (xs, t, Inr (Replied p))" for X r
    using that reply_kinds(1) by (auto simp: query_request_def live_bind_Inr live_step_Inr split: option.splits)
  have n2: "member p ''kind'' \<noteq> JStr ''delivery''" if "proposal_request X now r request fetch s = (xs, t, Inr (Replied p))" for X r
    using that by (auto simp: proposal_request_def Let_def live_bind_Inr live_step_Inr split: option.splits if_splits)
  have n3: "member p ''kind'' \<noteq> JStr ''delivery''" if "standalone_acceptance X now request fetch s = (xs, t, Inr (Replied p))" for X
    using that by (auto simp: standalone_acceptance_def Let_def live_bind_Inr live_step_Inr)
  have n4: "member p ''kind'' \<noteq> JStr ''delivery''" if "live_acceptance L now request fetch s = (xs, t, Inr (Replied p))" for L
    using that by (auto simp: live_acceptance_def Let_def live_bind_Inr live_step_Inr split: if_splits)
  have n5: "member p ''kind'' \<noteq> JStr ''delivery''" if "funding_request L now request fetch s = (xs, t, Inr (Replied p))" for L
    using that reply_kinds(2) by (auto simp: funding_request_def Let_def live_bind_Inr live_step_Inr)
  show ?thesis
    using assms by (cases M) (auto simp: dispatch_def Let_def live_return_def split: if_splits dest: n1 n2 n3 n4 n5)
qed

text \<open>
  C7: The capability URLs go only to the buyer. When a request is answered with a delivery, the service is
  standalone, the deal is stored and accepted, the request carries a fresh timestamp and a signature
  over that deal id and that timestamp that recovers to the deal's buyer, and the URLs of the answer
  carry the token that now opens the deal's downloads.
\<close>
theorem urls_go_only_to_the_buyer:
  assumes "execute E now rnd q fetch s = (xs, t, Replied p)" and "member p ''kind'' = JStr ''delivery''"
  shows "\<exists>X request k d b. ec_mode E = Standalone X \<and> read_request q = Inr request \<and> k = text_of (getp request ''dealId'') \<and>
    map_get (deals (lv_seller s)) k = Some d \<and> dl_state d \<noteq> PROPOSED_LOCAL \<and>
    request_fresh (now div 1000) (js_number (getp request ''requestedAt'')) \<and>
    deliveryRequestSigningBytes (sx_crypto X) k (js_number (getp request ''requestedAt'')) = Inr b \<and>
    recover (sx_crypto X) (text_of (getp request ''buyerSig'')) b = Some (js_lower (dl_buyerAddress d)) \<and>
    member p ''manifestUrl'' = JStr (artifact_url X k ''manifest.json'' (to_hex (xr_cap rnd))) \<and>
    member p ''csvUrl'' = JStr (artifact_url X k ''data.csv'' (to_hex (xr_cap rnd))) \<and>
    (\<exists>d'. map_get (deals (lv_seller t)) k = Some d' \<and> dl_capabilityToken d' = Some (to_hex (xr_cap rnd)))"
proof -
  obtain request where r: "read_request q = Inr request" "dispatch (ec_mode E) now rnd request fetch s = (xs, t, Inr (Replied p))"
    using assms(1) by (auto simp: execute_def split: sum.splits prod.splits)
  from other_kinds[OF r(2) assms(2)] obtain X where "ec_mode E = Standalone X"
    "delivery_request X now rnd request fetch s = (xs, t, Inr (Replied p))" by blast
  with delivery_request_Inr[OF this(2)] r(1) show ?thesis by blast
qed


section \<open>A delivery that is asked for\<close>

lemma quiet_evidence: "\<exists>v. evidence_of quiet_seller k h p = Inr v"
proof -
  have "\<exists>v. sign_under sample_crypto f x key i = Inr v" for f x key i
    using quiet_jcs[of "omit [''signature''] x"] by (auto simp: sign_under_def from_signing_def Let_def)
  then have "\<exists>v. evidenceEnvelope sample_crypto env i = Inr v" for env i
    by (simp add: evidenceEnvelope_def signPartyEnvelope_def)
  then show ?thesis by (auto simp: evidence_of_def)
qed

lemma quiet_terms: "\<exists>h. termsHashOf sample_crypto c = Inr h \<and> well_formed_ref h"
proof -
  obtain b where "jcs sample_crypto (JObj (omit [''signatures'', ''termsHash''] c)) = Inr b" using quiet_jcs by blast
  then show ?thesis using sha256Ref_well_formed[OF sample_crypto_ok(1)] by (auto simp: termsHashOf_def)
qed

lemma quiet_finish:
  assumes "map_get (deals s) (pd_dealId p) = Some d"
  shows "\<exists>t q d'. prepareDelivery_finish quiet_seller 0 p s = (t, Inr q) \<and> map_get (deals t) (pd_dealId p) = Some d' \<and>
    dl_deliveryHash d' = Some (dr_deliveryHash (pd_out p)) \<and> pp_deliveryHash q = dr_deliveryHash (pd_out p)"
proof -
  let ?k = "pd_dealId p" and ?s = "put_deal (pd_dealId p) (with_delivery p d) s"
  have w: "map_get (deals ?s) ?k = Some (with_delivery p d)" by (simp add: put_deal_def map_get_set)
  let ?t = "fst (recordInteraction 0 ?k (prepared_entry (pd_out p)) ?s)"
  let ?d = "logged 0 (snd (historyEntry 0 (prepared_entry (pd_out p)) ?s)) (with_delivery p d)"
  have t: "map_get (deals ?t) ?k = Some ?d" unfolding recordInteraction_get w by simp
  have wd: "write_delivery 0 p s = (?t, Inr ?d)"
    unfolding write_delivery_def Let_def assms option.case
    by (subst record_andThen, rule w) (simp add: deal_now_def t)
  obtain h where h: "termsHashOf sample_crypto (dl_contract ?d) = Inr h" using quiet_terms by blast
  obtain v where v: "evidence_of quiet_seller ?k h p = Inr v" using quiet_evidence by blast
  let ?q = "\<lparr> pp_deal = ?d, pp_termsHash = h, pp_manifestUrl = artifact_url quiet_seller ?k ''manifest.json'' (pd_cap p),
     pp_csvUrl = artifact_url quiet_seller ?k ''data.csv'' (pd_cap p), pp_envelope = v, pp_deliveryHash = dr_deliveryHash (pd_out p) \<rparr>"
  have "prepareDelivery_finish quiet_seller 0 p s = (?t, Inr ?q)"
    unfolding prepareDelivery_finish_def
    by (rule andThen_at, rule wd, subst andThen_lift, simp only: quiet_seller_sel h map_error.simps sum.case, subst andThen_lift,
      simp only: v sum.case pure_def)
  moreover have "dl_deliveryHash ?d = Some (dr_deliveryHash (pd_out p))" by (simp add: with_delivery_def logged_def)
  ultimately show ?thesis using t by fastforce
qed

lemma quiet_command:
  assumes "map_get (deals s) k = Some d" and "dl_deliveryHash d = Some h" and "well_formed_ref h"
  shows "\<exists>t c. deliver_command quiet_seller 0 random k None None x s = (t, Inr c)"
proof -
  obtain th where th: "termsHashOf sample_crypto (dl_contract d) = Inr th" "well_formed_ref th" using quiet_terms by blast
  have "\<exists>c. commandFor quiet_seller 0 random k (demoAnchors sample_crypto k) ev r s = Inr c" for ev r
    using delivered_total[OF sample_crypto_ok(1) quiet_jcs, of _ k] assms(3) th
    by (auto simp: commandFor_def assms(1,2))
  then obtain c where c: "commandFor quiet_seller 0 random k (demoAnchors sample_crypto k) (demo_evidence k None) (Fin 2) s = Inr c" by blast
  show ?thesis
    using recordInteraction_some[OF assms(1)]
    by (simp add: deliver_command_def andThen_def c pure_def)
qed


lemma quiet_delivers:
  assumes d: "map_get (deals s) k = Some d" "dl_state d \<noteq> PROPOSED_LOCAL" and r: "map_get (quotes s) (dl_negotiationId d) = Some r"
    and g: "generateDelivery sample_crypto str_le (memory_put sample_crypto)
      (delivery_input_of quiet_seller 0 k (artifact_url quiet_seller k ''data.csv'' (to_hex cap)) r) (artifacts s) = (a, Inr out)"
  shows "\<exists>t x. deliver quiet_seller 0 cap random k None None s = (t, Inr x)"
proof -
  let ?p = "\<lparr> pd_dealId = k, pd_cap = to_hex cap, pd_out = out \<rparr>" and ?s = "s \<lparr> artifacts := a \<rparr>"
  have b: "prepareDelivery_begin quiet_seller 0 cap k s = (?s, Inr ?p)"
    by (rule begin_delivers[OF d r]) (use g in simp)
  have "map_get (deals ?s) (pd_dealId ?p) = Some d" using d(1) by simp
  from quiet_finish[OF this] obtain t q d' where f: "prepareDelivery_finish quiet_seller 0 ?p ?s = (t, Inr q)"
    "map_get (deals t) k = Some d'" "dl_deliveryHash d' = Some (dr_deliveryHash out)" "pp_deliveryHash q = dr_deliveryHash out"
    by auto
  have "well_formed_ref (dr_deliveryHash out)"
    by (rule generateDelivery_Inr[OF g]) (simp add: sha256Bytes_Ref sha256Ref_well_formed sample_crypto_ok)
  from quiet_command[OF f(2,3) this] obtain u c where "deliver_command quiet_seller 0 random k None None (pp_deliveryHash q) t = (u, Inr c)"
    by blast
  then show ?thesis using b f(1) by (simp add: deliver_def prepareDelivery_def andThen_def pure_def)
qed

definition delivery_asked :: "string \<Rightarrow> jsval" where
  "delivery_asked sig = JObj [(''kind'', JStr ''request-delivery''), (''dealId'', JStr quiet_key), (''requestedAt'', JInt 0),
     (''buyerSig'', JStr sig)]"

lemma asked_members:
  "getp (delivery_asked sig) ''kind'' = JStr ''request-delivery''" "getp (delivery_asked sig) ''dealId'' = JStr quiet_key"
  "getp (delivery_asked sig) ''requestedAt'' = JInt 0" "getp (delivery_asked sig) ''buyerSig'' = JStr sig"
  "\<not> nullish (delivery_asked sig)" "json_plain (delivery_asked sig)"
  by (simp_all add: delivery_asked_def is_digit_def rat_is_int_def)

lemma quiet_asked:
  obtains s d p t sig where "reachable quiet_seller (s, {})" "map_get (deals s) quiet_key = Some d"
    "dl_buyerAddress d = addressOfPrivateKey sample_crypto ''b''"
    "execute quiet_executor 0 quiet_random (negotiation_request (delivery_asked sig)) (\<lambda>_. Inl syntax_error) (fresh_live \<lparr> lv_seller := s \<rparr>) =
       ([], t, Replied p)" "member p ''kind'' = JStr ''delivery''"
proof -
  obtain s d r h st out where q: "reachable quiet_seller (s, {})" "map_get (deals s) quiet_key = Some d"
    "dl_state d = ACCEPTED_LOCAL" "\<not> dl_capabilityRevoked d" "map_get (quotes s) (dl_negotiationId d) = Some r"
    "termsHashOf sample_crypto (dl_contract d) = Inr h" "dl_buyerAddress d = addressOfPrivateKey sample_crypto ''b''"
    "generateDelivery sample_crypto str_le (memory_put sample_crypto)
       (delivery_input_of quiet_seller 0 quiet_key (artifact_url quiet_seller quiet_key ''data.csv'' (to_hex ''t'')) r) (artifacts s) = (st, Inr out)"
    by (rule quiet_accepted)
  obtain b where b: "deliveryRequestSigningBytes sample_crypto quiet_key (Fin 0) = Inr b"
    using quiet_jcs[of "[(''dealId'', JStr quiet_key), (''requestedAt'', JNum (Fin 0))]"]
    by (auto simp: deliveryRequestSigningBytes_def from_signing_def)
  let ?sig = "sign sample_crypto ''b'' b" and ?s = "fresh_live \<lparr> lv_seller := s \<rparr>" and ?f = "\<lambda>_. Inl syntax_error"
  let ?m = "delivery_asked ?sig"
  have fresh: "request_fresh (0 div 1000) (Fin 0)" by code_simp
  have v: "verifyDeliveryRequest sample_crypto quiet_key (Fin 0) ?sig (dl_buyerAddress d) (0 div 1000) = Inr ()"
    unfolding verify_request_Inr using fresh b address_form_lower[OF address_of_pubkey_form] sample_crypto_ok
    by (simp add: q(7) recover_sign addressOfPrivateKey_def)
  obtain i u where n: "note_entry 0 quiet_key Fulfillment BuyerToSeller ''request-delivery''
               ''Buyer requested delivery with a verified freshness proof'' (state_shown d)
               [(''dealId'', JStr quiet_key), (''requestedAt'', JNum (Fin 0))] ?f ?s = ([], u, Inr ())"
    "lv_seller u = fst (recordInteraction 0 quiet_key i s)"
    using q(2) by (auto simp: note_entry_def live_bind_Inr live_step_Inr recordInteraction_some)
  obtain d1 where d1: "map_get (deals (lv_seller u)) quiet_key = Some d1" "core d1 = core d"
    using record_keeps_gate_deal[OF q(2)] unfolding n(2) by blast
  have k: "dl_state d1 = dl_state d" "dl_negotiationId d1 = dl_negotiationId d"
    using arg_cong[OF d1(2), of dl_state] arg_cong[OF d1(2), of dl_negotiationId] by simp_all
  have "\<exists>t x. deliver quiet_seller 0 ''t'' ''c'' quiet_key None None (lv_seller u) = (t, Inr x)"
    by (rule quiet_delivers[OF d1(1)]) (use q(3,5,8) in \<open>simp_all add: k n(2) recordInteraction_frame\<close>)
  then obtain w x where x: "deliver quiet_seller 0 ''t'' ''c'' quiet_key None None (lv_seller u) = (w, Inr x)" by blast
  have e: "execute quiet_executor 0 quiet_random (negotiation_request ?m) ?f ?s =
      ([], u \<lparr> lv_seller := w \<rparr>, Replied (delivery_reply quiet_key x))"
    using n(1) v q(2) x
    by (simp add: execute_def read_negotiation_request[OF asked_members(6)] dispatch_def asked_members delivery_request_def quiet_executor_def quiet_random_def
        Let_def live_bind_def live_read_def live_return_def live_seller_def get_deal_def text_of_def js_number_def)
  have "member (delivery_reply quiet_key x) ''kind'' = JStr ''delivery''" by (cases x) (simp add: delivery_reply_def)
  from that[OF q(1,2,7) e this] show ?thesis .
qed

theorem urls_go_only_to_the_buyer_witness:
  "\<exists>(s :: seller) d b sig. map_get (deals s) quiet_key = Some d \<and> deliveryRequestSigningBytes sample_crypto quiet_key (Fin 0) = Inr b \<and>
     recover sample_crypto sig b = Some (js_lower (dl_buyerAddress d))"
proof -
  obtain s d p t sig where q: "reachable quiet_seller (s, {})" "map_get (deals s) quiet_key = Some d"
    "dl_buyerAddress d = addressOfPrivateKey sample_crypto ''b''"
    "execute quiet_executor 0 quiet_random (negotiation_request (delivery_asked sig)) (\<lambda>_. Inl syntax_error) (fresh_live \<lparr> lv_seller := s \<rparr>) =
       ([], t, Replied p)" "member p ''kind'' = JStr ''delivery''" by (rule quiet_asked)
  from urls_go_only_to_the_buyer[OF q(4,5)] show ?thesis
    unfolding read_negotiation_request[OF asked_members(6)]
    by (auto simp: asked_members quiet_executor_def text_of_def js_number_def)
qed

end
