(* ===== verification/HomeProps.thy ===== *)
theory HomeProps
  imports Home LiveProps "HOL-Library.Sublist"
begin

text \<open>
  The public pages: escaping loses nothing and leaves no markup, so that the markup of a page is its
  own whatever text the counterparties put into what it shows; and the state history is the sequence
  of distinct states.
\<close>

section \<open>Escaping\<close>

definition esc_char :: "char \<Rightarrow> string" where
  "esc_char c =
     (if c = CHR ''&'' then ''&amp;'' else if c = CHR ''<'' then ''&lt;'' else if c = CHR ''>'' then ''&gt;''
      else if c = CHR 0x22 then ''&quot;'' else [c])"

lemma replace_char_simps:
  "replace_char c t [] = []" "replace_char c t (d # s) = (if d = c then t else [d]) @ replace_char c t s"
  by (simp_all add: replace_char_def)

lemma esc_simps [simp]: "esc [] = []" "esc (c # s) = esc_char c @ esc s"
  by (simp_all add: esc_def esc_char_def replace_char_simps)

lemma esc_char_clean: "set (esc_char c) \<inter> {CHR ''<'', CHR ''>'', CHR 0x22} = {}"
  by (simp add: esc_char_def)

lemma esc_char_cases:
  "(c = CHR ''&'' \<and> esc_char c = ''&amp;'') \<or> (c = CHR ''<'' \<and> esc_char c = ''&lt;'') \<or> (c = CHR ''>'' \<and> esc_char c = ''&gt;'') \<or>
     (c = CHR 0x22 \<and> esc_char c = ''&quot;'') \<or> (c \<noteq> CHR ''&'' \<and> esc_char c = [c])"
  by (simp add: esc_char_def)

lemma esc_char_prefix: "esc_char c @ u = esc_char d @ v \<Longrightarrow> c = d \<and> u = v"
  using esc_char_cases[of c] esc_char_cases[of d] by (elim disjE conjE) simp_all

lemma esc_char_ne: "esc_char c \<noteq> []"
  by (simp add: esc_char_def)

lemma esc_inject: "esc s = esc t \<Longrightarrow> s = t"
proof (induction s arbitrary: t)
  case Nil
  then show ?case using esc_char_ne by (cases t) auto
next
  case (Cons c s)
  then show ?case using esc_char_ne by (cases t) (auto dest: esc_char_prefix)
qed

lemma esc_clean: "set (esc s) \<inter> {CHR ''<'', CHR ''>'', CHR 0x22} = {}"
  using esc_char_clean by (induction s) auto

text \<open>
  C1: Escaping is faithful: what a page shows has no tag bracket and no quote in it, whatever it was,
  and two texts are shown the same only when they are the same.
\<close>
theorem escaping_is_faithful:
  "set (esc s) \<inter> {CHR ''<'', CHR ''>'', CHR 0x22} = {} \<and> (esc s = esc t \<longleftrightarrow> s = t)"
  by (rule conjI, rule esc_clean, rule iffI, erule esc_inject, simp)

section \<open>Markup\<close>

definition markup :: "string \<Rightarrow> string" where
  "markup s = filter (\<lambda>c. c \<in> {CHR ''<'', CHR ''>'', CHR 0x22}) s"

named_theorems markup_simps \<open>the markup of the pieces of a page\<close>

lemma markup_append [markup_simps]: "markup (s @ t) = markup s @ markup t"
  by (simp add: markup_def)

lemma markup_Nil [markup_simps]: "markup [] = []"
  by (simp add: markup_def)

lemma markup_esc [markup_simps]: "markup (esc s) = []"
  using esc_clean[of s] by (auto simp: markup_def filter_empty_conv)

lemma markup_esc_js [markup_simps]: "markup (esc_js v) = []"
  by (simp add: esc_js_def markup_esc)

lemma markup_tone [markup_simps]: "markup (stateTone st) = []" "markup (negotiationTone n) = []"
  by (simp_all add: stateTone_def markup_def) (cases n; simp)

lemma markup_nat [markup_simps]: "markup (string_of_nat n) = []"
proof -
  have "\<not> is_digit c" if "c \<in> {CHR ''<'', CHR ''>'', CHR 0x22}" for c
    using that by (auto simp: is_digit_def)
  then show ?thesis using string_of_nat_digits[of _ n] by (auto simp: markup_def filter_empty_conv)
qed

lemma markup_join: "markup (join_with sep xs) = join_with (markup sep) (map markup xs)"
  by (induction sep xs rule: join_with.induct) (simp_all add: markup_simps)

lemma markup_same_join: "map markup xs = map markup ys \<Longrightarrow> markup (join_with sep xs) = markup (join_with sep ys)"
  by (simp only: markup_join)

lemma markup_span [markup_simps]: "markup (state_span st) = markup DASH_MUTED"
  "markup (span (negotiationTone n) (esc x)) = markup DASH_MUTED" "markup (capability_cell d) = markup DASH_MUTED"
  "markup (price_cell d) = []" "markup (or_dash v) = []" "markup (esc (phase_name p)) = []"
proof -
  have m: "markup (span t x) = markup ''<span class=\"'' @ markup t @ markup ''\">'' @ markup x @ markup ''</span>''" for t x
    by (simp only: span_def markup_append)
  have d: "markup DASH_MUTED = [CHR ''<'', CHR 0x22, CHR 0x22, CHR ''>'', CHR ''<'', CHR ''>'']"
    unfolding DASH_MUTED_def EM_DASH_def markup_def by simp
  show "markup (state_span st) = markup DASH_MUTED" "markup (span (negotiationTone n) (esc x)) = markup DASH_MUTED"
    by (simp_all only: d m state_span_def markup_simps append_Nil) (simp_all add: markup_def)
  show "markup (capability_cell d) = markup DASH_MUTED"
    by (simp only: capability_cell_def d split: if_split) (simp add: markup_def d[unfolded markup_def])
  show "markup (price_cell d) = []" by (simp only: price_cell_def markup_simps append_Nil) (simp add: markup_def)
qed (simp_all add: or_dash_def markup_esc)


section \<open>Pages\<close>

text \<open>What decides the markup of a page: how many rows its lists have, and which optional parts they show.\<close>

definition row_shape :: "history_entry \<Rightarrow> bool" where
  "row_shape e = (he_payload e = None)"

definition negotiation_shape :: "negotiation \<Rightarrow> bool \<times> nat \<times> bool list" where
  "negotiation_shape n = (ng_termsDocumentHash n \<in> {None, Some []}, length (ng_dealIds n), map row_shape (ng_history n))"

definition buyer_shape :: "buyer_record \<Rightarrow> (bool \<times> nat \<times> bool list) list \<times> nat" where
  "buyer_shape b = (map negotiation_shape (by_negotiations b), length (by_deals b))"

definition deal_shape :: "deal \<Rightarrow> nat \<times> bool list \<times> bool list" where
  "deal_shape d = (length (stateTransitions (dl_history d)),
     map row_shape (filter (\<lambda>e. he_phase e = Negotiation) (dl_history d)),
     map row_shape (filter (\<lambda>e. he_phase e \<noteq> Negotiation) (dl_history d)))"

lemma markup_time: "markup (time_of t) = markup (time_of 0)"
  by (simp only: time_of_def markup_simps)

lemma markup_links: "markup (agreement_link k) = markup (agreement_link [])" "markup (terms_link h) = markup (terms_link [])"
  by (simp_all only: agreement_link_def terms_link_def markup_simps)

lemma markup_payload: "markup (payload_block v) = (if v = None then [] else markup (payload_block (Some JUndef)))"
  by (cases v) (simp_all only: payload_block_def option.case markup_simps if_True if_False option.distinct simp_thms)

lemma markup_state_case: "markup (case st of None \<Rightarrow> DASH_MUTED | Some t \<Rightarrow> state_span t) = markup DASH_MUTED"
  by (cases st) (simp_all only: option.case markup_span)

lemma markup_history_row: "row_shape e = row_shape f \<Longrightarrow> markup (history_row tx e) = markup (history_row ty f)"
  by (simp only: history_row_def page_lines_def join_with.simps markup_simps markup_time[of "he_at _"] markup_state_case
      markup_payload[of "he_payload _"] row_shape_def)

lemma markup_state_step: "markup (state_step e) = markup (state_step f)"
  by (simp only: state_step_def page_lines_def join_with.simps markup_simps markup_time[of "he_at _"])

lemma markup_agreement_row: "markup (agreement_row d) = markup (agreement_row e)"
  by (simp only: agreement_row_def markup_simps markup_links(1)[of "dl_dealId _"])

lemma same_rows:
  assumes "map g xs = map g ys" and "\<And>x y. g x = g y \<Longrightarrow> f x = f' y"
  shows "map f xs = map f' ys"
proof -
  have "length xs = length ys" using assms(1) by (rule map_eq_imp_length_eq)
  then show ?thesis using assms(1) by (induction xs ys rule: list_induct2) (auto intro: assms(2))
qed

lemma same_count:
  assumes "length xs = length ys" and "\<And>x y. f x = f' y"
  shows "map f xs = map f' ys"
  using assms(1) by (induction xs ys rule: list_induct2) (auto intro: assms(2))

lemma markup_history_table:
  assumes "map row_shape es = map row_shape fs"
  shows "markup (renderHistoryTable tx es) = markup (renderHistoryTable ty fs)"
proof -
  have n: "es = [] \<longleftrightarrow> fs = []" using assms by (metis map_is_Nil_conv)
  have "map markup (map (history_row tx) es) = map markup (map (history_row ty) fs)"
    unfolding map_map by (rule same_rows[OF assms]) (simp add: markup_history_row)
  from markup_same_join[OF this] show ?thesis
    by (simp only: renderHistoryTable_def n page_lines_def join_with.simps markup_append if_distrib[of markup])
qed

lemma markup_state_history:
  assumes "length es = length fs"
  shows "markup (renderStateHistory es) = markup (renderStateHistory fs)"
proof -
  have n: "es = [] \<longleftrightarrow> fs = []" using assms by auto
  have "map markup (map state_step es) = map markup (map state_step fs)"
    unfolding map_map by (rule same_count[OF assms]) (simp only: o_def, rule markup_state_step)
  from markup_same_join[OF this] show ?thesis
    by (simp only: renderStateHistory_def n page_lines_def join_with.simps markup_append if_distrib[of markup])
qed

lemma markup_agreement_table:
  assumes "length ds = length es"
  shows "markup (renderAgreementTable ds) = markup (renderAgreementTable es)"
proof -
  have n: "ds = [] \<longleftrightarrow> es = []" using assms by auto
  have "map markup (map agreement_row ds) = map markup (map agreement_row es)"
    unfolding map_map by (rule same_count[OF assms]) (simp only: o_def, rule markup_agreement_row)
  from markup_same_join[OF this] show ?thesis
    by (simp only: renderAgreementTable_def n page_lines_def join_with.simps markup_append if_distrib[of markup])
qed

lemma markup_page:
  assumes "markup body = markup body'" and "length nav = length nav'"
  shows "markup (page title nav body w) = markup (page title' nav' body' w)"
proof -
  have "markup (nav_link n) = markup (nav_link m)" for n m by (simp only: nav_link_def markup_simps)
  then have "map markup (map nav_link nav) = map markup (map nav_link nav')"
    unfolding map_map by (intro same_count[OF assms(2)]) (simp only: o_def)
  from markup_same_join[OF this] show ?thesis
    by (simp only: page_def page_lines_def join_with.simps markup_simps assms(1))
qed


lemma markup_negotiation:
  assumes "negotiation_shape n = negotiation_shape m"
  shows "markup (negotiation_section tx n) = markup (negotiation_section ty m)"
proof -
  have s: "ng_termsDocumentHash n \<in> {None, Some []} \<longleftrightarrow> ng_termsDocumentHash m \<in> {None, Some []}"
    "length (ng_dealIds n) = length (ng_dealIds m)" "map row_shape (ng_history n) = map row_shape (ng_history m)"
    using assms by (simp_all add: negotiation_shape_def)
  have "map markup (map agreement_link (ng_dealIds n)) = map markup (map agreement_link (ng_dealIds m))"
    unfolding map_map by (rule same_count[OF s(2)]) (simp only: o_def, rule trans[OF markup_links(1) markup_links(1)[symmetric]])
  note links = markup_same_join[OF this]
  have e: "ng_dealIds n = [] \<longleftrightarrow> ng_dealIds m = []" using s(2) by auto
  have h: "markup (case ng_termsDocumentHash n of Some h \<Rightarrow> if h = [] then x else terms_link h | None \<Rightarrow> x) =
      markup (case ng_termsDocumentHash m of Some h \<Rightarrow> if h = [] then x else terms_link h | None \<Rightarrow> x)" for x
    using s(1) by (auto split: option.split intro: trans[OF markup_links(2) markup_links(2)[symmetric]])
  show ?thesis
    by (simp only: negotiation_section_def page_lines_def join_with.simps markup_simps h e links if_distrib[of markup]
        markup_time[of "ng_createdAt _"] markup_time[of "ng_updatedAt _"] markup_history_table[OF s(3), of tx ty])
qed

lemma markup_negotiations:
  assumes "map negotiation_shape ns = map negotiation_shape ms"
  shows "markup (renderNegotiations tx ns) = markup (renderNegotiations ty ms)"
proof -
  have n: "ns = [] \<longleftrightarrow> ms = []" using assms by (metis map_is_Nil_conv)
  have "map markup (map (negotiation_section tx) ns) = map markup (map (negotiation_section ty) ms)"
    unfolding map_map by (rule same_rows[OF assms]) (simp only: o_def, rule markup_negotiation)
  from markup_same_join[OF this] show ?thesis by (simp only: renderNegotiations_def n if_distrib[of markup])
qed

lemma markup_buyer_row:
  assumes "length (by_deals b) = length (by_deals c)"
  shows "markup (buyer_row b) = markup (buyer_row c)"
proof -
  have "map markup (map (\<lambda>d. state_span (currentDealState d)) (by_deals b)) =
      map markup (map (\<lambda>d. state_span (currentDealState d)) (by_deals c))"
    unfolding map_map by (rule same_count[OF assms]) (simp only: o_def markup_span)
  note cells = markup_same_join[OF this]
  have n: "by_deals b = [] \<longleftrightarrow> by_deals c = []" using assms by auto
  show ?thesis
    by (simp only: buyer_row_def page_lines_def join_with.simps markup_simps deal_states_def n cells if_distrib[of markup]
        markup_time[of "by_updatedAt _"])
qed

lemma markup_index:
  assumes "map (\<lambda>b. length (by_deals b)) bs = map (\<lambda>b. length (by_deals b)) cs"
  shows "markup (renderAdminIndex bs) = markup (renderAdminIndex cs)"
proof -
  have n: "bs = [] \<longleftrightarrow> cs = []" using assms by (metis map_is_Nil_conv)
  have "map markup (map buyer_row bs) = map markup (map buyer_row cs)"
    unfolding map_map by (rule same_rows[OF assms]) (simp only: o_def, rule markup_buyer_row)
  note rows = markup_same_join[OF this]
  show ?thesis unfolding renderAdminIndex_def
    by (rule markup_page) (simp_all only: page_lines_def join_with.simps markup_append n rows if_distrib[of markup])
qed

lemma markup_buyer:
  assumes "buyer_shape b = buyer_shape c"
  shows "markup (renderBuyerDetail tx b) = markup (renderBuyerDetail ty c)"
proof -
  have s: "map negotiation_shape (by_negotiations b) = map negotiation_shape (by_negotiations c)"
    "length (by_deals b) = length (by_deals c)" using assms by (simp_all add: buyer_shape_def)
  show ?thesis unfolding renderBuyerDetail_def
    by (rule markup_page) (simp_all only: page_lines_def join_with.simps markup_simps markup_time[of "by_firstSeenAt _"]
        markup_time[of "by_updatedAt _"] markup_negotiations[OF s(1), of tx ty] markup_agreement_table[OF s(2)] list.size)
qed

lemma markup_detail:
  assumes "deal_shape d = deal_shape e"
  shows "markup (detail_body tx d x) = markup (detail_body ty e y)"
proof -
  have s: "length (stateTransitions (dl_history d)) = length (stateTransitions (dl_history e))"
    "map row_shape (filter (\<lambda>e. he_phase e = Negotiation) (dl_history d)) = map row_shape (filter (\<lambda>e. he_phase e = Negotiation) (dl_history e))"
    "map row_shape (filter (\<lambda>e. he_phase e \<noteq> Negotiation) (dl_history d)) = map row_shape (filter (\<lambda>e. he_phase e \<noteq> Negotiation) (dl_history e))"
    using assms by (simp_all add: deal_shape_def)
  show ?thesis unfolding detail_body_def
    by (simp only: page_lines_def join_with.simps markup_simps markup_links(2)[of "dl_termsDocumentHash _"] markup_time[of "first_seen _"]
        markup_time[of "dl_updatedAt _"] markup_state_history[OF s(1)] markup_history_table[OF s(2), of tx ty]
        markup_history_table[OF s(3), of tx ty])
qed


text \<open>
  C26: No text becomes markup. The tag brackets and quotes of the buyers' page, of a buyer's page and of an
  agreement's page are decided by how many rows the page has and which optional parts it shows:
  two records of the same shape give the same markup, whatever names, summaries, payloads, contracts
  or keys the counterparties chose.
\<close>
theorem markup_is_the_pages_own:
  assumes "map (\<lambda>b. length (by_deals b)) bs = map (\<lambda>b. length (by_deals b)) cs" and "buyer_shape b = buyer_shape c"
    and "deal_shape d = deal_shape e" and "renderAdminDetail tx d = Inr p" and "renderAdminDetail ty e = Inr q"
  shows "markup (renderAdminIndex bs) = markup (renderAdminIndex cs) \<and>
    markup (renderBuyerDetail tx b) = markup (renderBuyerDetail ty c) \<and> markup p = markup q"
proof -
  obtain x y where "p = page (dl_dealId d) [(''/'', ''Seller home''), (''/admin'', ''Buyers''),
      (buyerAdminPath (text_of (member (dl_contract d) ''buyerAgentId'')), ''Buyer'')] (detail_body tx d x) True"
    "q = page (dl_dealId e) [(''/'', ''Seller home''), (''/admin'', ''Buyers''),
      (buyerAdminPath (text_of (member (dl_contract e) ''buyerAgentId'')), ''Buyer'')] (detail_body ty e y) True"
    using assms(4,5) by (auto simp: renderAdminDetail_def res_bind_Inr_iff)
  moreover have "markup (detail_body tx d x) = markup (detail_body ty e y)" by (rule markup_detail[OF assms(3)])
  ultimately have "markup p = markup q" using markup_page[of "detail_body tx d x" "detail_body ty e y"] by simp
  then show ?thesis using markup_index[OF assms(1)] markup_buyer[OF assms(2)] by blast
qed

definition some_buyer :: "string \<Rightarrow> buyer_record" where
  "some_buyer name = \<lparr> by_buyerAgentId = name, by_firstSeenAt = 0, by_updatedAt = 0, by_negotiations = [], by_deals = [own_deal] \<rparr>"

theorem markup_is_the_pages_own_witness:
  "\<exists>p q. renderAdminDetail (\<lambda>_. []) own_deal = Inr p \<and>
     renderAdminDetail (\<lambda>_. []) (own_deal \<lparr> dl_dealId := ''<script>'' \<rparr>) = Inr q \<and> markup p = markup q \<and>
     markup (renderAdminIndex [some_buyer ''did:kite:x'']) = markup (renderAdminIndex [some_buyer ''<img src=x>''])"
proof -
  let ?d = "own_deal \<lparr> dl_dealId := ''<script>'' \<rparr>"
  have s: "buyer_signature own_deal = Inr JUndef" "buyer_signature ?d = Inr JUndef"
    by (simp_all add: buyer_signature_def own_deal_def own_contract_def)
  then obtain p q where r: "renderAdminDetail (\<lambda>_. []) own_deal = Inr p" "renderAdminDetail (\<lambda>_. []) ?d = Inr q"
    by (simp add: renderAdminDetail_def)
  have h: "map (\<lambda>b. length (by_deals b)) [some_buyer ''did:kite:x''] = map (\<lambda>b. length (by_deals b)) [some_buyer ''<img src=x>'']"
    "buyer_shape (some_buyer ''did:kite:x'') = buyer_shape (some_buyer ''<img src=x>'')" "deal_shape own_deal = deal_shape ?d"
    by (simp_all add: some_buyer_def buyer_shape_def deal_shape_def)
  from markup_is_the_pages_own[OF h r] r show ?thesis by blast
qed

section \<open>The state history\<close>

lemma map_first_state: "f a # map f (tl (remdups_adj (a # xs))) = map f (remdups_adj (a # xs))"
  by (metis list.simps(9) remdups_adj_Cons_alt)

lemma transitions_from_states:
  "map he_state (transitions_from st es) = map Some (case st of None \<Rightarrow> remdups_adj (List.map_filter he_state es)
     | Some t \<Rightarrow> tl (remdups_adj (t # List.map_filter he_state es)))"
proof (induction st es rule: transitions_from.induct)
  case (1 st)
  then show ?case by (cases st) (simp_all add: List.map_filter_simps)
next
  case (2 st e es)
  then show ?case
    by (cases st; cases "he_state e") (auto simp: List.map_filter_simps map_first_state split: if_splits)
qed

text \<open>
  The state history an agreement's page shows is the sequence of states its entries went through,
  without repetitions: no change of state is missing, none is shown twice, and their order is kept.
\<close>
theorem state_history_is_the_sequence_of_states:
  "map he_state (stateTransitions h) = map Some (remdups_adj (List.map_filter he_state h)) \<and> subseq (stateTransitions h) h"
proof -
  have "subseq (transitions_from st es) es" for st es
    by (induction st es rule: transitions_from.induct) auto
  then show ?thesis by (simp add: stateTransitions_def transitions_from_states)
qed

end
