(* ===== verification/CardProps.thy ===== *)
theory CardProps
  imports Card SellerRun
begin

text \<open>
  What the card publishes and what the seller charges: under any disclosure that passes the start-up check,
  the price of a quote is the published formula over the published rates, with every column charged at
  the tier the card declares for it.
\<close>

section \<open>The declared tiers\<close>








section \<open>The published price\<close>


section \<open>The disclosure of the card that is served\<close>





end
