(* ===== verification/Buyer.thy ===== *)
theory Buyer
  imports Server
begin

text \<open>
  \<open>scripts/buyer.ts\<close>: the buyer driver, one purchase against a running seller.  The script is a chain of
  network operations; each of its checks is a definition here, \<open>fail\<close> and every thrown error a
  constructor of \<open>buyer_failure\<close>, and the lines it prints are left out.  The environment, the random
  ids, the clock, the two readings of the verifier bundle and the lines of the corpus fixture are
  arguments.

  A delivered manifest is untrusted JSON.  \<open>read_manifest\<close> reads the members the verification looks at; a
  manifest in which one of them has another type ends in \<open>ManifestIllShaped\<close>, where the code goes on
  with whatever conversions the engine makes of it.
\<close>

datatype buyer_failure =
    BuyerThrew thrown
  | BuyerKeyInvalid signing_error
  | SellerAnsweredError jsval
  | NoNegotiationReply
  | ReplyUnreadable call_error
  | SellerRefused jsval
  | HashingThrew signing_error
  | DocumentHashDiffers
  | CriteriaDoNotPin
  | VerifierNotCarried
  | AckedOtherTerms
  | StructThrew settlement_error
  | AcceptedHashDiffers
  | FormationSignatureInvalid
  | SellerAgreementInvalid
  | ProofThrew extension_error
  | ManifestFetch int
  | ManifestHashDiffers
  | CsvHashDiffers
  | VerifierChanged
  | CorpusThrew data_error
  | ManifestIllShaped
  | VerificationThrew deliver_error
  | RegenerationFailed "delivery_problem list"

record buyer_config =
  bx_crypto :: crypto
  bx_env :: environment
  bx_ids :: "nat \<Rightarrow> string \<times> string"
  bx_bundle :: "string \<Rightarrow> string"
  bx_bundle_later :: "string \<Rightarrow> string"
  bx_path :: string
  bx_lines :: "string list"
  bx_collate :: "string \<Rightarrow> string \<Rightarrow> bool"
  bx_now :: int

definition SELLER_URL :: "environment \<Rightarrow> string" where
  "SELLER_URL env = env_or env ''SELLER_URL'' ''http://localhost:9998''"

definition BUYER_DID :: "environment \<Rightarrow> string" where
  "BUYER_DID env = env_or env ''BUYER_AGENT_ID'' ''did:kite:acme:buyer-17''"

definition BUYER_KEY :: "environment \<Rightarrow> (signing_error, string) res" where
  "BUYER_KEY env = fromHex (env_or env ''BUYER_PRIVATE_KEY'' (''0x'' @ repeat_string 32 ''11''))"

definition QUERY :: jsval where
  "QUERY = JObj [(''columns'', JArr [JStr ''DIABETES'', JStr ''BPHIGH'']), (''states'', JArr [JStr ''CA'']),
     (''counties'', JArr [JStr ''Alameda''])]"

section \<open>A negotiation round trip\<close>

definition negotiation_call :: "buyer_config \<Rightarrow> nat \<Rightarrow> jsval \<Rightarrow> http_request" where
  "negotiation_call B n payload =
     \<lparr> rq_method = ''POST'', rq_url = SELLER_URL (bx_env B) @ ''/a2a/v1'', rq_headers = RPC_HEADERS,
       rq_body = json_stringify (rpc_request (fst (bx_ids B n)) (snd (bx_ids B n)) NEGOTIATION_MEDIA_TYPE payload) \<rparr>"

definition reply_of_part :: "jsval \<Rightarrow> (buyer_failure, jsval) res" where
  "reply_of_part part =
     res_bind (map_error ReplyUnreadable (decode_raw (getp part ''raw''))) (\<lambda>v.
     res_bind (map_error BuyerThrew (read_member v ''kind'')) (\<lambda>kind.
     if strict_eq kind (JStr ''error'') then Inl (SellerRefused (getp v ''error'')) else Inr v))"

definition read_negotiation :: "jsval \<Rightarrow> (buyer_failure, jsval) res" where
  "read_negotiation body =
     res_bind (map_error BuyerThrew (read_member body ''error'')) (\<lambda>e.
     if truthy e then Inl (SellerAnsweredError e)
     else
       (case coalesce (getp (getp (getp body ''result'') ''message'') ''parts'') (JArr []) of
          JArr ps \<Rightarrow>
            res_bind (map_error BuyerThrew (find_part NEGOTIATION_MEDIA_TYPE ps)) (\<lambda>found.
              case found of None \<Rightarrow> Inl NoNegotiationReply | Some part \<Rightarrow> reply_of_part part)
        | _ \<Rightarrow> Inl (BuyerThrew type_error)))"

definition negotiate :: "buyer_config \<Rightarrow> nat \<Rightarrow> jsval \<Rightarrow> (buyer_failure, jsval) net" where
  "negotiate B n payload =
     net_bind (net_error BuyerThrew (send (negotiation_call B n payload))) (\<lambda>resp.
       net_return (res_bind (map_error BuyerThrew (resp_json resp)) read_negotiation))"

section \<open>The quote\<close>

definition query_payload :: "buyer_config \<Rightarrow> jsval" where
  "query_payload B = JObj [(''kind'', JStr ''query''), (''buyerAgentId'', JStr (BUYER_DID (bx_env B))), (''body'', QUERY)]"

definition document_hash :: "crypto \<Rightarrow> jsval \<Rightarrow> (signing_error, string) res" where
  "document_hash C doc = res_bind (jcs C doc) (\<lambda>b. Inr (sha256Ref C b))"

definition pinned_hash :: "jsval \<Rightarrow> jsval" where
  "pinned_hash criteria =
     (case parseAcceptanceCriteria (js_string criteria) of
        Some c \<Rightarrow> JStr (ac_termsDocumentHash c)
      | None \<Rightarrow> JUndef)"

definition check_verifier :: "crypto \<Rightarrow> (string \<Rightarrow> string) \<Rightarrow> buyer_failure \<Rightarrow> jsval \<Rightarrow> (buyer_failure, unit) res" where
  "check_verifier C read e doc =
     res_bind (map_error BuyerThrew (read_member doc ''verifierHash'')) (\<lambda>pin.
     if strict_eq (JStr (verifierBundleHash C read)) pin then Inr () else Inl e)"

definition check_quote :: "buyer_config \<Rightarrow> jsval \<Rightarrow> (buyer_failure, unit) res" where
  "check_quote B q =
     (let doc = getp q ''termsDocument''; claimed = getp q ''termsDocumentHash''
      in res_bind (map_error HashingThrew (document_hash (bx_crypto B) doc)) (\<lambda>h.
         if \<not> strict_eq (JStr h) claimed then Inl DocumentHashDiffers
         else if \<not> strict_eq (pinned_hash (getp q ''acceptanceCriteria'')) claimed then Inl CriteriaDoNotPin
         else check_verifier (bx_crypto B) (bx_bundle B) VerifierNotCarried doc))"

section \<open>The contract\<close>

definition unsigned_contract :: "environment \<Rightarrow> jsval \<Rightarrow> json" where
  "unsigned_contract env q =
     (let doc = getp q ''termsDocument''; seller = getp q ''seller''
      in [(''schema'', JStr ''https://a2a.gokite.ai/schemas/deal-contract/v1''), (''template'', JStr ''fixed_outcome/v1''),
          (''buyerAgentId'', JStr (BUYER_DID env)), (''sellerAgentId'', getp seller ''sellerAgentId''),
          (''deliverable'', JStr (''Synthetic individual-level CSV per the pinned terms document: '' @
             js_string (getp doc ''totalRows'') @ '' rows over '' @ js_string (getp doc ''tractCount'') @ '' tracts.'')),
          (''acceptanceCriteria'', getp q ''acceptanceCriteria''),
          (''price'', JObj [(''amount'', getp doc ''priceAmount''), (''asset'', JStr ''USDC'')]),
          (''escrow'', JObj [(''payoutAddress'', getp seller ''payoutAddress'')]),
          (''disputePolicy'', JObj [(''arbiterAgentId'', JStr ''did:kite:arbiterco:arbiter-01'')]),
          (''runtimeBinding'', JObj [(''runtimeAgentId'', JStr ''did:kite:kite:coordination-engine''),
             (''agentCardHash'', JStr (''sha256:'' @ repeat_string 32 ''aa'')), (''extensionUri'', JStr EXTENSION_URI),
             (''endpoint'', JStr (coordinationEndpoint env))])])"

definition terms_signature :: "crypto \<Rightarrow> environment \<Rightarrow> string \<Rightarrow> string \<Rightarrow> json" where
  "terms_signature C env key termsHash =
     [(''signerAgentId'', JStr (BUYER_DID env)), (''profile'', JStr ''secp256k1-keccak-v1''),
      (''keyId'', JStr (keyIdOf C (BUYER_DID env) key)), (''sig'', JStr (sign C key (termsSigningBytes termsHash)))]"

definition signed_contract :: "buyer_config \<Rightarrow> string \<Rightarrow> jsval \<Rightarrow> (buyer_failure, json \<times> string) res" where
  "signed_contract B key q =
     res_bind (map_error BuyerThrew (read_member (getp q ''seller'') ''sellerAgentId'')) (\<lambda>_.
     (let contract = unsigned_contract (bx_env B) q
      in res_bind (map_error HashingThrew (termsHashOf (bx_crypto B) contract)) (\<lambda>termsHash.
         Inr (map_set ''signatures'' (JArr [JObj (terms_signature (bx_crypto B) (bx_env B) key termsHash)]) contract,
           termsHash))))"

definition submit_payload :: "buyer_config \<Rightarrow> string \<Rightarrow> jsval \<Rightarrow> json \<Rightarrow> jsval" where
  "submit_payload B key q contract =
     JObj [(''kind'', JStr ''submit-proposal''), (''negotiationId'', getp q ''negotiationId''), (''contract'', JObj contract),
       (''buyerAddress'', JStr (addressOfPrivateKey (bx_crypto B) key))]"

section \<open>The countersignature\<close>

definition driver_agreement :: "crypto \<Rightarrow> string \<Rightarrow> jsval \<Rightarrow> string \<Rightarrow> string \<Rightarrow> json" where
  "driver_agreement C key q dealId termsHash =
     [(''agreementId'', JStr dealId), (''termsHash'', JStr termsHash),
      (''amount'', JStr (js_string (getp (getp q ''termsDocument'') ''priceAmount''))),
      (''buyerAgent'', JStr (addressOfPrivateKey C key)), (''sellerAgent'', getp (getp q ''seller'') ''sellerAddress'')]"

definition agreement_signature ::
  "buyer_config \<Rightarrow> string \<Rightarrow> jsval \<Rightarrow> string \<Rightarrow> string \<Rightarrow> (buyer_failure, string) res" where
  "agreement_signature B key q dealId termsHash =
     map_error StructThrew (signStruct (bx_crypto B) key (agreementDomain (Fin (of_int DEMO_CHAIN_ID))) (TYPE_STRINGS Agreement)
       (driver_agreement (bx_crypto B) key q dealId termsHash))"

definition acceptance_payload :: "string \<Rightarrow> string \<Rightarrow> jsval" where
  "acceptance_payload dealId sig =
     JObj [(''kind'', JStr ''acceptance-request''), (''dealId'', JStr dealId), (''buyerAgreementSig'', JStr sig)]"

text \<open>\<open>signatures[1]\<close>; reading a member of \<open>signatures\<close> throws when there is no such value.\<close>

definition second_element :: "jsval \<Rightarrow> (thrown, jsval) res" where
  "second_element v =
     (if nullish v then Inl type_error
      else Inr (case v of
        JArr xs \<Rightarrow> if 1 < length xs then xs ! 1 else JUndef
      | JStr s \<Rightarrow> if 1 < length s then JStr [s ! 1] else JUndef
      | _ \<Rightarrow> getp v ''1''))"

definition check_signatures ::
  "buyer_config \<Rightarrow> string \<Rightarrow> jsval \<Rightarrow> string \<Rightarrow> string \<Rightarrow> jsval \<Rightarrow> (buyer_failure, unit) res" where
  "check_signatures B key q dealId termsHash signature =
     (let C = bx_crypto B; address = js_string (getp (getp q ''seller'') ''sellerAddress'')
      in res_bind (map_error BuyerThrew (read_member signature ''sig'')) (\<lambda>sig.
         if \<not> verify C (js_string sig) (termsSigningBytes termsHash) address then Inl FormationSignatureInvalid
         else res_bind (map_error StructThrew (recoverStruct C (js_string (getp signature ''agreementSig''))
                (agreementDomain (Fin (of_int DEMO_CHAIN_ID))) (TYPE_STRINGS Agreement) (driver_agreement C key q dealId termsHash)))
           (\<lambda>signer. if signer \<noteq> Some (js_lower address) then Inl SellerAgreementInvalid else Inr ())))"

text \<open>A contract that is answered and is not an object is read as one without members.\<close>

definition check_countersigned ::
  "buyer_config \<Rightarrow> string \<Rightarrow> jsval \<Rightarrow> string \<Rightarrow> string \<Rightarrow> jsval \<Rightarrow> (buyer_failure, unit) res" where
  "check_countersigned B key q dealId termsHash accepted =
     res_bind (map_error BuyerThrew (read_member accepted ''signatures'')) (\<lambda>signatures.
     res_bind (map_error HashingThrew (termsHashOf (bx_crypto B) (members_of accepted))) (\<lambda>computed.
     if computed \<noteq> termsHash then Inl AcceptedHashDiffers
     else res_bind (map_error BuyerThrew (second_element signatures)) (\<lambda>signature.
       check_signatures B key q dealId termsHash signature)))"

section \<open>The delivery\<close>

definition delivery_payload :: "string \<Rightarrow> int \<Rightarrow> string \<Rightarrow> jsval" where
  "delivery_payload dealId requestedAt sig =
     JObj [(''kind'', JStr ''request-delivery''), (''dealId'', JStr dealId), (''requestedAt'', JInt requestedAt),
       (''buyerSig'', JStr sig)]"

definition check_manifest :: "crypto \<Rightarrow> jsval \<Rightarrow> string \<Rightarrow> (buyer_failure, jsval) res" where
  "check_manifest C delivery b =
     (if sha256Ref C b \<noteq> js_string (getp delivery ''deliveryHash'') then Inl ManifestHashDiffers
      else (case json_parse b of Some v \<Rightarrow> Inr v | None \<Rightarrow> Inl (BuyerThrew syntax_error)))"

definition check_csv :: "crypto \<Rightarrow> jsval \<Rightarrow> string \<Rightarrow> (buyer_failure, unit) res" where
  "check_csv C manifest csv =
     res_bind (map_error BuyerThrew (read_member manifest ''artifact'')) (\<lambda>artifact.
     res_bind (map_error BuyerThrew (read_member artifact ''contentHash'')) (\<lambda>h.
     if strict_eq (JStr (sha256Ref C csv)) h then Inr () else Inl CsvHashDiffers))"

definition download :: "string \<Rightarrow> (buyer_failure, http_response) net" where
  "download url = net_error BuyerThrew (send (http_get url))"

definition fetch_delivery :: "buyer_config \<Rightarrow> jsval \<Rightarrow> (buyer_failure, jsval \<times> string) net" where
  "fetch_delivery B delivery =
     net_bind (download (js_string (getp delivery ''manifestUrl''))) (\<lambda>resp.
     net_bind (net_return (if rs_status resp \<noteq> 200 then Inl (ManifestFetch (rs_status resp))
       else check_manifest (bx_crypto B) delivery (rs_body resp))) (\<lambda>manifest.
     net_bind (download (js_string (getp delivery ''csvUrl''))) (\<lambda>file.
     net_return (res_bind (check_csv (bx_crypto B) manifest (rs_body file)) (\<lambda>_. Inr (manifest, rs_body file))))))"

text \<open>The members of a manifest that the verification reads; the others are not looked at.\<close>

definition all_strings :: "jsval \<Rightarrow> string list option" where
  "all_strings v = (case v of JArr xs \<Rightarrow> those (map (\<lambda>x. case x of JStr s \<Rightarrow> Some s | _ \<Rightarrow> None) xs) | _ \<Rightarrow> None)"

definition nullable_string :: "jsval \<Rightarrow> string option option" where
  "nullable_string v = (case v of JNull \<Rightarrow> Some None | JStr s \<Rightarrow> Some (Some s) | _ \<Rightarrow> None)"

definition manifest_from ::
  "jsval \<Rightarrow> string \<Rightarrow> string \<Rightarrow> int \<Rightarrow> string \<Rightarrow> string list \<Rightarrow> string \<Rightarrow> string option \<Rightarrow> delivery_manifest" where
  "manifest_from m content_hash algorithm rows seed cols source quoted = \<lparr>
     dm_dealId = js_string (getp m ''dealId''), dm_productId = js_string (getp m ''productId''), dm_criteria = getp m ''criteria'',
     dm_criteriaHash = js_string (getp m ''criteriaHash''), dm_sourceStatsHash = source, dm_quotedStatsHash = quoted,
     dm_statsMatchQuote = truthy (getp m ''statsMatchQuote''), dm_rowCount = rows, dm_density = getp m ''density'',
     dm_columns = cols, dm_header = string_array (getp m ''header''), dm_seed = seed,
     dm_generator = \<lparr> gi_algorithm = algorithm, gi_prng = [], gi_weighting = [], gi_limitations = [] \<rparr>,
     dm_calibration = [], dm_calibrated = truthy (getp m ''calibrated''),
     dm_artifact = \<lparr> sa_contentHash = content_hash, sa_bytes = 0, sa_locator = [] \<rparr>,
     dm_generatedAt = js_string (getp m ''generatedAt'') \<rparr>"

definition read_manifest :: "jsval \<Rightarrow> delivery_manifest option" where
  "read_manifest m =
     (case (getp (getp m ''artifact'') ''contentHash'', getp (getp m ''generator'') ''algorithm'', getp m ''rowCount'',
            getp m ''seed'', all_strings (getp m ''columns''), getp m ''sourceStatsHash'',
            nullable_string (getp m ''quotedStatsHash'')) of
        (JStr h, JStr a, JNum (Fin n), JStr seed, Some cols, JStr source, Some quoted) \<Rightarrow>
          if n = of_int \<lfloor>n\<rfloor> then Some (manifest_from m h a \<lfloor>n\<rfloor> seed cols source quoted) else None
      | _ \<Rightarrow> None)"

definition regenerate :: "buyer_config \<Rightarrow> jsval \<Rightarrow> jsval \<Rightarrow> string \<Rightarrow> (buyer_failure, unit) res" where
  "regenerate B doc manifest csv =
     res_bind (check_verifier (bx_crypto B) (bx_bundle_later B) VerifierChanged doc) (\<lambda>_.
     res_bind (map_error CorpusThrew (loadPlaces (bx_path B) (bx_lines B))) (\<lambda>corpus.
     case read_manifest manifest of
       None \<Rightarrow> Inl ManifestIllShaped
     | Some m \<Rightarrow>
         res_bind (map_error VerificationThrew (verifyDelivery (bx_crypto B) (bx_collate B) m csv corpus (readQuery QUERY)))
           (\<lambda>verdict. if vf_ok verdict then Inr () else Inl (RegenerationFailed (vf_problems verdict)))))"

section \<open>The purchase\<close>

record purchase =
  pu_key :: string
  pu_quote :: jsval
  pu_contract :: json
  pu_termsHash :: string
  pu_dealId :: string
  pu_accepted :: jsval
  pu_delivery :: jsval
  pu_manifest :: jsval
  pu_csv :: string

definition buy_quote :: "buyer_config \<Rightarrow> (buyer_failure, jsval) net" where
  "buy_quote B =
     net_bind (negotiate B 0 (query_payload B)) (\<lambda>q. net_return (res_bind (check_quote B q) (\<lambda>_. Inr q)))"

definition buy_proposal :: "buyer_config \<Rightarrow> string \<Rightarrow> jsval \<Rightarrow> json \<Rightarrow> string \<Rightarrow> (buyer_failure, string) net" where
  "buy_proposal B key q contract termsHash =
     net_bind (negotiate B 1 (submit_payload B key q contract)) (\<lambda>ack.
       net_return (if strict_eq (getp ack ''termsHash'') (JStr termsHash) then Inr (js_string (getp ack ''dealId''))
         else Inl AckedOtherTerms))"

definition buy_countersignature ::
  "buyer_config \<Rightarrow> string \<Rightarrow> jsval \<Rightarrow> string \<Rightarrow> string \<Rightarrow> (buyer_failure, jsval) net" where
  "buy_countersignature B key q dealId termsHash =
     net_bind (net_return (agreement_signature B key q dealId termsHash)) (\<lambda>sig.
     net_bind (negotiate B 2 (acceptance_payload dealId sig)) (\<lambda>acceptance.
     net_return (res_bind (check_countersigned B key q dealId termsHash (getp acceptance ''contract''))
       (\<lambda>_. Inr (getp acceptance ''contract'')))))"

definition buy_delivery :: "buyer_config \<Rightarrow> string \<Rightarrow> string \<Rightarrow> (buyer_failure, jsval) net" where
  "buy_delivery B key dealId =
     (let requestedAt = bx_now B div 1000
      in net_bind (net_return (map_error ProofThrew (signDeliveryRequest (bx_crypto B) key dealId (Fin (of_int requestedAt)))))
           (\<lambda>sig. negotiate B 3 (delivery_payload dealId requestedAt sig)))"

text \<open>Steps 3 to 6: the proposal, the countersignature, the delivery and its regeneration.\<close>

definition carry_out :: "buyer_config \<Rightarrow> string \<Rightarrow> jsval \<Rightarrow> json \<Rightarrow> string \<Rightarrow> (buyer_failure, purchase) net" where
  "carry_out B key q contract termsHash =
     net_bind (buy_proposal B key q contract termsHash) (\<lambda>dealId.
     net_bind (buy_countersignature B key q dealId termsHash) (\<lambda>accepted.
     net_bind (buy_delivery B key dealId) (\<lambda>delivery.
     net_bind (fetch_delivery B delivery) (\<lambda>(manifest, csv).
     net_return (res_bind (regenerate B (getp q ''termsDocument'') manifest csv) (\<lambda>_.
       Inr \<lparr> pu_key = key, pu_quote = q, pu_contract = contract, pu_termsHash = termsHash, pu_dealId = dealId,
         pu_accepted = accepted, pu_delivery = delivery, pu_manifest = manifest, pu_csv = csv \<rparr>))))))"

definition buy :: "buyer_config \<Rightarrow> (buyer_failure, purchase) net" where
  "buy B =
     net_bind (net_return (map_error BuyerKeyInvalid (BUYER_KEY (bx_env B)))) (\<lambda>key.
     net_bind (buy_quote B) (\<lambda>q.
     net_bind (net_return (signed_contract B key q)) (\<lambda>(contract, termsHash).
     carry_out B key q contract termsHash)))"

end
