(* ===== verification/BuyerRun.thy ===== *)
theory BuyerRun
  imports Buyer SellerRun
begin

text \<open>
  One whole purchase, for the theorems that show the driver's checks can all hold: the sample key and
  digests, a corpus of one tract, a seller that gives one reply to everything it is asked, and a file
  with no measure columns.
\<close>

lemma net_bind_return_fst: "fst (net_bind m (\<lambda>v. net_return (g v)) fetch) = fst (m fetch)"
  by (simp add: fst_net_bind split: sum.split)

lemma net_bind_return_snd: "snd (net_bind m (\<lambda>v. net_return (g v)) fetch) = res_bind (snd (m fetch)) g"
  by (simp add: snd_net_bind)

lemma fst_negotiate: "fst (negotiate B n p fetch) = [(negotiation_call B n p, fetch (negotiation_call B n p))]"
  by (simp add: negotiate_def net_bind_return_fst net_error_def)

lemma fst_buy_quote:
  "fst (buy_quote B fetch) = [(negotiation_call B 0 (query_payload B), fetch (negotiation_call B 0 (query_payload B)))]"
  by (simp add: buy_quote_def net_bind_return_fst fst_negotiate)

lemma fst_buy_proposal:
  "fst (buy_proposal B key q c h fetch) =
     [(negotiation_call B 1 (submit_payload B key q c), fetch (negotiation_call B 1 (submit_payload B key q c)))]"
  by (simp add: buy_proposal_def net_bind_return_fst fst_negotiate)

definition sale_line :: string where
  "sale_line = ''CA,California,Alameda,06001,06001400100,4000,3000,1,1,1,1,1,1,1,1''"

definition sale_driver :: buyer_config where
  "sale_driver = \<lparr> bx_crypto = sample_crypto, bx_env = (\<lambda>_. None), bx_ids = (\<lambda>_. (''r'', ''m'')), bx_bundle = (\<lambda>_. []),
     bx_bundle_later = (\<lambda>_. []), bx_path = ''places.csv'', bx_lines = [sample_header, sale_line], bx_collate = str_le,
     bx_now = 0 \<rparr>"

lemma sale_driver_sel [simp]:
  "bx_crypto sale_driver = sample_crypto" "bx_env sale_driver = (\<lambda>_. None)" "bx_bundle sale_driver = (\<lambda>_. [])"
  "bx_bundle_later sale_driver = (\<lambda>_. [])" "bx_collate sale_driver = str_le" "bx_now sale_driver = 0"
  by (simp_all add: sale_driver_def)

definition sale_key :: string where
  "sale_key = replicate 32 (CHR 0x11)"

lemma sale_key: "BUYER_KEY (\<lambda>_. None) = Inr sale_key"
  unfolding sale_key_def by code_simp

definition sale_pin :: string where
  "sale_pin = verifierBundleHash sample_crypto (\<lambda>_. [])"

definition sale_terms :: jsval where
  "sale_terms = JObj [(''totalRows'', JInt 1), (''tractCount'', JInt 1), (''verifierHash'', JStr sale_pin), (''priceAmount'', JStr ''6.00'')]"

definition sale_seller :: jsval where
  "sale_seller = JObj [(''sellerAgentId'', JStr ''did:kite:s:y''), (''payoutAddress'', JStr ''0x33''),
     (''sellerAddress'', JStr (addressOfPrivateKey sample_crypto ''s''))]"

definition sale_quote :: "string \<Rightarrow> json \<Rightarrow> jsval" where
  "sale_quote dh rest = JObj ([(''kind'', JStr ''x''), (''termsDocument'', sale_terms), (''termsDocumentHash'', JStr dh),
     (''acceptanceCriteria'', JStr (buildAcceptanceCriteria dh ''http://s'')), (''seller'', sale_seller)] @ rest)"

lemma sale_quote_members:
  "getp (sale_quote dh rest) ''kind'' = JStr ''x''"
  "getp (sale_quote dh rest) ''termsDocument'' = sale_terms"
  "getp (sale_quote dh rest) ''termsDocumentHash'' = JStr dh"
  "getp (sale_quote dh rest) ''acceptanceCriteria'' = JStr (buildAcceptanceCriteria dh ''http://s'')"
  "getp (sale_quote dh rest) ''seller'' = sale_seller"
  by (simp_all add: sale_quote_def)

lemma sale_document: "\<exists>dh. document_hash sample_crypto sale_terms = Inr dh \<and> well_formed_ref dh"
proof -
  obtain b where "jcs sample_crypto sale_terms = Inr b" using quiet_jcs unfolding sale_terms_def by blast
  then show ?thesis using sha256Ref_well_formed[OF sample_crypto_ok(1), of b] by (simp add: document_hash_def)
qed

lemma sale_check:
  assumes "document_hash sample_crypto sale_terms = Inr dh" and "well_formed_ref dh"
  shows "check_quote sale_driver (sale_quote dh rest) = Inr ()"
proof -
  have "no_space (locator_base ''http://s'')" by code_simp
  from parse_build[OF assms(2) this] have "pinned_hash (JStr (buildAcceptanceCriteria dh ''http://s'')) = JStr dh" by (simp add: pinned_hash_def)
  moreover have "getp sale_terms ''verifierHash'' = JStr sale_pin" "\<not> nullish sale_terms" by (simp_all add: sale_terms_def nullish_def)
  ultimately show ?thesis
    by (simp add: check_quote_def sale_quote_members assms(1) check_verifier_def read_member_def sale_pin_def)
qed

definition sale_contract :: "string \<Rightarrow> json" where
  "sale_contract dh = unsigned_contract (\<lambda>_. None) (sale_quote dh [])"

lemma sale_unsigned: "unsigned_contract (\<lambda>_. None) (sale_quote dh rest) = sale_contract dh"
  by (simp add: sale_contract_def unsigned_contract_def sale_quote_members)

section \<open>The file\<close>

definition sale_corpus :: corpus where
  "sale_corpus = (case loadPlaces ''places.csv'' [sample_header, sale_line] of Inr c \<Rightarrow> c)"

definition sale_tracts :: "tract list" where
  "sale_tracts = m_tracts (evaluateQuery (readQuery QUERY) sale_corpus)"

lemma sale_loads: "loadPlaces ''places.csv'' [sample_header, sale_line] = Inr sale_corpus"
proof -
  have "(case loadPlaces ''places.csv'' [sample_header, sale_line] of Inr c \<Rightarrow> True | Inl e \<Rightarrow> False)" by code_simp
  then show ?thesis by (auto simp: sale_corpus_def split: sum.splits)
qed

lemma sale_one_tract: "length sale_tracts = 1"
  by code_simp

lemma sale_stats: "\<exists>h a. statsCommitment C str_le (aggregateStats sale_tracts []) (readQuery QUERY) = Inr (h, a)"
proof -
  have "hashable (scaled_stats str_le (aggregateStats sale_tracts []))" "hashable (criteria_of str_le (readQuery QUERY))" by code_simp+
  then show ?thesis using statsCommitment_ok by fastforce
qed

definition sale_options :: synthesis_options where
  "sale_options = \<lparr> opt_rowCount = 1, opt_rowsPerTract = Some 1, opt_seed = ''s'', opt_columns = [] \<rparr>"

lemma one_person:
  assumes "length ts = 1"
  shows "\<exists>people. generateSyntheticPeople C lc ts sale_options = Inr people"
proof -
  from assms obtain t where "ts = [t]" by (cases ts) auto
  then show ?thesis
    by (simp add: generateSyntheticPeople_def sale_options_def MAX_ROWS_def assignment_def
      allocateRows_def row_tract_def flat_assignment_def remainder_order_def)
qed

definition sale_manifest :: "string \<Rightarrow> string \<Rightarrow> jsval" where
  "sale_manifest content source = JObj [(''artifact'', JObj [(''contentHash'', JStr content)]),
     (''generator'', JObj [(''algorithm'', JStr GENERATOR_ALGORITHM)]), (''rowCount'', JInt 1),
     (''density'', JObj [(''rowsPerTract'', JInt 1)]), (''seed'', JStr ''s''), (''columns'', JArr []),
     (''sourceStatsHash'', JStr source), (''quotedStatsHash'', JNull), (''calibrated'', JBool True)]"

lemma rat_is_int_one [simp]: "rat_is_int 1"
  by code_simp

lemma sale_manifest_plain: "json_plain (sale_manifest content source)"
  by (simp add: sale_manifest_def is_digit_def)

lemma sale_manifest_read:
  "\<exists>m. read_manifest (sale_manifest content source) = Some m \<and> sa_contentHash (dm_artifact m) = content \<and>
     gi_algorithm (dm_generator m) = GENERATOR_ALGORITHM \<and> dm_rowCount m = 1 \<and> rows_of_density (dm_density m) = 1 \<and>
     isValidV2Density (dm_density m) \<and> dm_seed m = ''s'' \<and> dm_columns m = [] \<and> dm_sourceStatsHash m = source \<and>
     dm_quotedStatsHash m = None \<and> dm_calibrated m"
  by (simp add: read_manifest_def sale_manifest_def manifest_from_def all_strings_def nullable_string_def rows_of_density_def
      isValidV2Density_def typeof_def num_is_finite_def num_is_integer_def)

lemma sale_verifies:
  assumes "generateSyntheticPeople sample_crypto str_le sale_tracts sale_options = Inr people"
    and "statsCommitment sample_crypto str_le (aggregateStats sale_tracts []) (readQuery QUERY) = Inr (source, a)"
    and "getp doc ''verifierHash'' = JStr sale_pin" and "\<not> nullish doc"
  shows "regenerate sale_driver doc (sale_manifest (sha256Ref sample_crypto (serializeCsv people [])) source) (serializeCsv people []) = Inr ()"
proof -
  obtain m where m: "read_manifest (sale_manifest (sha256Ref sample_crypto (serializeCsv people [])) source) = Some m"
    "sa_contentHash (dm_artifact m) = sha256Ref sample_crypto (serializeCsv people [])"
    "gi_algorithm (dm_generator m) = GENERATOR_ALGORITHM" "dm_rowCount m = 1" "rows_of_density (dm_density m) = 1"
    "isValidV2Density (dm_density m)" "dm_seed m = ''s''" "dm_columns m = []" "dm_sourceStatsHash m = source"
    "dm_quotedStatsHash m = None" "dm_calibrated m"
    using sale_manifest_read by blast
  have "verifyDelivery sample_crypto str_le m (serializeCsv people []) sale_corpus (readQuery QUERY) =
      Inr \<lparr> vf_ok = True, vf_problems = [], vf_regeneratedHash = Some (sha256Ref sample_crypto (serializeCsv people [])) \<rparr>"
    using assms(1,2) by (simp add: verifyDelivery_def Let_def m(2-) sale_tracts_def sale_options_def)
  moreover have "loadPlaces (bx_path sale_driver) (bx_lines sale_driver) = Inr sale_corpus" using sale_loads by (simp add: sale_driver_def)
  ultimately show ?thesis by (simp add: regenerate_def m(1) check_verifier_def read_member_def assms(3,4) sale_pin_def)
qed

section \<open>The reply\<close>

lemma decode_plain: "json_plain v \<Longrightarrow> decode_raw (JStr (base64 (printed v))) = Inr v"
  by (simp add: decode_raw_def parse_plain)

definition negotiation_reply :: "jsval \<Rightarrow> jsval" where
  "negotiation_reply v = JObj [(''jsonrpc'', JStr ''2.0''), (''result'', JObj [(''message'',
     JObj [(''parts'', JArr [json_part NEGOTIATION_MEDIA_TYPE v])])])]"

lemma read_negotiation_reply:
  assumes "json_plain v" and "\<not> nullish v" and "getp v ''kind'' = JStr ''x''"
  shows "res_bind (map_error BuyerThrew (resp_json \<lparr> rs_status = 200, rs_body = printed (negotiation_reply v) \<rparr>)) read_negotiation = Inr v"
proof -
  have "json_plain (negotiation_reply v)" by (simp add: negotiation_reply_def json_part_def is_digit_def)
  from parse_plain[OF this] have p: "resp_json \<lparr> rs_status = 200, rs_body = printed (negotiation_reply v) \<rparr> = Inr (negotiation_reply v)"
    by (simp add: resp_json_def)
  have "printed v \<noteq> []" using printed_head(1)[OF assms(1)] by simp
  then have "base64 (printed v) \<noteq> []" using base64_inject[of "printed v" "[]"] by simp
  then have "find_part NEGOTIATION_MEDIA_TYPE [json_part NEGOTIATION_MEDIA_TYPE v] = Inr (Some (json_part NEGOTIATION_MEDIA_TYPE v))"
    by (simp add: json_part_def read_member_def nullish_def)
  then show ?thesis
    using assms(2,3) unfolding p
    by (simp add: read_negotiation_def negotiation_reply_def read_member_def nullish_def reply_of_part_def coalesce_def)
      (simp add: json_part_def decode_plain[OF assms(1)] nullish_def)
qed

text \<open>A seller with one answer to every POST, and a file under each of two addresses.\<close>

definition one_answer :: "jsval \<Rightarrow> string \<Rightarrow> string \<Rightarrow> fetch" where
  "one_answer v manifest csv rq =
     Inr \<lparr> rs_status = 200, rs_body = (if rq_method rq = ''POST'' then printed (negotiation_reply v)
       else if rq_url rq = ''http://m'' then manifest else csv) \<rparr>"

lemma negotiate_one_answer:
  assumes "json_plain v" and "\<not> nullish v" and "getp v ''kind'' = JStr ''x''"
  shows "\<exists>xs. negotiate B n payload (one_answer v m csv) = (xs, Inr v)"
proof -
  have "one_answer v m csv (negotiation_call B n payload) = Inr \<lparr> rs_status = 200, rs_body = printed (negotiation_reply v) \<rparr>"
    by (simp add: one_answer_def negotiation_call_def)
  then have "snd (negotiate B n payload (one_answer v m csv)) = Inr v"
    using read_negotiation_reply[OF assms] by (simp add: negotiate_def snd_net_bind net_error_def)
  then show ?thesis by (metis prod.collapse)
qed

section \<open>The run\<close>

definition sale_countersigned :: "string \<Rightarrow> string \<Rightarrow> string \<Rightarrow> json" where
  "sale_countersigned dh h agreementSig = map_set ''signatures''
     (JArr [JNull, JObj [(''sig'', JStr (sign sample_crypto ''s'' (termsSigningBytes h))), (''agreementSig'', JStr agreementSig)]])
     (sale_contract dh)"

definition sale_rest :: "json \<Rightarrow> string \<Rightarrow> string \<Rightarrow> json" where
  "sale_rest accepted h manifest = [(''termsHash'', JStr h), (''dealId'', JStr ''deal_1''), (''contract'', JObj accepted),
     (''manifestUrl'', JStr ''http://m''), (''csvUrl'', JStr ''http://c''), (''deliveryHash'', JStr (sha256Ref sample_crypto manifest))]"

lemma sale_rest_members:
  "getp (sale_quote dh (sale_rest a h m)) ''termsHash'' = JStr h"
  "getp (sale_quote dh (sale_rest a h m)) ''dealId'' = JStr ''deal_1''"
  "getp (sale_quote dh (sale_rest a h m)) ''contract'' = JObj a"
  "getp (sale_quote dh (sale_rest a h m)) ''manifestUrl'' = JStr ''http://m''"
  "getp (sale_quote dh (sale_rest a h m)) ''csvUrl'' = JStr ''http://c''"
  "getp (sale_quote dh (sale_rest a h m)) ''deliveryHash'' = JStr (sha256Ref sample_crypto m)"
  by (simp_all add: sale_quote_def sale_rest_def)

lemma sale_contract_plain: "json_plain (JObj (map_set ''signatures'' v (sale_contract dh))) = json_plain v"
  by (simp add: sale_contract_def unsigned_contract_def sale_quote_members sale_seller_def sale_terms_def is_digit_def map_set_def)

lemma sale_reply_plain: "json_plain (sale_quote dh (sale_rest (sale_countersigned dh h asig) h m))"
proof -
  have "json_plain (JObj (sale_countersigned dh h asig))" unfolding sale_countersigned_def sale_contract_plain by (simp add: is_digit_def)
  then show ?thesis by (simp add: sale_quote_def sale_rest_def sale_terms_def sale_seller_def is_digit_def)
qed

lemma sale_agreement:
  assumes "well_formed_ref h"
  shows "\<exists>sig. signStruct sample_crypto key (agreementDomain (Fin (of_int DEMO_CHAIN_ID))) (TYPE_STRINGS Agreement)
      (driver_agreement sample_crypto sale_key (sale_quote dh rest) ''deal_1'' h) = Inr sig"
proof -
  have af: "address_form (addressOfPrivateKey sample_crypto x)" for x
    using address_of_pubkey_form[OF sample_crypto_ok(1)] by (simp add: addressOfPrivateKey_def)
  have usdc: "usdcBaseUnits ''6.00'' = Inr 6000000" by code_simp
  have d: "driver_agreement sample_crypto sale_key (sale_quote dh rest) ''deal_1'' h =
      agreementStruct ''deal_1'' h ''6.00'' (addressOfPrivateKey sample_crypto sale_key) (addressOfPrivateKey sample_crypto ''s'')"
    by (simp add: driver_agreement_def agreementStruct_def sale_quote_members sale_terms_def sale_seller_def)
  from agreement_preimage_total[OF assms usdc _ _ af[of sale_key] af[of "''s''"], where c = DEMO_CHAIN_ID and C = sample_crypto and d = "''deal_1''"]
  show ?thesis unfolding d by (auto simp: signStruct_def DEMO_CHAIN_ID_def simp del: TYPE_STRINGS.simps)
qed

lemma sale_run:
  obtains fetch xs p m where "buy sale_driver fetch = (xs, Inr p)" "1 < length xs" "read_manifest (pu_manifest p) = Some m"
    "dm_columns m = []"
proof -
  let ?C = sample_crypto
  obtain dh where dh: "document_hash ?C sale_terms = Inr dh" "well_formed_ref dh" using sale_document by blast
  obtain b where "jcs ?C (JObj (omit [''signatures'', ''termsHash''] (sale_contract dh))) = Inr b" using quiet_jcs by blast
  then obtain h where h: "termsHashOf ?C (sale_contract dh) = Inr h" "well_formed_ref h"
    using sha256Ref_well_formed[OF sample_crypto_ok(1), of b] by (simp add: termsHashOf_def)
  obtain people where people: "generateSyntheticPeople ?C str_le sale_tracts sale_options = Inr people"
    using one_person[OF sale_one_tract] by blast
  obtain source a where source: "statsCommitment ?C str_le (aggregateStats sale_tracts []) (readQuery QUERY) = Inr (source, a)"
    using sale_stats by blast
  let ?csv = "serializeCsv people []"
  let ?mj = "sale_manifest (sha256Ref ?C ?csv) source"
  obtain asig where asig: "signStruct ?C ''s'' (agreementDomain (Fin (of_int DEMO_CHAIN_ID))) (TYPE_STRINGS Agreement)
      (driver_agreement ?C sale_key (sale_quote dh []) ''deal_1'' h) = Inr asig" using sale_agreement[OF h(2)] by blast
  let ?a = "sale_countersigned dh h asig"
  let ?v = "sale_quote dh (sale_rest ?a h (printed ?mj))"
  let ?f = "one_answer ?v (printed ?mj) ?csv"
  have dq: "driver_agreement ?C sale_key ?v ''deal_1'' h = driver_agreement ?C sale_key (sale_quote dh []) ''deal_1'' h"
    by (simp add: driver_agreement_def sale_quote_members)
  obtain bsig where bsig: "agreement_signature sale_driver sale_key ?v ''deal_1'' h = Inr bsig"
    using sale_agreement[OF h(2), where key = sale_key and dh = dh and rest = "[]"]
    by (auto simp: agreement_signature_def dq simp del: TYPE_STRINGS.simps)
  have nn: "\<not> nullish ?v" by (simp add: sale_quote_def nullish_def)
  have say: "\<exists>xs. negotiate B n payload ?f = (xs, Inr ?v)" for B n payload
    by (rule negotiate_one_answer[OF sale_reply_plain nn sale_quote_members(1)])
  obtain x0 where q: "buy_quote sale_driver ?f = (x0, Inr ?v)"
    using say[of sale_driver 0 "query_payload sale_driver"] sale_check[OF dh, of "sale_rest ?a h (printed ?mj)"]
    by (auto simp: buy_quote_def net_bind_def)
  let ?c = "map_set ''signatures'' (JArr [JObj (terms_signature ?C (\<lambda>_. None) sale_key h)]) (sale_contract dh)"
  have c: "signed_contract sale_driver sale_key ?v = Inr (?c, h)"
    using h(1) by (simp add: signed_contract_def sale_quote_members read_member_def sale_seller_def nullish_def sale_unsigned[unfolded sale_seller_def])
  obtain x1 where p: "buy_proposal sale_driver sale_key ?v ?c h ?f = (x1, Inr ''deal_1'')"
    using say[of sale_driver 1 "submit_payload sale_driver sale_key ?v ?c"]
    by (auto simp: buy_proposal_def net_bind_def sale_rest_members)
  have el: "second_element (getp (JObj ?a) ''signatures'') =
      Inr (JObj [(''sig'', JStr (sign ?C ''s'' (termsSigningBytes h))), (''agreementSig'', JStr asig)])"
    by (simp add: sale_countersigned_def second_element_def nullish_def)
  have seller: "js_string (getp sale_seller ''sellerAddress'') = addressOfPrivateKey ?C ''s''"
    "js_lower (addressOfPrivateKey ?C ''s'') = addressOfPrivateKey ?C ''s''"
    using address_of_pubkey_form[OF sample_crypto_ok(1)] address_form_lower by (simp_all add: sale_seller_def addressOfPrivateKey_def)
  have sg: "check_signatures sale_driver sale_key ?v ''deal_1'' h
      (JObj [(''sig'', JStr (sign ?C ''s'' (termsSigningBytes h))), (''agreementSig'', JStr asig)]) = Inr ()"
    using verify_sign[OF sample_crypto_ok(2,1), of "''s''" "termsSigningBytes h"] signStruct_Inr[OF asig sample_crypto_ok(2)]
    by (simp add: check_signatures_def Let_def read_member_def nullish_def sale_quote_members seller dq del: TYPE_STRINGS.simps)
  have k: "check_countersigned sale_driver sale_key ?v ''deal_1'' h (JObj ?a) = Inr ()"
    using h(1) sg unfolding check_countersigned_def
    by (simp add: read_member_def nullish_def el[simplified] members_of_def sale_countersigned_def termsHashOf_signatures second_element_def)
  obtain x2 where cs: "buy_countersignature sale_driver sale_key ?v ''deal_1'' h ?f = (x2, Inr (JObj ?a))"
    using say[of sale_driver 2 "acceptance_payload ''deal_1'' bsig"] k
    by (auto simp: buy_countersignature_def net_bind_def bsig sale_rest_members)
  obtain ps where ps: "signDeliveryRequest ?C sale_key ''deal_1'' (Fin 0) = Inr ps"
    using quiet_jcs[of "[(''dealId'', JStr ''deal_1''), (''requestedAt'', JNum (Fin 0))]"]
    by (auto simp: signDeliveryRequest_def deliveryRequestSigningBytes_def from_signing_def)
  obtain x3 where dv: "buy_delivery sale_driver sale_key ''deal_1'' ?f = (x3, Inr ?v)"
    using say[of sale_driver 3 "delivery_payload ''deal_1'' 0 ps"] by (auto simp: buy_delivery_def net_bind_def ps)
  obtain x4 where fd: "fetch_delivery sale_driver ?v ?f = (x4, Inr (?mj, ?csv))"
    by (simp add: fetch_delivery_def download_def net_error_def net_bind_def one_answer_def http_get_def sale_rest_members
        check_manifest_def parse_plain[OF sale_manifest_plain] check_csv_def read_member_def)
      (simp add: sale_manifest_def nullish_def)
  have t: "getp sale_terms ''verifierHash'' = JStr sale_pin" "\<not> nullish sale_terms" by (simp_all add: sale_terms_def nullish_def)
  have rg: "regenerate sale_driver (getp ?v ''termsDocument'') ?mj ?csv = Inr ()"
    using sale_verifies[OF people source t] by (simp add: sale_quote_members)
  let ?p = "\<lparr> pu_key = sale_key, pu_quote = ?v, pu_contract = ?c, pu_termsHash = h, pu_dealId = ''deal_1'',
         pu_accepted = JObj ?a, pu_delivery = ?v, pu_manifest = ?mj, pu_csv = ?csv \<rparr>"
  have run: "buy sale_driver ?f = (x0 @ x1 @ x2 @ x3 @ x4, Inr ?p)"
    by (simp add: buy_def carry_out_def net_bind_def sale_key q c p cs dv fd rg)
  have "length x0 = 1" "length x1 = 1"
    using q p by (metis fst_buy_quote fst_conv length_Cons list.size(3) One_nat_def, metis fst_buy_proposal fst_conv length_Cons list.size(3) One_nat_def)
  then show ?thesis using that[OF run] sale_manifest_read by fastforce
qed

end
