(* ===== verification/BuyerProps.thy ===== *)
theory BuyerProps
  imports BuyerRun
begin

text \<open>
  What the buyer driver signs, and what it is content with.  The purchase is a chain of network
  operations; the lemmas about one \<open>net_bind\<close> take a run of it apart.
\<close>

lemma net_bind_Inr:
  "net_bind m f fetch = (xs, Inr w) \<longleftrightarrow> (\<exists>ys zs v. m fetch = (ys, Inr v) \<and> f v fetch = (zs, Inr w) \<and> xs = ys @ zs)"
proof (cases "m fetch")
  case (Pair ys r)
  then show ?thesis
  proof (cases r)
    case (Inr v)
    with Pair show ?thesis by (cases "f v fetch") (auto simp: net_bind_def)
  qed (simp add: net_bind_def)
qed

lemma net_return_bind: "net_bind (net_return r) f fetch = (case r of Inl e \<Rightarrow> ([], Inl e) | Inr v \<Rightarrow> f v fetch)"
  by (cases r) (simp_all add: net_bind_def)

lemma check_verifier_Inr:
  "check_verifier C f e doc = Inr u \<longleftrightarrow> \<not> nullish doc \<and> getp doc ''verifierHash'' = JStr (verifierBundleHash C f)"
  by (auto simp: check_verifier_def read_member_def res_bind_Inr_iff)

lemma check_quote_Inr:
  assumes "check_quote B q = Inr u"
  shows "\<exists>h c. document_hash (bx_crypto B) (getp q ''termsDocument'') = Inr h \<and> getp q ''termsDocumentHash'' = JStr h \<and>
    parseAcceptanceCriteria (js_string (getp q ''acceptanceCriteria'')) = Some c \<and> ac_termsDocumentHash c = h \<and>
    getp (getp q ''termsDocument'') ''verifierHash'' = JStr (verifierBundleHash (bx_crypto B) (bx_bundle B))"
  using assms
  by (auto simp: check_quote_def Let_def res_bind_Inr_iff check_verifier_Inr pinned_hash_def split: if_splits option.splits)

lemma unsigned_contract_members:
  "member (unsigned_contract env q) ''acceptanceCriteria'' = getp q ''acceptanceCriteria''"
  "member (unsigned_contract env q) ''price'' = JObj [(''amount'', getp (getp q ''termsDocument'') ''priceAmount''), (''asset'', JStr ''USDC'')]"
  "member (unsigned_contract env q) ''sellerAgentId'' = getp (getp q ''seller'') ''sellerAgentId''"
  "member (unsigned_contract env q) ''buyerAgentId'' = JStr (BUYER_DID env)"
  "member (unsigned_contract env q) ''escrow'' = JObj [(''payoutAddress'', getp (getp q ''seller'') ''payoutAddress'')]"
  "member (unsigned_contract env q) ''disputePolicy'' = JObj [(''arbiterAgentId'', JStr ''did:kite:arbiterco:arbiter-01'')]"
  "member (unsigned_contract env q) ''runtimeBinding'' = JObj [(''runtimeAgentId'', JStr ''did:kite:kite:coordination-engine''),
     (''agentCardHash'', JStr (''sha256:'' @ repeat_string 32 ''aa'')), (''extensionUri'', JStr EXTENSION_URI),
     (''endpoint'', JStr (coordinationEndpoint env))]"
  "member (unsigned_contract env q) ''deliverable'' = JStr (''Synthetic individual-level CSV per the pinned terms document: '' @
     js_string (getp (getp q ''termsDocument'') ''totalRows'') @ '' rows over '' @
     js_string (getp (getp q ''termsDocument'') ''tractCount'') @ '' tracts.'')"
  by (simp_all add: unsigned_contract_def Let_def)

lemma signed_contract_Inr:
  "signed_contract B key q = Inr (c, h) \<longleftrightarrow>
     \<not> nullish (getp q ''seller'') \<and> termsHashOf (bx_crypto B) (unsigned_contract (bx_env B) q) = Inr h \<and>
     c = map_set ''signatures'' (JArr [JObj (terms_signature (bx_crypto B) (bx_env B) key h)]) (unsigned_contract (bx_env B) q)"
  by (auto simp: signed_contract_def read_member_def res_bind_Inr_iff Let_def)

lemma signed_contract_hash: "signed_contract B key q = Inr (c, h) \<Longrightarrow> termsHashOf (bx_crypto B) c = Inr h"
  by (simp add: signed_contract_Inr termsHashOf_signatures)

lemma buy_quote_Inr:
  "buy_quote B fetch = (xs, Inr q) \<longleftrightarrow> negotiate B 0 (query_payload B) fetch = (xs, Inr q) \<and> check_quote B q = Inr ()"
  by (auto simp: buy_quote_def net_bind_Inr res_bind_Inr_iff)

section \<open>Before the first signature\<close>

text \<open>
  C10: The buyer signs only what it has checked. When anything but the query has left the driver, the
  quote it was answered carries a terms document that hashes to the hash it claims, its acceptance
  criteria pin that hash, and the document pins the verifier this checkout carries; and what was
  sent next is the proposal of the contract built from that quote, signed over its terms hash.
\<close>
theorem buyer_signs_only_what_it_checked:
  assumes "buy B fetch = (xs, r)" and "1 < length xs"
  shows "\<exists>key q d c contract h. BUYER_KEY (bx_env B) = Inr key \<and> snd (negotiate B 0 (query_payload B) fetch) = Inr q \<and>
    document_hash (bx_crypto B) (getp q ''termsDocument'') = Inr d \<and> getp q ''termsDocumentHash'' = JStr d \<and>
    parseAcceptanceCriteria (js_string (member contract ''acceptanceCriteria'')) = Some c \<and> ac_termsDocumentHash c = d \<and>
    getp (getp q ''termsDocument'') ''verifierHash'' = JStr (verifierBundleHash (bx_crypto B) (bx_bundle B)) \<and>
    member contract ''price'' = JObj [(''amount'', getp (getp q ''termsDocument'') ''priceAmount''), (''asset'', JStr ''USDC'')] \<and>
    termsHashOf (bx_crypto B) contract = Inr h \<and>
    member contract ''signatures'' = JArr [JObj (terms_signature (bx_crypto B) (bx_env B) key h)] \<and>
    map fst (take 2 xs) = [negotiation_call B 0 (query_payload B), negotiation_call B 1 (submit_payload B key q contract)]"
proof -
  obtain key where key: "BUYER_KEY (bx_env B) = Inr key"
    using assms by (cases "BUYER_KEY (bx_env B)") (auto simp: buy_def net_return_bind)
  obtain q ys where q: "buy_quote B fetch = (ys, Inr q)"
    using assms fst_buy_quote[of B fetch] by (cases "buy_quote B fetch"; cases "snd (buy_quote B fetch)")
      (auto simp: buy_def net_return_bind key net_bind_def)
  have ys: "ys = [(negotiation_call B 0 (query_payload B), fetch (negotiation_call B 0 (query_payload B)))]"
    using fst_buy_quote[of B fetch] q by simp
  obtain contract h where c: "signed_contract B key q = Inr (contract, h)"
    using assms by (cases "signed_contract B key q") (auto simp: buy_def net_return_bind key net_bind_def[of "buy_quote B"] q ys)
  obtain zs where xs: "xs = ys @ (negotiation_call B 1 (submit_payload B key q contract),
      fetch (negotiation_call B 1 (submit_payload B key q contract))) # zs"
  proof -
    from assms(1) have "xs = ys @ fst (carry_out B key q contract h fetch)"
      by (auto simp: buy_def net_return_bind key net_bind_def[of "buy_quote B"] q c)
    then show ?thesis using that by (simp add: carry_out_def fst_net_bind[of "buy_proposal B key q contract h"] fst_buy_proposal)
  qed
  have n: "snd (negotiate B 0 (query_payload B) fetch) = Inr q" and k: "check_quote B q = Inr ()" using q by (simp_all add: buy_quote_Inr)
  have m: "member contract ''acceptanceCriteria'' = getp q ''acceptanceCriteria''"
    "member contract ''price'' = JObj [(''amount'', getp (getp q ''termsDocument'') ''priceAmount''), (''asset'', JStr ''USDC'')]"
    "member contract ''signatures'' = JArr [JObj (terms_signature (bx_crypto B) (bx_env B) key h)]"
    using c by (simp_all add: signed_contract_Inr unsigned_contract_members)
  have t: "map fst (take 2 xs) = [negotiation_call B 0 (query_payload B), negotiation_call B 1 (submit_payload B key q contract)]"
    by (simp add: xs ys)
  obtain d e where e: "document_hash (bx_crypto B) (getp q ''termsDocument'') = Inr d" "getp q ''termsDocumentHash'' = JStr d"
    "parseAcceptanceCriteria (js_string (member contract ''acceptanceCriteria'')) = Some e" "ac_termsDocumentHash e = d"
    "getp (getp q ''termsDocument'') ''verifierHash'' = JStr (verifierBundleHash (bx_crypto B) (bx_bundle B))"
    using check_quote_Inr[OF k] unfolding m(1) by blast
  show ?thesis
    by (intro exI[of _ key] exI[of _ q] exI[of _ d] exI[of _ e] exI[of _ contract] exI[of _ h] conjI
        key n e m(2,3) t signed_contract_hash[OF c])
qed

theorem buyer_signs_only_what_it_checked_witness:
  "\<exists>fetch xs r key q contract. buy sale_driver fetch = (xs, r) \<and> map fst (take 2 xs) =
     [negotiation_call sale_driver 0 (query_payload sale_driver), negotiation_call sale_driver 1 (submit_payload sale_driver key q contract)]"
proof -
  obtain fetch xs p where b: "buy sale_driver fetch = (xs, Inr p)" "1 < length xs" by (rule sale_run) blast
  from buyer_signs_only_what_it_checked[OF this] obtain key q contract where "map fst (take 2 xs) =
     [negotiation_call sale_driver 0 (query_payload sale_driver), negotiation_call sale_driver 1 (submit_payload sale_driver key q contract)]"
    by (elim exE conjE)
  with b(1) show ?thesis by (intro exI conjI)
qed

section \<open>After the purchase\<close>

lemma buy_Inr:
  "buy B fetch = (xs, Inr p) \<Longrightarrow> \<exists>ys zs. BUYER_KEY (bx_env B) = Inr (pu_key p) \<and> buy_quote B fetch = (ys, Inr (pu_quote p)) \<and>
     signed_contract B (pu_key p) (pu_quote p) = Inr (pu_contract p, pu_termsHash p) \<and>
     carry_out B (pu_key p) (pu_quote p) (pu_contract p) (pu_termsHash p) fetch = (zs, Inr p)"
  by (auto simp: buy_def net_bind_Inr carry_out_def res_bind_Inr_iff)

lemma carry_out_Inr:
  "carry_out B key q c h fetch = (xs, Inr p) \<Longrightarrow> \<exists>v w x y.
     buy_proposal B key q c h fetch = (v, Inr (pu_dealId p)) \<and>
     buy_countersignature B key q (pu_dealId p) h fetch = (w, Inr (pu_accepted p)) \<and>
     buy_delivery B key (pu_dealId p) fetch = (x, Inr (pu_delivery p)) \<and>
     fetch_delivery B (pu_delivery p) fetch = (y, Inr (pu_manifest p, pu_csv p)) \<and>
     regenerate B (getp q ''termsDocument'') (pu_manifest p) (pu_csv p) = Inr ()"
  by (auto simp: net_bind_Inr carry_out_def res_bind_Inr_iff)

lemma buy_countersignature_Inr:
  "buy_countersignature B key q k h fetch = (xs, Inr a) \<Longrightarrow> check_countersigned B key q k h a = Inr ()"
  by (auto simp: buy_countersignature_def net_bind_Inr res_bind_Inr_iff)

definition seller_named :: "jsval \<Rightarrow> string" where
  "seller_named q = js_string (getp (getp q ''seller'') ''sellerAddress'')"

lemma check_countersigned_Inr:
  "check_countersigned B key q k h a = Inr () \<longleftrightarrow> \<not> nullish a \<and> termsHashOf (bx_crypto B) (members_of a) = Inr h \<and>
     (\<exists>s. second_element (getp a ''signatures'') = Inr s \<and> \<not> nullish s \<and>
        recover (bx_crypto B) (js_string (getp s ''sig'')) (termsSigningBytes h) = Some (js_lower (seller_named q)) \<and>
        recoverStruct (bx_crypto B) (js_string (getp s ''agreementSig'')) (agreementDomain (Fin (of_int DEMO_CHAIN_ID)))
          (TYPE_STRINGS Agreement) (driver_agreement (bx_crypto B) key q k h) = Inr (Some (js_lower (seller_named q))))"
  by (auto simp: check_countersigned_def check_signatures_def read_member_def res_bind_Inr_iff verify_iff seller_named_def Let_def
      split: if_splits simp del: TYPE_STRINGS.simps)

lemma check_manifest_Inr:
  "check_manifest C delivery b = Inr m \<longleftrightarrow> sha256Ref C b = js_string (getp delivery ''deliveryHash'') \<and> json_parse b = Some m"
  by (auto simp: check_manifest_def split: option.splits)

lemma fetch_delivery_Inr:
  "fetch_delivery B delivery fetch = (xs, Inr (m, csv)) \<Longrightarrow> \<exists>b resp.
     fetch (http_get (js_string (getp delivery ''manifestUrl''))) = Inr \<lparr> rs_status = 200, rs_body = b \<rparr> \<and>
     sha256Ref (bx_crypto B) b = js_string (getp delivery ''deliveryHash'') \<and> json_parse b = Some m \<and>
     fetch (http_get (js_string (getp delivery ''csvUrl''))) = Inr resp \<and> rs_body resp = csv"
  by (auto simp: fetch_delivery_def download_def net_error_def net_bind_Inr res_bind_Inr_iff check_manifest_Inr
      split: sum.splits if_splits intro!: exI[of _ "rs_body _"])

lemma regenerate_Inr:
  "regenerate B doc m csv = Inr () \<Longrightarrow> \<exists>corpus dm v. loadPlaces (bx_path B) (bx_lines B) = Inr corpus \<and> read_manifest m = Some dm \<and>
     verifyDelivery (bx_crypto B) (bx_collate B) dm csv corpus (readQuery QUERY) = Inr v \<and> vf_ok v \<and>
     getp doc ''verifierHash'' = JStr (verifierBundleHash (bx_crypto B) (bx_bundle_later B))"
  by (auto simp: regenerate_def res_bind_Inr_iff check_verifier_Inr split: option.splits if_splits)

text \<open>
  C30: A purchase that ends well is signed twice by the seller. The contract the driver was answered has
  the terms hash the buyer signed, the formation signature in it recovers to the seller the quote
  named, and so does the Agreement signature, over the struct of this deal, that hash, the quoted
  amount, the buyer's address and the seller's.
\<close>
theorem purchase_is_countersigned:
  assumes "buy B fetch = (xs, Inr p)"
  shows "\<exists>s. termsHashOf (bx_crypto B) (pu_contract p) = Inr (pu_termsHash p) \<and>
    termsHashOf (bx_crypto B) (members_of (pu_accepted p)) = Inr (pu_termsHash p) \<and>
    second_element (getp (pu_accepted p) ''signatures'') = Inr s \<and>
    recover (bx_crypto B) (js_string (getp s ''sig'')) (termsSigningBytes (pu_termsHash p)) = Some (js_lower (seller_named (pu_quote p))) \<and>
    recoverStruct (bx_crypto B) (js_string (getp s ''agreementSig'')) (agreementDomain (Fin (of_int DEMO_CHAIN_ID)))
      (TYPE_STRINGS Agreement) (driver_agreement (bx_crypto B) (pu_key p) (pu_quote p) (pu_dealId p) (pu_termsHash p))
      = Inr (Some (js_lower (seller_named (pu_quote p))))"
proof -
  from buy_Inr[OF assms] have c: "signed_contract B (pu_key p) (pu_quote p) = Inr (pu_contract p, pu_termsHash p)" by blast
  from buy_Inr[OF assms] carry_out_Inr buy_countersignature_Inr
  have "check_countersigned B (pu_key p) (pu_quote p) (pu_dealId p) (pu_termsHash p) (pu_accepted p) = Inr ()" by meson
  with signed_contract_hash[OF c] show ?thesis unfolding check_countersigned_Inr by blast
qed

theorem purchase_is_countersigned_witness:
  "\<exists>fetch xs p h. buy sale_driver fetch = (xs, Inr p) \<and> termsHashOf sample_crypto (pu_contract p) = Inr h \<and>
     termsHashOf sample_crypto (members_of (pu_accepted p)) = Inr h"
proof -
  obtain fetch xs p where b: "buy sale_driver fetch = (xs, Inr p)" by (rule sale_run) blast
  from purchase_is_countersigned[OF this] b show ?thesis unfolding sale_driver_sel by blast
qed

text \<open>
  C11: What the driver is content with is what the seller claims to have made. The manifest it fetched has
  the delivery hash it was told, names the verified algorithm, and was used with the verifier the
  terms pin; and the file is, byte for byte, the one the buyer regenerates from the manifest's seed
  over its own corpus, unless two files collide, of a slice whose statistics hash to the manifest's.
\<close>
theorem purchased_file_is_regenerated:
  assumes "buy B fetch = (xs, Inr p)"
  shows "\<exists>b corpus m people csv h. sha256Ref (bx_crypto B) b = js_string (getp (pu_delivery p) ''deliveryHash'') \<and>
    json_parse b = Some (pu_manifest p) \<and> read_manifest (pu_manifest p) = Some m \<and>
    getp (getp (pu_quote p) ''termsDocument'') ''verifierHash'' = JStr (verifierBundleHash (bx_crypto B) (bx_bundle_later B)) \<and>
    gi_algorithm (dm_generator m) = GENERATOR_ALGORITHM \<and> loadPlaces (bx_path B) (bx_lines B) = Inr corpus \<and>
    generateSyntheticPeople (bx_crypto B) (bx_collate B) (m_tracts (evaluateQuery (readQuery QUERY) corpus))
      \<lparr> opt_rowCount = dm_rowCount m, opt_rowsPerTract = Some (rows_of_density (dm_density m)), opt_seed = dm_seed m,
        opt_columns = dm_columns m \<rparr> = Inr people \<and>
    csv = serializeCsv people (dm_columns m) \<and> (pu_csv p = csv \<or> collision (bx_crypto B) (pu_csv p) csv) \<and>
    statsCommitment (bx_crypto B) (bx_collate B)
      (aggregateStats (m_tracts (evaluateQuery (readQuery QUERY) corpus)) (dm_columns m)) (readQuery QUERY)
      = Inr (dm_sourceStatsHash m, h)"
proof -
  from buy_Inr[OF assms] carry_out_Inr obtain y where
    f: "fetch_delivery B (pu_delivery p) fetch = (y, Inr (pu_manifest p, pu_csv p))"
    and r: "regenerate B (getp (pu_quote p) ''termsDocument'') (pu_manifest p) (pu_csv p) = Inr ()" by meson
  obtain b where b: "sha256Ref (bx_crypto B) b = js_string (getp (pu_delivery p) ''deliveryHash'')" "json_parse b = Some (pu_manifest p)"
    using fetch_delivery_Inr[OF f] by blast
  obtain corpus m v where m: "loadPlaces (bx_path B) (bx_lines B) = Inr corpus" "read_manifest (pu_manifest p) = Some m"
    "verifyDelivery (bx_crypto B) (bx_collate B) m (pu_csv p) corpus (readQuery QUERY) = Inr v" "vf_ok v"
    "getp (getp (pu_quote p) ''termsDocument'') ''verifierHash'' = JStr (verifierBundleHash (bx_crypto B) (bx_bundle_later B))"
    using regenerate_Inr[OF r] by blast
  from m(3,4) obtain people h where g:
    "generateSyntheticPeople (bx_crypto B) (bx_collate B) (m_tracts (evaluateQuery (readQuery QUERY) corpus))
       \<lparr> opt_rowCount = dm_rowCount m, opt_rowsPerTract = Some (rows_of_density (dm_density m)), opt_seed = dm_seed m,
         opt_columns = dm_columns m \<rparr> = Inr people"
    "sha256Ref (bx_crypto B) (pu_csv p) = sa_contentHash (dm_artifact m)"
    "sha256Ref (bx_crypto B) (serializeCsv people (dm_columns m)) = sa_contentHash (dm_artifact m)"
    "statsCommitment (bx_crypto B) (bx_collate B)
       (aggregateStats (m_tracts (evaluateQuery (readQuery QUERY) corpus)) (dm_columns m)) (readQuery QUERY)
       = Inr (dm_sourceStatsHash m, h)"
    "gi_algorithm (dm_generator m) = GENERATOR_ALGORITHM"
    by (rule verifyDelivery_ok)
  have "pu_csv p = serializeCsv people (dm_columns m) \<or> collision (bx_crypto B) (pu_csv p) (serializeCsv people (dm_columns m))"
    by (rule sha256Ref_eq_cases) (simp add: g(2,3))
  then show ?thesis
    by (intro exI[of _ b] exI[of _ corpus] exI[of _ m] exI[of _ people] exI[of _ "serializeCsv people (dm_columns m)"]
        exI[of _ h] conjI b m(1,2,5) g(1,4,5) refl)
qed

text \<open>
  The witness buys two measures and is content with a file that has none of them: the driver holds
  the file against the manifest, and not the manifest against the terms document.
\<close>
theorem purchased_file_is_regenerated_witness:
  "\<exists>fetch xs p m csv people. buy sale_driver fetch = (xs, Inr p) \<and> columns (readQuery QUERY) = [''DIABETES'', ''BPHIGH''] \<and>
     read_manifest (pu_manifest p) = Some m \<and> dm_columns m = [] \<and> csv = serializeCsv people (dm_columns m) \<and>
     (pu_csv p = csv \<or> collision sample_crypto (pu_csv p) csv)"
proof -
  obtain fetch xs p m where b: "buy sale_driver fetch = (xs, Inr p)" "read_manifest (pu_manifest p) = Some m" "dm_columns m = []"
    by (rule sale_run) blast
  have q: "columns (readQuery QUERY) = [''DIABETES'', ''BPHIGH'']" by code_simp
  from purchased_file_is_regenerated[OF b(1)] obtain people csv where
    "csv = serializeCsv people (dm_columns m)" "pu_csv p = csv \<or> collision sample_crypto (pu_csv p) csv"
    unfolding b(2) sale_driver_sel by blast
  with b q show ?thesis by blast
qed

section \<open>With an honest seller\<close>

text \<open>The reply the service makes of a stored quote, as the driver reads it.\<close>

definition quoted_reply :: "seller_config \<Rightarrow> negotiation \<Rightarrow> quote_record \<Rightarrow> jsval" where
  "quoted_reply X n r = JObj (quote_reply X (QuoteAccepted (qr_facts r), n, Some r))"

lemma quoted_reply_members:
  "getp (quoted_reply X n r) ''termsDocument'' = JObj (terms_members (qr_termsDocument r))"
  "getp (quoted_reply X n r) ''termsDocumentHash'' = JStr (qr_termsDocumentHash r)"
  "getp (quoted_reply X n r) ''acceptanceCriteria'' = JStr (acceptanceCriteriaFor X r)"
  "getp (quoted_reply X n r) ''seller'' = JObj (identityBlock X)"
  by (simp_all add: quoted_reply_def quote_reply_def)

lemma identityBlock_members:
  "member (identityBlock X) ''sellerAgentId'' = JStr (SELLER_AGENT_ID (sx_env X))"
  "member (identityBlock X) ''sellerAddress'' = JStr (seller_address X)"
  "member (identityBlock X) ''payoutAddress'' = JStr (SELLER_PAYOUT_ADDRESS (sx_env X))"
  by (simp_all add: identityBlock_def)

lemma terms_members_read:
  "member (terms_members d) ''priceAmount'' = JStr (td_priceAmount d)" "member (terms_members d) ''verifierHash'' = JStr (td_verifierHash d)"
  by (simp_all add: terms_members_def)

lemma criteria_pin:
  assumes "quote_ok X s g r" and "digests_ok (sx_crypto X)" and "no_space (locator_base (sx_publicUrl X))"
  shows "\<exists>c. parseAcceptanceCriteria (acceptanceCriteriaFor X r) = Some c \<and> ac_termsDocumentHash c = qr_termsDocumentHash r"
proof -
  from assms(1) have "termsDocumentHashOf (sx_crypto X) (qr_termsDocument r) = Inr (qr_termsDocumentHash r)" by (simp add: quote_ok_def)
  then obtain b where "sha256Ref (sx_crypto X) b = qr_termsDocumentHash r" by (auto simp: termsDocumentHashOf_def res_bind_Inr_iff)
  with sha256Ref_well_formed[OF assms(2), of b] have "well_formed_ref (qr_termsDocumentHash r)" by simp
  from parse_build[OF this assms(3)] show ?thesis by (simp add: acceptanceCriteriaFor_def)
qed

lemma honest_quote_passes:
  assumes "quote_ok X s g r" and "digests_ok (sx_crypto X)" and "no_space (locator_base (sx_publicUrl X))"
    and "bx_crypto B = sx_crypto X" and "sx_verifierHash X = verifierBundleHash (sx_crypto X) (bx_bundle B)"
  shows "check_quote B (quoted_reply X n r) = Inr ()"
proof -
  have v: "td_verifierHash (qr_termsDocument r) = sx_verifierHash X" using assms(1) by (auto simp: quote_ok_def terms_of_quote_def)
  have h: "document_hash (sx_crypto X) (JObj (terms_members (qr_termsDocument r))) = Inr (qr_termsDocumentHash r)"
    using assms(1) by (simp add: quote_ok_def document_hash_def termsDocumentHashOf_def)
  from criteria_pin[OF assms(1-3)] show ?thesis
    by (auto simp: check_quote_def quoted_reply_members h assms(4,5) pinned_hash_def check_verifier_Inr terms_members_read v nullish_def)
qed

definition ARBITER :: string where
  "ARBITER = ''did:kite:arbiterco:arbiter-01''"

text \<open>Both parties name the same endpoint, and the arbiter is neither of them.\<close>

definition parties_fit :: "environment \<Rightarrow> environment \<Rightarrow> bool" where
  "parties_fit buyer seller \<longleftrightarrow> coordinationEndpoint buyer = coordinationEndpoint seller \<and>
     BUYER_DID buyer \<noteq> ARBITER \<and> SELLER_AGENT_ID seller \<noteq> ARBITER"

lemma driver_contract_acceptable:
  assumes "quote_ok X s g r" and "digests_ok (sx_crypto X)" and "no_space (locator_base (sx_publicUrl X))"
    and "parties_fit (bx_env B) (sx_env X)" and "signed_contract B key (quoted_reply X n r) = Inr (c, h)"
  shows "terms_acceptable (sx_crypto X) (sx_env X) c (quote_context r)"
    "member c ''signatures'' = JArr [JObj (terms_signature (bx_crypto B) (bx_env B) key h)]"
    "member c ''buyerAgentId'' = JStr (BUYER_DID (bx_env B))"
    "sub_member c ''price'' ''amount'' = JStr (td_priceAmount (qr_termsDocument r))"
    "text_of (member c ''acceptanceCriteria'') = acceptanceCriteriaFor X r"
proof -
  have m: "member c k = member (unsigned_contract (bx_env B) (quoted_reply X n r)) k" if "k \<noteq> ''signatures''" for k
    using assms(5) that by (simp add: signed_contract_Inr)
  show "member c ''signatures'' = JArr [JObj (terms_signature (bx_crypto B) (bx_env B) key h)]"
    using assms(5) by (simp add: signed_contract_Inr)
  show "member c ''buyerAgentId'' = JStr (BUYER_DID (bx_env B))" by (simp add: m unsigned_contract_members)
  show "sub_member c ''price'' ''amount'' = JStr (td_priceAmount (qr_termsDocument r))"
    by (simp add: sub_member_def m unsigned_contract_members quoted_reply_members terms_members_read coalesce_def nullish_def)
  show "text_of (member c ''acceptanceCriteria'') = acceptanceCriteriaFor X r"
    by (simp add: m unsigned_contract_members quoted_reply_members text_of_def coalesce_def nullish_def)
  have "termsDocumentHashOf (sx_crypto X) (qr_termsDocument r) = Inr (qr_termsDocumentHash r)" using assms(1) by (simp add: quote_ok_def)
  with criteria_pin[OF assms(1-3)] assms(4)
  show "terms_acceptable (sx_crypto X) (sx_env X) c (quote_context r)"
    by (auto simp: terms_acceptable_def quote_context_def sub_member_def m unsigned_contract_members quoted_reply_members
        identityBlock_members terms_members_read coalesce_def nullish_def text_of_def parties_fit_def ARBITER_def js_trim_def is_ws_def)
qed

lemma honest_agreement:
  "driver_agreement (sx_crypto X) key (quoted_reply X n r) k h =
     agreementStruct k h (td_priceAmount (qr_termsDocument r)) (addressOfPrivateKey (sx_crypto X) key) (seller_address X)"
  by (simp add: driver_agreement_def agreementStruct_def quoted_reply_members identityBlock_members terms_members_read)

lemma countersigned_passes:
  assumes "curve_ok (sx_crypto X)" and "digests_ok (sx_crypto X)" and "bx_crypto B = sx_crypto X"
    and "countersign X k d c r sig None = Inr a" and "termsHashOf (sx_crypto X) c = Inr h"
    and "dl_buyerAddress d = addressOfPrivateKey (sx_crypto X) key"
    and "sub_member c ''price'' ''amount'' = JStr (td_priceAmount (qr_termsDocument r))"
  shows "check_countersigned B key (quoted_reply X n r) k h (JObj a) = Inr ()"
proof -
  from assms(4) obtain own i where
    a: "acceptTerms (sx_crypto X) (sx_env X) i = Inr a" and i: "i = \<lparr> ai_contract = c, ai_buyerAddress = dl_buyerAddress d, ai_dealId = k,
           ai_buyerAgreementSig = sig, ai_privateKey = sx_privateKey X, ai_keyId = seller_keyId X,
           ai_sellerAddress = seller_address X, ai_chainId = None,
           ai_validation = \<lparr> tv_termsDocument = qr_termsDocument r, tv_recomputed = own \<rparr> \<rparr>"
    by (auto simp: countersign_def res_bind_Inr_iff)
  from a obtain h' ps sg where h': "termsHashOf (sx_crypto X) (ai_contract i) = Inr h'"
    and sg: "signStruct (sx_crypto X) (ai_privateKey i) (accepted_domain i) (TYPE_STRINGS Agreement) (accepted_struct i h') = Inr sg"
    and f: "a = map_set ''signatures''
       (JArr [JObj (map_set ''agreementSig'' (JStr (ai_buyerAgreementSig i)) (members_of ps)),
              acceptance_signature (sx_crypto X) (sx_env X) i h' sg]) (ai_contract i)"
    by (rule acceptTerms_Inr)
  have hh: "h' = h" using h' assms(5) by (simp add: i)
  have st: "accepted_struct i h = driver_agreement (sx_crypto X) key (quoted_reply X n r) k h"
    by (simp add: accepted_struct_def i honest_agreement assms(6,7))
  have dm: "accepted_domain i = agreementDomain (Fin (of_int DEMO_CHAIN_ID))" by (simp add: accepted_domain_def i)
  let ?own = "acceptance_signature (sx_crypto X) (sx_env X) i h sg"
  have own: "getp ?own ''agreementSig'' = JStr sg" "getp ?own ''sig'' = JStr (sign (sx_crypto X) (sx_privateKey X) (termsSigningBytes h))"
    "\<not> nullish ?own"
    by (simp_all add: acceptance_signature_def i nullish_def)
  have name: "seller_named (quoted_reply X n r) = addressOfPrivateKey (sx_crypto X) (sx_privateKey X)"
    by (simp add: seller_named_def quoted_reply_members identityBlock_members seller_address_def)
  have low: "js_lower (addressOfPrivateKey (sx_crypto X) (sx_privateKey X)) = addressOfPrivateKey (sx_crypto X) (sx_privateKey X)"
    using address_of_pubkey_form[OF assms(2)] address_form_lower by (simp add: addressOfPrivateKey_def)
  have rs: "recoverStruct (sx_crypto X) sg (agreementDomain (Fin (of_int DEMO_CHAIN_ID))) (TYPE_STRINGS Agreement)
      (driver_agreement (sx_crypto X) key (quoted_reply X n r) k h) = Inr (Some (addressOfPrivateKey (sx_crypto X) (sx_privateKey X)))"
    using signStruct_Inr[OF sg assms(1)] unfolding hh st dm by (simp add: i)
  have th: "termsHashOf (sx_crypto X) a = Inr h" using assms(5) by (simp add: f i termsHashOf_signatures)
  have el: "second_element (getp (JObj a) ''signatures'') = Inr ?own" by (simp add: f hh second_element_def nullish_def)
  have rc: "recover (sx_crypto X) (js_string (getp ?own ''sig'')) (termsSigningBytes h) = Some (addressOfPrivateKey (sx_crypto X) (sx_privateKey X))"
    by (simp add: own recover_sign[OF assms(1)])
  show ?thesis
    unfolding check_countersigned_Inr assms(3) name low
    using th el rc rs own(1,3) by (simp add: members_of_def nullish_def del: TYPE_STRINGS.simps)
qed

text \<open>
  C5: Honest parties agree. When the seller serves a quote and the driver carries the verifier the seller
  pins, the reply passes the driver's checks; the contract the driver builds from it is taken as a
  proposal and countersigned under the driver's Agreement signature; and the contract that comes back
  passes the driver's checks of both of the seller's signatures.
\<close>
theorem honest_parties_agree:
  assumes "reachable X (s, P)" and "curve_ok (sx_crypto X)" and "digests_ok (sx_crypto X)"
    and "map_get (quotes s) g = Some r" and "qr_buyerAgentId r = BUYER_DID (bx_env B)"
    and "no_space (locator_base (sx_publicUrl X))" and "parties_fit (bx_env B) (sx_env X)"
    and "bx_crypto B = sx_crypto X" and "sx_verifierHash X = verifierBundleHash (sx_crypto X) (bx_bundle B)"
    and "map_get (deals s) (''deal_'' @ to_hex random) = None" and "''deal_'' @ to_hex random \<notin> pd_dealId ` P"
    and "signed_contract B key (quoted_reply X n r) = Inr (c, h)"
    and "agreement_signature B key (quoted_reply X n r) (''deal_'' @ to_hex random) h = Inr sig"
  shows "check_quote B (quoted_reply X n r) = Inr () \<and>
    (\<exists>s1 d s2 a. propose X now random g c (addressOfPrivateKey (bx_crypto B) key) s = (s1, Inr d) \<and>
       accept X later (''deal_'' @ to_hex random) sig None None s1 = (s2, Inr a) \<and>
       check_countersigned B key (quoted_reply X n r) (''deal_'' @ to_hex random) h (JObj a) = Inr ())"
proof -
  let ?k = "''deal_'' @ to_hex random" and ?buyer = "addressOfPrivateKey (bx_crypto B) key"
  have inv: "seller_inv X P s" using reachable_inv[OF assms(1)] by simp
  note qk = seller_invD(5)[OF inv assms(4)]
  note dc = driver_contract_acceptable[OF qk assms(3,6,7,12)]
  obtain m where pin: "parseAcceptanceCriteria (acceptanceCriteriaFor X r) = Some m" "ac_termsDocumentHash m = qr_termsDocumentHash r"
    using criteria_pin[OF qk assms(3,6)] by blast
  have h: "termsHashOf (sx_crypto X) c = Inr h" using signed_contract_hash[OF assms(12)] by (simp add: assms(8))
  obtain s1 d where p: "propose X now random g c ?buyer s = (s1, Inr d)" "quotes s1 = quotes s" "map_get (deals s1) ?k = Some d"
    "dl_contract d = c" "dl_buyerAddress d = ?buyer" "dl_negotiationId d = g"
    by (rule propose_taken[OF inv assms(4) pin(1)[folded dc(5)] pin(2) _ h]) (simp add: dc(3) assms(5))
  have "reachable X (s1, P)"
    using reachable.later[OF assms(1) seller_step.propose_step[OF assms(10), where X = X and now = now and g = g and contract = c and buyerAddress = ?buyer]]
    using assms(11) unfolding p(1) by simp
  then have inv1: "seller_inv X P s1" using reachable_inv by force
  have r1: "map_get (quotes s1) (dl_negotiationId d) = Some r" using p(2,6) assms(4) by simp
  have sig: "signStruct (sx_crypto X) key (agreementDomain (Fin (of_int DEMO_CHAIN_ID))) (TYPE_STRINGS Agreement)
      (agreementStruct ?k h (js_string (sub_member (dl_contract d) ''price'' ''amount'')) (dl_buyerAddress d) (seller_address X)) = Inr sig"
    using assms(13) by (simp add: agreement_signature_def p(4,5) dc(4) honest_agreement assms(8) del: TYPE_STRINGS.simps)
  obtain a where a: "countersign X ?k d (dl_contract d) r sig None = Inr a"
    using accept_countersigns[OF inv1 assms(2,3) p(3) r1, where h = h and bk = key and buyer = "BUYER_DID (bx_env B)"
        and ps = "terms_signature (bx_crypto B) (bx_env B) key h" and sig = sig] dc(1-3) h sig
    by (auto simp: p(4,5) terms_signature_def assms(8) simp del: TYPE_STRINGS.simps)
  then have "countersign X ?k d (case None of Some c \<Rightarrow> c | None \<Rightarrow> dl_contract d) r sig None = Inr a" by simp
  then obtain s2 where s2: "accept X later ?k sig None None s1 = (s2, Inr a)"
    by (rule accept_result[OF p(3) r1, where now = later]) blast
  have "check_countersigned B key (quoted_reply X n r) ?k h (JObj a) = Inr ()"
    by (rule countersigned_passes[OF assms(2,3,8) a[unfolded p(4)] h _ dc(4)]) (simp add: p(5) assms(8))
  with p(1) s2 honest_quote_passes[OF qk assms(3,6,8,9)] show ?thesis by blast
qed

definition quiet_driver :: buyer_config where
  "quiet_driver = sale_driver \<lparr> bx_env := (\<lambda>k. if k = ''BUYER_AGENT_ID'' then Some quiet_buyer else None) \<rparr>"

lemma quiet_driver_sel:
  "bx_crypto quiet_driver = sample_crypto" "bx_bundle quiet_driver = (\<lambda>_. [])" "BUYER_DID (bx_env quiet_driver) = quiet_buyer"
  "parties_fit (bx_env quiet_driver) (\<lambda>_. None)"
  by (simp_all add: quiet_driver_def BUYER_DID_def env_or_def parties_fit_def coordinationEndpoint_def ARBITER_def quiet_buyer_def
      SELLER_AGENT_ID_def)

theorem honest_parties_agree_witness:
  "\<exists>r n k s1 s2 d a g c h sig. check_quote quiet_driver (quoted_reply quiet_seller n r) = Inr () \<and>
     propose quiet_seller 0 ''d'' g c (addressOfPrivateKey sample_crypto ''b'') s1 = (s2, Inr d) \<and>
     check_countersigned quiet_driver ''b'' (quoted_reply quiet_seller n r) k h (JObj a) = Inr () \<and>
     agreement_signature quiet_driver ''b'' (quoted_reply quiet_seller n r) k h = Inr sig"
proof -
  obtain s1 r n facts where q: "quote quiet_seller 0 ''r'' quiet_buyer quiet_body new_seller = (s1, Inr (facts, n, Some r))"
    "map_get (quotes s1) ''neg_72'' = Some r" "deals s1 = []" "qr_buyerAgentId r = quiet_buyer" "td_priceAmount (qr_termsDocument r) = ''6.00''"
    by (rule quiet_quoted)
  have "map_get (negotiations new_seller) (''neg_'' @ to_hex ''r'') = None" by (simp add: new_seller_def)
  from reachable.later[OF reachable.start seller_step.quote_step[OF this, where X = quiet_seller and now = 0 and buyer = quiet_buyer and body = quiet_body]]
  have r1: "reachable quiet_seller (s1, {})" unfolding q(1) fst_conv .
  let ?q = "quoted_reply quiet_seller n r" and ?k = "''deal_'' @ to_hex ''d''"
  obtain b where "jcs sample_crypto (JObj (omit [''signatures'', ''termsHash''] (unsigned_contract (bx_env quiet_driver) ?q))) = Inr b"
    using quiet_jcs by blast
  then obtain h where h: "termsHashOf sample_crypto (unsigned_contract (bx_env quiet_driver) ?q) = Inr h" "well_formed_ref h"
    using sha256Ref_well_formed[OF sample_crypto_ok(1), of b] by (simp add: termsHashOf_def)
  obtain c where c: "signed_contract quiet_driver ''b'' ?q = Inr (c, h)"
    using h(1) by (simp add: signed_contract_Inr quiet_driver_sel quoted_reply_members nullish_def)
  obtain sig where sig: "agreement_signature quiet_driver ''b'' ?q ?k h = Inr sig"
    using quiet_agreement[OF h(2), of ?k] honest_agreement[of quiet_seller "''b''" n r ?k h]
    by (auto simp: agreement_signature_def quiet_driver_sel q(5) simp del: TYPE_STRINGS.simps)
  have u: "no_space (locator_base (sx_publicUrl quiet_seller))" unfolding quiet_seller_def seller_config.select_convs by code_simp
  have v: "sx_verifierHash quiet_seller = verifierBundleHash (sx_crypto quiet_seller) (bx_bundle quiet_driver)"
    by (simp add: quiet_driver_sel) (simp add: quiet_seller_def)
  have f: "map_get (deals s1) ?k = None" "?k \<notin> pd_dealId ` {}" by (simp_all add: q(3))
  have "check_quote quiet_driver ?q = Inr () \<and>
    (\<exists>s2 d s3 a. propose quiet_seller 0 ''d'' ''neg_72'' c (addressOfPrivateKey (bx_crypto quiet_driver) ''b'') s1 = (s2, Inr d) \<and>
       accept quiet_seller 0 ?k sig None None s2 = (s3, Inr a) \<and> check_countersigned quiet_driver ''b'' ?q ?k h (JObj a) = Inr ())"
    by (rule honest_parties_agree[OF r1 _ _ q(2) _ u _ _ v f c sig]) (simp_all add: sample_crypto_ok q(4) quiet_driver_sel)
  with sig show ?thesis unfolding quiet_driver_sel by blast
qed

end
