(* ===== verification/Spec2Isabelle.thy ===== *)
theory Spec2Isabelle
  imports SellerProps DeliveryProps HomeProps CardProps BuyerProps
begin

text \<open>
  A verification library for the data-seller agent of the coordination extension, the TypeScript program
  under \<open>examples/data-seller-agent\<close>.  Paths below are relative to that directory.

  \<^bold>\<open>The program.\<close>  The agent sells synthetic person-level files made from the tract estimates of a public
  corpus.  A buyer sends a query in an A2A message; the seller validates it, evaluates it over its
  corpus, prices it and answers with statistics, a sample, a price and a terms document.  The buyer
  writes a contract whose acceptance criteria pin the digest of that document, signs it and proposes
  it.  The seller recomputes the quote, checks the contract against it and countersigns, under the
  formation signature of the extension and an EIP-712 Agreement signature.  After that the file is
  generated, stored, described by a canonical manifest and served under a capability token, and the
  buyer regenerates it from the published seed.  In live mode a Coordination Runtime stands between
  the two: the seller first binds its key to its DID in an identity service, countersigns and
  co-signs the funding through the Runtime, delivers when the Runtime notifies it that the escrow is
  funded, and closes its downloads when the Runtime reports a refund.

  \<^bold>\<open>The theories and the code.\<close>
  \<^item> JavaScript itself: \<open>Prelude\<close> (results of code that throws, \<open>Set\<close>, insertion-ordered \<open>Map\<close>, stable sort,
    strings), \<open>JsNum\<close> (binary64 arithmetic over the rationals), \<open>JsVal\<close> (values, objects, \<open>JSON.stringify\<close>),
    \<open>JsConv\<close> (\<open>Number\<close>, \<open>String\<close>, \<open>toFixed\<close>), \<open>JsonText\<close> (\<open>JSON.parse\<close>), \<open>Encoding\<close> (base64, URI components),
    \<open>Http\<close> (requests, responses and network operations), \<open>Crypto\<close> (the digests, the curve and the
    canonicalizer as parameters), \<open>Machine\<close> (transition systems, plain and labelled, and refinement).
  \<^item> \<open>Hash\<close>: \<open>src/engine/hash.ts\<close>.  \<open>PlacesCsv\<close>, \<open>PlacesQuery\<close>, \<open>PlacesPrice\<close>, \<open>PlacesStats\<close>: \<open>src/engine/places.ts\<close>
    (the loader and its tables; \<open>validateQuery\<close> and \<open>evaluateQuery\<close>; \<open>priceQuery\<close>; aggregates, sample,
    commitments and the card check).  \<open>Synth\<close>: \<open>src/engine/synth.ts\<close>.  \<open>Store\<close>: \<open>src/engine/store.ts\<close>.
    \<open>Deliver\<close>: \<open>src/engine/deliver.ts\<close> and \<open>src/verifier.ts\<close>.  \<open>Product\<close>: \<open>src/product.ts\<close>.
  \<^item> \<open>Signing\<close>: \<open>src/signing.ts\<close>.  \<open>Terms\<close>: \<open>src/terms.ts\<close>.  \<open>Settlement\<close>: \<open>src/settlement.ts\<close>.  \<open>Extension\<close>:
    \<open>src/extension.ts\<close>.
  \<^item> \<open>Seller\<close>: \<open>src/seller.ts\<close>, the class \<open>DataSeller\<close>: its state is the record \<open>seller\<close> (negotiations, quotes,
    deals, artifacts, the history counter), its constructor's inputs the record \<open>seller_config\<close>, and
    every method a function from the state to the state after it and a result.
  \<^item> \<open>Binding\<close>: \<open>src/binding.ts\<close>.  \<open>Coordination\<close>: \<open>src/coordination.ts\<close>.  \<open>Live\<close>: \<open>src/live.ts\<close>, the class
    \<open>LiveCoordinator\<close>: its state is the record \<open>live\<close>, the seller's state with the maps of the class and
    the status of the binding; an operation is a function of \<open>fetch\<close> and the state to the exchanges
    made, the state after it and a result.
  \<^item> \<open>Executor\<close>: \<open>src/executor.ts\<close>.  \<open>CardParams\<close>: \<open>src/card-params.json\<close>, which the seller reads and
    the card publishes.  \<open>Card\<close>: \<open>src/card.ts\<close>.  \<open>Home\<close>: \<open>src/home.ts\<close>.
    \<open>Server\<close>: \<open>src/server.ts\<close>.  \<open>Buyer\<close>: \<open>scripts/buyer.ts\<close>, a chain of network operations.

  A function of the source has the name it has there, a name that clashes with one of HOL or of
  another file has a suffix or a prefix.  Thrown errors and refusals are constructors of one error
  type per file, every early return is a branch, and the text of a message is a function of the
  constructor where the program shows it.

  \<^bold>\<open>Interfaces.\<close>  \<open>artifact_store\<close> is what delivery asks of a storage, and both stores of \<open>store.ts\<close> interpret it.
  \<open>tagged_preimages\<close> is what keeps two families of signed texts apart, and the four message families,
  the transition proofs and the delivery requests interpret it.  \<open>machine\<close> and \<open>refinement\<close> are
  transition systems with an invariant and a simulation; they are interpreted by the seller against
  the abstract lifecycle of a deal (\<open>SellerLife\<close>), by live mode against the seller (\<open>LiveProps\<close>) and by the whole service against the
  seller (\<open>ServerProps\<close>).  \<open>labelled_refinement\<close> is trace inclusion; the binding loop interprets it: what is
  seen on the wire of its passes is a run of the owner's machine (\<open>Binding\<close>).

  \<^bold>\<open>What the lemmas show.\<close>
  \<^item> The seller (\<open>SellerInv\<close>, \<open>SellerLife\<close>, \<open>SellerRun\<close>, \<open>SellerProps\<close>): an invariant that every operation keeps in
    any interleaving, with a delivery suspended while its file is put; every operation is, for every
    deal, a step of the lifecycle proposed, accepted, delivered, revoked; a file that is served is the
    agreed one and verifies; the stores stay linked and bounded; what was quoted is countersigned.
  \<^item> Live mode (\<open>LiveProps\<close>) and the binding: nothing is signed while the binding is not active, and nothing but the
    unsigned status question is sent; an Activation is signed only when every checked member is the agreed one; a refund closes the downloads; the
    delivery task ends; the gate is the directory's last answer; at most one registration is accepted.
  \<^item> The service (\<open>ExecutorProps\<close>, \<open>ServerProps\<close>, \<open>DeliveryProps\<close>, \<open>HomeProps\<close>, \<open>CardProps\<close>): whatever peers send, the service
    takes only steps of the seller; only requests that opted in and are served in the mode act; the
    capability URLs go only to the buyer; a refused download reveals nothing; a notification is
    acknowledged only once it was verified; making the buyers' page closes refunded deals; terms
    documents are content-addressed; no text of a counterparty becomes markup; under any
    disclosure that passes the start-up check, what the card publishes is what is charged.
  \<^item> The buyer (\<open>BuyerRun\<close>, \<open>BuyerProps\<close>): the driver signs only a quote it has checked, a purchase that ends well
    is countersigned twice and its file is the regenerated one; and an honest seller and the driver
    agree: the quote passes, its contract is countersigned, the countersignatures pass.
  \<^item> The engine and the signed texts: what is matched, priced, sampled, committed to and generated; the
    canonical forms are injective up to the order of members; a hash or a signature fixes what it
    covers.  No theorem assumes a digest to be injective: it concludes that two texts are equal or
    are an explicit collision.

  \<^bold>\<open>Hypotheses on parameters.\<close>  \<open>digests_ok\<close> (a digest has 32 bytes), \<open>curve_ok\<close> (a key is 65 bytes, a signature 64
  with a recovery bit and it recovers to its key) and \<open>canonicalize_ok\<close> (RFC 8785 texts of plain values
  determine them up to the order of members) are documented behaviour of the packages; \<open>sample_crypto\<close>
  and \<open>encoder_crypto\<close> satisfy them and the witnesses use them.  The random identifiers of a
  request are fresh where a theorem says so (\<open>fresh_ids\<close>).

  \<^bold>\<open>Bounds and fuel.\<close>  The JSON reader has fuel twice the length of the text and two more; more fuel is proved to
  change no result, and every printed text to be read back.  The shortest decimal of a double is looked for among at most 17
  digits, which always suffice for binary64.  The delivery task and the outcome watcher are partial
  functions over the turns of their loops (no value is a loop that never returns); the task is proved
  to return once a turn lies past its deadline.  The endless \<open>maintain\<close> is a run over any list of passes.
  A price is exact for cards of whole numbers within \<open>2 ^ 50\<close>.

  \<^bold>\<open>Not modelled.\<close>
  \<^item> Text: \<open>toLowerCase\<close>, trimming and white space beyond ASCII; the difference between UTF-16 and byte order
    outside the basic plane; the replacement of invalid UTF-8 by \<open>Buffer.toString\<close>; the texts of the
    engine's own TypeError and SyntaxError, and the texts of caught errors in histories and refusals
    (the parameters \<open>tx\<close> and \<open>ec_text\<close>).
  \<^item> Numbers: the engine's own figures never overflow, so \<open>fl\<close> has no infinities; a bigint among the members of
    a struct (no caller passes one).
  \<^item> Conversions: \<open>String\<close> of an object whose \<open>toString\<close> is not callable, a TypeError, answers its default text
    here; \<open>calibrate\<close> passes over an undefined value, which would make its mean \<open>NaN\<close> (only a column that is
    not sold has one).
  \<^item> Time and interleaving: an operation reads one clock instant, and a live operation runs atomically across its
    awaits, so that the status of the binding does not change in the middle of one; a deal id that is registered anew while its own delivery is suspended.
  \<^item> Values of the wrong type that the code would carry on with: a contract or a card that is not an object is
    one without members, a live \<open>buyerAddress\<close> that is not a string is its \<open>String\<close>, and a delivered
    manifest with members of other types ends the buyer's run in \<open>ManifestIllShaped\<close>.
  \<^item> Outside: disk failures, the identity of array objects once their record was pruned, the DER encoder (a
    parameter), Express, the A2A SDK with its event bus, the splitting of the corpus file into lines,
    gunzip, console output.
  \<^item> Left out altogether: the test suites, the Python example agents (a second implementation of the same
    roles), and the specification with its schemas and vectors, which the program does not read.
\<close>

end
